(* ===== verification/Prelude.thy ===== *)
theory Prelude
  imports Complex_Main "HOL-Library.Word"
begin

text \<open>
  Shared vocabulary of the development: Go's strings as byte lists with the operations of
  package \<^verbatim>\<open>strings\<close> the sources use, 64-bit signed integers with the wrap-around written
  out, decimal printing, and the generic list facts (the last \<open>n\<close> elements of a list, drop-oldest
  buffers) that several components share.
\<close>

named_theorems go_str \<open>definitions that evaluate Go string operations\<close>
named_theorems buf_simps \<open>facts on bounded drop-oldest buffers\<close>

section \<open>Integers\<close>

text \<open>
  Go's \<^verbatim>\<open>int\<close>, \<^verbatim>\<open>int64\<close> and \<^verbatim>\<open>time.Duration\<close> are 64-bit two's complement. The model keeps
  their values as \<open>int\<close> and writes the wrap-around at every addition and multiplication that
  the code performs on them.
\<close>

definition wrap64 :: "int \<Rightarrow> int" where
  "wrap64 x = (x + 2 ^ 63) mod 2 ^ 64 - 2 ^ 63"

definition int64_range :: "int \<Rightarrow> bool" where
  "int64_range x \<longleftrightarrow> - (2 ^ 63) \<le> x \<and> x < 2 ^ 63"

lemma wrap64_id [simp]: "int64_range x \<Longrightarrow> wrap64 x = x"
  by (simp add: wrap64_def int64_range_def)

lemma wrap64_range [simp]: "int64_range (wrap64 x)"
proof -
  have "0 \<le> (x + 2 ^ 63) mod 2 ^ 64" "(x + 2 ^ 63) mod 2 ^ 64 < (2::int) ^ 64"
    by simp_all
  then show ?thesis by (simp add: wrap64_def int64_range_def)
qed

lemma wrap64_plus [simp]: "wrap64 (wrap64 x + y) = wrap64 (x + y)"
proof -
  have "(((x + 2 ^ 63) mod 2 ^ 64 - 2 ^ 63) + y + 2 ^ 63) mod 2 ^ 64
      = ((x + 2 ^ 63) mod 2 ^ 64 + y) mod (2::int) ^ 64"
    by (simp add: algebra_simps)
  also have "\<dots> = (x + 2 ^ 63 + y) mod 2 ^ 64"
    by (rule mod_add_left_eq)
  also have "\<dots> = (x + y + 2 ^ 63) mod 2 ^ 64"
    by (simp add: algebra_simps)
  finally show ?thesis by (simp add: wrap64_def)
qed

type_synonym float64 = rat
type_synonym nanos = int

section \<open>Strings\<close>

text \<open>
  A Go string is a sequence of bytes: \<open>char\<close> is a byte, \<open>length\<close> is Go's \<^verbatim>\<open>len\<close>.
\<close>

definition has_prefix :: "string \<Rightarrow> string \<Rightarrow> bool" where
  [go_str]: "has_prefix s p \<longleftrightarrow> take (length p) s = p"

definition has_suffix :: "string \<Rightarrow> string \<Rightarrow> bool" where
  [go_str]: "has_suffix s p \<longleftrightarrow> length p \<le> length s \<and> drop (length s - length p) s = p"

definition trim_prefix :: "string \<Rightarrow> string \<Rightarrow> string" where
  [go_str]: "trim_prefix s p = (if has_prefix s p then drop (length p) s else s)"

definition trim_suffix :: "string \<Rightarrow> string \<Rightarrow> string" where
  [go_str]: "trim_suffix s p = (if has_suffix s p then take (length s - length p) s else s)"

fun index_of :: "string \<Rightarrow> string \<Rightarrow> nat option" where
  "index_of [] p = (if p = [] then Some 0 else None)"
| "index_of (c # cs) p =
     (if has_prefix (c # cs) p then Some 0 else map_option Suc (index_of cs p))"

definition contains :: "string \<Rightarrow> string \<Rightarrow> bool" where
  [go_str]: "contains s p \<longleftrightarrow> index_of s p \<noteq> None"

definition contains_any :: "string \<Rightarrow> string \<Rightarrow> bool" where
  [go_str]: "contains_any s cs \<longleftrightarrow> list_ex (\<lambda>c. c \<in> set cs) s"

text \<open>\<^verbatim>\<open>strings.Cut\<close>: before, after, found.\<close>

definition cut :: "string \<Rightarrow> string \<Rightarrow> string \<times> string \<times> bool" where
  [go_str]: "cut s sep =
     (case index_of s sep of
        None \<Rightarrow> (s, [], False)
      | Some i \<Rightarrow> (take i s, drop (i + length sep) s, True))"

text \<open>\<^verbatim>\<open>strings.Split\<close> with a one-byte separator; splitting the empty string gives one field.\<close>

fun split_on :: "char \<Rightarrow> string \<Rightarrow> string list" where
  "split_on c [] = [[]]"
| "split_on c (x # xs) =
     (if x = c then [] # split_on c xs
      else (case split_on c xs of [] \<Rightarrow> [[x]] | f # fs \<Rightarrow> (x # f) # fs))"

fun join :: "string \<Rightarrow> string list \<Rightarrow> string" where
  "join sep [] = []"
| "join sep [x] = x"
| "join sep (x # y # ys) = x @ sep @ join sep (y # ys)"

text \<open>\<^verbatim>\<open>bytes.IndexByte\<close>.\<close>

fun index_byte :: "char \<Rightarrow> string \<Rightarrow> nat option" where
  "index_byte c [] = None"
| "index_byte c (x # xs) = (if x = c then Some 0 else map_option Suc (index_byte c xs))"

lemma index_byte_less: "index_byte c s = Some i \<Longrightarrow> i < length s"
  by (induction s arbitrary: i) (auto split: if_splits)

lemma index_byte_append: "c \<notin> set xs \<Longrightarrow> index_byte c (xs @ c # ys) = Some (length xs)"
  by (induction xs) auto

lemma index_byte_None: "c \<notin> set xs \<Longrightarrow> index_byte c xs = None"
  by (induction xs) auto

fun replace_char :: "char \<Rightarrow> string \<Rightarrow> string \<Rightarrow> string" where
  "replace_char c r [] = []"
| "replace_char c r (x # xs) = (if x = c then r else [x]) @ replace_char c r xs"

subsection \<open>White space\<close>

text \<open>
  \<^verbatim>\<open>strings.TrimSpace\<close> trims Unicode white space: the ASCII blanks and the UTF-8 encodings of
  the other runes with property White\_Space.
\<close>

definition space_seqs :: "string list" where
  [go_str]: "space_seqs =
     [[CHR 0x20], [CHR 0x09], [CHR 0x0A], [CHR 0x0B], [CHR 0x0C], [CHR 0x0D],
      [CHR 0xC2, CHR 0x85], [CHR 0xC2, CHR 0xA0],
      [CHR 0xE1, CHR 0x9A, CHR 0x80],
      [CHR 0xE2, CHR 0x80, CHR 0x80], [CHR 0xE2, CHR 0x80, CHR 0x81],
      [CHR 0xE2, CHR 0x80, CHR 0x82], [CHR 0xE2, CHR 0x80, CHR 0x83],
      [CHR 0xE2, CHR 0x80, CHR 0x84], [CHR 0xE2, CHR 0x80, CHR 0x85],
      [CHR 0xE2, CHR 0x80, CHR 0x86], [CHR 0xE2, CHR 0x80, CHR 0x87],
      [CHR 0xE2, CHR 0x80, CHR 0x88], [CHR 0xE2, CHR 0x80, CHR 0x89],
      [CHR 0xE2, CHR 0x80, CHR 0x8A], [CHR 0xE2, CHR 0x80, CHR 0xA8],
      [CHR 0xE2, CHR 0x80, CHR 0xA9], [CHR 0xE2, CHR 0x80, CHR 0xAF],
      [CHR 0xE2, CHR 0x81, CHR 0x9F], [CHR 0xE3, CHR 0x80, CHR 0x80]]"

definition space_prefix :: "string list \<Rightarrow> string \<Rightarrow> nat" where
  [go_str]: "space_prefix seqs s =
     (case filter (has_prefix s) seqs of [] \<Rightarrow> 0 | p # _ \<Rightarrow> length p)"

lemma space_prefix_le: "space_prefix seqs s \<le> length s"
proof (cases "filter (has_prefix s) seqs")
  case Nil
  then show ?thesis by (simp add: space_prefix_def)
next
  case (Cons p ps)
  then have "p \<in> set (filter (has_prefix s) seqs)" by simp
  then have "take (length p) s = p" by (simp add: has_prefix_def)
  then have "length p \<le> length s" by (metis length_take min.cobounded1)
  with Cons show ?thesis by (simp add: space_prefix_def)
qed

function trim_seqs :: "string list \<Rightarrow> string \<Rightarrow> string" where
  "trim_seqs seqs s =
     (if space_prefix seqs s = 0 then s else trim_seqs seqs (drop (space_prefix seqs s) s))"
  by pat_completeness auto
termination
proof (relation "measure (\<lambda>(_, s). length s)")
  fix seqs and s :: string
  assume "space_prefix seqs s \<noteq> 0"
  moreover have "space_prefix seqs s \<le> length s" by (rule space_prefix_le)
  ultimately show "((seqs, drop (space_prefix seqs s) s), (seqs, s))
      \<in> measure (\<lambda>(_, s). length s)" by simp
qed simp

declare trim_seqs.simps [simp del]

definition trim_left_space :: "string \<Rightarrow> string" where
  "trim_left_space s = trim_seqs space_seqs s"

definition trim_right_space :: "string \<Rightarrow> string" where
  "trim_right_space s = rev (trim_seqs (map rev space_seqs) (rev s))"

definition trim_space :: "string \<Rightarrow> string" where
  "trim_space s = trim_right_space (trim_left_space s)"

lemma length_trim_seqs: "length (trim_seqs seqs s) \<le> length s"
proof (induction seqs s rule: trim_seqs.induct)
  case (1 seqs s)
  show ?case
  proof (cases "space_prefix seqs s = 0")
    case True
    then show ?thesis by (simp add: trim_seqs.simps [of seqs s])
  next
    case False
    with "1.IH" show ?thesis by (simp add: trim_seqs.simps [of seqs s])
  qed
qed

lemma trim_seqs_Nil [simp]: "trim_seqs seqs [] = []"
  using length_trim_seqs [of seqs "[]"] by simp

lemma trim_space_Nil [simp]: "trim_space [] = []"
  by (simp add: trim_space_def trim_left_space_def trim_right_space_def)

subsection \<open>Letter case\<close>

text \<open>
  \<^verbatim>\<open>strings.ToLower\<close> and \<^verbatim>\<open>strings.ToUpper\<close> map runes. The sources use the lowered string only to search
  it for ASCII patterns, so what matters is which runes map to an ASCII letter: the ASCII
  capitals, U+0130 (which Go lowers to \<open>i\<close>) and U+212A (the Kelvin sign, to \<open>k\<close>). Other
  non-ASCII runes are left as they are: their lower case is never ASCII.
\<close>

definition ascii_upper :: "char \<Rightarrow> bool" where
  [go_str]: "ascii_upper c \<longleftrightarrow> 65 \<le> (of_char c :: nat) \<and> (of_char c :: nat) \<le> 90"

definition ascii_lower :: "char \<Rightarrow> bool" where
  [go_str]: "ascii_lower c \<longleftrightarrow> 97 \<le> (of_char c :: nat) \<and> (of_char c :: nat) \<le> 122"

definition is_digit :: "char \<Rightarrow> bool" where
  [go_str]: "is_digit c \<longleftrightarrow> 48 \<le> (of_char c :: nat) \<and> (of_char c :: nat) \<le> 57"

definition lower_char :: "char \<Rightarrow> char" where
  [go_str]: "lower_char c = (if ascii_upper c then char_of ((of_char c :: nat) + 32) else c)"

definition upper_char :: "char \<Rightarrow> char" where
  [go_str]: "upper_char c = (if ascii_lower c then char_of ((of_char c :: nat) - 32) else c)"

fun to_lower :: "string \<Rightarrow> string" where
  "to_lower [] = []"
| "to_lower [c] = [lower_char c]"
| "to_lower [c, d] =
     (if c = CHR 0xC4 \<and> d = CHR 0xB0 then [CHR ''i''] else [lower_char c, lower_char d])"
| "to_lower (c # d # e # cs) =
     (if c = CHR 0xC4 \<and> d = CHR 0xB0 then CHR ''i'' # to_lower (e # cs)
      else if c = CHR 0xE2 \<and> d = CHR 0x84 \<and> e = CHR 0xAA then CHR ''k'' # to_lower cs
      else lower_char c # to_lower (d # e # cs))"

subsection \<open>Decimal numbers\<close>

definition digit_char :: "nat \<Rightarrow> char" where
  [go_str]: "digit_char d = char_of (48 + d)"

definition digit_val :: "char \<Rightarrow> nat" where
  [go_str]: "digit_val c = (of_char c :: nat) - 48"

fun show_nat :: "nat \<Rightarrow> string" where
  "show_nat n = (if n < 10 then [digit_char n] else show_nat (n div 10) @ [digit_char (n mod 10)])"

declare show_nat.simps [simp del]

definition show_int :: "int \<Rightarrow> string" where
  "show_int i = (if i < 0 then CHR ''-'' # show_nat (nat (- i)) else show_nat (nat i))"

definition all_digits :: "string \<Rightarrow> bool" where
  [go_str]: "all_digits s \<longleftrightarrow> s \<noteq> [] \<and> list_all is_digit s"

fun read_nat :: "nat \<Rightarrow> string \<Rightarrow> nat" where
  "read_nat a [] = a"
| "read_nat a (c # cs) = read_nat (10 * a + digit_val c) cs"

section \<open>Lists\<close>

text \<open>The last \<open>n\<close> elements: what a drop-oldest buffer of capacity \<open>n\<close> keeps.\<close>

definition last_n :: "nat \<Rightarrow> 'a list \<Rightarrow> 'a list" where
  "last_n n xs = drop (length xs - n) xs"

lemma length_last_n [simp]: "length (last_n n xs) = min n (length xs)"
  by (auto simp: last_n_def)

lemma last_n_short [simp]: "length xs \<le> n \<Longrightarrow> last_n n xs = xs"
  by (simp add: last_n_def)

lemma last_n_append: "last_n n (xs @ ys) = last_n n (last_n n xs @ ys)"
proof (cases "length xs \<le> n")
  case True
  then show ?thesis by simp
next
  case False
  then show ?thesis
    by (cases "length ys \<le> n") (auto simp: last_n_def add.commute)
qed

lemma last_n_snoc:
  "last_n n (last_n n xs @ [x]) = last_n n (xs @ [x])"
  by (simp add: last_n_append [of n xs])

lemma last_n_suffix: "\<exists>ys. xs = ys @ last_n n xs"
  unfolding last_n_def by (metis append_take_drop_id)

lemma set_last_n: "set (last_n n xs) \<subseteq> set xs"
  unfolding last_n_def by (rule set_drop_subset)

lemma last_n_all_eq: "length xs = n \<Longrightarrow> last_n n (xs @ [x]) = tl (xs @ [x])" if "0 < n"
  using that by (cases xs) (auto simp: last_n_def)

lemma join_Nil_sep: "join [] xs = concat xs"
proof (induction xs)
  case Nil
  then show ?case by simp
next
  case (Cons x xs)
  then show ?case by (cases xs) auto
qed

lemma split_on_not_Nil [simp]: "split_on c s \<noteq> []"
  by (cases s) (auto split: list.splits)

lemma join_split_on: "join [c] (split_on c s) = s"
proof (induction s)
  case Nil
  then show ?case by simp
next
  case (Cons x xs)
  obtain f fs where sp: "split_on c xs = f # fs"
    using split_on_not_Nil [of c xs] by (cases "split_on c xs") auto
  show ?case
    by (use Cons sp in \<open>cases fs; auto\<close>)
qed

section \<open>Maps\<close>

text \<open>Go maps are association lists with distinct keys; assignment replaces in place.\<close>

fun map_put :: "'k \<Rightarrow> 'v \<Rightarrow> ('k \<times> 'v) list \<Rightarrow> ('k \<times> 'v) list" where
  "map_put k v [] = [(k, v)]"
| "map_put k v ((k', v') # m) = (if k = k' then (k, v) # m else (k', v') # map_put k v m)"

fun map_del :: "'k \<Rightarrow> ('k \<times> 'v) list \<Rightarrow> ('k \<times> 'v) list" where
  "map_del k [] = []"
| "map_del k ((k', v') # m) = (if k = k' then map_del k m else (k', v') # map_del k m)"

lemma map_of_put [simp]: "map_of (map_put k v m) = (map_of m)(k \<mapsto> v)"
  by (induction k v m rule: map_put.induct) auto

lemma map_of_del [simp]: "map_of (map_del k m) = (map_of m)(k := None)"
  by (induction k m rule: map_del.induct) auto

lemma keys_map_put: "fst ` set (map_put k v m) = insert k (fst ` set m)"
  by (induction k v m rule: map_put.induct) auto

lemma distinct_map_put: "distinct (map fst m) \<Longrightarrow> distinct (map fst (map_put k v m))"
proof (induction k v m rule: map_put.induct)
  case (2 k v k' v' m)
  have "set (map fst (map_put k v m)) = insert k (set (map fst m))"
    by (simp add: keys_map_put)
  with 2 show ?case by (simp del: set_map)
qed simp

lemma set_map_del: "set (map_del k m) \<subseteq> set m"
  by (induction k m rule: map_del.induct) auto

lemma distinct_map_del: "distinct (map fst m) \<Longrightarrow> distinct (map fst (map_del k m))"
  by (induction k m rule: map_del.induct) (use set_map_del in fastforce)+


end
