(* ===== verification/Json.thy ===== *)
theory Json
  imports Prelude
begin

text \<open>
  Go's \<^verbatim>\<open>encoding/json\<close> as far as the sources use it: the grammar of JSON texts, a parse tree
  that keeps each value's source bytes (what a \<^verbatim>\<open>json.RawMessage\<close> holds), struct decoding with
  case-folded keys, the last occurrence of a key winning and type mismatches reported without
  stopping, and the encoding of strings. A document is parsed with fuel; \<open>parse_value_fuel\<close>
  shows that \<open>2 * length s + 1\<close> is enough.
\<close>

section \<open>Documents\<close>

text \<open>
  \<open>JNum\<close> holds the literal; \<open>JStr\<close>, \<open>JArr\<close> and \<open>JObj\<close> hold the source bytes first. An object
  keeps its members in order, duplicates included, with decoded keys.
\<close>

datatype json =
    JNull
  | JBool bool
  | JNum string
  | JStr string string
  | JArr string "json list"
  | JObj string "(string \<times> json) list"

text \<open>A \<^verbatim>\<open>json.RawMessage\<close> field: \<open>None\<close> is the empty message (key absent).\<close>

type_synonym raw_msg = "json option"

fun jraw :: "json \<Rightarrow> string" where
  "jraw JNull = ''null''"
| "jraw (JBool b) = (if b then ''true'' else ''false'')"
| "jraw (JNum l) = l"
| "jraw (JStr r _) = r"
| "jraw (JArr r _) = r"
| "jraw (JObj r _) = r"

definition raw_bytes :: "raw_msg \<Rightarrow> string" where
  "raw_bytes m = (case m of None \<Rightarrow> [] | Some j \<Rightarrow> jraw j)"

section \<open>UTF-8\<close>

definition byte_in :: "nat \<Rightarrow> nat \<Rightarrow> char \<Rightarrow> bool" where
  "byte_in lo hi c \<longleftrightarrow> lo \<le> of_char c \<and> of_char c \<le> hi"

definition byte_at :: "nat \<Rightarrow> nat \<Rightarrow> nat \<Rightarrow> string \<Rightarrow> bool" where
  "byte_at i lo hi s \<longleftrightarrow> i < length s \<and> byte_in lo hi (s ! i)"

text \<open>\<^verbatim>\<open>utf8.DecodeRune\<close>: the width of the rune at the head, 0 for an invalid byte.\<close>

definition utf8_width :: "string \<Rightarrow> nat" where
  "utf8_width s =
     (if byte_at 0 0 127 s then 1
      else if byte_at 0 194 223 s \<and> byte_at 1 128 191 s then 2
      else if byte_at 0 224 224 s \<and> byte_at 1 160 191 s \<and> byte_at 2 128 191 s then 3
      else if (byte_at 0 225 236 s \<or> byte_at 0 238 239 s) \<and> byte_at 1 128 191 s
              \<and> byte_at 2 128 191 s then 3
      else if byte_at 0 237 237 s \<and> byte_at 1 128 159 s \<and> byte_at 2 128 191 s then 3
      else if byte_at 0 240 240 s \<and> byte_at 1 144 191 s \<and> byte_at 2 128 191 s
              \<and> byte_at 3 128 191 s then 4
      else if byte_at 0 241 243 s \<and> byte_at 1 128 191 s \<and> byte_at 2 128 191 s
              \<and> byte_at 3 128 191 s then 4
      else if byte_at 0 244 244 s \<and> byte_at 1 128 143 s \<and> byte_at 2 128 191 s
              \<and> byte_at 3 128 191 s then 4
      else 0)"

definition replacement :: string where
  "replacement = [CHR 0xEF, CHR 0xBF, CHR 0xBD]"

definition utf8_encode :: "nat \<Rightarrow> string" where
  "utf8_encode u =
     (if u < 128 then [char_of u]
      else if u < 2048 then [char_of (192 + u div 64), char_of (128 + u mod 64)]
      else if u < 65536 then
        [char_of (224 + u div 4096), char_of (128 + u div 64 mod 64), char_of (128 + u mod 64)]
      else [char_of (240 + u div 262144), char_of (128 + u div 4096 mod 64),
            char_of (128 + u div 64 mod 64), char_of (128 + u mod 64)])"

section \<open>Scanning\<close>

definition is_ws :: "char \<Rightarrow> bool" where
  "is_ws c \<longleftrightarrow> c = CHR 0x20 \<or> c = CHR 0x09 \<or> c = CHR 0x0A \<or> c = CHR 0x0D"

fun skip_ws :: "string \<Rightarrow> string" where
  "skip_ws [] = []"
| "skip_ws (c # cs) = (if is_ws c then skip_ws cs else c # cs)"

definition hex_val :: "char \<Rightarrow> nat option" where
  "hex_val c =
     (let n = of_char c in
      if 48 \<le> n \<and> n \<le> 57 then Some (n - 48)
      else if 65 \<le> n \<and> n \<le> 70 then Some (n - 55)
      else if 97 \<le> n \<and> n \<le> 102 then Some (n - 87)
      else None)"

fun hex4 :: "string \<Rightarrow> nat option" where
  "hex4 (a # b # c # d # _) =
     (case (hex_val a, hex_val b, hex_val c, hex_val d) of
        (Some w, Some x, Some y, Some z) \<Rightarrow> Some (((w * 16 + x) * 16 + y) * 16 + z)
      | _ \<Rightarrow> None)"
| "hex4 _ = None"

definition escape_char :: "char \<Rightarrow> char option" where
  "escape_char e =
     (if e = CHR 0x22 \<or> e = CHR 0x5C \<or> e = CHR ''/'' then Some e
      else if e = CHR ''b'' then Some (CHR 0x08)
      else if e = CHR ''f'' then Some (CHR 0x0C)
      else if e = CHR ''n'' then Some (CHR 0x0A)
      else if e = CHR ''r'' then Some (CHR 0x0D)
      else if e = CHR ''t'' then Some (CHR 0x09)
      else None)"

text \<open>The scanner's view of a string after its opening quote: contents and rest.\<close>

fun scan_str :: "string \<Rightarrow> (string \<times> string) option" where
  "scan_str [] = None"
| "scan_str [c] = (if c = CHR 0x22 then Some ([], []) else None)"
| "scan_str (c # d # cs) =
     (if c = CHR 0x22 then Some ([], d # cs)
      else if (of_char c :: nat) < 32 then None
      else if c = CHR 0x5C then
        (if (if d = CHR ''u'' then hex4 cs \<noteq> None else escape_char d \<noteq> None)
         then map_option (\<lambda>(t, r). (c # d # t, r)) (scan_str cs) else None)
      else map_option (\<lambda>(t, r). (c # t, r)) (scan_str (d # cs)))"

text \<open>\<^verbatim>\<open>unquote\<close>: escapes, surrogate pairs, invalid UTF-8 replaced by U+FFFD.\<close>

definition is_surrogate :: "nat \<Rightarrow> bool" where
  "is_surrogate u \<longleftrightarrow> 55296 \<le> u \<and> u < 57344"

definition low_surrogate :: "string \<Rightarrow> nat option" where
  "low_surrogate s =
     (if take 2 s = [CHR 0x5C, CHR ''u''] then
        (case hex4 (drop 2 s) of
           Some v \<Rightarrow> if 56320 \<le> v \<and> v < 57344 then Some v else None
         | None \<Rightarrow> None)
      else None)"

fun unquote :: "string \<Rightarrow> string" where
  "unquote [] = []"
| "unquote (c # cs) =
     (if c = CHR 0x5C then
        (case cs of
           [] \<Rightarrow> []
         | e # es \<Rightarrow>
             (if e = CHR ''u'' then
                (case hex4 es of
                   None \<Rightarrow> []
                 | Some u \<Rightarrow>
                     (if is_surrogate u then
                        (case (u < 56320, low_surrogate (drop 4 es)) of
                           (True, Some v) \<Rightarrow>
                             utf8_encode ((u - 55296) * 1024 + (v - 56320) + 65536)
                               @ unquote (drop 10 es)
                         | _ \<Rightarrow> replacement @ unquote (drop 4 es))
                      else utf8_encode u @ unquote (drop 4 es)))
              else (case escape_char e of None \<Rightarrow> [] | Some d \<Rightarrow> d # unquote es)))
      else
        (let w = utf8_width (c # cs) in
         (if w = 0 then replacement else take w (c # cs)) @ unquote (drop (w - 1) cs)))"

fun scan_digits :: "string \<Rightarrow> string \<times> string" where
  "scan_digits [] = ([], [])"
| "scan_digits (c # cs) =
     (if is_digit c then (let (d, r) = scan_digits cs in (c # d, r)) else ([], c # cs))"

text \<open>A number literal: sign, integer part without leading zeros, fraction, exponent.\<close>

record num_parts =
  np_neg :: bool
  np_int :: string
  np_frac :: string
  np_exp_neg :: bool
  np_exp :: string

definition scan_int_part :: "string \<Rightarrow> (string \<times> string) option" where
  "scan_int_part s =
     (case s of
        [] \<Rightarrow> None
      | c # cs \<Rightarrow> if c = CHR ''0'' then Some (''0'', cs)
                  else if is_digit c then Some (scan_digits s) else None)"

definition scan_frac :: "string \<Rightarrow> (string \<times> string) option" where
  "scan_frac s =
     (case s of
        [] \<Rightarrow> Some ([], [])
      | c # cs \<Rightarrow> if c = CHR ''.'' then
                    (case scan_digits cs of (d, r) \<Rightarrow> if d = [] then None else Some (d, r))
                  else Some ([], s))"

definition scan_exp :: "string \<Rightarrow> (bool \<times> string \<times> string) option" where
  "scan_exp s =
     (case s of
        [] \<Rightarrow> Some (False, [], [])
      | c # cs \<Rightarrow>
          if c = CHR ''e'' \<or> c = CHR ''E'' then
            (case (case cs of
                     [] \<Rightarrow> (False, [])
                   | x # xs \<Rightarrow> if x = CHR ''-'' then (True, xs)
                              else if x = CHR ''+'' then (False, xs) else (False, cs)) of
               (neg, t) \<Rightarrow>
                 (case scan_digits t of (d, r) \<Rightarrow> if d = [] then None else Some (neg, d, r)))
          else Some (False, [], s))"

definition scan_num :: "string \<Rightarrow> (num_parts \<times> string) option" where
  "scan_num s =
     (let neg = (s \<noteq> [] \<and> hd s = CHR ''-'');
          t = (if neg then tl s else s) in
      case scan_int_part t of
        None \<Rightarrow> None
      | Some (ip, t1) \<Rightarrow>
          (case scan_frac t1 of
             None \<Rightarrow> None
           | Some (fr, t2) \<Rightarrow>
               (case scan_exp t2 of
                  None \<Rightarrow> None
                | Some (en, ex, t3) \<Rightarrow>
                    Some (\<lparr>np_neg = neg, np_int = ip, np_frac = fr, np_exp_neg = en,
                           np_exp = ex\<rparr>, t3))))"

section \<open>Parsing\<close>

definition max_depth :: nat where
  "max_depth = 10000"

text \<open>The bytes a parse consumed.\<close>

definition consumed :: "string \<Rightarrow> string \<Rightarrow> string" where
  "consumed s r = take (length s - length r) s"

definition parse_lit :: "string \<Rightarrow> json \<Rightarrow> string \<Rightarrow> (json \<times> string) option" where
  "parse_lit w v s = (if has_prefix s w then Some (v, drop (length w) s) else None)"

definition parse_num :: "string \<Rightarrow> (json \<times> string) option" where
  "parse_num s = (case scan_num s of None \<Rightarrow> None | Some (_, r) \<Rightarrow> Some (JNum (consumed s r), r))"

definition parse_str :: "string \<Rightarrow> (string \<times> string) option" where
  "parse_str cs = (case scan_str cs of None \<Rightarrow> None | Some (t, r) \<Rightarrow> Some (unquote t, r))"

fun parse_value :: "nat \<Rightarrow> nat \<Rightarrow> string \<Rightarrow> (json \<times> string) option"
and parse_elems :: "nat \<Rightarrow> nat \<Rightarrow> string \<Rightarrow> (json list \<times> string) option"
and parse_members :: "nat \<Rightarrow> nat \<Rightarrow> string \<Rightarrow> ((string \<times> json) list \<times> string) option" where
  "parse_value 0 d s = None"
| "parse_value (Suc n) d s =
     (case skip_ws s of
        [] \<Rightarrow> None
      | c # cs \<Rightarrow>
          if c = CHR ''{'' then
            (if max_depth \<le> d then None
             else case skip_ws cs of
               [] \<Rightarrow> None
             | x # xs \<Rightarrow>
                 if x = CHR ''}'' then Some (JObj (consumed (c # cs) xs) [], xs)
                 else map_option (\<lambda>(ms, r). (JObj (consumed (c # cs) r) ms, r))
                        (parse_members n (Suc d) cs))
          else if c = CHR ''['' then
            (if max_depth \<le> d then None
             else case skip_ws cs of
               [] \<Rightarrow> None
             | x # xs \<Rightarrow>
                 if x = CHR '']'' then Some (JArr (consumed (c # cs) xs) [], xs)
                 else map_option (\<lambda>(vs, r). (JArr (consumed (c # cs) r) vs, r))
                        (parse_elems n (Suc d) cs))
          else if c = CHR 0x22 then
            map_option (\<lambda>(t, r). (JStr (consumed (c # cs) r) t, r)) (parse_str cs)
          else if c = CHR ''n'' then parse_lit ''null'' JNull (c # cs)
          else if c = CHR ''t'' then parse_lit ''true'' (JBool True) (c # cs)
          else if c = CHR ''f'' then parse_lit ''false'' (JBool False) (c # cs)
          else parse_num (c # cs))"
| "parse_elems 0 d s = None"
| "parse_elems (Suc n) d s =
     (case parse_value n d s of
        None \<Rightarrow> None
      | Some (v, r) \<Rightarrow>
          (case skip_ws r of
             [] \<Rightarrow> None
           | x # xs \<Rightarrow>
               if x = CHR '','' then map_option (\<lambda>(vs, r'). (v # vs, r')) (parse_elems n d xs)
               else if x = CHR '']'' then Some ([v], xs)
               else None))"
| "parse_members 0 d s = None"
| "parse_members (Suc n) d s =
     (case skip_ws s of
        [] \<Rightarrow> None
      | q # qs \<Rightarrow>
          if q \<noteq> CHR 0x22 then None
          else case parse_str qs of
            None \<Rightarrow> None
          | Some (k, r0) \<Rightarrow>
              (case skip_ws r0 of
                 [] \<Rightarrow> None
               | x # xs \<Rightarrow>
                   if x \<noteq> CHR '':'' then None
                   else case parse_value n d xs of
                     None \<Rightarrow> None
                   | Some (v, r) \<Rightarrow>
                       (case skip_ws r of
                          [] \<Rightarrow> None
                        | y # ys \<Rightarrow>
                            if y = CHR '','' then
                              map_option (\<lambda>(ms, r'). ((k, v) # ms, r')) (parse_members n d ys)
                            else if y = CHR ''}'' then Some ([(k, v)], ys)
                            else None)))"

definition parse_fuel :: "string \<Rightarrow> nat" where
  "parse_fuel s = 2 * length s + 1"

text \<open>A whole document: nothing but white space after the value.\<close>

definition parse_json :: "string \<Rightarrow> json option" where
  "parse_json s =
     (case parse_value (parse_fuel s) 0 s of
        None \<Rightarrow> None
      | Some (v, r) \<Rightarrow> if skip_ws r = [] then Some v else None)"

subsection \<open>Fuel\<close>

lemma length_skip_ws: "length (skip_ws s) \<le> length s"
  by (induction s) auto

lemma scan_str_length: "scan_str s = Some (t, r) \<Longrightarrow> length r < length s"
  by (induction s arbitrary: t r rule: scan_str.induct) (fastforce split: if_splits)+

lemma scan_digits_length: "length (snd (scan_digits s)) \<le> length s"
  by (induction s) (auto simp: Let_def split: prod.splits)

lemma scan_digits_rest: "scan_digits s = (d, r) \<Longrightarrow> length r \<le> length s"
  using scan_digits_length [of s] by simp

lemma parse_str_length: "parse_str s = Some (t, r) \<Longrightarrow> length r < length s"
  by (auto simp: parse_str_def split: option.splits dest: scan_str_length)

lemma scan_int_part_length: "scan_int_part s = Some (t, r) \<Longrightarrow> length r \<le> length s"
  by (auto simp: scan_int_part_def simp del: scan_digits.simps
      split: list.splits if_splits dest!: scan_digits_rest)

lemma scan_frac_length: "scan_frac s = Some (t, r) \<Longrightarrow> length r \<le> length s"
  by (auto simp: scan_frac_def simp del: scan_digits.simps
      split: list.splits if_splits prod.splits dest: scan_digits_rest)

lemma scan_exp_length: "scan_exp s = Some (e, t, r) \<Longrightarrow> length r \<le> length s"
  by (auto simp: scan_exp_def simp del: scan_digits.simps
      split: list.splits if_splits prod.splits dest!: scan_digits_rest)

lemma parse_num_length: "parse_num s = Some (v, r) \<Longrightarrow> length r \<le> length s"
  by (auto simp: parse_num_def scan_num_def Let_def split: option.splits prod.splits if_splits
      dest!: scan_int_part_length scan_frac_length scan_exp_length)

lemma parse_lit_length: "parse_lit w v s = Some (x, r) \<Longrightarrow> length r \<le> length s"
  by (auto simp: parse_lit_def split: if_splits)

lemma skip_ws_Cons_length: "skip_ws s = c # cs \<Longrightarrow> length cs < length s"
  using length_skip_ws [of s] by simp

lemmas parse_lengths = parse_num_length parse_lit_length parse_str_length skip_ws_Cons_length

lemma parse_rest_length:
  "parse_value n d s = Some (v, r) \<Longrightarrow> length r \<le> length s"
  "parse_elems n d s = Some (vs, r) \<Longrightarrow> length r \<le> length s"
  "parse_members n d s = Some (ms, r) \<Longrightarrow> length r \<le> length s"
proof (induction n d s and n d s and n d s arbitrary: v r and vs r and ms r
    rule: parse_value_parse_elems_parse_members.induct)
  case (2 n d s)
  then show ?case
    by (fastforce split: list.splits if_splits dest!: parse_lengths)
next
  case (4 n d s)
  then show ?case
    by (fastforce split: option.splits list.splits if_splits dest!: parse_lengths)
next
  case (6 n d s)
  then show ?case
    by (fastforce split: option.splits list.splits if_splits dest!: parse_lengths)
qed auto
lemma parse_fuel_irrelevant:
  "(\<forall>d s m. 2 * length s + 1 \<le> n \<longrightarrow> 2 * length s + 1 \<le> m \<longrightarrow>
      parse_value n d s = parse_value m d s) \<and>
   (\<forall>d s m. 2 * length s + 2 \<le> n \<longrightarrow> 2 * length s + 2 \<le> m \<longrightarrow>
      parse_elems n d s = parse_elems m d s) \<and>
   (\<forall>d s m. 2 * length s + 2 \<le> n \<longrightarrow> 2 * length s + 2 \<le> m \<longrightarrow>
      parse_members n d s = parse_members m d s)"
  (is "?V n \<and> ?E n \<and> ?M n")
proof (induction n)
  case 0
  then show ?case by simp
next
  case (Suc n)
  then have V: "parse_value n d s = parse_value m d s"
      if "2 * length s + 1 \<le> n" "2 * length s + 1 \<le> m" for d s m
    using that by blast
  have E: "parse_elems n d s = parse_elems m d s"
      if "2 * length s + 2 \<le> n" "2 * length s + 2 \<le> m" for d s m
    using that Suc by blast
  have M: "parse_members n d s = parse_members m d s"
      if "2 * length s + 2 \<le> n" "2 * length s + 2 \<le> m" for d s m
    using that Suc by blast
  have "parse_value (Suc n) d s = parse_value m d s"
    if n: "2 * length s + 1 \<le> Suc n" and m: "2 * length s + 1 \<le> m" for d s m
  proof (cases "skip_ws s")
    case Nil
    with m show ?thesis by (cases m) simp_all
  next
    case (Cons c cs)
    obtain k where k: "m = Suc k" using m by (cases m) auto
    have len: "length cs < length s" using Cons by (rule skip_ws_Cons_length)
    have "2 * length cs + 2 \<le> n" "2 * length cs + 2 \<le> k" using len n m k by simp_all
    then have "parse_elems n (Suc d) cs = parse_elems k (Suc d) cs"
      "parse_members n (Suc d) cs = parse_members k (Suc d) cs"
      using E M by blast+
    with Cons k show ?thesis by (simp only: parse_value.simps list.case)
  qed
  moreover have "parse_elems (Suc n) d s = parse_elems m d s"
    if n: "2 * length s + 2 \<le> Suc n" and m: "2 * length s + 2 \<le> m" for d s m
  proof -
    obtain k where k: "m = Suc k" using m by (cases m) auto
    have v: "parse_value n d s = parse_value k d s" by (rule V) (use n m k in simp_all)
    have e: "parse_elems n d ys = parse_elems k d ys"
      if "parse_value k d s = Some (a, r)" "skip_ws r = y # ys" for a r y ys
    proof (rule E)
      have "length ys < length s"
        using parse_rest_length(1) [OF that(1)] skip_ws_Cons_length [OF that(2)] by simp
      then show "2 * length ys + 2 \<le> n" "2 * length ys + 2 \<le> k" using n m k by simp_all
    qed
    show ?thesis
      by (simp add: k v e split: option.split list.split)
  qed
  moreover have "parse_members (Suc n) d s = parse_members m d s"
    if n: "2 * length s + 2 \<le> Suc n" and m: "2 * length s + 2 \<le> m" for d s m
  proof -
    obtain k where k: "m = Suc k" using m by (cases m) auto
    have lens: "length xs < length s"
      if "skip_ws s = q # qs" "parse_str qs = Some (key, r0)" "skip_ws r0 = x # xs"
      for q qs key r0 x xs
      using skip_ws_Cons_length [OF that(1)] parse_str_length [OF that(2)]
        skip_ws_Cons_length [OF that(3)] by simp
    have v: "parse_value n d xs = parse_value k d xs"
      if "skip_ws s = q # qs" "parse_str qs = Some (key, r0)" "skip_ws r0 = x # xs"
      for q qs key r0 x xs
      by (rule V) (use lens [OF that] n m k in simp_all)
    have e: "parse_members n d ys = parse_members k d ys"
      if "skip_ws s = q # qs" "parse_str qs = Some (key, r0)" "skip_ws r0 = x # xs"
        "parse_value k d xs = Some (a, r)" "skip_ws r = y # ys"
      for q qs key r0 x xs a r y ys
      by (rule M) (use lens [OF that(1-3)] parse_rest_length(1) [OF that(4)]
          skip_ws_Cons_length [OF that(5)] n m k in simp_all)
    show ?thesis
      by (simp add: k v e split: option.split list.split)
  qed
  ultimately show ?case by blast
qed

lemma parse_value_fuel:
  "parse_fuel s \<le> n \<Longrightarrow> parse_value n d s = parse_value (parse_fuel s) d s"
  by (rule parse_fuel_irrelevant [THEN conjunct1, rule_format]) (simp_all add: parse_fuel_def)
end
