(* ===== verification/Json_Codec.thy ===== *)
theory Json_Codec
  imports Json
begin

text \<open>
  Decoding a parsed document into Go values and encoding Go values back, as
  \<^verbatim>\<open>json.Unmarshal\<close> and \<^verbatim>\<open>json.Marshal\<close> do for the types the sources use. A decoder takes the
  document and the value already in the variable and returns the new value with a flag: \<open>False\<close>
  is a type mismatch, which Go reports after decoding everything else. \<^verbatim>\<open>null\<close> leaves scalars and
  structs alone and clears pointers, slices and maps. A struct field is found by its folded name
  and the last occurrence wins; a slice that occurs twice under one key is decoded afresh the second
  time.
\<close>

named_theorems json_eval \<open>definitions that evaluate JSON decoding\<close>

section \<open>Decoders\<close>

type_synonym 'a dec = "json \<Rightarrow> 'a \<Rightarrow> 'a \<times> bool"

definition d_str :: "string dec" where
  [json_eval]: "d_str j old = (case j of JNull \<Rightarrow> (old, True) | JStr _ s \<Rightarrow> (s, True) | _ \<Rightarrow> (old, False))"

definition d_bool :: "bool dec" where
  [json_eval]: "d_bool j old = (case j of JNull \<Rightarrow> (old, True) | JBool b \<Rightarrow> (b, True) | _ \<Rightarrow> (old, False))"

text \<open>\<^verbatim>\<open>strconv.ParseInt(lit, 10, 64)\<close>: a fraction or an exponent, or a value out of range, fails.\<close>

definition parse_int64 :: "string \<Rightarrow> int option" where
  [json_eval]: "parse_int64 l =
     (let neg = (l \<noteq> [] \<and> hd l = CHR ''-'');
          ds = (if neg then tl l else l) in
      if all_digits ds then
        (let v = (if neg then - int (read_nat 0 ds) else int (read_nat 0 ds)) in
         if int64_range v then Some v else None)
      else None)"

definition d_int :: "int dec" where
  [json_eval]: "d_int j old =
     (case j of
        JNull \<Rightarrow> (old, True)
      | JNum l \<Rightarrow> (case parse_int64 l of None \<Rightarrow> (old, False) | Some v \<Rightarrow> (v, True))
      | _ \<Rightarrow> (old, False))"

text \<open>The value of a number literal; Go rounds it to the nearest \<^verbatim>\<open>float64\<close>.\<close>

definition num_value :: "num_parts \<Rightarrow> rat" where
  [json_eval]: "num_value p =
     (let m = of_nat (read_nat 0 (np_int p @ np_frac p)) / 10 ^ length (np_frac p);
          e = read_nat 0 (np_exp p);
          v = (if np_exp_neg p then m / 10 ^ e else m * 10 ^ e) in
      if np_neg p then - v else v)"

text \<open>\<^verbatim>\<open>strconv.ParseFloat\<close> fails when the value rounds to an infinity.\<close>

definition float_range :: "rat \<Rightarrow> bool" where
  [json_eval]: "float_range v \<longleftrightarrow> \<bar>v\<bar> < 2 ^ 1024 - 2 ^ 970"

definition d_float :: "float64 dec" where
  [json_eval]: "d_float j old =
     (case j of
        JNull \<Rightarrow> (old, True)
      | JNum l \<Rightarrow> (case scan_num l of
                    Some (p, []) \<Rightarrow>
                      if float_range (num_value p) then (num_value p, True) else (old, False)
                  | _ \<Rightarrow> (old, False))
      | _ \<Rightarrow> (old, False))"

text \<open>\<^verbatim>\<open>json.RawMessage\<close> keeps any value, \<^verbatim>\<open>null\<close> included.\<close>

definition d_raw :: "raw_msg dec" where
  [json_eval]: "d_raw j old = (Some j, True)"

definition d_ptr :: "'a dec \<Rightarrow> 'a \<Rightarrow> 'a option dec" where
  [json_eval]: "d_ptr d z j old =
     (case j of
        JNull \<Rightarrow> (None, True)
      | _ \<Rightarrow> (case d j (case old of None \<Rightarrow> z | Some v \<Rightarrow> v) of (v, ok) \<Rightarrow> (Some v, ok)))"

definition d_elems :: "'a dec \<Rightarrow> 'a \<Rightarrow> json list \<Rightarrow> 'a list \<times> bool" where
  [json_eval]: "d_elems d z js = (map (\<lambda>j. fst (d j z)) js, list_all (\<lambda>j. snd (d j z)) js)"

text \<open>A slice whose nil-ness nobody looks at.\<close>

definition d_list :: "'a dec \<Rightarrow> 'a \<Rightarrow> 'a list dec" where
  [json_eval]: "d_list d z j old =
     (case j of JNull \<Rightarrow> ([], True) | JArr _ js \<Rightarrow> d_elems d z js | _ \<Rightarrow> (old, False))"

text \<open>A slice that is compared with nil: an empty array gives an empty slice that is not nil.\<close>

definition d_slice :: "'a dec \<Rightarrow> 'a \<Rightarrow> 'a list option dec" where
  [json_eval]: "d_slice d z j old =
     (case j of
        JNull \<Rightarrow> (None, True)
      | JArr _ js \<Rightarrow> (case d_elems d z js of (vs, ok) \<Rightarrow> (Some vs, ok))
      | _ \<Rightarrow> (old, False))"

definition d_map :: "'a dec \<Rightarrow> 'a \<Rightarrow> (string \<times> 'a) list option dec" where
  [json_eval]: "d_map d z j old =
     (case j of
        JNull \<Rightarrow> (None, True)
      | JObj _ ms \<Rightarrow>
          (Some (foldl (\<lambda>m (k, x). map_put k (fst (d x z)) m)
                   (case old of None \<Rightarrow> [] | Some m \<Rightarrow> m) ms),
           list_all (\<lambda>(k, x). snd (d x z)) ms)
      | _ \<Rightarrow> (old, False))"

section \<open>Structs\<close>

text \<open>
  \<^verbatim>\<open>foldName\<close>: two key spellings are one field when their folds agree. The ASCII letters fold to
  capitals, and U+017F and U+212A fold to \<open>S\<close> and \<open>K\<close>; no other rune folds to ASCII, which is
  what the struct tags are made of.
\<close>

fun fold_name :: "string \<Rightarrow> string" where
  "fold_name [] = []"
| "fold_name [c] = [upper_char c]"
| "fold_name [c, d] =
     (if c = CHR 0xC5 \<and> d = CHR 0xBF then ''S'' else [upper_char c, upper_char d])"
| "fold_name (c # d # e # cs) =
     (if c = CHR 0xC5 \<and> d = CHR 0xBF then CHR ''S'' # fold_name (e # cs)
      else if c = CHR 0xE2 \<and> d = CHR 0x84 \<and> e = CHR 0xAA then CHR ''K'' # fold_name cs
      else upper_char c # fold_name (d # e # cs))"

type_synonym 'r field = "(string \<times> json) list \<Rightarrow> 'r \<times> bool \<Rightarrow> 'r \<times> bool"

definition get_field :: "(string \<times> json) list \<Rightarrow> string \<Rightarrow> 'a dec \<Rightarrow> 'a \<Rightarrow> 'a \<times> bool" where
  [json_eval]: "get_field ms n d z =
     foldl (\<lambda>(v, ok) (k, j).
              if fold_name k = fold_name n then (case d j v of (v', ok') \<Rightarrow> (v', ok \<and> ok'))
              else (v, ok)) (z, True) ms"

definition fld :: "string \<Rightarrow> 'a dec \<Rightarrow> ('r \<Rightarrow> 'a) \<Rightarrow> (('a \<Rightarrow> 'a) \<Rightarrow> 'r \<Rightarrow> 'r) \<Rightarrow> 'r field" where
  [json_eval]: "fld n d get upd ms r_ok =
     (case r_ok of (r, ok) \<Rightarrow>
        (case get_field ms n d (get r) of (v, ok') \<Rightarrow> (upd (\<lambda>_. v) r, ok \<and> ok')))"

definition d_struct :: "'r field list \<Rightarrow> 'r dec" where
  [json_eval]: "d_struct fs j old =
     (case j of
        JNull \<Rightarrow> (old, True)
      | JObj _ ms \<Rightarrow> foldl (\<lambda>acc f. f ms acc) (old, True) fs
      | _ \<Rightarrow> (old, False))"

section \<open>Unmarshal\<close>

text \<open>
  \<^verbatim>\<open>json.Unmarshal\<close> of a raw message and of a byte string: the variable's value afterwards and
  whether the error is nil. A syntax error leaves the variable alone.
\<close>

definition unmarshal_raw :: "'a dec \<Rightarrow> raw_msg \<Rightarrow> 'a \<Rightarrow> 'a \<times> bool" where
  [json_eval]: "unmarshal_raw d m z = (case m of None \<Rightarrow> (z, False) | Some j \<Rightarrow> d j z)"

definition unmarshal :: "'a dec \<Rightarrow> string \<Rightarrow> 'a \<Rightarrow> 'a \<times> bool" where
  [json_eval]: "unmarshal d s z = unmarshal_raw d (parse_json s) z"

section \<open>Marshal\<close>

definition hex_digit :: "nat \<Rightarrow> char" where
  "hex_digit n = (if n < 10 then char_of (48 + n) else char_of (87 + n))"

text \<open>\<^verbatim>\<open>appendString\<close> with HTML escaping, one ASCII byte.\<close>

definition escape_ascii :: "char \<Rightarrow> string" where
  "escape_ascii c =
     (if c = CHR 0x22 \<or> c = CHR 0x5C then [CHR 0x5C, c]
      else if c = CHR 0x08 then [CHR 0x5C, CHR ''b'']
      else if c = CHR 0x0C then [CHR 0x5C, CHR ''f'']
      else if c = CHR 0x0A then [CHR 0x5C, CHR ''n'']
      else if c = CHR 0x0D then [CHR 0x5C, CHR ''r'']
      else if c = CHR 0x09 then [CHR 0x5C, CHR ''t'']
      else if (of_char c :: nat) < 32 \<or> c = CHR ''<'' \<or> c = CHR ''>'' \<or> c = CHR ''&'' then
        [CHR 0x5C, CHR ''u'', CHR ''0'', CHR ''0'',
         hex_digit (of_char c div 16), hex_digit (of_char c mod 16)]
      else [c])"

definition line_sep :: "string \<Rightarrow> string option" where
  "line_sep s =
     (if take 3 s = [CHR 0xE2, CHR 0x80, CHR 0xA8] then Some (CHR 0x5C # ''u2028'')
      else if take 3 s = [CHR 0xE2, CHR 0x80, CHR 0xA9] then Some (CHR 0x5C # ''u2029'')
      else None)"

fun escape_str :: "string \<Rightarrow> string" where
  "escape_str [] = []"
| "escape_str (c # cs) =
     (if (of_char c :: nat) < 128 then escape_ascii c @ escape_str cs
      else if utf8_width (c # cs) = 0 then CHR 0x5C # ''ufffd'' @ escape_str cs
      else case line_sep (c # cs) of
        Some e \<Rightarrow> e @ escape_str (drop 2 cs)
      | None \<Rightarrow> take (utf8_width (c # cs)) (c # cs)
                 @ escape_str (drop (utf8_width (c # cs) - 1) cs))"

definition quote_json :: "string \<Rightarrow> string" where
  "quote_json s = CHR 0x22 # escape_str s @ [CHR 0x22]"

text \<open>\<^verbatim>\<open>compact\<close> with HTML escaping, as \<^verbatim>\<open>Marshal\<close> copies a raw message.\<close>

fun compact_json :: "bool \<Rightarrow> string \<Rightarrow> string" where
  "compact_json q [] = []"
| "compact_json q (c # cs) =
     (if \<not> q \<and> is_ws c then compact_json q cs
      else if q \<and> c = CHR 0x5C then
        (case cs of [] \<Rightarrow> [c] | d # ds \<Rightarrow> c # d # compact_json q ds)
      else if c = CHR 0x22 then c # compact_json (\<not> q) cs
      else if c = CHR ''<'' \<or> c = CHR ''>'' \<or> c = CHR ''&'' then escape_ascii c @ compact_json q cs
      else case line_sep (c # cs) of
        Some e \<Rightarrow> e @ compact_json q (drop 2 cs)
      | None \<Rightarrow> c # compact_json q cs)"

text \<open>An object from its encoded members.\<close>

definition obj_json :: "(string \<times> string) list \<Rightarrow> string" where
  "obj_json ms = ''{'' @ join '','' (map (\<lambda>(k, v). quote_json k @ '':'' @ v) ms) @ ''}''"

section \<open>Facts\<close>

lemma d_str_range: "snd (d_str j old) \<Longrightarrow> j = JNull \<and> fst (d_str j old) = old \<or> (\<exists>r s. j = JStr r s \<and> fst (d_str j old) = s)"
  by (cases j) (auto simp: d_str_def)

lemma d_int_range: "int64_range old \<Longrightarrow> int64_range (fst (d_int j old))"
  by (auto simp: d_int_def parse_int64_def Let_def split: json.split option.split if_splits)

lemma get_field_Nil [simp]: "get_field [] n d z = (z, True)"
  by (simp add: get_field_def)

end
