(* ===== verification/Errors.thy ===== *)
theory Errors
  imports Json_Codec
begin

text \<open>
  error.go: the sentinel errors, the error types that carry data, \<^verbatim>\<open>errors.Is\<close> over the chains the
  package builds, and the classification of structured error JSON, of HTTP statuses and of the
  CLI's own error enum. The functions that read a whole wire event are in \<open>Parse\<close>.
\<close>

section \<open>Error values\<close>

datatype sentinel =
    ErrInvalidRequest
  | ErrAuth
  | ErrBilling
  | ErrPermission
  | ErrNotFound
  | ErrRequestTooLarge
  | ErrRateLimit
  | ErrAPI
  | ErrOverloaded
  | ErrMaxTurns
  | ErrContextWindowExceeded

definition sentinel_text :: "sentinel \<Rightarrow> string" where
  "sentinel_text s =
     (case s of
        ErrInvalidRequest \<Rightarrow> ''invalid request''
      | ErrAuth \<Rightarrow> ''authentication failed''
      | ErrBilling \<Rightarrow> ''billing error''
      | ErrPermission \<Rightarrow> ''permission denied''
      | ErrNotFound \<Rightarrow> ''not found''
      | ErrRequestTooLarge \<Rightarrow> ''request too large''
      | ErrRateLimit \<Rightarrow> ''rate limit''
      | ErrAPI \<Rightarrow> ''API error''
      | ErrOverloaded \<Rightarrow> ''API overloaded''
      | ErrMaxTurns \<Rightarrow> ''max turns reached''
      | ErrContextWindowExceeded \<Rightarrow> ''context window exceeded'')"

text \<open>
  \<open>ENew\<close> is an error made from a text alone, \<open>EExt\<close> an error of another package with its text,
  \<open>EWrap pre e post\<close> is \<^verbatim>\<open>fmt.Errorf("<pre>%w<post>", e)\<close> and \<open>EWrap2 e f\<close> is
  \<^verbatim>\<open>fmt.Errorf("%w: %w", e, f)\<close>. \<open>ERateLimit\<close>, \<open>EMaxTurns\<close> and \<open>ECli\<close> are the pointers to the
  structs \<^verbatim>\<open>RateLimitError\<close>, \<^verbatim>\<open>MaxTurnsError\<close> and \<^verbatim>\<open>Error\<close> (exit code, stderr, message, last events,
  class).
\<close>

datatype go_error =
    ESent sentinel
  | ENew string
  | EExt string
  | EWrap string go_error string
  | EWrap2 go_error go_error
  | ERateLimit nanos string
  | EMaxTurns int string
  | ECli int string string "string list" "go_error option"

text \<open>\<^verbatim>\<open>errors.Is\<close> against a sentinel, through the \<^verbatim>\<open>Is\<close> and \<^verbatim>\<open>Unwrap\<close> methods.\<close>

fun error_is :: "go_error \<Rightarrow> sentinel \<Rightarrow> bool" where
  "error_is (ESent s) t = (s = t)"
| "error_is (ENew _) t = False"
| "error_is (EExt _) t = False"
| "error_is (EWrap _ e _) t = error_is e t"
| "error_is (EWrap2 e f) t = (error_is e t \<or> error_is f t)"
| "error_is (ERateLimit _ _) t = (t = ErrRateLimit)"
| "error_is (EMaxTurns _ _) t = (t = ErrMaxTurns)"
| "error_is (ECli _ _ _ _ c) t = (case c of None \<Rightarrow> False | Some e \<Rightarrow> error_is e t)"

subsection \<open>Texts\<close>

definition pad_left :: "nat \<Rightarrow> string \<Rightarrow> string" where
  "pad_left n s = replicate (n - length s) (CHR ''0'') @ s"

definition strip_zeros :: "string \<Rightarrow> string" where
  "strip_zeros s = rev (dropWhile (\<lambda>c. c = CHR ''0'') (rev s))"

text \<open>\<^verbatim>\<open>time.Duration.String\<close>.\<close>

definition frac_text :: "nat \<Rightarrow> nat \<Rightarrow> string" where
  "frac_text v prec =
     (let ds = strip_zeros (pad_left prec (show_nat (v mod 10 ^ prec))) in
      if ds = [] then [] else CHR ''.'' # ds)"

definition duration_text :: "nanos \<Rightarrow> string" where
  "duration_text d =
     (let u = nat \<bar>d\<bar>; s = u div 10 ^ 9;
          body =
            (if u = 0 then ''0s''
             else if u < 1000 then show_nat u @ ''ns''
             else if u < 10 ^ 6 then
               show_nat (u div 10 ^ 3) @ frac_text u 3 @ [CHR 0xC2, CHR 0xB5, CHR ''s'']
             else if u < 10 ^ 9 then show_nat (u div 10 ^ 6) @ frac_text u 6 @ ''ms''
             else (if s < 60 then []
                   else (if s < 3600 then [] else show_nat (s div 3600) @ ''h'')
                        @ show_nat (s div 60 mod 60) @ ''m'')
                  @ show_nat (s mod 60) @ frac_text u 9 @ ''s'') in
      if d < 0 then CHR ''-'' # body else body)"

definition rate_limit_error_text :: "nanos \<Rightarrow> string \<Rightarrow> string" where
  "rate_limit_error_text retry msg =
     (if retry > 0 then ''rate limit: '' @ msg @ '' (retry after '' @ duration_text retry @ '')''
      else ''rate limit: '' @ msg)"

definition max_turns_error_text :: "int \<Rightarrow> string \<Rightarrow> string" where
  "max_turns_error_text turns msg =
     (if turns > 0 then ''max turns reached ('' @ show_int turns @ ''): '' @ msg
      else ''max turns reached: '' @ msg)"

definition em_dash :: string where
  "em_dash = [CHR 0xE2, CHR 0x80, CHR 0x94]"

definition cli_error_text :: "int \<Rightarrow> string \<Rightarrow> string \<Rightarrow> string list \<Rightarrow> string" where
  "cli_error_text code stderr msg last_events =
     (let exit = ''claudecli: exit '' @ show_int code in
      if msg \<noteq> [] then exit @ '': '' @ msg
      else if stderr \<noteq> [] then
        exit @ '': '' @
        (if length stderr > 256
         then take 256 stderr @ ''... (truncated, full stderr in Error.Stderr)'' else stderr)
      else if last_events \<noteq> [] then
        exit @ '' (no error details '' @ em_dash @ '' last '' @ show_nat (length last_events)
             @ '' stdout events in Error.LastEvents)''
      else exit @ '' (no error details available '' @ em_dash
                @ '' check CLI output or run with verbose logging)'')"

fun error_text :: "go_error \<Rightarrow> string" where
  "error_text (ESent s) = sentinel_text s"
| "error_text (ENew t) = t"
| "error_text (EExt t) = t"
| "error_text (EWrap pre e post) = pre @ error_text e @ post"
| "error_text (EWrap2 e f) = error_text e @ '': '' @ error_text f"
| "error_text (ERateLimit r m) = rate_limit_error_text r m"
| "error_text (EMaxTurns n m) = max_turns_error_text n m"
| "error_text (ECli c s m l _) = cli_error_text c s m l"

text \<open>\<^verbatim>\<open>fmt.Errorf("%w: %s", s, msg)\<close>.\<close>

definition wrap_sentinel :: "sentinel \<Rightarrow> string \<Rightarrow> go_error" where
  "wrap_sentinel s msg = EWrap [] (ESent s) ('': '' @ msg)"

lemma error_is_wrap_sentinel [simp]: "error_is (wrap_sentinel s msg) t \<longleftrightarrow> s = t"
  by (simp add: wrap_sentinel_def)

section \<open>Structured errors\<close>

record error_details =
  ed_typ :: string
  ed_message :: string
  ed_retry_after :: nanos

text \<open>
  Conversion of a \<^verbatim>\<open>float64\<close> to \<^verbatim>\<open>int64\<close>: truncation, and on amd64 the smallest integer when the
  value does not fit.
\<close>

definition float_to_int64 :: "float64 \<Rightarrow> int" where
  "float_to_int64 v =
     (let t = (if v < 0 then - \<lfloor>- v\<rfloor> else \<lfloor>v\<rfloor>) in if int64_range t then t else - (2 ^ 63))"

record raw_error_json =
  rj_type :: string
  rj_message :: string
  rj_retry_after_seconds :: float64

definition d_error_json :: "raw_error_json dec" where
  [json_eval]: "d_error_json =
     d_struct
       [fld ''type'' d_str rj_type rj_type_update,
        fld ''message'' d_str rj_message rj_message_update,
        fld ''retry_after_seconds'' d_float rj_retry_after_seconds rj_retry_after_seconds_update]"

definition tryParseErrorJSON :: "string \<Rightarrow> error_details option" where
  "tryParseErrorJSON s =
     (case unmarshal d_error_json s \<lparr>rj_type = [], rj_message = [], rj_retry_after_seconds = 0\<rparr> of
        (raw, ok) \<Rightarrow>
          if \<not> ok then None
          else if rj_type raw = [] then None
          else Some
            \<lparr>ed_typ = rj_type raw, ed_message = rj_message raw,
             ed_retry_after =
               (if rj_retry_after_seconds raw > 0
                then float_to_int64 (rj_retry_after_seconds raw * 1000000000) else 0)\<rparr>)"

fun first_some :: "('a \<Rightarrow> 'b option) \<Rightarrow> 'a list \<Rightarrow> 'b option" where
  "first_some f [] = None"
| "first_some f (x # xs) = (case f x of None \<Rightarrow> first_some f xs | Some y \<Rightarrow> Some y)"

definition parseErrorDetails :: "string \<Rightarrow> error_details option" where
  "parseErrorDetails stderr =
     (case tryParseErrorJSON stderr of
        Some d \<Rightarrow> Some d
      | None \<Rightarrow>
          first_some
            (\<lambda>line. let line = trim_space line in
                    if has_prefix line ''{'' then tryParseErrorJSON line else None)
            (split_on (CHR 0x0A) stderr))"

definition normalizeAPIErrorType :: "string \<Rightarrow> string" where
  "normalizeAPIErrorType t =
     (if t = ''invalid_request_error'' then ''invalid_request''
      else if t = ''authentication_error'' then ''auth''
      else if t = ''billing_error'' then ''billing''
      else if t = ''permission_error'' then ''permission''
      else if t = ''not_found_error'' then ''not_found''
      else if t = ''request_too_large'' then ''request_too_large''
      else if t = ''rate_limit_error'' then ''rate_limit''
      else if t = ''api_error'' then ''api''
      else if t = ''overloaded_error'' then ''overloaded''
      else t)"

section \<open>The turn limit\<close>

definition max_turns_prefix :: string where
  "max_turns_prefix = ''Reached maximum number of turns (''"

fun turns_loop :: "int \<Rightarrow> string \<Rightarrow> int option" where
  "turns_loop n [] = Some n"
| "turns_loop n (c # cs) =
     (if is_digit c then turns_loop (wrap64 (n * 10 + int (digit_val c))) cs else None)"

definition parseMaxTurnsCount :: "string \<Rightarrow> int option" where
  "parseMaxTurnsCount s =
     (case cut s max_turns_prefix of
        (_, after, found) \<Rightarrow>
          if \<not> found then None
          else (case cut after '')'' of
                  (num, _, found') \<Rightarrow> if \<not> found' then None else turns_loop 0 num))"

definition classifyMaxTurns :: "string list \<Rightarrow> go_error" where
  "classifyMaxTurns errs =
     (let msg = join ''; '' errs;
          msg = (if msg = [] then ''reached maximum number of turns'' else msg);
          turns = (case first_some parseMaxTurnsCount errs of None \<Rightarrow> 0 | Some n \<Rightarrow> n) in
      EMaxTurns turns msg)"

section \<open>Classification\<close>

definition isContextWindowError :: "string \<Rightarrow> bool" where
  "isContextWindowError msg =
     (let lower = to_lower msg in
      contains lower ''context window exceeded''
      \<or> contains lower ''context length exceeded''
      \<or> contains lower ''prompt is too long'')"

definition classifyError :: "error_details \<Rightarrow> go_error option" where
  "classifyError d =
     (let m = ed_message d in
      if isContextWindowError m then Some (wrap_sentinel ErrContextWindowExceeded m)
      else if ed_typ d = ''invalid_request'' then Some (wrap_sentinel ErrInvalidRequest m)
      else if ed_typ d = ''auth'' then Some (wrap_sentinel ErrAuth m)
      else if ed_typ d = ''billing'' then Some (wrap_sentinel ErrBilling m)
      else if ed_typ d = ''permission'' then Some (wrap_sentinel ErrPermission m)
      else if ed_typ d = ''not_found'' then Some (wrap_sentinel ErrNotFound m)
      else if ed_typ d = ''request_too_large'' then Some (wrap_sentinel ErrRequestTooLarge m)
      else if ed_typ d = ''rate_limit'' then Some (ERateLimit (ed_retry_after d) m)
      else if ed_typ d = ''api'' then Some (wrap_sentinel ErrAPI m)
      else if ed_typ d = ''overloaded'' then Some (wrap_sentinel ErrOverloaded m)
      else None)"

definition normalizeSyntheticErrorType :: "string \<Rightarrow> string" where
  "normalizeSyntheticErrorType t =
     (if t = ''rate_limit'' \<or> t = ''overloaded'' \<or> t = ''invalid_request'' then t
      else if t = ''authentication_failed'' \<or> t = ''oauth_org_not_allowed'' then ''auth''
      else if t = ''billing_error'' then ''billing''
      else if t = ''model_not_found'' then ''not_found''
      else if t = ''server_error'' then ''api''
      else [])"

definition statusErrorType :: "int \<Rightarrow> string" where
  "statusErrorType status =
     (if status = 400 then ''invalid_request''
      else if status = 401 then ''auth''
      else if status = 402 then ''billing''
      else if status = 403 then ''permission''
      else if status = 404 then ''not_found''
      else if status = 413 then ''request_too_large''
      else if status = 429 then ''rate_limit''
      else if status = 529 then ''overloaded''
      else if status \<ge> 500 then ''api''
      else [])"

definition classifyAPIFailure :: "string \<Rightarrow> string \<Rightarrow> int \<Rightarrow> go_error option" where
  "classifyAPIFailure msg err_type status =
     (let typ = normalizeSyntheticErrorType err_type;
          typ = (if typ = [] then statusErrorType status else typ) in
      classifyError \<lparr>ed_typ = typ, ed_message = msg, ed_retry_after = 0\<rparr>)"

end
