(* ===== verification/Events.thy ===== *)
theory Events
  imports Errors
begin

text \<open>
  event.go and the data types of control\_requests.go and workflow.go that events carry: one record
  per struct, with the struct's name and its fields in order under a prefix of their own, and the
  sealed interface \<^verbatim>\<open>Event\<close> as a datatype. Slices are lists; nil and empty agree except for the
  workflow tree of a task event, which the code compares with nil. A map is an association list,
  a pointer an option, a \<^verbatim>\<open>json.RawMessage\<close> in an event its bytes, a time or a duration a number of
  nanoseconds. Below the records are the methods that compute something.
\<close>

section \<open>Enumerations\<close>

datatype ActivityState = ActivityIdle | ActivityThinking | ActivityAwaitingToolResult

datatype ContextSnapshotPhase = ContextSnapshotStart | ContextSnapshotFinal

datatype ExitReason =
    ExitReasonNormal
  | ExitReasonKilled
  | ExitReasonCrashed
  | ExitReasonContextCanceled
  | ExitReasonUnknown

section \<open>Event payloads\<close>

record StartEvent =
  st_Model :: string
  st_Args :: "string list"
  st_WorkDir :: string

record MCPServerStatus =
  mss_Name :: string
  mss_Status :: string

record PluginInfo =
  pi_Name :: string
  pi_Path :: string

record MCPServerError =
  mse_Name :: string
  mse_Type :: string
  mse_Message :: string

record InitEvent =
  ini_SessionID :: string
  ini_Model :: string
  ini_Tools :: "string list"
  ini_Agents :: "string list"
  ini_Skills :: "string list"
  ini_MCPServers :: "MCPServerStatus list"
  ini_MCPServerErrors :: "MCPServerError list"
  ini_CLIVersion :: string
  ini_CWD :: string
  ini_PermissionMode :: string
  ini_OutputStyle :: string
  ini_SlashCommands :: "string list"
  ini_Plugins :: "PluginInfo list"
  ini_Capabilities :: "string list"
  ini_Unsolicited :: bool

record PromptSuggestionEvent =
  ps_Suggestion :: string
  ps_SessionID :: string
  ps_UUID :: string

record CompactStatusEvent =
  cst_SessionID :: string
  cst_Status :: string

record CompactBoundaryEvent =
  cb_SessionID :: string
  cb_Trigger :: string
  cb_PreTokens :: int
  cb_Raw :: string

record WorkflowProgressEntry =
  wp_Type :: string
  wp_Index :: int
  wp_Title :: string
  wp_Label :: string
  wp_PhaseIndex :: int
  wp_PhaseTitle :: string
  wp_AgentID :: string
  wp_Model :: string
  wp_State :: string
  wp_Attempt :: int
  wp_LastToolName :: string
  wp_LastToolSummary :: string
  wp_PromptPreview :: string
  wp_ResultPreview :: string
  wp_Tokens :: int
  wp_ToolCalls :: int
  wp_DurationMs :: int
  wp_QueuedAt :: int
  wp_StartedAt :: int
  wp_LastProgressAt :: int

record TaskEvent =
  te_Subtype :: string
  te_TaskID :: string
  te_ToolUseID :: string
  te_SessionID :: string
  te_Description :: string
  te_SubagentType :: string
  te_TaskType :: string
  te_Prompt :: string
  te_WorkflowName :: string
  te_LastToolName :: string
  te_WorkflowProgress :: "WorkflowProgressEntry list option"
  te_WorkflowAgentLabel :: string
  te_WorkflowPhaseTitle :: string
  te_WorkflowAgentID :: string
  te_Status :: string
  te_Summary :: string
  te_OutputFile :: string
  te_EndTime :: int
  te_OwnedBySubagent :: bool
  te_IsBackgrounded :: bool
  te_TotalTokens :: int
  te_ToolUses :: int
  te_DurationMs :: int
  te_Raw :: string

record HookEvent =
  he_Subtype :: string
  he_HookID :: string
  he_HookName :: string
  he_HookEvent :: string
  he_UUID :: string
  he_SessionID :: string
  he_Output :: string
  he_Stdout :: string
  he_Stderr :: string
  he_ExitCode :: int
  he_Outcome :: string
  he_Raw :: string

record ThinkingEvent =
  th_Content :: string
  th_Signature :: string
  th_ParentToolUseID :: string
  th_Model :: string
  th_SubagentType :: string
  th_TaskDescription :: string

record TextEvent =
  tx_Content :: string
  tx_ParentToolUseID :: string
  tx_Model :: string
  tx_SubagentType :: string
  tx_TaskDescription :: string

record TurnEvent =
  tn_Turn :: int
  tn_ToolName :: string

record ToolUseEvent =
  tu_ID :: string
  tu_Name :: string
  tu_Input :: string
  tu_ParentToolUseID :: string
  tu_Model :: string
  tu_SubagentType :: string
  tu_TaskDescription :: string
  tu_ServerSide :: bool
  tu_MCP :: bool

record ConversationResetEvent =
  cr_NewConversationID :: string
  cr_SessionID :: string
  cr_UUID :: string

record BackgroundTask =
  bt_TaskID :: string
  bt_TaskType :: string
  bt_Description :: string

record BackgroundTasksChangedEvent =
  btc_Tasks :: "BackgroundTask list"
  btc_SessionID :: string
  btc_UUID :: string

record SessionStateChangedEvent =
  ssc_State :: string
  ssc_SessionID :: string
  ssc_UUID :: string

record PermissionDeniedEvent =
  pd_ToolName :: string
  pd_ToolUseID :: string
  pd_AgentID :: string
  pd_DecisionReasonType :: string
  pd_DecisionReason :: string
  pd_Message :: string
  pd_SessionID :: string
  pd_UUID :: string

record SlashCommand =
  sc_Name :: string
  sc_Description :: string
  sc_ArgumentHint :: string
  sc_Aliases :: "string list"
  sc_Builtin :: bool

record CommandsChangedEvent =
  cc_Commands :: "SlashCommand list"
  cc_SessionID :: string
  cc_UUID :: string

record AgentInput =
  ai_Description :: string
  ai_Prompt :: string
  ai_SubagentType :: string
  ai_Name :: string
  ai_RunInBackground :: bool
  ai_Model :: string
  ai_Isolation :: string
  ai_Mode :: string
  ai_TeamName :: string

record ToolContent =
  tc_Type :: string
  tc_Text :: string
  tc_MediaType :: string
  tc_Data :: string

record ToolResultEvent =
  tr_ToolUseID :: string
  tr_Content :: "ToolContent list"
  tr_IsError :: bool
  tr_ParentToolUseID :: string

record Origin =
  og_Kind :: string
  og_Subkind :: string
  og_Raw :: string

record UserContent =
  uc_Type :: string
  uc_Text :: string
  uc_ToolUseID :: string
  uc_Content :: "ToolContent list"
  uc_IsError :: bool

record AgentResult =
  ar_Status :: string
  ar_Prompt :: string
  ar_AgentID :: string
  ar_AgentType :: string
  ar_Content :: "ToolContent list"
  ar_TotalDurationMs :: int
  ar_TotalTokens :: int
  ar_TotalToolUseCount :: int

record WorkflowLaunch =
  wl_Status :: string
  wl_TaskID :: string
  wl_TaskType :: string
  wl_WorkflowName :: string
  wl_RunID :: string
  wl_Summary :: string
  wl_TranscriptDir :: string
  wl_ScriptPath :: string

record UserEvent =
  ue_Content :: "UserContent list"
  ue_ParentToolUseID :: string
  ue_AgentResult :: "AgentResult option"
  ue_WorkflowLaunch :: "WorkflowLaunch option"
  ue_SessionID :: string
  ue_UUID :: string
  ue_Timestamp :: string
  ue_IsReplay :: bool
  ue_Origin :: "Origin option"

record RateLimitEvent =
  rl_Status :: string
  rl_Utilization :: float64
  rl_ResetsAt :: int
  rl_RateLimitType :: string
  rl_OverageStatus :: string
  rl_OverageResetsAt :: int
  rl_OverageDisabledReason :: string
  rl_UUID :: string
  rl_SessionID :: string
  rl_Raw :: "(string \<times> json) list"

record Usage =
  us_InputTokens :: int
  us_OutputTokens :: int
  us_CacheReadTokens :: int
  us_CacheCreateTokens :: int

record ModelUsage =
  mu_InputTokens :: int
  mu_OutputTokens :: int
  mu_CacheReadTokens :: int
  mu_CacheCreateTokens :: int
  mu_CostUSD :: float64
  mu_ContextWindow :: int
  mu_MaxOutputTokens :: int
  mu_WebSearchRequests :: int
  mu_WebFetchRequests :: int

record ContextSnapshot =
  cs_InputTokens :: int
  cs_CacheReadInputTokens :: int
  cs_CacheCreationInputTokens :: int
  cs_OutputTokens :: int
  cs_ContextWindow :: int

record ResultEvent =
  re_Text :: string
  re_Subtype :: string
  re_StopReason :: string
  re_StructuredOutput :: string
  re_Duration :: nanos
  re_CostUSD :: float64
  re_SessionID :: string
  re_NumTurns :: int
  re_Usage :: Usage
  re_ModelUsage :: "(string \<times> ModelUsage) list"
  re_ContextSnapshot :: "ContextSnapshot option"
  re_Origin :: "Origin option"
  re_ResultIndex :: "int option"
  re_IsError :: bool
  re_TerminalReason :: string
  re_APIErrorStatus :: int
  re_Errors :: "string list"
  re_Unsolicited :: bool

record ControlRequestEvent =
  crq_RequestID :: string
  crq_Subtype :: string
  crq_Body :: string

record StreamEvent =
  se_UUID :: string
  se_SessionID :: string
  se_Event :: string

record ContextSnapshotEvent =
  cse_InputTokens :: int
  cse_CacheReadInputTokens :: int
  cse_CacheCreationInputTokens :: int
  cse_OutputTokens :: int
  cse_ContextWindow :: int
  cse_Model :: string
  cse_SessionID :: string
  cse_Phase :: ContextSnapshotPhase

record ContextManagementEvent =
  cmg_Raw :: string

record ThinkingTokensEvent =
  tt_EstimatedTokens :: int
  tt_EstimatedTokensDelta :: int
  tt_SessionID :: string
  tt_UUID :: string

record CLIStateChangeEvent =
  csc_State :: ActivityState
  csc_At :: nanos

record ToolProgressEvent =
  tp_ToolUseID :: string
  tp_ToolName :: string
  tp_Elapsed :: nanos
  tp_At :: nanos

record CLIToolProgressEvent =
  ctp_ToolUseID :: string
  ctp_ToolName :: string
  ctp_ElapsedSeconds :: float64
  ctp_TaskID :: string

record ToolUseSummaryEvent =
  tus_Summary :: string
  tus_PrecedingToolUseIDs :: "string list"

record AuthStatusEvent =
  as_IsAuthenticating :: bool
  as_Output :: string
  as_Error :: string

record PersistedFile =
  pf_Filename :: string
  pf_FileID :: string

record FailedFile =
  ff_Filename :: string
  ff_Error :: string

record FilesPersistedEvent =
  fp_Files :: "PersistedFile list"
  fp_Failed :: "FailedFile list"

record CLIExitEvent =
  cx_Reason :: ExitReason
  cx_ExitCode :: int
  cx_Signal :: string
  cx_Err :: "go_error option"
  cx_At :: nanos

record UnknownEvent =
  uk_Type :: string
  uk_Raw :: string

record ErrorEvent =
  ee_Err :: go_error
  ee_Fatal :: bool

datatype event =
    EvStart StartEvent
  | EvInit InitEvent
  | EvPromptSuggestion PromptSuggestionEvent
  | EvCompactStatus CompactStatusEvent
  | EvCompactBoundary CompactBoundaryEvent
  | EvTask TaskEvent
  | EvHook HookEvent
  | EvThinking ThinkingEvent
  | EvText TextEvent
  | EvTurn TurnEvent
  | EvToolUse ToolUseEvent
  | EvConversationReset ConversationResetEvent
  | EvBackgroundTasksChanged BackgroundTasksChangedEvent
  | EvSessionStateChanged SessionStateChangedEvent
  | EvPermissionDenied PermissionDeniedEvent
  | EvCommandsChanged CommandsChangedEvent
  | EvToolResult ToolResultEvent
  | EvUser UserEvent
  | EvRateLimit RateLimitEvent
  | EvResult ResultEvent
  | EvControlRequest ControlRequestEvent
  | EvStream StreamEvent
  | EvContextSnapshot ContextSnapshotEvent
  | EvContextManagement ContextManagementEvent
  | EvThinkingTokens ThinkingTokensEvent
  | EvCLIStateChange CLIStateChangeEvent
  | EvToolProgress ToolProgressEvent
  | EvCLIToolProgress CLIToolProgressEvent
  | EvToolUseSummary ToolUseSummaryEvent
  | EvAuthStatus AuthStatusEvent
  | EvFilesPersisted FilesPersistedEvent
  | EvCLIExit CLIExitEvent
  | EvUnknown UnknownEvent
  | EvError ErrorEvent
  | EvStderr string

section \<open>Methods\<close>

text \<open>Wire names of the string enumerations.\<close>

definition phase_name :: "ContextSnapshotPhase \<Rightarrow> string" where
  "phase_name p = (case p of ContextSnapshotStart \<Rightarrow> ''start'' | ContextSnapshotFinal \<Rightarrow> ''final'')"

definition activity_name :: "ActivityState \<Rightarrow> string" where
  "activity_name s =
     (case s of
        ActivityIdle \<Rightarrow> ''idle''
      | ActivityThinking \<Rightarrow> ''thinking''
      | ActivityAwaitingToolResult \<Rightarrow> ''awaiting_tool_result'')"

definition exit_reason_name :: "ExitReason \<Rightarrow> string" where
  "exit_reason_name r =
     (case r of
        ExitReasonNormal \<Rightarrow> ''normal''
      | ExitReasonKilled \<Rightarrow> ''killed''
      | ExitReasonCrashed \<Rightarrow> ''crashed''
      | ExitReasonContextCanceled \<Rightarrow> ''context_canceled''
      | ExitReasonUnknown \<Rightarrow> ''unknown'')"

definition HasCapability :: "InitEvent \<Rightarrow> string \<Rightarrow> bool" where
  "HasCapability e name \<longleftrightarrow> list_ex (\<lambda>c. c = name) (ini_Capabilities e)"

definition IsWorkflow :: "TaskEvent \<Rightarrow> bool" where
  "IsWorkflow e \<longleftrightarrow> te_TaskType e = ''local_workflow''"

definition HasWorkflowTree :: "TaskEvent \<Rightarrow> bool" where
  "HasWorkflowTree e \<longleftrightarrow> te_WorkflowProgress e \<noteq> None"

definition IsAgent :: "WorkflowProgressEntry \<Rightarrow> bool" where
  "IsAgent e \<longleftrightarrow> wp_Type e = ''workflow_agent''"

definition IsPhase :: "WorkflowProgressEntry \<Rightarrow> bool" where
  "IsPhase e \<longleftrightarrow> wp_Type e = ''workflow_phase''"

text \<open>Safe on a nil receiver.\<close>

definition IsTaskNotification :: "Origin option \<Rightarrow> bool" where
  "IsTaskNotification p = (case p of None \<Rightarrow> False | Some g \<Rightarrow> og_Kind g = ''task-notification'')"

definition tool_result_text :: "ToolResultEvent \<Rightarrow> string" where
  "tool_result_text e =
     join [] (map tc_Text (filter (\<lambda>b. tc_Type b = ''text'' \<and> tc_Text b \<noteq> []) (tr_Content e)))"

definition user_text :: "UserEvent \<Rightarrow> string" where
  "user_text e =
     join [] (map uc_Text (filter (\<lambda>b. uc_Type b = ''text'' \<and> uc_Text b \<noteq> []) (ue_Content e)))"

definition usage_total :: "Usage \<Rightarrow> int" where
  "usage_total u =
     wrap64 (us_InputTokens u + us_OutputTokens u + us_CacheReadTokens u + us_CacheCreateTokens u)"

definition model_usage_total :: "ModelUsage \<Rightarrow> int" where
  "model_usage_total m =
     wrap64 (mu_InputTokens m + mu_OutputTokens m + mu_CacheReadTokens m + mu_CacheCreateTokens m)"

definition snapshot_used :: "ContextSnapshot \<Rightarrow> int" where
  "snapshot_used c =
     wrap64 (cs_InputTokens c + cs_CacheReadInputTokens c + cs_CacheCreationInputTokens c
             + cs_OutputTokens c)"

definition snapshot_event_used :: "ContextSnapshotEvent \<Rightarrow> int" where
  "snapshot_event_used e =
     wrap64 (cse_InputTokens e + cse_CacheReadInputTokens e + cse_CacheCreationInputTokens e
             + cse_OutputTokens e)"

definition d_agent_input :: "AgentInput dec" where
  [json_eval]: "d_agent_input =
     d_struct
       [fld ''description'' d_str ai_Description ai_Description_update,
        fld ''prompt'' d_str ai_Prompt ai_Prompt_update,
        fld ''subagent_type'' d_str ai_SubagentType ai_SubagentType_update,
        fld ''name'' d_str ai_Name ai_Name_update,
        fld ''run_in_background'' d_bool ai_RunInBackground ai_RunInBackground_update,
        fld ''model'' d_str ai_Model ai_Model_update,
        fld ''isolation'' d_str ai_Isolation ai_Isolation_update,
        fld ''mode'' d_str ai_Mode ai_Mode_update,
        fld ''team_name'' d_str ai_TeamName ai_TeamName_update]"

definition zero_agent_input :: AgentInput where
  "zero_agent_input =
     \<lparr>ai_Description = [], ai_Prompt = [], ai_SubagentType = [], ai_Name = [],
      ai_RunInBackground = False, ai_Model = [], ai_Isolation = [], ai_Mode = [], ai_TeamName = []\<rparr>"

definition ParseAgentInput :: "ToolUseEvent \<Rightarrow> AgentInput option" where
  "ParseAgentInput e =
     (if tu_Name e \<noteq> ''Agent'' then None
      else case unmarshal d_agent_input (tu_Input e) zero_agent_input of
        (a, ok) \<Rightarrow> if ok then Some a else None)"

end
