(* ===== verification/Activity.thy ===== *)
theory Activity
  imports Events
begin

text \<open>
  activity.go: the tracker that derives \<^verbatim>\<open>CLIStateChangeEvent\<close>s from the event stream. The clock is
  an argument, read once per call. The lemmas show that the tracker awaits a tool result exactly while
  a top-level tool use of the stream is open, that a consumer that only looks at the emitted state
  changes always knows the tracker's state, and that every emitted change is a change.
\<close>

section \<open>The tracker\<close>

record pendingToolUseInfo =
  pt_ID :: string
  pt_Name :: string
  pt_StartedAt :: nanos

definition zero_pending :: pendingToolUseInfo where
  "zero_pending = \<lparr>pt_ID = [], pt_Name = [], pt_StartedAt = 0\<rparr>"

record activityTracker =
  at_state :: ActivityState
  at_pendingToolUses :: int
  at_firstPending :: pendingToolUseInfo

definition newActivityTracker :: activityTracker where
  "newActivityTracker =
     \<lparr>at_state = ActivityIdle, at_pendingToolUses = 0, at_firstPending = zero_pending\<rparr>"

definition moveTo ::
    "nanos \<Rightarrow> ActivityState \<Rightarrow> activityTracker \<Rightarrow> activityTracker \<times> CLIStateChangeEvent option" where
  "moveTo now next t =
     (if next = at_state t then (t, None)
      else
        (t\<lparr>at_state := next,
           at_firstPending :=
             (if next \<noteq> ActivityAwaitingToolResult then zero_pending else at_firstPending t)\<rparr>,
         Some \<lparr>csc_State = next, csc_At = now\<rparr>))"

fun count_results :: "UserContent list \<Rightarrow> int \<Rightarrow> int" where
  "count_results [] p = p"
| "count_results (b # bs) p =
     count_results bs (if uc_Type b = ''tool_result'' \<and> p > 0 then p - 1 else p)"

definition observe ::
    "nanos \<Rightarrow> event \<Rightarrow> activityTracker \<Rightarrow> activityTracker \<times> CLIStateChangeEvent option" where
  "observe now ev t =
     (case ev of
        EvTurn e \<Rightarrow>
          moveTo now (if at_state t = ActivityIdle then ActivityThinking else at_state t) t
      | EvText e \<Rightarrow>
          moveTo now
            (if tx_ParentToolUseID e = [] \<and> at_state t = ActivityIdle then ActivityThinking
             else at_state t) t
      | EvThinking e \<Rightarrow>
          moveTo now
            (if th_ParentToolUseID e = [] \<and> at_state t = ActivityIdle then ActivityThinking
             else at_state t) t
      | EvToolUse e \<Rightarrow>
          (if tu_ParentToolUseID e = [] then
             moveTo now ActivityAwaitingToolResult
               (t\<lparr>at_firstPending :=
                    (if at_pendingToolUses t = 0
                     then \<lparr>pt_ID = tu_ID e, pt_Name = tu_Name e, pt_StartedAt = now\<rparr>
                     else at_firstPending t),
                  at_pendingToolUses := wrap64 (at_pendingToolUses t + 1)\<rparr>)
           else moveTo now (at_state t) t)
      | EvToolResult e \<Rightarrow>
          (if tr_ParentToolUseID e = [] then
             (let p = (if at_pendingToolUses t > 0 then at_pendingToolUses t - 1
                       else at_pendingToolUses t) in
              moveTo now (if p = 0 then ActivityThinking else at_state t)
                (t\<lparr>at_pendingToolUses := p\<rparr>))
           else moveTo now (at_state t) t)
      | EvUser e \<Rightarrow>
          (if ue_ParentToolUseID e = [] then
             (let p = count_results (ue_Content e) (at_pendingToolUses t) in
              moveTo now
                (if p = 0 \<and> at_state t = ActivityAwaitingToolResult then ActivityThinking
                 else at_state t)
                (t\<lparr>at_pendingToolUses := p\<rparr>))
           else moveTo now (at_state t) t)
      | EvResult e \<Rightarrow> moveTo now ActivityIdle (t\<lparr>at_pendingToolUses := 0\<rparr>)
      | EvError e \<Rightarrow>
          (if ee_Fatal e then moveTo now ActivityIdle (t\<lparr>at_pendingToolUses := 0\<rparr>)
           else moveTo now (at_state t) t)
      | _ \<Rightarrow> moveTo now (at_state t) t)"

definition at_observeUnsolicitedResult ::
    "nanos \<Rightarrow> bool \<Rightarrow> activityTracker \<Rightarrow> activityTracker \<times> CLIStateChangeEvent option" where
  "at_observeUnsolicitedResult now queryPending t =
     (let t = t\<lparr>at_pendingToolUses := 0\<rparr> in
      if queryPending then moveTo now ActivityThinking t else moveTo now ActivityIdle t)"

definition FirstPending :: "activityTracker \<Rightarrow> pendingToolUseInfo option" where
  "FirstPending t =
     (if at_state t \<noteq> ActivityAwaitingToolResult \<or> pt_ID (at_firstPending t) = [] then None
      else Some (at_firstPending t))"

definition markQuery ::
    "nanos \<Rightarrow> activityTracker \<Rightarrow> activityTracker \<times> CLIStateChangeEvent option" where
  "markQuery now t =
     (if at_state t \<noteq> ActivityIdle then (t, None)
      else (t\<lparr>at_state := ActivityThinking\<rparr>,
            Some \<lparr>csc_State = ActivityThinking, csc_At = now\<rparr>))"

text \<open>
  The wrapper both decode loops put around the events channel: the transition goes out before the
  event that causes it.
\<close>

definition transition_events :: "CLIStateChangeEvent option \<Rightarrow> event list" where
  "transition_events c = (case c of None \<Rightarrow> [] | Some e \<Rightarrow> [EvCLIStateChange e])"

definition emit_tracked ::
    "nanos \<Rightarrow> event \<Rightarrow> activityTracker \<times> event list \<Rightarrow> activityTracker \<times> event list" where
  "emit_tracked now ev s =
     (case s of (t, out) \<Rightarrow>
        (case observe now ev t of (t', c) \<Rightarrow> (t', out @ transition_events c @ [ev])))"

lemma moveTo_stay [simp]: "moveTo now (at_state t) t = (t, None)"
  by (simp add: moveTo_def)

section \<open>The open tool uses of a stream\<close>

text \<open>
  The reference, over the stream alone: a top-level tool use opens one, a top-level tool result and
  every tool result inside a top-level user event close one (if any is open), and the end of a turn,
  a result or a fatal error, closes all. What happens inside a subagent does not count.
\<close>

definition opened_by :: "event \<Rightarrow> nat" where
  "opened_by ev = (case ev of EvToolUse e \<Rightarrow> if tu_ParentToolUseID e = [] then 1 else 0 | _ \<Rightarrow> 0)"

definition closed_by :: "event \<Rightarrow> nat" where
  "closed_by ev =
     (case ev of
        EvToolResult e \<Rightarrow> if tr_ParentToolUseID e = [] then 1 else 0
      | EvUser e \<Rightarrow>
          if ue_ParentToolUseID e = []
          then length (filter (\<lambda>b. uc_Type b = ''tool_result'') (ue_Content e)) else 0
      | _ \<Rightarrow> 0)"

definition turn_over :: "event \<Rightarrow> bool" where
  "turn_over ev = (case ev of EvResult _ \<Rightarrow> True | EvError e \<Rightarrow> ee_Fatal e | _ \<Rightarrow> False)"

fun open_uses :: "nat \<Rightarrow> event list \<Rightarrow> nat" where
  "open_uses n [] = n"
| "open_uses n (ev # evs) = open_uses (if turn_over ev then 0 else n + opened_by ev - closed_by ev) evs"

lemma open_uses_append [simp]: "open_uses n (xs @ ys) = open_uses (open_uses n xs) ys"
  by (induction n xs rule: open_uses.induct) simp_all

lemma open_uses_bound: "open_uses n evs \<le> n + length evs"
proof (induction n evs rule: open_uses.induct)
  case (2 n ev evs)
  have "opened_by ev \<le> 1" by (simp add: opened_by_def split: event.split)
  with 2 show ?case by (auto split: if_splits)
qed simp

lemma count_results_nat:
  "count_results bs (int n) = int (n - length (filter (\<lambda>b. uc_Type b = ''tool_result'') bs))"
proof (induction bs arbitrary: n)
  case (Cons b bs)
  have "int n - 1 = int (n - 1)" if "0 < n" using that by simp
  with Cons [of "n - 1"] Cons [of n] show ?case by auto
qed simp

text \<open>The first tool use of those open, while some are: a tool use that found none open.\<close>

fun first_open :: "(nanos \<times> event) option \<Rightarrow> nat \<Rightarrow> (nanos \<times> event) list \<Rightarrow> (nanos \<times> event) option" where
  "first_open p n [] = p"
| "first_open p n ((t, ev) # evs) =
     (let m = open_uses n [ev] in
      first_open (if m = 0 then None else if n = 0 then Some (t, ev) else p) m evs)"

lemma first_open_append: "first_open p n (xs @ ys) = first_open (first_open p n xs) (open_uses n (map snd xs)) ys"
  by (induction p n xs rule: first_open.induct) (simp_all add: Let_def)

definition pending_info :: "(nanos \<times> event) option \<Rightarrow> pendingToolUseInfo" where
  "pending_info p =
     (case p of
        Some (t, EvToolUse e) \<Rightarrow> \<lparr>pt_ID = tu_ID e, pt_Name = tu_Name e, pt_StartedAt = t\<rparr>
      | _ \<Rightarrow> zero_pending)"

text \<open>The tracker holds what the reference says.\<close>

definition tracker_holds :: "nat \<Rightarrow> (nanos \<times> event) option \<Rightarrow> activityTracker \<Rightarrow> bool" where
  "tracker_holds n p t \<longleftrightarrow>
     at_pendingToolUses t = int n
     \<and> (at_state t = ActivityAwaitingToolResult \<longleftrightarrow> n > 0)
     \<and> at_firstPending t = pending_info p \<and> (n = 0 \<longrightarrow> p = None)"

lemma tracker_holds_observe:
  assumes t: "tracker_holds n p t" and n: "int n + 1 < 2 ^ 63"
  shows "tracker_holds (open_uses n [ev]) (first_open p n [(now, ev)]) (fst (observe now ev t))"
proof (cases ev)
  case (EvUser e)
  with t show ?thesis
    by (auto simp: observe_def Let_def tracker_holds_def moveTo_def opened_by_def closed_by_def turn_over_def
        count_results_nat pending_info_def)
next
  case (EvToolUse e)
  have "wrap64 (int n + 1) = int n + 1"
    using n by (intro wrap64_id) (simp add: int64_range_def)
  with t EvToolUse show ?thesis
    by (auto simp: observe_def Let_def tracker_holds_def moveTo_def opened_by_def closed_by_def turn_over_def
        pending_info_def)
qed (use t in \<open>auto simp: observe_def Let_def tracker_holds_def moveTo_def opened_by_def closed_by_def turn_over_def
        pending_info_def\<close>)

lemma tracker_holds_markQuery: "tracker_holds n p t \<Longrightarrow> tracker_holds n p (fst (markQuery now t))"
  by (auto simp: tracker_holds_def markQuery_def)

lemma tracker_holds_unsolicited:
  "tracker_holds n p t \<Longrightarrow> tracker_holds 0 None (fst (at_observeUnsolicitedResult now q t))"
  by (auto simp: tracker_holds_def at_observeUnsolicitedResult_def moveTo_def Let_def pending_info_def)

section \<open>What a consumer sees\<close>

text \<open>The state a consumer reconstructs from the state changes alone, starting from idle.\<close>

fun consumer_state :: "ActivityState \<Rightarrow> event list \<Rightarrow> ActivityState" where
  "consumer_state s [] = s"
| "consumer_state s (EvCLIStateChange e # evs) = consumer_state (csc_State e) evs"
| "consumer_state s (_ # evs) = consumer_state s evs"

text \<open>Every state change in the stream differs from the state before it.\<close>

fun changes_proper :: "ActivityState \<Rightarrow> event list \<Rightarrow> bool" where
  "changes_proper s [] = True"
| "changes_proper s (EvCLIStateChange e # evs) =
     (csc_State e \<noteq> s \<and> changes_proper (csc_State e) evs)"
| "changes_proper s (_ # evs) = changes_proper s evs"

definition is_state_change :: "event \<Rightarrow> bool" where
  "is_state_change ev = (case ev of EvCLIStateChange _ \<Rightarrow> True | _ \<Rightarrow> False)"

lemma consumer_state_append: "consumer_state s (xs @ ys) = consumer_state (consumer_state s xs) ys"
  by (induction s xs rule: consumer_state.induct) auto

lemma changes_proper_append:
  "changes_proper s (xs @ ys) \<longleftrightarrow> changes_proper s xs \<and> changes_proper (consumer_state s xs) ys"
  by (induction s xs rule: changes_proper.induct) auto

lemma consumer_state_other:
  "\<not> is_state_change ev \<Longrightarrow> consumer_state s (ev # evs) = consumer_state s evs"
  "\<not> is_state_change ev \<Longrightarrow> changes_proper s (ev # evs) = changes_proper s evs"
  by (cases ev; simp add: is_state_change_def)+

lemma moveTo_change:
  "moveTo now next t = (t', c) \<Longrightarrow>
     at_state t' = next \<and> (case c of None \<Rightarrow> next = at_state t
                             | Some e \<Rightarrow> csc_State e = next \<and> csc_State e \<noteq> at_state t)"
  by (auto simp: moveTo_def split: if_splits)

lemma moveTo_consistent:
  assumes "moveTo now next t = (t', c)"
  shows "consumer_state (at_state t) (transition_events c) = at_state t'"
    and "changes_proper (at_state t) (transition_events c)"
  using moveTo_change [OF assms] by (auto simp: transition_events_def split: option.splits)

lemma observe_moveTo: "\<exists>next t0. observe now ev t = moveTo now next t0 \<and> at_state t0 = at_state t"
proof (cases ev)
  case (EvToolUse e)
  then show ?thesis
    by (cases "tu_ParentToolUseID e = []") (auto simp: observe_def simp del: moveTo_stay intro!: exI)
next
  case (EvToolResult e)
  then show ?thesis
    by (cases "tr_ParentToolUseID e = []") (auto simp: observe_def Let_def simp del: moveTo_stay intro!: exI)
next
  case (EvUser e)
  then show ?thesis
    by (cases "ue_ParentToolUseID e = []") (auto simp: observe_def Let_def simp del: moveTo_stay intro!: exI)
next
  case (EvError e)
  then show ?thesis
    by (cases "ee_Fatal e") (auto simp: observe_def simp del: moveTo_stay intro!: exI)
qed (auto simp: observe_def simp del: moveTo_stay intro!: exI)

lemma observe_consistent:
  assumes "observe now ev t = (t', c)"
  shows "consumer_state (at_state t) (transition_events c) = at_state t'"
    and "changes_proper (at_state t) (transition_events c)"
  using observe_moveTo [of now ev t] moveTo_consistent assms by metis+

section \<open>Streams\<close>

definition track_stream :: "(nanos \<times> event) list \<Rightarrow> activityTracker \<times> event list" where
  "track_stream evs = foldl (\<lambda>s (now, ev). emit_tracked now ev s) (newActivityTracker, []) evs"

lemma track_stream_snoc:
  "track_stream (evs @ [(now, ev)]) = emit_tracked now ev (track_stream evs)"
  by (simp add: track_stream_def)

lemma filter_transition: "filter (\<lambda>ev. \<not> is_state_change ev) (transition_events c) = []"
  by (simp add: transition_events_def is_state_change_def split: option.split)

lemma track_stream_view:
  assumes "\<forall>e \<in> set evs. \<not> is_state_change (snd e)"
  shows "(case track_stream evs of (t, out) \<Rightarrow>
      consumer_state ActivityIdle out = at_state t
      \<and> changes_proper ActivityIdle out
      \<and> filter (\<lambda>ev. \<not> is_state_change ev) out = map snd evs)"
  using assms
proof (induction evs rule: rev_induct)
  case Nil
  show ?case by (simp add: track_stream_def newActivityTracker_def)
next
  case (snoc e evs)
  obtain now ev where e: "e = (now, ev)" by (cases e)
  obtain t out where s: "track_stream evs = (t, out)" by (cases "track_stream evs")
  obtain t' c where o: "observe now ev t = (t', c)" by (cases "observe now ev t")
  have ev: "\<not> is_state_change ev" using snoc.prems e by simp
  have IH: "consumer_state ActivityIdle out = at_state t" "changes_proper ActivityIdle out"
    "filter (\<lambda>ev. \<not> is_state_change ev) out = map snd evs"
    using snoc s by auto
  show ?case
    using IH ev observe_consistent [OF o]
    by (simp add: e track_stream_snoc s emit_tracked_def o consumer_state_append
        changes_proper_append consumer_state_other filter_transition)
qed

lemma track_stream_holds:
  "int (length evs) < 2 ^ 63 \<Longrightarrow>
     tracker_holds (open_uses 0 (map snd evs)) (first_open None 0 evs) (fst (track_stream evs))"
proof (induction evs rule: rev_induct)
  case Nil
  show ?case by (simp add: track_stream_def tracker_holds_def newActivityTracker_def pending_info_def)
next
  case (snoc e evs)
  obtain now ev where e: "e = (now, ev)" by (cases e)
  obtain t out where s: "track_stream evs = (t, out)" by (cases "track_stream evs")
  have "open_uses 0 (map snd evs) \<le> length evs" using open_uses_bound [of 0 "map snd evs"] by simp
  then have n: "int (open_uses 0 (map snd evs)) + 1 < 2 ^ 63" using snoc.prems by simp
  have "tracker_holds (open_uses 0 (map snd evs)) (first_open None 0 evs) t" using snoc s by simp
  from tracker_holds_observe [OF this n, of ev now] show ?case
    unfolding e track_stream_snoc s emit_tracked_def first_open_append map_append open_uses_append
    by (cases "observe now ev t") simp
qed

section \<open>Properties\<close>

text \<open>
  C10: A consumer that reads only the emitted state changes always knows the tracker's state; every
  emitted change differs from the state before it; and apart from the changes the stream is
  exactly the events fed in, in order.
\<close>

theorem state_changes_tell_the_state:
  assumes "\<forall>e \<in> set evs. \<not> is_state_change (snd e)"
    and "track_stream evs = (t, out)"
  shows "consumer_state ActivityIdle out = at_state t
    \<and> changes_proper ActivityIdle out
    \<and> filter (\<lambda>ev. \<not> is_state_change ev) out = map snd evs"
  using track_stream_view [OF assms(1)] assms(2) by simp

theorem state_changes_tell_the_state_witness:
  "consumer_state ActivityIdle (snd (track_stream [(5, EvTurn \<lparr>tn_Turn = 1, tn_ToolName = []\<rparr>)]))
     = ActivityThinking"
  using state_changes_tell_the_state
    [of "[(5, EvTurn \<lparr>tn_Turn = 1, tn_ToolName = []\<rparr>)]"
      "fst (track_stream [(5, EvTurn \<lparr>tn_Turn = 1, tn_ToolName = []\<rparr>)])"
      "snd (track_stream [(5, EvTurn \<lparr>tn_Turn = 1, tn_ToolName = []\<rparr>)])"]
  by (simp add: is_state_change_def track_stream_def emit_tracked_def observe_def moveTo_def
      newActivityTracker_def)

text \<open>
  C12: The tracker awaits a tool result exactly while a top-level tool use of the stream is open:
  over any stream shorter than \<open>2 ^ 63\<close> events its state and its count are those of the reference,
  which opens one for every tool use outside a subagent, closes one for every tool result outside a
  subagent, whether it comes as an event of its own or inside a user event, and closes all at the end
  of a turn. The tool use it reports progress for is the first one of those open, with the time it
  was seen, and none when none is open.
\<close>

theorem awaiting_iff_tool_uses_open:
  assumes "int (length evs) < 2 ^ 63"
    and "track_stream evs = (t, out)"
  shows "(at_state t = ActivityAwaitingToolResult \<longleftrightarrow> open_uses 0 (map snd evs) > 0)
    \<and> at_pendingToolUses t = int (open_uses 0 (map snd evs))
    \<and> FirstPending t =
        (case first_open None 0 evs of
           Some (now, EvToolUse e) \<Rightarrow>
             if tu_ID e = [] then None
             else Some \<lparr>pt_ID = tu_ID e, pt_Name = tu_Name e, pt_StartedAt = now\<rparr>
         | _ \<Rightarrow> None)"
  using track_stream_holds [OF assms(1)] assms(2)
  by (auto simp: tracker_holds_def FirstPending_def pending_info_def zero_pending_def
      split: option.split event.split)

definition sample_tool_use :: event where
  "sample_tool_use =
     EvToolUse \<lparr>tu_ID = ''t1'', tu_Name = ''Bash'', tu_Input = ''{}'', tu_ParentToolUseID = [],
       tu_Model = [], tu_SubagentType = [], tu_TaskDescription = [], tu_ServerSide = False,
       tu_MCP = False\<rparr>"

theorem awaiting_iff_tool_uses_open_witness:
  "at_pendingToolUses (fst (track_stream [(7, sample_tool_use), (8, sample_tool_use)])) = 2
   \<and> FirstPending (fst (track_stream [(7, sample_tool_use), (8, sample_tool_use)]))
       = Some \<lparr>pt_ID = ''t1'', pt_Name = ''Bash'', pt_StartedAt = 7\<rparr>"
  using awaiting_iff_tool_uses_open [of "[(7, sample_tool_use), (8, sample_tool_use)]"
      "fst (track_stream [(7, sample_tool_use), (8, sample_tool_use)])"
      "snd (track_stream [(7, sample_tool_use), (8, sample_tool_use)])"]
  by (simp add: sample_tool_use_def opened_by_def closed_by_def turn_over_def)

end
