(* ===== verification/Context_Tracker.thy ===== *)
theory Context_Tracker
  imports Events
begin

text \<open>
  The context measurement: \<^verbatim>\<open>contextTracker\<close> of parse.go, fed by inner stream events and results,
  and the windows a session learns from \<^verbatim>\<open>get_context_usage\<close> (context\_usage.go). Both keep windows
  per model name and answer for a bare name from a suffixed key; the locale \<open>window_source\<close> states
  what they promise, and is interpreted on both. Go iterates a map in an unspecified order: the
  order is the argument \<open>it\<close>, a function of the key list.
\<close>

type_synonym iter = "string list \<Rightarrow> string list"

section \<open>Lookup by bare model name\<close>

text \<open>The first key in iteration order that satisfies the test.\<close>

definition iter_find :: "iter \<Rightarrow> (string \<Rightarrow> bool) \<Rightarrow> (string \<times> 'v) list \<Rightarrow> 'v option" where
  "iter_find it P m =
     (case filter (\<lambda>k. P k \<and> map_of m k \<noteq> None) (it (map fst m)) of
        [] \<Rightarrow> None
      | k # _ \<Rightarrow> map_of m k)"

definition lookupModelUsage ::
    "iter \<Rightarrow> (string \<times> ModelUsage) list \<Rightarrow> string \<Rightarrow> ModelUsage option" where
  "lookupModelUsage it mu model =
     (case map_of mu model of
        Some v \<Rightarrow> Some v
      | None \<Rightarrow> iter_find it (\<lambda>k. has_prefix k (model @ ''['')) mu)"

section \<open>The windows of a session\<close>

type_synonym window_store = "(string \<times> int) list"

record ContextCategory =
  cat_Name :: string
  cat_Tokens :: int
  cat_IsDeferred :: bool

record ContextUsage =
  cu_Model :: string
  cu_TotalTokens :: int
  cu_MaxTokens :: int
  cu_RawMaxTokens :: int
  cu_Percentage :: float64
  cu_IsAutoCompactEnabled :: bool
  cu_AutoCompactThreshold :: int
  cu_AutocompactSource :: string
  cu_Categories :: "ContextCategory list"
  cu_Raw :: string

definition Remaining :: "ContextUsage \<Rightarrow> int" where
  "Remaining c =
     (if cu_MaxTokens c \<le> cu_TotalTokens c then 0
      else wrap64 (cu_MaxTokens c - cu_TotalTokens c))"

definition recordContextWindow :: "ContextUsage option \<Rightarrow> window_store \<Rightarrow> window_store" where
  "recordContextWindow u ws =
     (case u of
        None \<Rightarrow> ws
      | Some c \<Rightarrow>
          if cu_Model c = [] then ws
          else
            (let w = (if cu_RawMaxTokens c \<le> 0 then cu_MaxTokens c else cu_RawMaxTokens c) in
             if w \<le> 0 then ws else map_put (cu_Model c) w ws))"

definition observedContextWindow :: "iter \<Rightarrow> window_store \<Rightarrow> string \<Rightarrow> int" where
  "observedContextWindow it ws model =
     (if model = [] then 0
      else case map_of ws model of
        Some w \<Rightarrow> w
      | None \<Rightarrow>
          (case iter_find it
                  (\<lambda>key. has_prefix key (model @ ''['') \<or> has_prefix model (key @ ''['')) ws of
             Some w \<Rightarrow> w
           | None \<Rightarrow> 0))"

section \<open>The tracker\<close>

record contextTracker =
  ct_snapshot :: "ContextSnapshot option"
  ct_lastModel :: string
  ct_windows :: window_store

definition newContextTracker :: contextTracker where
  "newContextTracker = \<lparr>ct_snapshot = None, ct_lastModel = [], ct_windows = []\<rparr>"

definition ct_reset :: "contextTracker \<Rightarrow> contextTracker" where
  "ct_reset t = t\<lparr>ct_snapshot := None, ct_lastModel := []\<rparr>"

definition learnWindow :: "string \<Rightarrow> int \<Rightarrow> contextTracker \<Rightarrow> contextTracker" where
  "learnWindow model window t =
     (if model = [] \<or> window \<le> 0 then t
      else t\<lparr>ct_windows := map_put model window (ct_windows t)\<rparr>)"

definition learnWindows :: "(string \<times> ModelUsage) list \<Rightarrow> contextTracker \<Rightarrow> contextTracker" where
  "learnWindows mu t = foldl (\<lambda>t (model, u). learnWindow model (mu_ContextWindow u) t) t mu"

text \<open>\<open>ext\<close> is the optional out-of-band source \<^verbatim>\<open>externalWindow\<close>.\<close>

definition windowFor :: "iter \<Rightarrow> (string \<Rightarrow> int) option \<Rightarrow> contextTracker \<Rightarrow> string \<Rightarrow> int" where
  "windowFor it ext t model =
     (if model = [] then 0
      else case map_of (ct_windows t) model of
        Some w \<Rightarrow> w
      | None \<Rightarrow>
          (case iter_find it (\<lambda>k. has_prefix k (model @ ''['')) (ct_windows t) of
             Some w \<Rightarrow> w
           | None \<Rightarrow> (case ext of Some f \<Rightarrow> f model | None \<Rightarrow> 0)))"

definition ct_finish ::
    "iter \<Rightarrow> (string \<times> ModelUsage) list \<Rightarrow> contextTracker \<Rightarrow> contextTracker \<times> ContextSnapshot option" where
  "ct_finish it mu t =
     (let t = learnWindows mu t;
          snapshot =
            (case ct_snapshot t of
               None \<Rightarrow> None
             | Some s \<Rightarrow>
                 if ct_lastModel t \<noteq> [] then
                   (case lookupModelUsage it mu (ct_lastModel t) of
                      Some m \<Rightarrow> Some (s\<lparr>cs_ContextWindow := mu_ContextWindow m\<rparr>)
                    | None \<Rightarrow> Some s)
                 else Some s) in
      (ct_reset t, snapshot))"

subsection \<open>Inner stream events\<close>

record rawInnerUsage =
  iu_InputTokens :: int
  iu_CacheReadInputTokens :: int
  iu_CacheCreationInputTokens :: int
  iu_OutputTokens :: int

definition zero_inner_usage :: rawInnerUsage where
  [json_eval]: "zero_inner_usage =
     \<lparr>iu_InputTokens = 0, iu_CacheReadInputTokens = 0, iu_CacheCreationInputTokens = 0,
      iu_OutputTokens = 0\<rparr>"

definition d_inner_usage :: "rawInnerUsage dec" where
  [json_eval]: "d_inner_usage =
     d_struct
       [fld ''input_tokens'' d_int iu_InputTokens iu_InputTokens_update,
        fld ''cache_read_input_tokens'' d_int iu_CacheReadInputTokens iu_CacheReadInputTokens_update,
        fld ''cache_creation_input_tokens'' d_int iu_CacheCreationInputTokens
          iu_CacheCreationInputTokens_update,
        fld ''output_tokens'' d_int iu_OutputTokens iu_OutputTokens_update]"

text \<open>The single string field of \<^verbatim>\<open>rawInnerEventType\<close>: a struct with one field.\<close>

definition d_one :: "string \<Rightarrow> 'a dec \<Rightarrow> 'a dec" where
  [json_eval]: "d_one n d = d_struct [fld n d id id]"

text \<open>\<^verbatim>\<open>rawMessageStart.Message\<close>.\<close>

record rawStartMessage =
  sm_Model :: string
  sm_Usage :: rawInnerUsage

definition d_message_start :: "rawStartMessage dec" where
  [json_eval]: "d_message_start =
     d_one ''message''
       (d_struct
          [fld ''model'' d_str sm_Model sm_Model_update,
           fld ''usage'' d_inner_usage sm_Usage sm_Usage_update])"

definition ct_emit ::
    "iter \<Rightarrow> (string \<Rightarrow> int) option \<Rightarrow> string \<Rightarrow> ContextSnapshotPhase \<Rightarrow> ContextSnapshot
       \<Rightarrow> contextTracker \<Rightarrow> contextTracker \<times> ContextSnapshotEvent option" where
  "ct_emit it ext sessionID phase s t =
     (let window = windowFor it ext t (ct_lastModel t) in
      (t,
       if window = 0 then None
       else Some
         \<lparr>cse_InputTokens = cs_InputTokens s,
          cse_CacheReadInputTokens = cs_CacheReadInputTokens s,
          cse_CacheCreationInputTokens = cs_CacheCreationInputTokens s,
          cse_OutputTokens = cs_OutputTokens s,
          cse_ContextWindow = window,
          cse_Model = ct_lastModel t,
          cse_SessionID = sessionID,
          cse_Phase = phase\<rparr>))"

definition ct_start :: "rawStartMessage \<Rightarrow> ContextSnapshot" where
  "ct_start m =
     \<lparr>cs_InputTokens = iu_InputTokens (sm_Usage m),
      cs_CacheReadInputTokens = iu_CacheReadInputTokens (sm_Usage m),
      cs_CacheCreationInputTokens = iu_CacheCreationInputTokens (sm_Usage m),
      cs_OutputTokens = 0, cs_ContextWindow = 0\<rparr>"

definition ct_observe ::
    "iter \<Rightarrow> (string \<Rightarrow> int) option \<Rightarrow> raw_msg \<Rightarrow> string
       \<Rightarrow> contextTracker \<Rightarrow> contextTracker \<times> ContextSnapshotEvent option" where
  "ct_observe it ext inner sessionID t =
     (case inner of
        None \<Rightarrow> (t, None)
      | Some j \<Rightarrow>
          (case d_one ''type'' d_str j [] of
             (ty, ok) \<Rightarrow>
               if \<not> ok then (t, None)
               else if ty = ''message_start'' then
                 (case d_message_start j \<lparr>sm_Model = [], sm_Usage = zero_inner_usage\<rparr> of
                    (m, ok) \<Rightarrow>
                      if \<not> ok then (t, None)
                      else ct_emit it ext sessionID ContextSnapshotStart (ct_start m)
                             (t\<lparr>ct_snapshot := Some (ct_start m), ct_lastModel := sm_Model m\<rparr>))
               else if ty = ''message_delta'' then
                 (case ct_snapshot t of
                    None \<Rightarrow> (t, None)
                  | Some s \<Rightarrow>
                      (case d_one ''usage'' d_inner_usage j zero_inner_usage of
                         (u, ok) \<Rightarrow>
                           if \<not> ok then (t, None)
                           else
                             (let s' = s\<lparr>cs_OutputTokens := iu_OutputTokens u\<rparr> in
                              ct_emit it ext sessionID ContextSnapshotFinal s'
                                (t\<lparr>ct_snapshot := Some s'\<rparr>))))
               else (t, None)))"

section \<open>What a window source promises\<close>

text \<open>
  The contract between whoever learns windows and whoever divides by them: a learned window is
  positive, the answer for a model that was learned is the latest window, and no answer is
  negative; 0 means unknown.
\<close>

locale window_source =
  fixes inv :: "'s \<Rightarrow> bool"
    and learn :: "string \<Rightarrow> int \<Rightarrow> 's \<Rightarrow> 's"
    and win :: "'s \<Rightarrow> string \<Rightarrow> int"
  assumes learn_inv: "inv s \<Longrightarrow> inv (learn m w s)"
    and win_nonneg: "inv s \<Longrightarrow> 0 \<le> win s m"
    and win_learned: "m \<noteq> [] \<Longrightarrow> 0 < w \<Longrightarrow> win (learn m w s) m = w"
    and learn_ignored: "m = [] \<or> w \<le> 0 \<Longrightarrow> learn m w s = s"
begin

definition learn_all :: "(string \<times> int) list \<Rightarrow> 's \<Rightarrow> 's" where
  "learn_all ws s = foldl (\<lambda>s (m, w). learn m w s) s ws"

lemma learn_all_inv: "inv s \<Longrightarrow> inv (learn_all ws s)"
  unfolding learn_all_def
  by (induction ws arbitrary: s) (auto simp: learn_inv)

lemma win_known_iff: "inv s \<Longrightarrow> win s m \<noteq> 0 \<longleftrightarrow> 0 < win s m"
  using win_nonneg [of s m] by auto

lemma win_learn_again: "m \<noteq> [] \<Longrightarrow> 0 < w \<Longrightarrow> win (learn m w (learn m v s)) m = w"
  by (rule win_learned)

end

subsection \<open>The session's windows\<close>

definition windows_inv :: "window_store \<Rightarrow> bool" where
  "windows_inv ws \<longleftrightarrow> distinct (map fst ws) \<and> (\<forall>(m, w) \<in> set ws. m \<noteq> [] \<and> 0 < w)"

lemma windows_inv_Nil [simp]: "windows_inv []"
  by (simp add: windows_inv_def)

lemma set_map_put: "set (map_put k v m) \<subseteq> insert (k, v) (set m)"
  by (induction k v m rule: map_put.induct) auto

lemma windows_inv_put: "windows_inv ws \<Longrightarrow> m \<noteq> [] \<Longrightarrow> 0 < w \<Longrightarrow> windows_inv (map_put m w ws)"
  using set_map_put [of m w ws] by (auto simp: windows_inv_def distinct_map_put)

lemma windows_inv_map_of: "windows_inv ws \<Longrightarrow> map_of ws m = Some w \<Longrightarrow> 0 < w"
  by (auto simp: windows_inv_def dest: map_of_SomeD)

lemma iter_find_Some:
  "iter_find it P m = Some v \<Longrightarrow> \<exists>k. P k \<and> map_of m k = Some v"
proof -
  assume a: "iter_find it P m = Some v"
  then obtain k ks where f: "filter (\<lambda>k. P k \<and> map_of m k \<noteq> None) (it (map fst m)) = k # ks"
    by (auto simp: iter_find_def split: list.splits)
  then have "k \<in> set (filter (\<lambda>k. P k \<and> map_of m k \<noteq> None) (it (map fst m)))" by simp
  then have "P k" by simp
  moreover have "map_of m k = Some v" using a by (simp add: iter_find_def f del: not_None_eq)
  ultimately show ?thesis by blast
qed

text \<open>What \<^verbatim>\<open>QueryContextUsage\<close> records when the answer names a model and a hard window.\<close>

definition usage_of :: "string \<Rightarrow> int \<Rightarrow> ContextUsage" where
  "usage_of model w =
     \<lparr>cu_Model = model, cu_TotalTokens = 0, cu_MaxTokens = 0, cu_RawMaxTokens = w,
      cu_Percentage = 0, cu_IsAutoCompactEnabled = False, cu_AutoCompactThreshold = 0,
      cu_AutocompactSource = [], cu_Categories = [], cu_Raw = []\<rparr>"

lemma recordContextWindow_usage:
  "recordContextWindow (Some (usage_of m w)) ws = (if m = [] \<or> w \<le> 0 then ws else map_put m w ws)"
  by (simp add: recordContextWindow_def usage_of_def Let_def)

lemma observed_nonneg: "windows_inv ws \<Longrightarrow> 0 \<le> observedContextWindow it ws m"
  by (auto simp: observedContextWindow_def less_imp_le windows_inv_map_of
      split: option.split dest!: iter_find_Some)

interpretation session_windows:
  window_source windows_inv "\<lambda>m w. recordContextWindow (Some (usage_of m w))"
    "observedContextWindow it" for it
proof unfold_locales
  show "windows_inv s \<Longrightarrow> 0 \<le> observedContextWindow it s m" for s m
    by (rule observed_nonneg)
qed (auto simp: recordContextWindow_usage windows_inv_put observedContextWindow_def)

subsection \<open>The tracker's windows\<close>

definition ct_inv :: "contextTracker \<Rightarrow> bool" where
  "ct_inv t \<longleftrightarrow> windows_inv (ct_windows t)"

lemma ct_inv_new: "ct_inv newContextTracker"
  by (simp add: ct_inv_def newContextTracker_def)

lemma ct_inv_learn: "ct_inv t \<Longrightarrow> ct_inv (learnWindow m w t)"
  by (simp add: ct_inv_def learnWindow_def windows_inv_put)

lemma windowFor_nonneg:
  assumes "ct_inv t" "\<And>f. ext = Some f \<Longrightarrow> 0 \<le> f m"
  shows "0 \<le> windowFor it ext t m"
  using assms
  by (auto simp: ct_inv_def windowFor_def less_imp_le windows_inv_map_of
      split: option.split dest!: iter_find_Some)

interpretation tracker_windows: window_source ct_inv learnWindow "windowFor it None" for it
proof unfold_locales
  show "ct_inv t \<Longrightarrow> 0 \<le> windowFor it None t m" for t m
    by (rule windowFor_nonneg) simp_all
  show "ct_inv t \<Longrightarrow> ct_inv (learnWindow m w t)" for t m w
    by (rule ct_inv_learn)
qed (auto simp: windowFor_def learnWindow_def)

lemma learnWindows_is_learn_all:
  "learnWindows mu t = tracker_windows.learn_all (map (\<lambda>(m, u). (m, mu_ContextWindow u)) mu) t"
proof -
  have "foldl (\<lambda>t (m, u). learnWindow m (mu_ContextWindow u) t) t mu
      = foldl (\<lambda>t (m, w). learnWindow m w t) t (map (\<lambda>(m, u). (m, mu_ContextWindow u)) mu)"
    by (induction mu arbitrary: t) auto
  then show ?thesis by (simp add: learnWindows_def tracker_windows.learn_all_def)
qed

lemma ct_inv_learnWindows: "ct_inv t \<Longrightarrow> ct_inv (learnWindows mu t)"
  unfolding learnWindows_is_learn_all by (rule tracker_windows.learn_all_inv)

lemma ct_inv_finish: "ct_inv t \<Longrightarrow> ct_inv (fst (ct_finish it mu t))"
  using ct_inv_learnWindows [of t mu] by (simp add: ct_finish_def ct_inv_def ct_reset_def Let_def)

lemma ct_inv_observe: "ct_inv t \<Longrightarrow> ct_inv (fst (ct_observe it ext inner sid t))"
  by (simp add: ct_observe_def ct_emit_def ct_inv_def Let_def split: option.split prod.split)

lemma windowFor_same [simp]:
  "windowFor it ext (t\<lparr>ct_snapshot := s\<rparr>) m = windowFor it ext t m"
  "windowFor it ext (t\<lparr>ct_snapshot := s, ct_lastModel := l\<rparr>) m = windowFor it ext t m"
  by (simp_all add: windowFor_def cong: option.case_cong)

lemma ct_emit_Some:
  "ct_emit it ext sid ph s t = (t', Some e) \<Longrightarrow>
     t' = t \<and> cse_ContextWindow e = windowFor it ext t (ct_lastModel t)
     \<and> cse_ContextWindow e \<noteq> 0 \<and> cse_Model e = ct_lastModel t \<and> cse_SessionID e = sid"
  by (auto simp: ct_emit_def Let_def split: if_splits)

lemma ct_observe_window:
  assumes "ct_observe it ext inner sid t = (t', Some e)"
  shows "cse_ContextWindow e = windowFor it ext t (cse_Model e) \<and> cse_ContextWindow e \<noteq> 0
    \<and> cse_Model e = ct_lastModel t' \<and> cse_SessionID e = sid"
  using assms
  by (auto simp: ct_observe_def Let_def split: option.splits prod.splits if_splits
      dest!: ct_emit_Some)

lemma learnWindow_keeps [simp]:
  "ct_snapshot (learnWindow m w t) = ct_snapshot t" "ct_lastModel (learnWindow m w t) = ct_lastModel t"
  by (simp_all add: learnWindow_def)

lemma learnWindows_keeps [simp]:
  "ct_snapshot (learnWindows mu t) = ct_snapshot t" "ct_lastModel (learnWindows mu t) = ct_lastModel t"
  unfolding learnWindows_def by (induction mu arbitrary: t) auto

lemma learnWindows_lookup:
  assumes "distinct (map fst mu)" "map_of mu m = Some u" "m \<noteq> []" "0 < mu_ContextWindow u"
  shows "map_of (ct_windows (learnWindows mu t)) m = Some (mu_ContextWindow u)"
  using assms
proof (induction mu arbitrary: t rule: rev_induct)
  case (snoc x mu)
  obtain m' u' where x: "x = (m', u')" by (cases x)
  have notin: "m' \<notin> fst ` set mu" using snoc.prems(1) x by auto
  show ?case
  proof (cases "m' = m")
    case True
    with snoc.prems notin x have "u = u'"
      by (force simp: map_add_def dest: map_of_SomeD split: option.splits)
    with True x snoc.prems show ?thesis
      by (simp add: learnWindows_def learnWindow_def)
  next
    case False
    with snoc x have "map_of mu m = Some u" by (auto simp: map_add_def split: option.splits)
    with snoc x False show ?thesis
      by (simp add: learnWindows_def) (simp add: learnWindow_def)
  qed
qed simp

definition usage_with_window :: "int \<Rightarrow> ModelUsage" where
  "usage_with_window w =
     \<lparr>mu_InputTokens = 0, mu_OutputTokens = 0, mu_CacheReadTokens = 0, mu_CacheCreateTokens = 0,
      mu_CostUSD = 0, mu_ContextWindow = w, mu_MaxOutputTokens = 0, mu_WebSearchRequests = 0,
      mu_WebFetchRequests = 0\<rparr>"

text \<open>The inner event that opens an API call.\<close>

definition message_start_json :: "string \<Rightarrow> json" where
  "message_start_json model =
     JObj [] [(''type'', JStr [] ''message_start''),
              (''message'', JObj [] [(''model'', JStr [] model)])]"

section \<open>Properties\<close>

text \<open>
  A context event never carries a useless window: whatever inner event arrives, in whatever
  order the runtime iterates its maps, an emitted event has a positive window for the model it
  names, given that the out-of-band source never answers with a negative number, which is what a
  session's own windows guarantee.
\<close>

lemma context_events_have_positive_window:
  assumes "ct_inv t" "windows_inv ws"
    and "ct_observe it (Some (observedContextWindow it' ws)) inner sid t = (t', Some e)"
  shows "0 < cse_ContextWindow e \<and> cse_Model e = ct_lastModel t' \<and> cse_SessionID e = sid \<and> ct_inv t'"
proof -
  have "0 \<le> windowFor it (Some (observedContextWindow it' ws)) t (cse_Model e)"
    by (rule windowFor_nonneg) (use assms session_windows.win_nonneg in auto)
  moreover have "ct_inv t'" using ct_inv_observe [OF assms(1)] assms(3) by (metis fst_conv)
  ultimately show ?thesis using ct_observe_window [OF assms(3)] by auto
qed

lemma context_events_have_positive_window_witness:
  "0 < cse_ContextWindow (the (snd (ct_observe id
       (Some (observedContextWindow id [(''opus'', 200000)]))
       (Some (message_start_json ''opus'')) ''s'' newContextTracker)))"
proof -
  let ?o = "ct_observe id (Some (observedContextWindow id [(''opus'', 200000)]))
       (Some (message_start_json ''opus'')) ''s'' newContextTracker"
  have "snd ?o \<noteq> None"
    by code_simp
  then have "?o = (fst ?o, Some (the (snd ?o)))" by (metis option.collapse prod.collapse)
  then show ?thesis
    by (intro context_events_have_positive_window [THEN conjunct1])
       (auto simp: ct_inv_new windows_inv_def)
qed

text \<open>
  A window disclosed by a result is used from then on: after a result whose usage names the
  model with a positive window, the next message start for that model is reported at once with
  that window and the phase "start", whatever the tracker held before, and the output count is zero
  until the delta arrives.
\<close>

lemma disclosed_window_is_remembered:
  assumes "distinct (map fst mu)" "map_of mu m = Some u" "m \<noteq> []" "0 < mu_ContextWindow u"
    and "d_one ''type'' d_str j [] = (''message_start'', True)"
    and "d_message_start j \<lparr>sm_Model = [], sm_Usage = zero_inner_usage\<rparr> = (ms, True)"
    and "sm_Model ms = m"
  shows "\<exists>e. snd (ct_observe it ext (Some j) sid (fst (ct_finish it' mu t))) = Some e
    \<and> cse_ContextWindow e = mu_ContextWindow u \<and> cse_Model e = m \<and> cse_OutputTokens e = 0
    \<and> cse_Phase e = ContextSnapshotStart"
proof -
  have "map_of (ct_windows (fst (ct_finish it' mu t))) m = Some (mu_ContextWindow u)"
    using learnWindows_lookup [OF assms(1-4)] by (simp add: ct_finish_def ct_reset_def Let_def)
  then show ?thesis
    using assms(3-7) by (simp add: ct_observe_def ct_emit_def ct_start_def windowFor_def Let_def)
qed

lemma disclosed_window_is_remembered_witness:
  "snd (ct_observe id None (Some (message_start_json ''opus'')) ''s''
          (fst (ct_finish id [(''opus'', usage_with_window 200000)] newContextTracker))) \<noteq> None"
proof -
  have "\<exists>e. snd (ct_observe id None (Some (message_start_json ''opus'')) ''s''
          (fst (ct_finish id [(''opus'', usage_with_window 200000)] newContextTracker))) = Some e
      \<and> cse_ContextWindow e = mu_ContextWindow (usage_with_window 200000) \<and> cse_Model e = ''opus''
      \<and> cse_OutputTokens e = 0 \<and> cse_Phase e = ContextSnapshotStart"
    by (rule disclosed_window_is_remembered
          [where ms = "\<lparr>sm_Model = ''opus'', sm_Usage = zero_inner_usage\<rparr>"])
       (simp_all add: usage_with_window_def, code_simp+)
  then show ?thesis by auto
qed

text \<open>
  A result closes the measurement: the snapshot it hands out carries the numbers measured since
  the last message start, with the window of the model's own usage entry when there is one, and a
  message delta that follows without a new start changes nothing and emits nothing.
\<close>

lemma finish_resets_the_measurement:
  "ct_snapshot (fst (ct_finish it mu t)) = None
   \<and> ct_lastModel (fst (ct_finish it mu t)) = []
   \<and> map_option (\<lambda>s. s\<lparr>cs_ContextWindow := 0\<rparr>) (snd (ct_finish it mu t))
       = map_option (\<lambda>s. s\<lparr>cs_ContextWindow := 0\<rparr>) (ct_snapshot t)
   \<and> (d_one ''type'' d_str j [] = (''message_delta'', ok) \<longrightarrow>
        ct_observe it ext (Some j) sid (fst (ct_finish it mu t)) = (fst (ct_finish it mu t), None))"
  by (auto simp: ct_finish_def ct_reset_def ct_observe_def Let_def split: option.split)

end
