(* ===== verification/Bounded_Buffer.thy ===== *)
theory Bounded_Buffer
  imports Prelude
begin

text \<open>
  The contract of a bounded buffer that drops its oldest entry when full, which three components
  implement by different means: the ring of stderr lines (internal.go), the orphan ring and the
  channel of a query handle (router.go).
\<close>

locale drop_oldest =
  fixes inv :: "'s \<Rightarrow> bool"
    and add :: "'a \<Rightarrow> 's \<Rightarrow> 's"
    and items :: "'s \<Rightarrow> 'a list"
    and cap :: nat
  assumes add_inv: "inv s \<Longrightarrow> inv (add x s)"
    and add_items: "inv s \<Longrightarrow> items (add x s) = last_n cap (items s @ [x])"
    and items_cap: "inv s \<Longrightarrow> length (items s) \<le> cap"
begin

definition add_all :: "'a list \<Rightarrow> 's \<Rightarrow> 's" where
  "add_all xs s = foldl (\<lambda>s x. add x s) s xs"

lemma add_all_Nil [simp]: "add_all [] s = s"
  by (simp add: add_all_def)

lemma add_all_snoc [simp]: "add_all (xs @ [x]) s = add x (add_all xs s)"
  by (simp add: add_all_def)

lemma add_all_append: "add_all (xs @ ys) s = add_all ys (add_all xs s)"
  by (simp add: add_all_def)

lemma add_all_inv: "inv s \<Longrightarrow> inv (add_all xs s)"
  by (induction xs rule: rev_induct) (auto simp: add_inv)

lemma add_all_items: "inv s \<Longrightarrow> items (add_all xs s) = last_n cap (items s @ xs)"
proof (induction xs rule: rev_induct)
  case Nil
  then show ?case by (simp add: items_cap)
next
  case (snoc x xs)
  then show ?case
    by (simp add: add_items add_all_inv)
       (metis append_assoc last_n_snoc)
qed

lemma add_all_bound: "inv s \<Longrightarrow> length (items (add_all xs s)) \<le> cap"
  by (simp add: add_all_inv items_cap)

text \<open>Nothing is lost while there is room.\<close>

lemma add_all_room:
  "inv s \<Longrightarrow> length (items s) + length xs \<le> cap \<Longrightarrow> items (add_all xs s) = items s @ xs"
  by (simp add: add_all_items)

text \<open>The newest entry is always there.\<close>

lemma newest_kept: "inv s \<Longrightarrow> 0 < cap \<Longrightarrow> x \<in> set (items (add x s))"
  by (auto simp: add_items last_n_def drop_Cons' Suc_diff_le)

end

end
