(* ===== verification/Router.thy ===== *)
theory Router
  imports Events Bounded_Buffer
begin

text \<open>
  router.go: query generations, the handles with their bounded mailboxes, and the orphan ring. A
  pointer to a handle is its index in the list of all handles ever created. A channel is the list of
  its buffered events with a closed flag. Every operation here runs under the router's lock in the
  code, so each is one function; how they interleave with the rest is in \<open>Session_Steps\<close>. Generations
  and drop counters are 64-bit words.
\<close>

type_synonym gen = "64 word"

section \<open>State\<close>

text \<open>What flows through the pump: an event, or the barrier of \<^verbatim>\<open>EnableRouting\<close>.\<close>

datatype pumped = PEvent event | PBarrier

record stampedEvent =
  sv_ev :: pumped
  sv_at :: nanos
  sv_gen :: gen

record OrphanEvent =
  oe_Event :: "event option"
  oe_ArrivedAt :: nanos
  oe_ActiveQueryAtArrival :: gen

definition zero_orphan :: OrphanEvent where
  "zero_orphan = \<lparr>oe_Event = None, oe_ArrivedAt = 0, oe_ActiveQueryAtArrival = 0\<rparr>"

datatype close_reason = QueryDetached | SessionEnded | OtherReason go_error

record QueryHandle =
  qh_gen :: gen
  qh_ch :: "event list"
  qh_closed :: bool
  qh_dropped :: "64 word"
  qh_detached :: bool
  qh_closeReason :: "close_reason option"

record eventRouter =
  er_active :: "nat option"
  er_orphans :: "OrphanEvent list"
  er_head :: nat
  er_count :: nat
  er_orphansDropped :: "64 word"
  er_mailboxDropped :: "64 word"
  er_shutdown :: bool

definition orphanMailboxCap :: nat where
  "orphanMailboxCap = 128"

definition queryMailboxCap :: nat where
  "queryMailboxCap = 256"

definition newEventRouter :: eventRouter where
  "newEventRouter =
     \<lparr>er_active = None, er_orphans = replicate orphanMailboxCap zero_orphan, er_head = 0,
      er_count = 0, er_orphansDropped = 0, er_mailboxDropped = 0, er_shutdown = False\<rparr>"

section \<open>The orphan ring\<close>

definition drop_first :: "eventRouter \<Rightarrow> eventRouter" where
  "drop_first r =
     r\<lparr>er_orphans := (er_orphans r)[er_head r := zero_orphan],
       er_head := (er_head r + 1) mod length (er_orphans r),
       er_count := er_count r - 1,
       er_orphansDropped := er_orphansDropped r + 1\<rparr>"

definition addOrphanLocked :: "OrphanEvent \<Rightarrow> eventRouter \<Rightarrow> eventRouter" where
  "addOrphanLocked oe r0 =
     (let r = (if er_count r0 = length (er_orphans r0) then drop_first r0 else r0) in
      r\<lparr>er_orphans :=
          (er_orphans r)[(er_head r + er_count r) mod length (er_orphans r) := oe],
        er_count := er_count r + 1\<rparr>)"

definition orphan_list :: "eventRouter \<Rightarrow> OrphanEvent list" where
  "orphan_list r =
     map (\<lambda>i. er_orphans r ! ((er_head r + i) mod length (er_orphans r))) [0..<er_count r]"

text \<open>The loop of \<^verbatim>\<open>DrainOrphans\<close> clears each slot as it copies it.\<close>

definition clear_slots :: "eventRouter \<Rightarrow> OrphanEvent list" where
  "clear_slots r =
     foldl (\<lambda>os i. os[(er_head r + i) mod length (er_orphans r) := zero_orphan])
       (er_orphans r) [0..<er_count r]"

definition router_drain :: "eventRouter \<Rightarrow> eventRouter \<times> OrphanEvent list" where
  "router_drain r =
     (if er_count r = 0 then (r, [])
      else (r\<lparr>er_orphans := clear_slots r, er_head := 0, er_count := 0\<rparr>, orphan_list r))"

section \<open>Mailboxes\<close>

text \<open>
  A send into a full mailbox drops the oldest event and tries again; the sender holds the lock, so
  the second try succeeds.
\<close>

definition mailbox_send :: "event \<Rightarrow> event list \<times> 64 word \<Rightarrow> event list \<times> 64 word" where
  "mailbox_send ev m =
     (case m of (ch, dropped) \<Rightarrow>
        if length ch < queryMailboxCap then (ch @ [ev], dropped)
        else (tl ch @ [ev], dropped + 1))"

section \<open>Routing\<close>

definition live_handle :: "QueryHandle list \<Rightarrow> eventRouter \<Rightarrow> gen \<Rightarrow> nat option" where
  "live_handle hs r g =
     (case er_active r of
        None \<Rightarrow> None
      | Some i \<Rightarrow> if \<not> qh_detached (hs ! i) \<and> g = qh_gen (hs ! i) then Some i else None)"

definition route_event ::
    "event \<Rightarrow> nanos \<Rightarrow> gen \<Rightarrow> QueryHandle list \<times> eventRouter \<Rightarrow> QueryHandle list \<times> eventRouter" where
  "route_event ev arr g s =
     (case s of (hs, r) \<Rightarrow>
        if er_shutdown r then (hs, r)
        else case live_handle hs r g of
          Some i \<Rightarrow>
            (let h = hs ! i; (ch, dropped) = mailbox_send ev (qh_ch h, qh_dropped h) in
             (hs[i := h\<lparr>qh_ch := ch, qh_dropped := dropped\<rparr>],
              if length (qh_ch h) < queryMailboxCap then r
              else r\<lparr>er_mailboxDropped := er_mailboxDropped r + 1\<rparr>))
        | None \<Rightarrow>
            (hs, addOrphanLocked
                   \<lparr>oe_Event = Some ev, oe_ArrivedAt = arr, oe_ActiveQueryAtArrival = g\<rparr> r))"

text \<open>\<^verbatim>\<open>flushLegacyBuffered\<close>: what was buffered before routing becomes orphans of no query.\<close>

definition flushLegacyBuffered :: "nanos \<Rightarrow> event list \<Rightarrow> eventRouter \<Rightarrow> eventRouter" where
  "flushLegacyBuffered now evs r =
     foldl (\<lambda>r ev. addOrphanLocked
              \<lparr>oe_Event = Some ev, oe_ArrivedAt = now, oe_ActiveQueryAtArrival = 0\<rparr> r) r evs"

definition detachLocked ::
    "nat option \<Rightarrow> close_reason \<Rightarrow> QueryHandle list \<times> eventRouter \<Rightarrow> QueryHandle list \<times> eventRouter" where
  "detachLocked p reason s =
     (case s of (hs, r) \<Rightarrow>
        (case p of
           None \<Rightarrow> (hs, r)
         | Some i \<Rightarrow>
             if qh_detached (hs ! i) then (hs, r)
             else
               (hs[i := (hs ! i)\<lparr>qh_detached := True, qh_closeReason := Some reason,
                                 qh_closed := True\<rparr>],
                if er_active r = Some i then r\<lparr>er_active := None\<rparr> else r)))"

text \<open>
  \<^verbatim>\<open>armQuery\<close> up to the release of the lock: a new handle for generation \<open>g\<close>, closed at once when
  the session is over, else the active one, after the one it supersedes was detached.
\<close>

definition arm_locked :: "gen \<Rightarrow> QueryHandle list \<times> eventRouter \<Rightarrow> QueryHandle list \<times> eventRouter" where
  "arm_locked g s =
     (case s of (hs, r) \<Rightarrow>
        let h = \<lparr>qh_gen = g, qh_ch = [], qh_closed = False, qh_dropped = 0, qh_detached = False,
                 qh_closeReason = None\<rparr> in
        if er_shutdown r then
          (hs @ [h\<lparr>qh_detached := True, qh_closeReason := Some SessionEnded, qh_closed := True\<rparr>], r)
        else
          (case detachLocked (er_active r) QueryDetached (hs, r) of
             (hs', r') \<Rightarrow> (hs' @ [h], r'\<lparr>er_active := Some (length hs')\<rparr>)))"

definition shutdown_locked ::
    "close_reason \<Rightarrow> QueryHandle list \<times> eventRouter \<Rightarrow> QueryHandle list \<times> eventRouter" where
  "shutdown_locked reason s =
     (case detachLocked (er_active (snd s)) reason s of (hs, r) \<Rightarrow> (hs, r\<lparr>er_shutdown := True\<rparr>))"

section \<open>Waiting on a handle\<close>

text \<open>
  \<^verbatim>\<open>QueryHandle.Wait\<close> over what the mailbox holds: it stops at the first terminal event, or at the
  end of a closed mailbox, or it blocks.
\<close>

datatype wait_outcome =
    WaitResult ResultEvent
  | WaitError go_error
  | WaitClosed close_reason
  | WaitBlocked

definition exit_wait_error :: "CLIExitEvent \<Rightarrow> go_error" where
  "exit_wait_error e =
     (case cx_Err e of
        Some g \<Rightarrow> EWrap ''cli exited before result: '' g []
      | None \<Rightarrow> ENew (''cli exited before result ('' @ exit_reason_name (cx_Reason e) @ '')''))"

fun wait_loop :: "event list \<Rightarrow> wait_outcome option \<times> event list" where
  "wait_loop [] = (None, [])"
| "wait_loop (ev # evs) =
     (case ev of
        EvResult r \<Rightarrow> (Some (WaitResult r), evs)
      | EvError e \<Rightarrow> if ee_Fatal e then (Some (WaitError (ee_Err e)), evs) else wait_loop evs
      | EvCLIExit e \<Rightarrow> (Some (WaitError (exit_wait_error e)), evs)
      | _ \<Rightarrow> wait_loop evs)"

definition handle_wait :: "QueryHandle \<Rightarrow> QueryHandle \<times> wait_outcome" where
  "handle_wait h =
     (case wait_loop (qh_ch h) of
        (Some out, rest) \<Rightarrow> (h\<lparr>qh_ch := rest\<rparr>, out)
      | (None, rest) \<Rightarrow>
          (h\<lparr>qh_ch := rest\<rparr>,
           if qh_closed h then
             WaitClosed (case qh_closeReason h of Some c \<Rightarrow> c | None \<Rightarrow> SessionEnded)
           else WaitBlocked))"

section \<open>The ring is a bounded buffer\<close>

definition ring_ok :: "eventRouter \<Rightarrow> bool" where
  "ring_ok r \<longleftrightarrow>
     length (er_orphans r) = orphanMailboxCap \<and> er_head r < orphanMailboxCap
     \<and> er_count r \<le> orphanMailboxCap"

lemma ring_ok_new: "ring_ok newEventRouter"
  by (simp add: ring_ok_def newEventRouter_def orphanMailboxCap_def)

lemma cap_pos [simp]: "0 < orphanMailboxCap" "0 < queryMailboxCap"
  by (simp_all add: orphanMailboxCap_def queryMailboxCap_def)

lemma orphan_list_length [simp]: "length (orphan_list r) = er_count r"
  by (simp add: orphan_list_def)

lemma ring_ok_add: "ring_ok r \<Longrightarrow> ring_ok (addOrphanLocked oe r)"
  by (auto simp: ring_ok_def addOrphanLocked_def drop_first_def Let_def)

text \<open>The slots of a ring from its head: different offsets are different slots.\<close>

lemma slot_if: "h < n \<Longrightarrow> i < n \<Longrightarrow> (h + i) mod n = (if h + i < n then h + i else h + i - n)" for n :: nat
  by (simp add: mod_if)

lemma slot_inj:
  fixes n :: nat
  assumes "h < n" "i < n" "j < n" "(h + i) mod n = (h + j) mod n"
  shows "i = j"
  using assms by (auto simp: slot_if split: if_splits)

lemma orphan_list_room:
  assumes ok: "ring_ok r" and room: "er_count r < orphanMailboxCap"
  shows "orphan_list (addOrphanLocked oe r) = orphan_list r @ [oe]"
proof -
  let ?n = "length (er_orphans r)"
  have n: "?n = orphanMailboxCap" "er_head r < ?n" using ok by (auto simp: ring_ok_def)
  let ?s = "(er_head r + er_count r) mod ?n"
  have "(er_orphans r)[?s := oe] ! ((er_head r + i) mod ?n) = er_orphans r ! ((er_head r + i) mod ?n)"
    if "i < er_count r" for i
  proof (rule nth_list_update_neq)
    show "?s \<noteq> (er_head r + i) mod ?n"
      using slot_inj [OF n(2), of "er_count r" i] that room n(1) by auto
  qed
  moreover have "?s < ?n" using n by simp
  ultimately show ?thesis
    using room n by (simp add: orphan_list_def addOrphanLocked_def Let_def)
qed

lemma add_full:
  "er_count r = length (er_orphans r) \<Longrightarrow> 0 < er_count r \<Longrightarrow>
     addOrphanLocked oe r = addOrphanLocked oe (drop_first r)"
proof -
  assume full: "er_count r = length (er_orphans r)" "0 < er_count r"
  have "er_count r - 1 \<noteq> er_count r" using full(2) by linarith
  with full(1) have "er_count (drop_first r) \<noteq> length (er_orphans (drop_first r))"
    by (simp add: drop_first_def)
  with full(1) show ?thesis by (simp add: addOrphanLocked_def)
qed

lemma drop_first_list:
  assumes ok: "ring_ok r" and full: "er_count r = orphanMailboxCap"
  shows "orphan_list (drop_first r) = tl (orphan_list r)"
proof (rule nth_equalityI)
  show "length (orphan_list (drop_first r)) = length (tl (orphan_list r))"
    by (simp add: drop_first_def)
next
  fix i
  assume "i < length (orphan_list (drop_first r))"
  then have i: "Suc i < er_count r" using full by (simp add: drop_first_def)
  let ?n = "length (er_orphans r)"
  have n: "?n = orphanMailboxCap" "er_head r < ?n" using ok by (auto simp: ring_ok_def)
  have "(er_head r + 1) mod ?n + i = ((er_head r + 1) mod ?n + i)" by simp
  have s: "((er_head r + 1) mod ?n + i) mod ?n = (er_head r + Suc i) mod ?n"
    by (simp add: mod_add_left_eq)
  have ne: "(er_head r + Suc i) mod ?n \<noteq> er_head r"
    using slot_inj [OF n(2), of "Suc i" 0] i full n by auto
  have "orphan_list (drop_first r) ! i
      = (er_orphans r)[er_head r := zero_orphan] ! (((er_head r + 1) mod ?n + i) mod ?n)"
    using i by (simp add: orphan_list_def drop_first_def)
  also have "\<dots> = er_orphans r ! ((er_head r + Suc i) mod ?n)"
    unfolding s using ne by (intro nth_list_update_neq) simp
  also have "\<dots> = tl (orphan_list r) ! i"
    using i by (simp add: orphan_list_def nth_tl)
  finally show "orphan_list (drop_first r) ! i = tl (orphan_list r) ! i" .
qed

lemma orphan_list_add:
  assumes ok: "ring_ok r"
  shows "orphan_list (addOrphanLocked oe r) = last_n orphanMailboxCap (orphan_list r @ [oe])"
proof (cases "er_count r < orphanMailboxCap")
  case True
  with ok show ?thesis by (simp add: orphan_list_room)
next
  case False
  with ok have full: "er_count r = orphanMailboxCap" by (simp add: ring_ok_def)
  have ok1: "ring_ok (drop_first r)" "er_count (drop_first r) < orphanMailboxCap"
    using ok full by (auto simp: ring_ok_def drop_first_def)
  have "orphan_list (addOrphanLocked oe r) = tl (orphan_list r) @ [oe]"
    using add_full [of r oe] orphan_list_room [OF ok1] drop_first_list [OF ok full] ok full
    by (simp add: ring_ok_def)
  also have "\<dots> = last_n orphanMailboxCap (orphan_list r @ [oe])"
    using full by (simp add: last_n_def drop_Suc tl_append orphanMailboxCap_def split: list.split)
  finally show ?thesis .
qed

interpretation orphan_ring: drop_oldest ring_ok addOrphanLocked orphan_list orphanMailboxCap
  by unfold_locales (auto simp: ring_ok_add orphan_list_add, simp add: ring_ok_def)

definition mailbox_ok :: "event list \<times> 64 word \<Rightarrow> bool" where
  "mailbox_ok m \<longleftrightarrow> length (fst m) \<le> queryMailboxCap"

lemma mailbox_send_items:
  assumes "mailbox_ok m"
  shows "fst (mailbox_send ev m) = last_n queryMailboxCap (fst m @ [ev])"
proof (cases m)
  case (Pair ch d)
  show ?thesis
  proof (cases "length ch < queryMailboxCap")
    case True
    with Pair show ?thesis by (simp add: mailbox_send_def)
  next
    case False
    with assms Pair have "length ch = queryMailboxCap" by (simp add: mailbox_ok_def)
    moreover from this have "ch \<noteq> []" using cap_pos(2) by (metis less_numeral_extra(3) list.size(3))
    ultimately show ?thesis
      using Pair False by (cases ch) (auto simp: mailbox_send_def last_n_def)
  qed
qed

interpretation query_mailbox: drop_oldest mailbox_ok mailbox_send fst queryMailboxCap
proof unfold_locales
  show "mailbox_ok m \<Longrightarrow> mailbox_ok (mailbox_send ev m)" for m ev
    by (simp add: mailbox_ok_def mailbox_send_items)
qed (simp_all add: mailbox_send_items, simp add: mailbox_ok_def)

section \<open>Runs of the router\<close>

text \<open>
  The operations the session performs under the router's lock, in any order. A handle that does not
  exist cannot be detached.
\<close>

datatype router_op =
    ORoute event nanos gen
  | OArm gen
  | ODetach nat close_reason
  | OShutdown close_reason
  | ODrain

fun router_step :: "router_op \<Rightarrow> QueryHandle list \<times> eventRouter \<Rightarrow> QueryHandle list \<times> eventRouter" where
  "router_step (ORoute ev t g) s = route_event ev t g s"
| "router_step (OArm g) s = arm_locked g s"
| "router_step (ODetach i reason) s =
     (if i < length (fst s) then detachLocked (Some i) reason s else s)"
| "router_step (OShutdown reason) s = shutdown_locked reason s"
| "router_step ODrain s = (fst s, fst (router_drain (snd s)))"

definition router_run :: "router_op list \<Rightarrow> QueryHandle list \<times> eventRouter" where
  "router_run ops = foldl (\<lambda>s a. router_step a s) ([], newEventRouter) ops"

lemma router_run_Nil [simp]: "router_run [] = ([], newEventRouter)"
  by (simp add: router_run_def)

lemma router_run_snoc [simp]: "router_run (ops @ [a]) = router_step a (router_run ops)"
  by (simp add: router_run_def)

text \<open>The active handle is the only one that is not detached; detached handles are closed.\<close>

definition handle_ok :: "QueryHandle \<Rightarrow> bool" where
  "handle_ok h \<longleftrightarrow> (qh_detached h \<longleftrightarrow> qh_closed h) \<and> length (qh_ch h) \<le> queryMailboxCap"

definition open_handles :: "QueryHandle list \<Rightarrow> nat set" where
  "open_handles hs = {i. i < length hs \<and> \<not> qh_detached (hs ! i)}"

definition router_inv :: "QueryHandle list \<times> eventRouter \<Rightarrow> bool" where
  "router_inv s \<longleftrightarrow>
     list_all handle_ok (fst s)
     \<and> open_handles (fst s) = set_option (er_active (snd s))
     \<and> (er_shutdown (snd s) \<longrightarrow> er_active (snd s) = None)
     \<and> ring_ok (snd s)"

lemma router_invI:
  "list_all handle_ok hs \<Longrightarrow> open_handles hs = set_option (er_active r) \<Longrightarrow>
     (er_shutdown r \<Longrightarrow> er_active r = None) \<Longrightarrow> ring_ok r \<Longrightarrow> router_inv (hs, r)"
  by (simp add: router_inv_def)

lemma open_handles_update:
  "i < length hs \<Longrightarrow> open_handles (hs[i := h])
     = (if qh_detached h then open_handles hs - {i} else insert i (open_handles hs))"
  by (auto simp: open_handles_def nth_list_update)

lemma open_handles_snoc:
  "open_handles (hs @ [h]) = (if qh_detached h then open_handles hs else insert (length hs) (open_handles hs))"
  by (auto simp: open_handles_def nth_append less_Suc_eq)

lemma handle_ok_update:
  "list_all handle_ok hs \<Longrightarrow> handle_ok h \<Longrightarrow> list_all handle_ok (hs[i := h])"
  using set_update_subset_insert [of hs i h] by (auto simp: list_all_iff)

lemma addOrphan_keeps [simp]:
  "er_active (addOrphanLocked oe r) = er_active r" "er_shutdown (addOrphanLocked oe r) = er_shutdown r"
  by (simp_all add: addOrphanLocked_def drop_first_def Let_def)

lemma length_clear_slots [simp]: "length (clear_slots r) = length (er_orphans r)"
proof -
  have "length (foldl (\<lambda>os i. os[f i := zero_orphan]) os xs) = length os" for f :: "nat \<Rightarrow> nat" and os xs
    by (induction xs arbitrary: os) auto
  then show ?thesis by (simp add: clear_slots_def)
qed

lemma live_handle_Some:
  assumes "live_handle hs r g = Some i" "router_inv (hs, r)"
  shows "er_active r = Some i \<and> i < length hs \<and> \<not> qh_detached (hs ! i) \<and> qh_gen (hs ! i) = g"
proof -
  have a: "er_active r = Some i" "\<not> qh_detached (hs ! i)" "g = qh_gen (hs ! i)"
    using assms(1) by (auto simp: live_handle_def split: option.splits if_splits)
  then have "i \<in> open_handles hs" using assms(2) by (simp add: router_inv_def)
  with a show ?thesis by (simp add: open_handles_def)
qed

lemma router_inv_route:
  assumes inv: "router_inv (hs, r)"
  shows "router_inv (route_event ev t g (hs, r))"
proof (cases "er_shutdown r \<or> live_handle hs r g = None")
  case True
  with inv show ?thesis
    by (auto simp: route_event_def router_inv_def ring_ok_add)
next
  case False
  then obtain i where live: "live_handle hs r g = Some i" and up: "\<not> er_shutdown r" by auto
  have i: "i < length hs" "\<not> qh_detached (hs ! i)" "er_active r = Some i"
    using live_handle_Some [OF live inv] by auto
  have hok: "handle_ok (hs ! i)" using inv i(1) by (simp add: router_inv_def list_all_length)
  have ok: "mailbox_ok (qh_ch (hs ! i), qh_dropped (hs ! i))"
    using hok by (simp add: handle_ok_def mailbox_ok_def)
  obtain ch d where m: "mailbox_send ev (qh_ch (hs ! i), qh_dropped (hs ! i)) = (ch, d)"
    by (cases "mailbox_send ev (qh_ch (hs ! i), qh_dropped (hs ! i))")
  have "length ch \<le> queryMailboxCap"
    using query_mailbox.add_inv [OF ok, of ev] m by (simp add: mailbox_ok_def)
  then have h: "handle_ok ((hs ! i)\<lparr>qh_ch := ch, qh_dropped := d\<rparr>)"
    using hok by (simp add: handle_ok_def)
  have all: "list_all handle_ok (hs[i := (hs ! i)\<lparr>qh_ch := ch, qh_dropped := d\<rparr>])"
    using handle_ok_update h inv by (simp add: router_inv_def)
  have "open_handles (hs[i := (hs ! i)\<lparr>qh_ch := ch, qh_dropped := d\<rparr>]) = set_option (er_active r)"
    using i inv by (simp add: open_handles_update router_inv_def)
  with all inv up show ?thesis
    by (simp add: route_event_def live m Let_def router_inv_def ring_ok_def)
qed

lemma router_inv_detach:
  assumes inv: "router_inv (hs, r)" and p: "\<And>i. p = Some i \<Longrightarrow> i < length hs"
  shows "router_inv (detachLocked p reason (hs, r))"
proof (cases p)
  case None
  with inv show ?thesis by (simp add: detachLocked_def)
next
  case (Some j)
  have j: "j < length hs" using p Some by simp
  show ?thesis
  proof (cases "qh_detached (hs ! j)")
    case True
    with inv Some show ?thesis by (simp add: detachLocked_def)
  next
    case False
    then have "j \<in> open_handles hs" using j by (simp add: open_handles_def)
    then have act: "er_active r = Some j" using inv by (simp add: router_inv_def)
    let ?h = "(hs ! j)\<lparr>qh_detached := True, qh_closeReason := Some reason, qh_closed := True\<rparr>"
    have "handle_ok (hs ! j)" using inv j by (simp add: router_inv_def list_all_length)
    then have "handle_ok ?h" by (simp add: handle_ok_def)
    then have all: "list_all handle_ok (hs[j := ?h])"
      using handle_ok_update inv by (simp add: router_inv_def)
    have "open_handles (hs[j := ?h]) = {}"
      using inv act j by (simp add: open_handles_update router_inv_def)
    with all inv Some False act show ?thesis
      by (simp add: detachLocked_def router_inv_def ring_ok_def)
  qed
qed

lemma router_inv_detach_active:
  "router_inv (hs, r) \<Longrightarrow> router_inv (detachLocked (er_active r) reason (hs, r))"
proof (rule router_inv_detach)
  assume inv: "router_inv (hs, r)"
  fix i assume "er_active r = Some i"
  then have "i \<in> open_handles hs" using inv by (simp add: router_inv_def)
  then show "i < length hs" by (simp add: open_handles_def)
qed simp

lemma detach_active_None:
  assumes inv: "router_inv (hs, r)" and d: "detachLocked (er_active r) reason (hs, r) = (hs', r')"
  shows "er_active r' = None \<and> er_shutdown r' = er_shutdown r \<and> length hs' = length hs"
proof (cases "er_active r")
  case None
  with d show ?thesis by (simp add: detachLocked_def)
next
  case (Some i)
  then have "i \<in> open_handles hs" using inv by (simp add: router_inv_def)
  then have "\<not> qh_detached (hs ! i)" by (simp add: open_handles_def)
  with Some d show ?thesis by (auto simp: detachLocked_def)
qed

lemma router_inv_arm:
  assumes inv: "router_inv (hs, r)"
  shows "router_inv (arm_locked g (hs, r))"
proof (cases "er_shutdown r")
  case True
  with inv show ?thesis
    by (simp add: arm_locked_def Let_def router_inv_def handle_ok_def open_handles_snoc)
next
  case False
  obtain hs' r' where d: "detachLocked (er_active r) QueryDetached (hs, r) = (hs', r')"
    by (cases "detachLocked (er_active r) QueryDetached (hs, r)")
  have inv': "router_inv (hs', r')"
    using router_inv_detach_active [OF inv, of QueryDetached] d by simp
  have n: "er_active r' = None" "\<not> er_shutdown r'"
    using detach_active_None [OF inv d] False by auto
  with inv' False d show ?thesis
    by (simp add: arm_locked_def Let_def router_inv_def handle_ok_def open_handles_snoc ring_ok_def)
qed

lemma router_inv_shutdown:
  assumes inv: "router_inv (hs, r)"
  shows "router_inv (shutdown_locked reason (hs, r))"
proof -
  obtain hs' r' where d: "detachLocked (er_active r) reason (hs, r) = (hs', r')"
    by (cases "detachLocked (er_active r) reason (hs, r)")
  have "router_inv (hs', r')" using router_inv_detach_active [OF inv, of reason] d by simp
  with detach_active_None [OF inv d] d show ?thesis
    by (simp add: shutdown_locked_def router_inv_def ring_ok_def)
qed

lemma ring_ok_drain: "ring_ok r \<Longrightarrow> ring_ok (fst (router_drain r))"
  by (simp add: router_drain_def ring_ok_def)

lemma router_inv_step: "router_inv s \<Longrightarrow> router_inv (router_step a s)"
proof (cases s)
  case (Pair hs r)
  assume "router_inv s"
  then have inv: "router_inv (hs, r)" using Pair by simp
  show ?thesis
  proof (cases a)
    case ODrain
    with inv Pair show ?thesis
      by (simp add: router_inv_def ring_ok_drain) (simp add: router_drain_def)
  next
    case (ODetach i reason)
    with inv Pair show ?thesis by (auto intro: router_inv_detach)
  qed (use inv Pair in \<open>simp_all add: router_inv_route router_inv_arm router_inv_shutdown\<close>)
qed

lemma router_inv_run: "router_inv (router_run ops)"
proof (induction ops rule: rev_induct)
  case Nil
  show ?case by (simp add: router_inv_def ring_ok_new) (simp add: newEventRouter_def open_handles_def)
qed (simp add: router_inv_step)

section \<open>Whose events a mailbox holds\<close>

definition owned :: "router_op list \<Rightarrow> QueryHandle \<Rightarrow> bool" where
  "owned ops h \<longleftrightarrow> (\<forall>ev \<in> set (qh_ch h). \<exists>t. ORoute ev t (qh_gen h) \<in> set ops)"

lemma owned_mono: "owned ops h \<Longrightarrow> owned (ops @ [a]) h"
  by (fastforce simp: owned_def)

lemma list_all_update: "list_all P xs \<Longrightarrow> P y \<Longrightarrow> list_all P (xs[i := y])"
  using set_update_subset_insert [of xs i y] by (auto simp: list_all_iff)

lemma mailbox_send_subset: "set (fst (mailbox_send ev (ch, d))) \<subseteq> insert ev (set ch)"
  by (auto simp: mailbox_send_def dest: list.set_sel(2) [rotated])

lemma owned_detach:
  assumes "list_all (owned ops) hs" "p = Some i \<Longrightarrow> i < length hs"
  shows "list_all (owned ops) (fst (detachLocked p reason (hs, r)))"
proof (cases p)
  case (Some j)
  show ?thesis
  proof (cases "j < length hs")
    case True
    with assms(1) have "owned ops (hs ! j)" by (simp add: list_all_length)
    then have "owned ops ((hs ! j)\<lparr>qh_detached := True, qh_closeReason := Some reason, qh_closed := True\<rparr>)"
      by (simp add: owned_def)
    with assms(1) Some show ?thesis by (simp add: detachLocked_def list_all_update)
  next
    case False
    with assms(1) Some show ?thesis by (simp add: detachLocked_def list_update_beyond)
  qed
qed (use assms in \<open>simp add: detachLocked_def\<close>)

lemma owned_route:
  assumes "list_all (owned ops) hs" "router_inv (hs, r)"
  shows "list_all (owned (ops @ [ORoute ev t g])) (fst (route_event ev t g (hs, r)))"
proof -
  have mono: "list_all (owned (ops @ [ORoute ev t g])) hs"
    using assms(1) owned_mono by (auto simp: list_all_iff)
  show ?thesis
  proof (cases "er_shutdown r \<or> live_handle hs r g = None")
    case True
    with mono show ?thesis by (auto simp: route_event_def)
  next
    case False
    then obtain i where live: "live_handle hs r g = Some i" and up: "\<not> er_shutdown r" by auto
    have i: "i < length hs" "qh_gen (hs ! i) = g" using live_handle_Some [OF live assms(2)] by auto
    obtain ch d where m: "mailbox_send ev (qh_ch (hs ! i), qh_dropped (hs ! i)) = (ch, d)"
      by (cases "mailbox_send ev (qh_ch (hs ! i), qh_dropped (hs ! i))")
    have "owned (ops @ [ORoute ev t g]) (hs ! i)" using mono i by (simp add: list_all_length)
    then have "owned (ops @ [ORoute ev t g]) ((hs ! i)\<lparr>qh_ch := ch, qh_dropped := d\<rparr>)"
      using mailbox_send_subset [of ev "qh_ch (hs ! i)" "qh_dropped (hs ! i)"] m i
      by (auto simp: owned_def)
    with mono live up show ?thesis by (simp add: route_event_def m Let_def list_all_update)
  qed
qed

lemma owned_arm:
  assumes "list_all (owned ops) hs" "router_inv (hs, r)"
  shows "list_all (owned ops) (fst (arm_locked g (hs, r)))"
proof -
  have "i < length hs" if "er_active r = Some i" for i
  proof -
    have "i \<in> open_handles hs" using assms(2) that by (simp add: router_inv_def)
    then show ?thesis by (simp add: open_handles_def)
  qed
  then have d: "list_all (owned ops) (fst (detachLocked (er_active r) QueryDetached (hs, r)))"
    using owned_detach [OF assms(1)] by blast
  have new: "qh_ch h = [] \<Longrightarrow> owned ops h" for h
    by (simp add: owned_def)
  show ?thesis
    using d assms(1) by (auto simp: arm_locked_def Let_def new split: prod.split)
qed

lemma owned_shutdown:
  assumes "list_all (owned ops) hs" "router_inv (hs, r)"
  shows "list_all (owned ops) (fst (shutdown_locked reason (hs, r)))"
proof -
  have "i < length hs" if "er_active r = Some i" for i
  proof -
    have "i \<in> open_handles hs" using assms(2) that by (simp add: router_inv_def)
    then show ?thesis by (simp add: open_handles_def)
  qed
  then have "list_all (owned ops) (fst (detachLocked (er_active r) reason (hs, r)))"
    using owned_detach [OF assms(1)] by blast
  then show ?thesis by (auto simp: shutdown_locked_def split: prod.split)
qed

lemma owned_run: "list_all (owned ops) (fst (router_run ops))"
proof (induction ops rule: rev_induct)
  case Nil
  show ?case by simp
next
  case (snoc a ops)
  obtain hs r where s: "router_run ops = (hs, r)" by (cases "router_run ops")
  have inv: "router_inv (hs, r)" using router_inv_run [of ops] s by simp
  have own: "list_all (owned ops) hs" using snoc s by simp
  have up: "list_all (owned ops) xs \<Longrightarrow> list_all (owned (ops @ [a])) xs" for xs
    using owned_mono by (auto simp: list_all_iff)
  show ?case
  proof (cases a)
    case (ORoute ev t g)
    with owned_route [OF own inv] s show ?thesis by simp
  next
    case (OArm g)
    with up owned_arm [OF own inv] s show ?thesis by simp
  next
    case (ODetach i reason)
    with up own owned_detach [OF own, of "Some i"] s show ?thesis by simp
  next
    case (OShutdown reason)
    with up owned_shutdown [OF own inv] s show ?thesis by simp
  next
    case ODrain
    with up own s show ?thesis by simp
  qed
qed

section \<open>Ends\<close>

lemma shutdown_stays: "er_shutdown (snd s) \<Longrightarrow> er_shutdown (snd (router_step a s))"
proof (cases s)
  case (Pair hs r)
  assume "er_shutdown (snd s)"
  then have up: "er_shutdown r" using Pair by simp
  have d: "er_shutdown (snd (detachLocked p reason (hs, r)))" for p reason
    using up by (simp add: detachLocked_def split: option.split)
  show ?thesis
  proof (cases a)
    case (OShutdown reason)
    with Pair show ?thesis by (simp add: shutdown_locked_def split: prod.split)
  qed (use Pair up d in \<open>auto simp: route_event_def arm_locked_def Let_def router_drain_def\<close>)
qed

lemma shutdown_after: "er_shutdown (snd (router_run (ops @ OShutdown reason # ops')))"
proof (induction ops' rule: rev_induct)
  case Nil
  show ?case by (simp add: shutdown_locked_def split: prod.split)
next
  case (snoc a ops')
  then show ?case using shutdown_stays router_run_snoc [of "ops @ OShutdown reason # ops'" a] by simp
qed

lemma wait_loop_not_blocked: "wait_loop evs \<noteq> (Some WaitBlocked, rest)"
  by (induction evs) (auto split: event.split)

lemma detached_not_blocked:
  "handle_ok h \<Longrightarrow> qh_detached h \<Longrightarrow> snd (handle_wait h) \<noteq> WaitBlocked"
  by (auto simp: handle_wait_def handle_ok_def wait_loop_not_blocked split: prod.split option.split)

lemma add_orphan_counts:
  assumes "length (er_orphans r) = orphanMailboxCap"
  shows "er_count (addOrphanLocked oe r)
      = (if er_count r = orphanMailboxCap then er_count r else er_count r + 1)"
    and "er_orphansDropped (addOrphanLocked oe r)
      = (if er_count r = orphanMailboxCap then er_orphansDropped r + 1 else er_orphansDropped r)"
  using assms by (simp_all add: addOrphanLocked_def drop_first_def Let_def orphanMailboxCap_def)

lemma add_orphans_dropped:
  "er_count (orphan_ring.add_all oes newEventRouter) = min orphanMailboxCap (length oes)
   \<and> er_orphansDropped (orphan_ring.add_all oes newEventRouter) = of_nat (length oes - orphanMailboxCap)"
proof (induction oes rule: rev_induct)
  case Nil
  show ?case by (simp add: orphan_ring.add_all_def) (simp add: newEventRouter_def)
next
  case (snoc oe oes)
  define r where "r = orphan_ring.add_all oes newEventRouter"
  have "ring_ok r"
    unfolding r_def by (rule orphan_ring.add_all_inv) (rule ring_ok_new)
  then have len: "length (er_orphans r) = orphanMailboxCap"
    by (simp add: ring_ok_def)
  have add: "orphan_ring.add_all (oes @ [oe]) newEventRouter = addOrphanLocked oe r"
    by (simp add: r_def orphan_ring.add_all_def)
  show ?case
    using snoc.IH unfolding add add_orphan_counts [OF len] r_def [symmetric]
    by (cases "length oes < orphanMailboxCap") (auto simp: Suc_diff_le)
qed

section \<open>Properties\<close>

definition sample_text_event :: event where
  "sample_text_event =
     EvText \<lparr>tx_Content = ''hi'', tx_ParentToolUseID = [], tx_Model = [], tx_SubagentType = [],
             tx_TaskDescription = []\<rparr>"

text \<open>
  C14: A query's mailbox holds only its own events: whatever sequence of deliveries, new queries,
  detaches, drains and shutdowns the router goes through, every event in a handle's mailbox was
  delivered with the generation of that handle.
\<close>

theorem mailboxes_hold_only_their_generation:
  assumes "h \<in> set (fst (router_run ops))" and "ev \<in> set (qh_ch h)"
  shows "\<exists>t. ORoute ev t (qh_gen h) \<in> set ops"
  using owned_run [of ops] assms by (auto simp: list_all_iff owned_def)

theorem mailboxes_hold_only_their_generation_witness:
  "\<exists>t. ORoute sample_text_event t 1
     \<in> set [OArm 1, ORoute sample_text_event 7 1, ORoute sample_text_event 8 2]"
proof -
  let ?ops = "[OArm 1, ORoute sample_text_event 7 1, ORoute sample_text_event 8 2]"
  let ?h = "\<lparr>qh_gen = 1, qh_ch = [sample_text_event], qh_closed = False, qh_dropped = 0,
             qh_detached = False, qh_closeReason = None\<rparr>"
  have "fst (router_run ?ops) = [?h]"
    by (simp add: router_run_def arm_locked_def route_event_def live_handle_def detachLocked_def
        mailbox_send_def newEventRouter_def Let_def queryMailboxCap_def)
  then have "?h \<in> set (fst (router_run ?ops))" by simp
  from mailboxes_hold_only_their_generation [OF this, of sample_text_event] show ?thesis by simp
qed

text \<open>
  C18: The orphan mailbox is exact: from a new router, any number of orphans leaves the last 128 of
  them in arrival order, the drop counter says how many are missing (modulo its width), and draining
  returns just those and empties the mailbox.
\<close>

theorem orphan_mailbox_is_the_last_orphans:
  "let r = foldl (\<lambda>r oe. addOrphanLocked oe r) newEventRouter oes in
     snd (router_drain r) = last_n orphanMailboxCap oes
     \<and> er_orphansDropped r = of_nat (length oes - orphanMailboxCap)
     \<and> snd (router_drain (fst (router_drain r))) = []"
proof -
  define r where "r = foldl (\<lambda>r oe. addOrphanLocked oe r) newEventRouter oes"
  have r: "r = orphan_ring.add_all oes newEventRouter"
    by (simp add: r_def orphan_ring.add_all_def)
  have new: "orphan_list newEventRouter = []" by (simp add: orphan_list_def newEventRouter_def)
  have items: "orphan_list r = last_n orphanMailboxCap oes"
    using orphan_ring.add_all_items [OF ring_ok_new, of oes] by (simp add: r new)
  then have "er_count r = 0 \<Longrightarrow> last_n orphanMailboxCap oes = []"
    using orphan_list_length [of r] by (metis length_0_conv)
  then have "snd (router_drain r) = last_n orphanMailboxCap oes"
    using items by (simp add: router_drain_def)
  moreover have "snd (router_drain (fst (router_drain r))) = []"
    by (simp add: router_drain_def)
  ultimately show ?thesis
    using add_orphans_dropped [of oes] r by (simp add: Let_def flip: r_def)
qed

text \<open>
  C15: No consumer hangs on a dead query: in every run of the router, waiting on a detached or
  superseded handle ends, and once the session has shut the router down waiting on any handle ends,
  also on a handle created afterwards.
\<close>

theorem no_wait_hangs_on_a_dead_handle:
  assumes "h \<in> set (fst (router_run ops))"
    and "qh_detached h \<or> (\<exists>before after reason. ops = before @ OShutdown reason # after)"
  shows "snd (handle_wait h) \<noteq> WaitBlocked"
proof -
  have inv: "router_inv (router_run ops)" by (rule router_inv_run)
  have ok: "handle_ok h" using inv assms(1) by (auto simp: router_inv_def list_all_iff)
  have "qh_detached h"
  proof (cases "qh_detached h")
    case False
    with assms(2) shutdown_after have "er_shutdown (snd (router_run ops))" by auto
    then have none: "open_handles (fst (router_run ops)) = {}" using inv by (simp add: router_inv_def)
    obtain i where "i < length (fst (router_run ops))" "fst (router_run ops) ! i = h"
      using assms(1) by (auto simp: in_set_conv_nth)
    with none False show ?thesis by (auto simp: open_handles_def)
  qed
  with ok show ?thesis by (rule detached_not_blocked)
qed

theorem no_wait_hangs_on_a_dead_handle_witness:
  "snd (handle_wait (hd (fst (router_run [OShutdown SessionEnded, OArm 1])))) \<noteq> WaitBlocked"
proof (rule no_wait_hangs_on_a_dead_handle)
  have "fst (router_run [OShutdown SessionEnded, OArm 1]) \<noteq> []"
    by (simp add: router_run_def shutdown_locked_def arm_locked_def detachLocked_def
        newEventRouter_def Let_def)
  then show "hd (fst (router_run [OShutdown SessionEnded, OArm 1]))
      \<in> set (fst (router_run [OShutdown SessionEnded, OArm 1]))" by simp
  have "[OShutdown SessionEnded, OArm 1] = [] @ OShutdown SessionEnded # [OArm 1]" by simp
  then show "qh_detached (hd (fst (router_run [OShutdown SessionEnded, OArm 1]))) \<or>
      (\<exists>before after reason.
        [OShutdown SessionEnded, OArm 1] = before @ OShutdown reason # after)" by blast
qed

definition wait_terminal :: "event \<Rightarrow> bool" where
  "wait_terminal ev =
     (case ev of EvResult _ \<Rightarrow> True | EvError e \<Rightarrow> ee_Fatal e | EvCLIExit _ \<Rightarrow> True | _ \<Rightarrow> False)"

text \<open>
  Waiting returns the first terminal event of the mailbox: a result exactly when everything
  before it is neither a result nor a fatal error nor an exit, and what follows it stays buffered.
\<close>

lemma wait_returns_the_first_terminal_event:
  "snd (handle_wait h) = WaitResult r \<and> qh_ch (fst (handle_wait h)) = rest
     \<longleftrightarrow> (\<exists>xs. qh_ch h = xs @ EvResult r # rest \<and> list_all (\<lambda>ev. \<not> wait_terminal ev) xs)"
proof -
  have "wait_loop evs = (Some (WaitResult r), rest)
      \<longleftrightarrow> (\<exists>xs. evs = xs @ EvResult r # rest \<and> list_all (\<lambda>ev. \<not> wait_terminal ev) xs)" for evs
  proof (induction evs)
    case (Cons ev evs)
    show ?case
    proof (cases "wait_terminal ev")
      case True
      then show ?thesis
        by (auto simp: wait_terminal_def Cons_eq_append_conv split: event.splits if_splits)
    next
      case False
      then have "wait_loop (ev # evs) = wait_loop evs" "ev \<noteq> EvResult r"
        by (auto simp: wait_terminal_def split: event.splits)
      with Cons False show ?thesis by (auto simp: Cons_eq_append_conv)
    qed
  qed simp
  moreover have "snd (handle_wait h) = WaitResult r \<and> qh_ch (fst (handle_wait h)) = rest
      \<longleftrightarrow> wait_loop (qh_ch h) = (Some (WaitResult r), rest)"
    by (auto simp: handle_wait_def split: prod.split option.split)
  ultimately show ?thesis by simp
qed

end
