(* ===== verification/Raw_Event.thy ===== *)
theory Raw_Event
  imports Events
begin

text \<open>
  The wire side of parse.go: \<^verbatim>\<open>rawEvent\<close> and the structs it is made of, one record per struct with
  the struct's fields in order, and their decoding as the struct tags and the custom
  \<^verbatim>\<open>UnmarshalJSON\<close> methods define it. A slice, map or pointer is decoded as in \<open>Json_Codec\<close>.
\<close>

section \<open>Parts shared with the events\<close>

definition zero_MCPServerStatus :: MCPServerStatus where
  [json_eval]: "zero_MCPServerStatus =
     \<lparr>mss_Name = [],
      mss_Status = []\<rparr>"

definition d_MCPServerStatus :: "MCPServerStatus dec" where
  [json_eval]: "d_MCPServerStatus =
     d_struct
       [fld ''name'' d_str mss_Name mss_Name_update,
        fld ''status'' d_str mss_Status mss_Status_update]"

definition zero_MCPServerError :: MCPServerError where
  [json_eval]: "zero_MCPServerError =
     \<lparr>mse_Name = [],
      mse_Type = [],
      mse_Message = []\<rparr>"

definition d_MCPServerError :: "MCPServerError dec" where
  [json_eval]: "d_MCPServerError =
     d_struct
       [fld ''name'' d_str mse_Name mse_Name_update,
        fld ''type'' d_str mse_Type mse_Type_update,
        fld ''message'' d_str mse_Message mse_Message_update]"

definition zero_PluginInfo :: PluginInfo where
  [json_eval]: "zero_PluginInfo =
     \<lparr>pi_Name = [],
      pi_Path = []\<rparr>"

definition d_PluginInfo :: "PluginInfo dec" where
  [json_eval]: "d_PluginInfo =
     d_struct
       [fld ''name'' d_str pi_Name pi_Name_update,
        fld ''path'' d_str pi_Path pi_Path_update]"

definition zero_WorkflowProgressEntry :: WorkflowProgressEntry where
  [json_eval]: "zero_WorkflowProgressEntry =
     \<lparr>wp_Type = [],
      wp_Index = 0,
      wp_Title = [],
      wp_Label = [],
      wp_PhaseIndex = 0,
      wp_PhaseTitle = [],
      wp_AgentID = [],
      wp_Model = [],
      wp_State = [],
      wp_Attempt = 0,
      wp_LastToolName = [],
      wp_LastToolSummary = [],
      wp_PromptPreview = [],
      wp_ResultPreview = [],
      wp_Tokens = 0,
      wp_ToolCalls = 0,
      wp_DurationMs = 0,
      wp_QueuedAt = 0,
      wp_StartedAt = 0,
      wp_LastProgressAt = 0\<rparr>"

definition d_WorkflowProgressEntry :: "WorkflowProgressEntry dec" where
  [json_eval]: "d_WorkflowProgressEntry =
     d_struct
       [fld ''type'' d_str wp_Type wp_Type_update,
        fld ''index'' d_int wp_Index wp_Index_update,
        fld ''title'' d_str wp_Title wp_Title_update,
        fld ''label'' d_str wp_Label wp_Label_update,
        fld ''phaseIndex'' d_int wp_PhaseIndex wp_PhaseIndex_update,
        fld ''phaseTitle'' d_str wp_PhaseTitle wp_PhaseTitle_update,
        fld ''agentId'' d_str wp_AgentID wp_AgentID_update,
        fld ''model'' d_str wp_Model wp_Model_update,
        fld ''state'' d_str wp_State wp_State_update,
        fld ''attempt'' d_int wp_Attempt wp_Attempt_update,
        fld ''lastToolName'' d_str wp_LastToolName wp_LastToolName_update,
        fld ''lastToolSummary'' d_str wp_LastToolSummary wp_LastToolSummary_update,
        fld ''promptPreview'' d_str wp_PromptPreview wp_PromptPreview_update,
        fld ''resultPreview'' d_str wp_ResultPreview wp_ResultPreview_update,
        fld ''tokens'' d_int wp_Tokens wp_Tokens_update,
        fld ''toolCalls'' d_int wp_ToolCalls wp_ToolCalls_update,
        fld ''durationMs'' d_int wp_DurationMs wp_DurationMs_update,
        fld ''queuedAt'' d_int wp_QueuedAt wp_QueuedAt_update,
        fld ''startedAt'' d_int wp_StartedAt wp_StartedAt_update,
        fld ''lastProgressAt'' d_int wp_LastProgressAt wp_LastProgressAt_update]"

definition zero_BackgroundTask :: BackgroundTask where
  [json_eval]: "zero_BackgroundTask =
     \<lparr>bt_TaskID = [],
      bt_TaskType = [],
      bt_Description = []\<rparr>"

definition d_BackgroundTask :: "BackgroundTask dec" where
  [json_eval]: "d_BackgroundTask =
     d_struct
       [fld ''task_id'' d_str bt_TaskID bt_TaskID_update,
        fld ''task_type'' d_str bt_TaskType bt_TaskType_update,
        fld ''description'' d_str bt_Description bt_Description_update]"

definition zero_SlashCommand :: SlashCommand where
  [json_eval]: "zero_SlashCommand =
     \<lparr>sc_Name = [],
      sc_Description = [],
      sc_ArgumentHint = [],
      sc_Aliases = [],
      sc_Builtin = False\<rparr>"

definition d_SlashCommand :: "SlashCommand dec" where
  [json_eval]: "d_SlashCommand =
     d_struct
       [fld ''name'' d_str sc_Name sc_Name_update,
        fld ''description'' d_str sc_Description sc_Description_update,
        fld ''argumentHint'' d_str sc_ArgumentHint sc_ArgumentHint_update,
        fld ''aliases'' (d_list d_str []) sc_Aliases sc_Aliases_update,
        fld ''builtin'' d_bool sc_Builtin sc_Builtin_update]"

definition zero_WorkflowLaunch :: WorkflowLaunch where
  [json_eval]: "zero_WorkflowLaunch =
     \<lparr>wl_Status = [],
      wl_TaskID = [],
      wl_TaskType = [],
      wl_WorkflowName = [],
      wl_RunID = [],
      wl_Summary = [],
      wl_TranscriptDir = [],
      wl_ScriptPath = []\<rparr>"

definition d_WorkflowLaunch :: "WorkflowLaunch dec" where
  [json_eval]: "d_WorkflowLaunch =
     d_struct
       [fld ''status'' d_str wl_Status wl_Status_update,
        fld ''taskId'' d_str wl_TaskID wl_TaskID_update,
        fld ''taskType'' d_str wl_TaskType wl_TaskType_update,
        fld ''workflowName'' d_str wl_WorkflowName wl_WorkflowName_update,
        fld ''runId'' d_str wl_RunID wl_RunID_update,
        fld ''summary'' d_str wl_Summary wl_Summary_update,
        fld ''transcriptDir'' d_str wl_TranscriptDir wl_TranscriptDir_update,
        fld ''scriptPath'' d_str wl_ScriptPath wl_ScriptPath_update]"

section \<open>Messages\<close>

record rawContent =
  rc_Type :: string
  rc_Text :: string
  rc_Thinking :: string
  rc_Signature :: string
  rc_ID :: string
  rc_Name :: string
  rc_Input :: raw_msg
  rc_ToolUseID :: string
  rc_Content :: raw_msg
  rc_IsError :: bool

definition zero_rawContent :: rawContent where
  [json_eval]: "zero_rawContent =
     \<lparr>rc_Type = [],
      rc_Text = [],
      rc_Thinking = [],
      rc_Signature = [],
      rc_ID = [],
      rc_Name = [],
      rc_Input = None,
      rc_ToolUseID = [],
      rc_Content = None,
      rc_IsError = False\<rparr>"

definition d_rawContent :: "rawContent dec" where
  [json_eval]: "d_rawContent =
     d_struct
       [fld ''type'' d_str rc_Type rc_Type_update,
        fld ''text'' d_str rc_Text rc_Text_update,
        fld ''thinking'' d_str rc_Thinking rc_Thinking_update,
        fld ''signature'' d_str rc_Signature rc_Signature_update,
        fld ''id'' d_str rc_ID rc_ID_update,
        fld ''name'' d_str rc_Name rc_Name_update,
        fld ''input'' d_raw rc_Input rc_Input_update,
        fld ''tool_use_id'' d_str rc_ToolUseID rc_ToolUseID_update,
        fld ''content'' d_raw rc_Content rc_Content_update,
        fld ''is_error'' d_bool rc_IsError rc_IsError_update]"

text \<open>A plain string stands for one text block; anything else but an array is dropped.\<close>

definition text_block :: "string \<Rightarrow> rawContent" where
  [json_eval]: "text_block s = zero_rawContent\<lparr>rc_Type := ''text'', rc_Text := s\<rparr>"

definition d_rawFlexContent :: "rawContent list dec" where
  [json_eval]: "d_rawFlexContent j old =
     (case d_list d_rawContent zero_rawContent j [] of
        (blocks, ok) \<Rightarrow>
          if ok then (blocks, True)
          else (case d_str j [] of (s, ok) \<Rightarrow> if ok then ([text_block s], True) else ([], True)))"

record rawMessage =
  rm_Content :: "rawContent list"
  rm_ContextManagement :: raw_msg
  rm_Model :: string

definition zero_rawMessage :: rawMessage where
  [json_eval]: "zero_rawMessage =
     \<lparr>rm_Content = [],
      rm_ContextManagement = None,
      rm_Model = []\<rparr>"

definition d_message_object :: "rawMessage dec" where
  [json_eval]: "d_message_object =
     d_struct
       [fld ''content'' d_rawFlexContent rm_Content rm_Content_update,
        fld ''context_management'' d_raw rm_ContextManagement rm_ContextManagement_update,
        fld ''model'' d_str rm_Model rm_Model_update]"

text \<open>The object form, else a bare string.\<close>

definition d_rawMessage :: "rawMessage dec" where
  [json_eval]: "d_rawMessage j old =
     (case d_message_object j zero_rawMessage of
        (obj, ok) \<Rightarrow>
          if ok then (obj, True)
          else (case d_str j [] of
                  (s, ok) \<Rightarrow>
                    if ok then (zero_rawMessage\<lparr>rm_Content := [text_block s]\<rparr>, True)
                    else (old, False)))"

section \<open>Limits and usage\<close>

record rawRateLimitInfo =
  rr_Status :: string
  rr_Utilization :: float64
  rr_ResetsAt :: int
  rr_RateLimitType :: string
  rr_OverageStatus :: string
  rr_OverageResetsAt :: int
  rr_OverageDisabledReason :: string
  rr_Raw :: "(string \<times> json) list option"

definition zero_rawRateLimitInfo :: rawRateLimitInfo where
  [json_eval]: "zero_rawRateLimitInfo =
     \<lparr>rr_Status = [],
      rr_Utilization = 0,
      rr_ResetsAt = 0,
      rr_RateLimitType = [],
      rr_OverageStatus = [],
      rr_OverageResetsAt = 0,
      rr_OverageDisabledReason = [],
      rr_Raw = None\<rparr>"

definition d_rate_limit_fields :: "rawRateLimitInfo dec" where
  [json_eval]: "d_rate_limit_fields =
     d_struct
       [fld ''status'' d_str rr_Status rr_Status_update,
        fld ''utilization'' d_float rr_Utilization rr_Utilization_update,
        fld ''resetsAt'' d_int rr_ResetsAt rr_ResetsAt_update,
        fld ''rateLimitType'' d_str rr_RateLimitType rr_RateLimitType_update,
        fld ''overageStatus'' d_str rr_OverageStatus rr_OverageStatus_update,
        fld ''overageResetsAt'' d_int rr_OverageResetsAt rr_OverageResetsAt_update,
        fld ''overageDisabledReason'' d_str rr_OverageDisabledReason rr_OverageDisabledReason_update]"

text \<open>The known fields through an alias type, then the whole object as a map.\<close>

definition d_rawRateLimitInfo :: "rawRateLimitInfo dec" where
  [json_eval]: "d_rawRateLimitInfo j old =
     (case d_rate_limit_fields j old of
        (r, ok) \<Rightarrow>
          if \<not> ok then (r, False)
          else (r\<lparr>rr_Raw := fst (d_map (\<lambda>x _. (x, True)) JNull j (rr_Raw r))\<rparr>, True))"

record rawUsage =
  ru_InputTokens :: int
  ru_OutputTokens :: int
  ru_CacheReadInputTokens :: int
  ru_CacheCreationInputTokens :: int
  ru_TotalTokens :: int
  ru_ToolUses :: int
  ru_DurationMs :: int

definition zero_rawUsage :: rawUsage where
  [json_eval]: "zero_rawUsage =
     \<lparr>ru_InputTokens = 0,
      ru_OutputTokens = 0,
      ru_CacheReadInputTokens = 0,
      ru_CacheCreationInputTokens = 0,
      ru_TotalTokens = 0,
      ru_ToolUses = 0,
      ru_DurationMs = 0\<rparr>"

definition d_rawUsage :: "rawUsage dec" where
  [json_eval]: "d_rawUsage =
     d_struct
       [fld ''input_tokens'' d_int ru_InputTokens ru_InputTokens_update,
        fld ''output_tokens'' d_int ru_OutputTokens ru_OutputTokens_update,
        fld ''cache_read_input_tokens'' d_int ru_CacheReadInputTokens ru_CacheReadInputTokens_update,
        fld ''cache_creation_input_tokens'' d_int ru_CacheCreationInputTokens ru_CacheCreationInputTokens_update,
        fld ''total_tokens'' d_int ru_TotalTokens ru_TotalTokens_update,
        fld ''tool_uses'' d_int ru_ToolUses ru_ToolUses_update,
        fld ''duration_ms'' d_int ru_DurationMs ru_DurationMs_update]"

record rawModelUsage =
  rmu_InputTokens :: int
  rmu_OutputTokens :: int
  rmu_CacheReadInputTokens :: int
  rmu_CacheCreationInputTokens :: int
  rmu_CostUSD :: float64
  rmu_ContextWindow :: int
  rmu_MaxOutputTokens :: int
  rmu_WebSearchRequests :: int
  rmu_WebFetchRequests :: int

definition zero_rawModelUsage :: rawModelUsage where
  [json_eval]: "zero_rawModelUsage =
     \<lparr>rmu_InputTokens = 0,
      rmu_OutputTokens = 0,
      rmu_CacheReadInputTokens = 0,
      rmu_CacheCreationInputTokens = 0,
      rmu_CostUSD = 0,
      rmu_ContextWindow = 0,
      rmu_MaxOutputTokens = 0,
      rmu_WebSearchRequests = 0,
      rmu_WebFetchRequests = 0\<rparr>"

definition d_rawModelUsage :: "rawModelUsage dec" where
  [json_eval]: "d_rawModelUsage =
     d_struct
       [fld ''inputTokens'' d_int rmu_InputTokens rmu_InputTokens_update,
        fld ''outputTokens'' d_int rmu_OutputTokens rmu_OutputTokens_update,
        fld ''cacheReadInputTokens'' d_int rmu_CacheReadInputTokens rmu_CacheReadInputTokens_update,
        fld ''cacheCreationInputTokens'' d_int rmu_CacheCreationInputTokens rmu_CacheCreationInputTokens_update,
        fld ''costUSD'' d_float rmu_CostUSD rmu_CostUSD_update,
        fld ''contextWindow'' d_int rmu_ContextWindow rmu_ContextWindow_update,
        fld ''maxOutputTokens'' d_int rmu_MaxOutputTokens rmu_MaxOutputTokens_update,
        fld ''webSearchRequests'' d_int rmu_WebSearchRequests rmu_WebSearchRequests_update,
        fld ''webFetchRequests'' d_int rmu_WebFetchRequests rmu_WebFetchRequests_update]"

section \<open>Lines\<close>

record rawEvent =
  raw_Type :: string
  raw_Subtype :: string
  raw_SessionID :: string
  raw_Model :: string
  raw_Tools :: "string list"
  raw_Agents :: "string list"
  raw_Skills :: "string list"
  raw_MCPServers :: "MCPServerStatus list"
  raw_MCPServerErrors :: "MCPServerError list"
  raw_CLIVersion :: string
  raw_CWD :: string
  raw_PermissionMode :: string
  raw_OutputStyle :: string
  raw_SlashCommands :: "string list"
  raw_Plugins :: "PluginInfo list"
  raw_Capabilities :: "string list"
  raw_Suggestion :: string
  raw_Status :: "string option"
  raw_CompactMetadata :: raw_msg
  raw_TaskID :: string
  raw_ToolUseID :: string
  raw_Description :: string
  raw_TaskType :: string
  raw_Prompt :: string
  raw_LastToolName :: string
  raw_Summary :: string
  raw_WorkflowName :: string
  raw_OutputFile :: string
  raw_WorkflowProgress :: "WorkflowProgressEntry list option"
  raw_Patch :: raw_msg
  raw_OwnedBySubagent :: bool
  raw_IsBackgrounded :: bool
  raw_EstimatedTokens :: int
  raw_EstimatedTokensDelta :: int
  raw_HookID :: string
  raw_HookName :: string
  raw_HookEvent :: string
  raw_Output :: string
  raw_Stdout :: string
  raw_Stderr :: string
  raw_ExitCode :: int
  raw_Outcome :: string
  raw_Message :: "rawMessage option"
  raw_SubagentType :: string
  raw_TaskDescription :: string
  raw_ParentToolUseID :: "string option"
  raw_Timestamp :: string
  raw_ToolUseResult :: raw_msg
  raw_IsReplay :: bool
  raw_Origin :: raw_msg
  raw_IsApiErrorMessage :: bool
  raw_IsApiErrorMessageSnake :: bool
  raw_APIErrorStatus :: int
  raw_Result :: string
  raw_DurationMS :: float64
  raw_CostUSD :: float64
  raw_StopReason :: string
  raw_StructuredOutput :: raw_msg
  raw_NumTurns :: int
  raw_IsError :: bool
  raw_TerminalReason :: string
  raw_Errors :: "string list"
  raw_Usage :: rawUsage
  raw_ModelUsage :: "(string \<times> rawModelUsage) list option"
  raw_ResultIndex :: "int option"
  raw_RateLimitInfo :: rawRateLimitInfo
  raw_RequestID :: string
  raw_Request :: raw_msg
  raw_UUID :: string
  raw_Event :: raw_msg
  raw_ErrorData :: raw_msg
  raw_ToolName :: string
  raw_ElapsedTimeSeconds :: float64
  raw_PrecedingToolUseIDs :: "string list"
  raw_IsAuthenticating :: bool
  raw_State :: string
  raw_NewConversationID :: string
  raw_Tasks :: "BackgroundTask list"
  raw_Commands :: "SlashCommand list"
  raw_Files :: raw_msg
  raw_Failed :: raw_msg

definition zero_rawEvent :: rawEvent where
  [json_eval]: "zero_rawEvent =
     \<lparr>raw_Type = [],
      raw_Subtype = [],
      raw_SessionID = [],
      raw_Model = [],
      raw_Tools = [],
      raw_Agents = [],
      raw_Skills = [],
      raw_MCPServers = [],
      raw_MCPServerErrors = [],
      raw_CLIVersion = [],
      raw_CWD = [],
      raw_PermissionMode = [],
      raw_OutputStyle = [],
      raw_SlashCommands = [],
      raw_Plugins = [],
      raw_Capabilities = [],
      raw_Suggestion = [],
      raw_Status = None,
      raw_CompactMetadata = None,
      raw_TaskID = [],
      raw_ToolUseID = [],
      raw_Description = [],
      raw_TaskType = [],
      raw_Prompt = [],
      raw_LastToolName = [],
      raw_Summary = [],
      raw_WorkflowName = [],
      raw_OutputFile = [],
      raw_WorkflowProgress = None,
      raw_Patch = None,
      raw_OwnedBySubagent = False,
      raw_IsBackgrounded = False,
      raw_EstimatedTokens = 0,
      raw_EstimatedTokensDelta = 0,
      raw_HookID = [],
      raw_HookName = [],
      raw_HookEvent = [],
      raw_Output = [],
      raw_Stdout = [],
      raw_Stderr = [],
      raw_ExitCode = 0,
      raw_Outcome = [],
      raw_Message = None,
      raw_SubagentType = [],
      raw_TaskDescription = [],
      raw_ParentToolUseID = None,
      raw_Timestamp = [],
      raw_ToolUseResult = None,
      raw_IsReplay = False,
      raw_Origin = None,
      raw_IsApiErrorMessage = False,
      raw_IsApiErrorMessageSnake = False,
      raw_APIErrorStatus = 0,
      raw_Result = [],
      raw_DurationMS = 0,
      raw_CostUSD = 0,
      raw_StopReason = [],
      raw_StructuredOutput = None,
      raw_NumTurns = 0,
      raw_IsError = False,
      raw_TerminalReason = [],
      raw_Errors = [],
      raw_Usage = zero_rawUsage,
      raw_ModelUsage = None,
      raw_ResultIndex = None,
      raw_RateLimitInfo = zero_rawRateLimitInfo,
      raw_RequestID = [],
      raw_Request = None,
      raw_UUID = [],
      raw_Event = None,
      raw_ErrorData = None,
      raw_ToolName = [],
      raw_ElapsedTimeSeconds = 0,
      raw_PrecedingToolUseIDs = [],
      raw_IsAuthenticating = False,
      raw_State = [],
      raw_NewConversationID = [],
      raw_Tasks = [],
      raw_Commands = [],
      raw_Files = None,
      raw_Failed = None\<rparr>"

definition d_rawEvent :: "rawEvent dec" where
  [json_eval]: "d_rawEvent =
     d_struct
       [fld ''type'' d_str raw_Type raw_Type_update,
        fld ''subtype'' d_str raw_Subtype raw_Subtype_update,
        fld ''session_id'' d_str raw_SessionID raw_SessionID_update,
        fld ''model'' d_str raw_Model raw_Model_update,
        fld ''tools'' (d_list d_str []) raw_Tools raw_Tools_update,
        fld ''agents'' (d_list d_str []) raw_Agents raw_Agents_update,
        fld ''skills'' (d_list d_str []) raw_Skills raw_Skills_update,
        fld ''mcp_servers'' (d_list d_MCPServerStatus zero_MCPServerStatus) raw_MCPServers raw_MCPServers_update,
        fld ''mcp_server_errors'' (d_list d_MCPServerError zero_MCPServerError) raw_MCPServerErrors raw_MCPServerErrors_update,
        fld ''claude_code_version'' d_str raw_CLIVersion raw_CLIVersion_update,
        fld ''cwd'' d_str raw_CWD raw_CWD_update,
        fld ''permissionMode'' d_str raw_PermissionMode raw_PermissionMode_update,
        fld ''output_style'' d_str raw_OutputStyle raw_OutputStyle_update,
        fld ''slash_commands'' (d_list d_str []) raw_SlashCommands raw_SlashCommands_update,
        fld ''plugins'' (d_list d_PluginInfo zero_PluginInfo) raw_Plugins raw_Plugins_update,
        fld ''capabilities'' (d_list d_str []) raw_Capabilities raw_Capabilities_update,
        fld ''suggestion'' d_str raw_Suggestion raw_Suggestion_update,
        fld ''status'' (d_ptr d_str []) raw_Status raw_Status_update,
        fld ''compact_metadata'' d_raw raw_CompactMetadata raw_CompactMetadata_update,
        fld ''task_id'' d_str raw_TaskID raw_TaskID_update,
        fld ''tool_use_id'' d_str raw_ToolUseID raw_ToolUseID_update,
        fld ''description'' d_str raw_Description raw_Description_update,
        fld ''task_type'' d_str raw_TaskType raw_TaskType_update,
        fld ''prompt'' d_str raw_Prompt raw_Prompt_update,
        fld ''last_tool_name'' d_str raw_LastToolName raw_LastToolName_update,
        fld ''summary'' d_str raw_Summary raw_Summary_update,
        fld ''workflow_name'' d_str raw_WorkflowName raw_WorkflowName_update,
        fld ''output_file'' d_str raw_OutputFile raw_OutputFile_update,
        fld ''workflow_progress'' (d_slice d_WorkflowProgressEntry zero_WorkflowProgressEntry) raw_WorkflowProgress raw_WorkflowProgress_update,
        fld ''patch'' d_raw raw_Patch raw_Patch_update,
        fld ''owned_by_subagent'' d_bool raw_OwnedBySubagent raw_OwnedBySubagent_update,
        fld ''is_backgrounded'' d_bool raw_IsBackgrounded raw_IsBackgrounded_update,
        fld ''estimated_tokens'' d_int raw_EstimatedTokens raw_EstimatedTokens_update,
        fld ''estimated_tokens_delta'' d_int raw_EstimatedTokensDelta raw_EstimatedTokensDelta_update,
        fld ''hook_id'' d_str raw_HookID raw_HookID_update,
        fld ''hook_name'' d_str raw_HookName raw_HookName_update,
        fld ''hook_event'' d_str raw_HookEvent raw_HookEvent_update,
        fld ''output'' d_str raw_Output raw_Output_update,
        fld ''stdout'' d_str raw_Stdout raw_Stdout_update,
        fld ''stderr'' d_str raw_Stderr raw_Stderr_update,
        fld ''exit_code'' d_int raw_ExitCode raw_ExitCode_update,
        fld ''outcome'' d_str raw_Outcome raw_Outcome_update,
        fld ''message'' (d_ptr d_rawMessage zero_rawMessage) raw_Message raw_Message_update,
        fld ''subagent_type'' d_str raw_SubagentType raw_SubagentType_update,
        fld ''task_description'' d_str raw_TaskDescription raw_TaskDescription_update,
        fld ''parent_tool_use_id'' (d_ptr d_str []) raw_ParentToolUseID raw_ParentToolUseID_update,
        fld ''timestamp'' d_str raw_Timestamp raw_Timestamp_update,
        fld ''tool_use_result'' d_raw raw_ToolUseResult raw_ToolUseResult_update,
        fld ''isReplay'' d_bool raw_IsReplay raw_IsReplay_update,
        fld ''origin'' d_raw raw_Origin raw_Origin_update,
        fld ''isApiErrorMessage'' d_bool raw_IsApiErrorMessage raw_IsApiErrorMessage_update,
        fld ''is_api_error_message'' d_bool raw_IsApiErrorMessageSnake raw_IsApiErrorMessageSnake_update,
        fld ''api_error_status'' d_int raw_APIErrorStatus raw_APIErrorStatus_update,
        fld ''result'' d_str raw_Result raw_Result_update,
        fld ''duration_ms'' d_float raw_DurationMS raw_DurationMS_update,
        fld ''total_cost_usd'' d_float raw_CostUSD raw_CostUSD_update,
        fld ''stop_reason'' d_str raw_StopReason raw_StopReason_update,
        fld ''structured_output'' d_raw raw_StructuredOutput raw_StructuredOutput_update,
        fld ''num_turns'' d_int raw_NumTurns raw_NumTurns_update,
        fld ''is_error'' d_bool raw_IsError raw_IsError_update,
        fld ''terminal_reason'' d_str raw_TerminalReason raw_TerminalReason_update,
        fld ''errors'' (d_list d_str []) raw_Errors raw_Errors_update,
        fld ''usage'' d_rawUsage raw_Usage raw_Usage_update,
        fld ''modelUsage'' (d_map d_rawModelUsage zero_rawModelUsage) raw_ModelUsage raw_ModelUsage_update,
        fld ''result_index'' (d_ptr d_int 0) raw_ResultIndex raw_ResultIndex_update,
        fld ''rate_limit_info'' d_rawRateLimitInfo raw_RateLimitInfo raw_RateLimitInfo_update,
        fld ''request_id'' d_str raw_RequestID raw_RequestID_update,
        fld ''request'' d_raw raw_Request raw_Request_update,
        fld ''uuid'' d_str raw_UUID raw_UUID_update,
        fld ''event'' d_raw raw_Event raw_Event_update,
        fld ''error'' d_raw raw_ErrorData raw_ErrorData_update,
        fld ''tool_name'' d_str raw_ToolName raw_ToolName_update,
        fld ''elapsed_time_seconds'' d_float raw_ElapsedTimeSeconds raw_ElapsedTimeSeconds_update,
        fld ''preceding_tool_use_ids'' (d_list d_str []) raw_PrecedingToolUseIDs raw_PrecedingToolUseIDs_update,
        fld ''isAuthenticating'' d_bool raw_IsAuthenticating raw_IsAuthenticating_update,
        fld ''state'' d_str raw_State raw_State_update,
        fld ''new_conversation_id'' d_str raw_NewConversationID raw_NewConversationID_update,
        fld ''tasks'' (d_list d_BackgroundTask zero_BackgroundTask) raw_Tasks raw_Tasks_update,
        fld ''commands'' (d_list d_SlashCommand zero_SlashCommand) raw_Commands raw_Commands_update,
        fld ''files'' d_raw raw_Files raw_Files_update,
        fld ''failed'' d_raw raw_Failed raw_Failed_update]"

definition isAPIErrorMessage :: "rawEvent \<Rightarrow> bool" where
  "isAPIErrorMessage r \<longleftrightarrow> raw_IsApiErrorMessage r \<or> raw_IsApiErrorMessageSnake r"

text \<open>One line of the stream: \<open>None\<close> when \<^verbatim>\<open>json.Unmarshal\<close> reports an error.\<close>

definition decode_line :: "string \<Rightarrow> rawEvent option" where
  [json_eval]: "decode_line line =
     (case unmarshal d_rawEvent line zero_rawEvent of (raw, ok) \<Rightarrow> if ok then Some raw else None)"

end
