(* ===== verification/Task_Backfill.thy ===== *)
theory Task_Backfill
  imports Events
begin

text \<open>
  task\_backfill.go: the CLI names a task's type only on its \<^verbatim>\<open>task_started\<close> line; the backfiller
  remembers it per task id and stamps it on the task's later events, and it resolves the agent a
  workflow tick is about. The map is an association list with distinct keys. The lemmas show that
  the stamp survives any interleaving with other tasks until the task's terminal notification, and
  that the agent search is the obvious one.
\<close>

section \<open>State\<close>

record workflowAgentRef =
  wr_phaseTitle :: string
  wr_label :: string
  wr_agentID :: string

record taskIdentity =
  ti_taskType :: string
  ti_workflowName :: string
  ti_ownedBySubagent :: bool
  ti_agents :: "workflowAgentRef list"

type_synonym taskTypeBackfiller = "(string \<times> taskIdentity) list"

definition newTaskTypeBackfiller :: taskTypeBackfiller where
  "newTaskTypeBackfiller = []"

section \<open>Operations\<close>

text \<open>workflow.go\<close>

definition workflowStatusTerminal :: "string \<Rightarrow> bool" where
  "workflowStatusTerminal status \<longleftrightarrow>
     status = ''completed'' \<or> status = ''stopped'' \<or> status = ''killed''
     \<or> status = ''failed'' \<or> status = ''error''"

definition workflowAgentRefs :: "WorkflowProgressEntry list \<Rightarrow> workflowAgentRef list" where
  "workflowAgentRefs progress =
     map (\<lambda>p. \<lparr>wr_phaseTitle = wp_PhaseTitle p, wr_label = wp_Label p, wr_agentID = wp_AgentID p\<rparr>)
       (filter IsAgent progress)"

definition agent_name :: "workflowAgentRef \<Rightarrow> string" where
  "agent_name a =
     (if wr_phaseTitle a \<noteq> [] then wr_phaseTitle a @ '': '' @ wr_label a else wr_label a)"

text \<open>The loop over the agents; the outer option is the early return on an ambiguous match.\<close>

fun resolve_loop ::
    "string \<Rightarrow> workflowAgentRef list \<Rightarrow> (workflowAgentRef \<times> string) option
       \<Rightarrow> (workflowAgentRef \<times> string) option option" where
  "resolve_loop desc [] m = Some m"
| "resolve_loop desc (a # as) m =
     (if agent_name a \<noteq> desc then resolve_loop desc as m
      else case m of
        None \<Rightarrow> resolve_loop desc as (Some (a, wr_agentID a))
      | Some (b, agent) \<Rightarrow>
          if wr_phaseTitle a \<noteq> wr_phaseTitle b \<or> wr_label a \<noteq> wr_label b then None
          else resolve_loop desc as (Some (b, if wr_agentID a \<noteq> agent then [] else agent)))"

definition resolveWorkflowAgent :: "TaskEvent \<Rightarrow> workflowAgentRef list \<Rightarrow> TaskEvent" where
  "resolveWorkflowAgent ev agents =
     (if te_Description ev = [] then ev
      else case resolve_loop (te_Description ev) agents None of
        Some (Some (m, agent)) \<Rightarrow>
          ev\<lparr>te_WorkflowPhaseTitle := wr_phaseTitle m,
             te_WorkflowAgentLabel := wr_label m,
             te_WorkflowAgentID := agent\<rparr>
      | _ \<Rightarrow> ev)"

text \<open>
  The two halves of \<^verbatim>\<open>apply\<close>: the identity of the task, recorded from this event or restored onto it,
  and the agent of a workflow tick.
\<close>

definition zero_identity :: taskIdentity where
  "zero_identity =
     \<lparr>ti_taskType = [], ti_workflowName = [], ti_ownedBySubagent = False, ti_agents = []\<rparr>"

definition backfill_identity ::
    "taskTypeBackfiller \<Rightarrow> TaskEvent \<Rightarrow> bool \<times> taskIdentity \<times> TaskEvent" where
  "backfill_identity b ev =
     (if te_TaskType ev \<noteq> [] then
        (True,
         \<lparr>ti_taskType = te_TaskType ev, ti_workflowName = te_WorkflowName ev,
          ti_ownedBySubagent = te_OwnedBySubagent ev, ti_agents = []\<rparr>, ev)
      else case map_of b (te_TaskID ev) of
        Some i \<Rightarrow>
          (True, i,
           ev\<lparr>te_TaskType := ti_taskType i,
              te_WorkflowName :=
                (if te_WorkflowName ev = [] then ti_workflowName i else te_WorkflowName ev),
              te_OwnedBySubagent := te_OwnedBySubagent ev \<or> ti_ownedBySubagent i\<rparr>)
      | None \<Rightarrow> (False, zero_identity, ev))"

definition backfill_agent :: "bool \<Rightarrow> taskIdentity \<Rightarrow> TaskEvent \<Rightarrow> taskIdentity \<times> TaskEvent" where
  "backfill_agent known ident ev =
     (if known \<and> IsWorkflow ev \<and> te_Subtype ev = ''task_progress'' then
        (let i = (case te_WorkflowProgress ev of
                    Some p \<Rightarrow> ident\<lparr>ti_agents := workflowAgentRefs p\<rparr>
                  | None \<Rightarrow> ident) in
         (i, resolveWorkflowAgent ev (ti_agents i)))
      else (ident, ev))"

definition backfill_apply :: "taskTypeBackfiller \<Rightarrow> TaskEvent \<Rightarrow> taskTypeBackfiller \<times> TaskEvent" where
  "backfill_apply b ev =
     (if te_TaskID ev = [] then (b, ev)
      else case backfill_identity b ev of
        (known, ident, ev1) \<Rightarrow>
          (case backfill_agent known ident ev1 of
             (ident2, ev2) \<Rightarrow>
               (let b2 = (if known then map_put (te_TaskID ev) ident2 b else b);
                    b3 = (if te_Subtype ev2 = ''task_notification''
                             \<and> workflowStatusTerminal (te_Status ev2)
                          then map_del (te_TaskID ev) b2 else b2) in
                (b3, ev2))))"

section \<open>Agent resolution\<close>

text \<open>
  The reference: the matching agents must agree on phase and label; the id is theirs if they all
  carry the same one.
\<close>

definition agent_spec :: "string \<Rightarrow> workflowAgentRef list \<Rightarrow> (string \<times> string \<times> string) option" where
  "agent_spec desc agents =
     (case filter (\<lambda>a. agent_name a = desc) agents of
        [] \<Rightarrow> None
      | m # ms \<Rightarrow>
          if list_all (\<lambda>a. wr_phaseTitle a = wr_phaseTitle m \<and> wr_label a = wr_label m) ms
          then Some (wr_phaseTitle m, wr_label m,
                     if list_all (\<lambda>a. wr_agentID a = wr_agentID m) ms then wr_agentID m else [])
          else None)"

lemma resolve_loop_Some:
  "resolve_loop desc as (Some (m, agent)) =
     (let ms = filter (\<lambda>a. agent_name a = desc) as in
      if list_all (\<lambda>a. wr_phaseTitle a = wr_phaseTitle m \<and> wr_label a = wr_label m) ms
      then Some (Some (m, if list_all (\<lambda>a. wr_agentID a = agent) ms then agent else []))
      else None)"
proof (induction as arbitrary: agent)
  case Nil
  then show ?case by simp
next
  case (Cons a as)
  then show ?case
    by (cases "agent_name a = desc") (auto simp: Let_def list_all_iff)
qed

lemma resolve_loop_None:
  "resolve_loop desc as None =
     (case filter (\<lambda>a. agent_name a = desc) as of
        [] \<Rightarrow> Some None
      | m # ms \<Rightarrow>
          if list_all (\<lambda>a. wr_phaseTitle a = wr_phaseTitle m \<and> wr_label a = wr_label m) ms
          then Some (Some (m, if list_all (\<lambda>a. wr_agentID a = wr_agentID m) ms then wr_agentID m else []))
          else None)"
proof (induction as)
  case (Cons a as)
  then show ?case by (simp add: resolve_loop_Some Let_def)
qed simp

section \<open>Identity\<close>

lemma resolve_keeps [simp]:
  "te_TaskID (resolveWorkflowAgent ev as) = te_TaskID ev"
  "te_TaskType (resolveWorkflowAgent ev as) = te_TaskType ev"
  "te_WorkflowName (resolveWorkflowAgent ev as) = te_WorkflowName ev"
  "te_OwnedBySubagent (resolveWorkflowAgent ev as) = te_OwnedBySubagent ev"
  "te_Subtype (resolveWorkflowAgent ev as) = te_Subtype ev"
  "te_Status (resolveWorkflowAgent ev as) = te_Status ev"
  "te_Raw (resolveWorkflowAgent ev as) = te_Raw ev"
  by (simp_all add: resolveWorkflowAgent_def split: option.split)

text \<open>The facts about a task that its later events are stamped with.\<close>

definition stamp_of :: "taskIdentity \<Rightarrow> string \<times> string \<times> bool" where
  "stamp_of i = (ti_taskType i, ti_workflowName i, ti_ownedBySubagent i)"

lemma agent_keeps [simp]:
  "te_TaskType (snd (backfill_agent k i ev)) = te_TaskType ev"
  "te_WorkflowName (snd (backfill_agent k i ev)) = te_WorkflowName ev"
  "te_OwnedBySubagent (snd (backfill_agent k i ev)) = te_OwnedBySubagent ev"
  "te_Subtype (snd (backfill_agent k i ev)) = te_Subtype ev"
  "te_Status (snd (backfill_agent k i ev)) = te_Status ev"
  "te_Raw (snd (backfill_agent k i ev)) = te_Raw ev"
  "stamp_of (fst (backfill_agent k i ev)) = stamp_of i"
  by (simp_all add: backfill_agent_def Let_def stamp_of_def split: option.split)

lemmas backfill_simps = backfill_apply_def backfill_identity_def Let_def prod.case_eq_if

definition knows :: "taskTypeBackfiller \<Rightarrow> string \<Rightarrow> (string \<times> string \<times> bool) \<Rightarrow> bool" where
  "knows b tid st \<longleftrightarrow> (\<exists>i. map_of b tid = Some i \<and> stamp_of i = st)"

definition starts_task :: "TaskEvent \<Rightarrow> bool" where
  "starts_task ev \<longleftrightarrow> te_TaskType ev \<noteq> []"

definition ends_task :: "TaskEvent \<Rightarrow> bool" where
  "ends_task ev \<longleftrightarrow>
     te_Subtype ev = ''task_notification'' \<and> workflowStatusTerminal (te_Status ev)"

lemma backfill_other:
  "te_TaskID ev \<noteq> tid \<Longrightarrow> map_of (fst (backfill_apply b ev)) tid = map_of b tid"
  by (simp add: backfill_simps split: option.split)

lemma backfill_start:
  assumes "te_TaskID ev = tid" "tid \<noteq> []" "starts_task ev" "\<not> ends_task ev"
  shows "knows (fst (backfill_apply b ev)) tid
           (te_TaskType ev, te_WorkflowName ev, te_OwnedBySubagent ev)"
  using assms
  by (simp add: backfill_simps starts_task_def ends_task_def knows_def)
     (simp add: stamp_of_def)

lemma backfill_stamps:
  assumes "knows b tid (ty, name, owned)" "te_TaskID ev = tid" "tid \<noteq> []" "\<not> starts_task ev"
  shows "te_TaskType (snd (backfill_apply b ev)) = ty"
    and "te_WorkflowName ev = [] \<Longrightarrow> te_WorkflowName (snd (backfill_apply b ev)) = name"
    and "te_OwnedBySubagent (snd (backfill_apply b ev)) = (te_OwnedBySubagent ev \<or> owned)"
  using assms
  by (auto simp: backfill_simps starts_task_def knows_def stamp_of_def)

lemma backfill_keeps:
  assumes "knows b tid st" "te_TaskID ev = tid \<Longrightarrow> \<not> starts_task ev \<and> \<not> ends_task ev" "tid \<noteq> []"
  shows "knows (fst (backfill_apply b ev)) tid st"
proof (cases "te_TaskID ev = tid")
  case False
  with assms show ?thesis by (simp add: knows_def backfill_other)
next
  case True
  with assms show ?thesis
    by (auto simp: backfill_simps starts_task_def ends_task_def knows_def)
qed

lemma backfill_ends:
  "te_TaskID ev = tid \<Longrightarrow> tid \<noteq> [] \<Longrightarrow> ends_task ev \<Longrightarrow> map_of (fst (backfill_apply b ev)) tid = None"
  by (auto simp: backfill_simps ends_task_def split: option.split)

lemma backfill_raw: "te_Raw (snd (backfill_apply b ev)) = te_Raw ev"
  by (simp add: backfill_simps split: option.split)

definition backfill_all :: "taskTypeBackfiller \<Rightarrow> TaskEvent list \<Rightarrow> taskTypeBackfiller" where
  "backfill_all b evs = foldl (\<lambda>b ev. fst (backfill_apply b ev)) b evs"

lemma backfill_all_keeps:
  assumes "knows b tid st" "tid \<noteq> []"
    and "\<forall>ev \<in> set evs. te_TaskID ev = tid \<longrightarrow> \<not> starts_task ev \<and> \<not> ends_task ev"
  shows "knows (backfill_all b evs) tid st"
  using assms
proof (induction evs arbitrary: b)
  case (Cons ev evs)
  have "knows (fst (backfill_apply b ev)) tid st"
    by (rule backfill_keeps) (use Cons.prems in auto)
  with Cons show ?case by (simp add: backfill_all_def)
qed (simp add: backfill_all_def)

definition sample_task :: "string \<Rightarrow> string \<Rightarrow> string \<Rightarrow> TaskEvent" where
  "sample_task sub tid ty =
     \<lparr>te_Subtype = sub, te_TaskID = tid, te_ToolUseID = [], te_SessionID = [], te_Description = [],
      te_SubagentType = [], te_TaskType = ty, te_Prompt = [], te_WorkflowName = [],
      te_LastToolName = [], te_WorkflowProgress = None, te_WorkflowAgentLabel = [],
      te_WorkflowPhaseTitle = [], te_WorkflowAgentID = [], te_Status = [], te_Summary = [],
      te_OutputFile = [], te_EndTime = 0, te_OwnedBySubagent = False, te_IsBackgrounded = False,
      te_TotalTokens = 0, te_ToolUses = 0, te_DurationMs = 0, te_Raw = []\<rparr>"

section \<open>Properties\<close>

text \<open>
  C7: The classification a task's start carries reaches the task's later events through any
  interleaving: once an event with a task type has been applied, and as long as no event of the same
  task starts it anew or ends it, the next event of that task without a type of its own leaves with
  the type, with the workflow name unless it has one, and with the ownership flag, and with its raw
  line untouched, whatever events of other tasks came in between.
\<close>

theorem task_stamp_survives:
  assumes "te_TaskID ev0 \<noteq> []" "starts_task ev0" "\<not> ends_task ev0"
    and "\<forall>e \<in> set evs. te_TaskID e = te_TaskID ev0 \<longrightarrow> \<not> starts_task e \<and> \<not> ends_task e"
    and "te_TaskID ev = te_TaskID ev0" "\<not> starts_task ev"
    and "out = snd (backfill_apply (backfill_all (fst (backfill_apply b ev0)) evs) ev)"
  shows "te_TaskType out = te_TaskType ev0
    \<and> (te_WorkflowName ev = [] \<longrightarrow> te_WorkflowName out = te_WorkflowName ev0)
    \<and> te_OwnedBySubagent out = (te_OwnedBySubagent ev \<or> te_OwnedBySubagent ev0)
    \<and> te_Raw out = te_Raw ev"
proof -
  have k: "knows (backfill_all (fst (backfill_apply b ev0)) evs) (te_TaskID ev0)
      (te_TaskType ev0, te_WorkflowName ev0, te_OwnedBySubagent ev0)"
    using assms(1-4) by (intro backfill_all_keeps backfill_start) auto
  have "te_Raw out = te_Raw ev"
    unfolding assms(7) by (rule backfill_raw)
  with backfill_stamps [OF k assms(5) assms(1) assms(6)] assms(7) show ?thesis by simp
qed

theorem task_stamp_survives_witness:
  "te_TaskType (snd (backfill_apply
       (backfill_all
          (fst (backfill_apply newTaskTypeBackfiller
                  (sample_task ''task_started'' ''a'' ''local_workflow'')))
          [sample_task ''task_started'' ''b'' ''local_agent''])
       (sample_task ''task_updated'' ''a'' []))) = ''local_workflow''"
proof -
  have "te_TaskType (snd (backfill_apply
       (backfill_all
          (fst (backfill_apply newTaskTypeBackfiller
                  (sample_task ''task_started'' ''a'' ''local_workflow'')))
          [sample_task ''task_started'' ''b'' ''local_agent''])
       (sample_task ''task_updated'' ''a'' [])))
     = te_TaskType (sample_task ''task_started'' ''a'' ''local_workflow'')"
    by (rule task_stamp_survives [THEN conjunct1, OF _ _ _ _ _ _ refl])
       (simp_all add: sample_task_def starts_task_def ends_task_def)
  then show ?thesis by (simp add: sample_task_def)
qed

text \<open>
  Naming the agent of a workflow tick: the loop with its early return computes the reference,
  in which the agents whose name equals the description must agree on phase and label, and the id
  is set only if they all carry it.
\<close>

lemma agent_resolution_is_reference:
  "resolveWorkflowAgent ev agents =
     (if te_Description ev = [] then ev
      else case agent_spec (te_Description ev) agents of
        None \<Rightarrow> ev
      | Some (phase, label, agent) \<Rightarrow>
          ev\<lparr>te_WorkflowPhaseTitle := phase, te_WorkflowAgentLabel := label,
             te_WorkflowAgentID := agent\<rparr>)"
  by (simp add: resolveWorkflowAgent_def resolve_loop_None agent_spec_def split: list.split)

text \<open>
  A task is forgotten with its terminal notification, whose own stamp is applied first: the
  notification still carries the task's type, and afterwards the backfiller has no entry for it.
\<close>

lemma terminal_notification_is_stamped_then_forgotten:
  assumes "knows b (te_TaskID ev) (ty, name, owned)"
    and "te_TaskID ev \<noteq> []" "\<not> starts_task ev" "ends_task ev"
  shows "te_TaskType (snd (backfill_apply b ev)) = ty
    \<and> map_of (fst (backfill_apply b ev)) (te_TaskID ev) = None"
  using assms backfill_stamps(1) backfill_ends by blast

lemma terminal_notification_is_stamped_then_forgotten_witness:
  "map_of (fst (backfill_apply
       [(''a'', \<lparr>ti_taskType = ''local_agent'', ti_workflowName = [], ti_ownedBySubagent = True,
                ti_agents = []\<rparr>)]
       ((sample_task ''task_notification'' ''a'' [])\<lparr>te_Status := ''completed''\<rparr>))) ''a'' = None"
proof -
  have "te_TaskID ((sample_task ''task_notification'' ''a'' [])\<lparr>te_Status := ''completed''\<rparr>) = ''a''"
    by (simp add: sample_task_def)
  then show ?thesis
    using terminal_notification_is_stamped_then_forgotten
      [of "[(''a'', \<lparr>ti_taskType = ''local_agent'', ti_workflowName = [], ti_ownedBySubagent = True,
                ti_agents = []\<rparr>)]"
          "(sample_task ''task_notification'' ''a'' [])\<lparr>te_Status := ''completed''\<rparr>"
          "''local_agent''" "[]" True]
    by (simp add: sample_task_def knows_def stamp_of_def starts_task_def ends_task_def
        workflowStatusTerminal_def)
qed

end
