(* ===== verification/Decode.thy ===== *)
theory Decode
  imports Raw_Event Task_Backfill
begin

text \<open>
  The builders of parse.go that turn one wire line into one event, the error classification that
  reads a whole line (error.go), and \<^verbatim>\<open>decodeStatelessEvent\<close> of decode.go, which both decode loops
  share. \<open>line\<close> is the raw line, \<open>raw\<close> what it decodes to. The texts of \<^verbatim>\<open>encoding/json\<close>'s own errors
  are not modelled: such an error is \<open>json_error\<close>.
\<close>

definition json_error :: go_error where
  "json_error = EExt ''encoding/json''"

definition previewLine :: "string \<Rightarrow> string" where
  "previewLine line =
     replace_char (CHR 0x0A) [CHR 0x5C, CHR ''n'']
       (if length line > 200 then take 200 line @ ''...(truncated)'' else line)"

section \<open>Tool results and origins\<close>

record imageSource =
  is_Type :: string
  is_MediaType :: string
  is_Data :: string

record resultBlock =
  rb_Type :: string
  rb_Text :: string
  rb_Source :: "imageSource option"

definition d_resultBlock :: "resultBlock dec" where
  [json_eval]: "d_resultBlock =
     d_struct
       [fld ''type'' d_str rb_Type rb_Type_update,
        fld ''text'' d_str rb_Text rb_Text_update,
        fld ''source''
          (d_ptr
            (d_struct
               [fld ''type'' d_str is_Type is_Type_update,
                fld ''media_type'' d_str is_MediaType is_MediaType_update,
                fld ''data'' d_str is_Data is_Data_update])
            \<lparr>is_Type = [], is_MediaType = [], is_Data = []\<rparr>)
          rb_Source rb_Source_update]"

definition text_content :: "string \<Rightarrow> ToolContent" where
  "text_content s = \<lparr>tc_Type = ''text'', tc_Text = s, tc_MediaType = [], tc_Data = []\<rparr>"

definition block_content :: "resultBlock \<Rightarrow> ToolContent list" where
  "block_content b =
     (if rb_Type b = ''text'' then [text_content (rb_Text b)]
      else if rb_Type b = ''image'' then
        (case rb_Source b of
           None \<Rightarrow> []
         | Some s \<Rightarrow> [\<lparr>tc_Type = ''image'', tc_Text = [], tc_MediaType = is_MediaType s,
                      tc_Data = is_Data s\<rparr>])
      else [])"

definition extractContent :: "raw_msg \<Rightarrow> ToolContent list" where
  "extractContent raw =
     (case raw of
        None \<Rightarrow> []
      | Some j \<Rightarrow>
          (case d_str j [] of
             (s, True) \<Rightarrow> [text_content s]
           | _ \<Rightarrow>
             (case d_list d_resultBlock \<lparr>rb_Type = [], rb_Text = [], rb_Source = None\<rparr> j [] of
                (blocks, True) \<Rightarrow> concat (map block_content blocks)
              | _ \<Rightarrow> [text_content (jraw j)])))"

record rawOrigin =
  ro_Kind :: string
  ro_Subkind :: string

definition parseOrigin :: "raw_msg \<Rightarrow> Origin option" where
  "parseOrigin data =
     (case data of
        None \<Rightarrow> None
      | Some j \<Rightarrow>
          if jraw j = ''null'' then None
          else (case d_struct
                       [fld ''kind'' d_str ro_Kind ro_Kind_update,
                        fld ''subkind'' d_str ro_Subkind ro_Subkind_update]
                       j \<lparr>ro_Kind = [], ro_Subkind = []\<rparr> of
                  (r, ok) \<Rightarrow>
                    if \<not> ok \<or> ro_Kind r = [] then None
                    else Some \<lparr>og_Kind = ro_Kind r, og_Subkind = ro_Subkind r, og_Raw = jraw j\<rparr>))"

section \<open>User events\<close>

text \<open>workflow.go\<close>

definition parseWorkflowLaunch :: "raw_msg \<Rightarrow> WorkflowLaunch option" where
  "parseWorkflowLaunch data =
     (case unmarshal_raw d_WorkflowLaunch data zero_WorkflowLaunch of
        (wl, ok) \<Rightarrow>
          if \<not> ok then None
          else if wl_TaskType wl = ''local_workflow'' \<or> (wl_RunID wl \<noteq> [] \<and> wl_ScriptPath wl \<noteq> [])
          then Some wl else None)"

record rawAgentResult =
  ra_Status :: string
  ra_Prompt :: string
  ra_AgentID :: string
  ra_AgentType :: string
  ra_Content :: "rawContent list"
  ra_TotalDurationMs :: int
  ra_TotalTokens :: int
  ra_TotalToolUseCount :: int

definition zero_rawAgentResult :: rawAgentResult where
  [json_eval]: "zero_rawAgentResult =
     \<lparr>ra_Status = [], ra_Prompt = [], ra_AgentID = [], ra_AgentType = [], ra_Content = [],
      ra_TotalDurationMs = 0, ra_TotalTokens = 0, ra_TotalToolUseCount = 0\<rparr>"

definition d_rawAgentResult :: "rawAgentResult dec" where
  [json_eval]: "d_rawAgentResult =
     d_struct
       [fld ''status'' d_str ra_Status ra_Status_update,
        fld ''prompt'' d_str ra_Prompt ra_Prompt_update,
        fld ''agentId'' d_str ra_AgentID ra_AgentID_update,
        fld ''agentType'' d_str ra_AgentType ra_AgentType_update,
        fld ''content'' (d_list d_rawContent zero_rawContent) ra_Content ra_Content_update,
        fld ''totalDurationMs'' d_int ra_TotalDurationMs ra_TotalDurationMs_update,
        fld ''totalTokens'' d_int ra_TotalTokens ra_TotalTokens_update,
        fld ''totalToolUseCount'' d_int ra_TotalToolUseCount ra_TotalToolUseCount_update]"

definition parseAgentResult :: "raw_msg \<Rightarrow> AgentResult option" where
  "parseAgentResult data =
     (case unmarshal_raw d_rawAgentResult data zero_rawAgentResult of
        (r, ok) \<Rightarrow>
          if \<not> ok then None
          else if ra_Status r = [] \<and> ra_AgentID r = [] \<and> ra_AgentType r = []
                  \<and> ra_Content r = [] \<and> ra_TotalDurationMs r = 0
                  \<and> ra_TotalTokens r = 0 \<and> ra_TotalToolUseCount r = 0
          then None
          else Some
            \<lparr>ar_Status = ra_Status r, ar_Prompt = ra_Prompt r, ar_AgentID = ra_AgentID r,
             ar_AgentType = ra_AgentType r,
             ar_Content = map (\<lambda>b. text_content (rc_Text b))
                            (filter (\<lambda>b. rc_Type b = ''text'') (ra_Content r)),
             ar_TotalDurationMs = ra_TotalDurationMs r, ar_TotalTokens = ra_TotalTokens r,
             ar_TotalToolUseCount = ra_TotalToolUseCount r\<rparr>)"

definition user_content :: "rawContent \<Rightarrow> UserContent" where
  "user_content b =
     (if rc_Type b = ''text'' then
        \<lparr>uc_Type = rc_Type b, uc_Text = rc_Text b, uc_ToolUseID = [], uc_Content = [],
         uc_IsError = False\<rparr>
      else if rc_Type b = ''tool_result'' then
        \<lparr>uc_Type = rc_Type b, uc_Text = [], uc_ToolUseID = rc_ToolUseID b,
         uc_Content = extractContent (rc_Content b), uc_IsError = rc_IsError b\<rparr>
      else
        \<lparr>uc_Type = rc_Type b, uc_Text = [], uc_ToolUseID = [], uc_Content = [],
         uc_IsError = False\<rparr>)"

definition string_or_empty :: "string option \<Rightarrow> string" where
  "string_or_empty p = (case p of None \<Rightarrow> [] | Some s \<Rightarrow> s)"

definition parseUserEvent :: "rawEvent \<Rightarrow> UserEvent" where
  "parseUserEvent raw =
     (let launch = (case raw_ToolUseResult raw of
                      None \<Rightarrow> None
                    | Some j \<Rightarrow> parseWorkflowLaunch (Some j)) in
      \<lparr>ue_Content = (case raw_Message raw of None \<Rightarrow> [] | Some m \<Rightarrow> map user_content (rm_Content m)),
       ue_ParentToolUseID = string_or_empty (raw_ParentToolUseID raw),
       ue_AgentResult =
         (case raw_ToolUseResult raw of
            None \<Rightarrow> None
          | Some j \<Rightarrow> if launch \<noteq> None then None else parseAgentResult (Some j)),
       ue_WorkflowLaunch = launch,
       ue_SessionID = raw_SessionID raw,
       ue_UUID = raw_UUID raw,
       ue_Timestamp = raw_Timestamp raw,
       ue_IsReplay = raw_IsReplay raw,
       ue_Origin = parseOrigin (raw_Origin raw)\<rparr>)"

section \<open>System events\<close>

definition parseInitEvent :: "rawEvent \<Rightarrow> InitEvent" where
  "parseInitEvent raw =
     \<lparr>ini_SessionID = raw_SessionID raw, ini_Model = raw_Model raw, ini_Tools = raw_Tools raw,
      ini_Agents = raw_Agents raw, ini_Skills = raw_Skills raw,
      ini_MCPServers = raw_MCPServers raw, ini_MCPServerErrors = raw_MCPServerErrors raw,
      ini_CLIVersion = raw_CLIVersion raw, ini_CWD = raw_CWD raw,
      ini_PermissionMode = raw_PermissionMode raw, ini_OutputStyle = raw_OutputStyle raw,
      ini_SlashCommands = raw_SlashCommands raw, ini_Plugins = raw_Plugins raw,
      ini_Capabilities = raw_Capabilities raw, ini_Unsolicited = False\<rparr>"

definition parseHookEvent :: "rawEvent \<Rightarrow> string \<Rightarrow> HookEvent" where
  "parseHookEvent raw line =
     \<lparr>he_Subtype = raw_Subtype raw, he_HookID = raw_HookID raw, he_HookName = raw_HookName raw,
      he_HookEvent = raw_HookEvent raw, he_UUID = raw_UUID raw, he_SessionID = raw_SessionID raw,
      he_Output = raw_Output raw, he_Stdout = raw_Stdout raw, he_Stderr = raw_Stderr raw,
      he_ExitCode = raw_ExitCode raw, he_Outcome = raw_Outcome raw, he_Raw = line\<rparr>"

record taskPatch =
  tpa_Status :: "string option"
  tpa_EndTime :: int

definition d_taskPatch :: "taskPatch dec" where
  [json_eval]: "d_taskPatch =
     d_struct
       [fld ''status'' (d_ptr d_str []) tpa_Status tpa_Status_update,
        fld ''end_time'' d_int tpa_EndTime tpa_EndTime_update]"

text \<open>The status and end time: from the patch when there is one that decodes.\<close>

definition task_status :: "rawEvent \<Rightarrow> string \<times> int" where
  "task_status raw =
     (let status = string_or_empty (raw_Status raw) in
      case raw_Patch raw of
        None \<Rightarrow> (status, 0)
      | Some j \<Rightarrow>
          (case d_taskPatch j \<lparr>tpa_Status = None, tpa_EndTime = 0\<rparr> of
             (p, ok) \<Rightarrow>
               if ok then ((case tpa_Status p of Some s \<Rightarrow> s | None \<Rightarrow> status), tpa_EndTime p)
               else (status, 0)))"

definition parseTaskEvent :: "rawEvent \<Rightarrow> string \<Rightarrow> TaskEvent" where
  "parseTaskEvent raw line =
     \<lparr>te_Subtype = raw_Subtype raw, te_TaskID = raw_TaskID raw, te_ToolUseID = raw_ToolUseID raw,
      te_SessionID = raw_SessionID raw, te_Description = raw_Description raw,
      te_SubagentType = raw_SubagentType raw, te_TaskType = raw_TaskType raw,
      te_Prompt = raw_Prompt raw, te_WorkflowName = raw_WorkflowName raw,
      te_LastToolName = raw_LastToolName raw, te_WorkflowProgress = raw_WorkflowProgress raw,
      te_WorkflowAgentLabel = [], te_WorkflowPhaseTitle = [], te_WorkflowAgentID = [],
      te_Status = fst (task_status raw), te_Summary = raw_Summary raw,
      te_OutputFile = raw_OutputFile raw, te_EndTime = snd (task_status raw),
      te_OwnedBySubagent = raw_OwnedBySubagent raw, te_IsBackgrounded = raw_IsBackgrounded raw,
      te_TotalTokens = ru_TotalTokens (raw_Usage raw), te_ToolUses = ru_ToolUses (raw_Usage raw),
      te_DurationMs = ru_DurationMs (raw_Usage raw), te_Raw = line\<rparr>"

record compactMeta =
  cm_Trigger :: string
  cm_PreTokens :: int

definition parseCompactBoundaryEvent :: "rawEvent \<Rightarrow> CompactBoundaryEvent" where
  "parseCompactBoundaryEvent raw =
     (let none = \<lparr>cm_Trigger = [], cm_PreTokens = 0\<rparr>;
          meta =
            (case raw_CompactMetadata raw of
               None \<Rightarrow> none
             | Some j \<Rightarrow>
                 (case d_struct
                         [fld ''trigger'' d_str cm_Trigger cm_Trigger_update,
                          fld ''pre_tokens'' d_int cm_PreTokens cm_PreTokens_update] j none of
                    (m, ok) \<Rightarrow> if ok then m else none)) in
      \<lparr>cb_SessionID = raw_SessionID raw, cb_Trigger = cm_Trigger meta,
       cb_PreTokens = cm_PreTokens meta, cb_Raw = raw_bytes (raw_CompactMetadata raw)\<rparr>)"

record namedFile =
  nf_Filename :: string
  nf_Other :: string

definition d_namedFile :: "string \<Rightarrow> namedFile dec" where
  [json_eval]: "d_namedFile other =
     d_struct
       [fld ''filename'' d_str nf_Filename nf_Filename_update,
        fld other d_str nf_Other nf_Other_update]"

definition named_files :: "string \<Rightarrow> raw_msg \<Rightarrow> namedFile list" where
  "named_files other m =
     (case m of
        None \<Rightarrow> []
      | Some j \<Rightarrow>
          (case d_list (d_namedFile other) \<lparr>nf_Filename = [], nf_Other = []\<rparr> j [] of
             (fs, ok) \<Rightarrow> if ok then fs else []))"

definition parseFilesPersistedEvent :: "rawEvent \<Rightarrow> FilesPersistedEvent" where
  "parseFilesPersistedEvent raw =
     \<lparr>fp_Files = map (\<lambda>f. \<lparr>pf_Filename = nf_Filename f, pf_FileID = nf_Other f\<rparr>)
                   (named_files ''file_id'' (raw_Files raw)),
      fp_Failed = map (\<lambda>f. \<lparr>ff_Filename = nf_Filename f, ff_Error = nf_Other f\<rparr>)
                    (named_files ''error'' (raw_Failed raw))\<rparr>"

record rawPermissionDenied =
  rp_ToolName :: string
  rp_ToolUseID :: string
  rp_AgentID :: string
  rp_DecisionReasonType :: string
  rp_DecisionReason :: string
  rp_Message :: string

definition d_permission_denied :: "rawPermissionDenied dec" where
  [json_eval]: "d_permission_denied =
     d_struct
       [fld ''tool_name'' d_str rp_ToolName rp_ToolName_update,
        fld ''tool_use_id'' d_str rp_ToolUseID rp_ToolUseID_update,
        fld ''agent_id'' d_str rp_AgentID rp_AgentID_update,
        fld ''decision_reason_type'' d_str rp_DecisionReasonType rp_DecisionReasonType_update,
        fld ''decision_reason'' d_str rp_DecisionReason rp_DecisionReason_update,
        fld ''message'' d_str rp_Message rp_Message_update]"

text \<open>From the raw line, and the error of decoding it is dropped: what did decode stays.\<close>

definition parsePermissionDeniedEvent :: "rawEvent \<Rightarrow> string \<Rightarrow> PermissionDeniedEvent" where
  "parsePermissionDeniedEvent raw line =
     (let pd = fst (unmarshal d_permission_denied line
                      \<lparr>rp_ToolName = [], rp_ToolUseID = [], rp_AgentID = [],
                       rp_DecisionReasonType = [], rp_DecisionReason = [], rp_Message = []\<rparr>) in
      \<lparr>pd_ToolName = rp_ToolName pd, pd_ToolUseID = rp_ToolUseID pd, pd_AgentID = rp_AgentID pd,
       pd_DecisionReasonType = rp_DecisionReasonType pd, pd_DecisionReason = rp_DecisionReason pd,
       pd_Message = rp_Message pd, pd_SessionID = raw_SessionID raw, pd_UUID = raw_UUID raw\<rparr>)"

definition parseBackgroundTasksChangedEvent :: "rawEvent \<Rightarrow> BackgroundTasksChangedEvent" where
  "parseBackgroundTasksChangedEvent raw =
     \<lparr>btc_Tasks = raw_Tasks raw, btc_SessionID = raw_SessionID raw, btc_UUID = raw_UUID raw\<rparr>"

definition parseCommandsChangedEvent :: "rawEvent \<Rightarrow> CommandsChangedEvent" where
  "parseCommandsChangedEvent raw =
     \<lparr>cc_Commands = raw_Commands raw, cc_SessionID = raw_SessionID raw, cc_UUID = raw_UUID raw\<rparr>"

definition parseSessionStateChangedEvent :: "rawEvent \<Rightarrow> SessionStateChangedEvent" where
  "parseSessionStateChangedEvent raw =
     \<lparr>ssc_State = raw_State raw, ssc_SessionID = raw_SessionID raw, ssc_UUID = raw_UUID raw\<rparr>"

section \<open>Other top-level types\<close>

definition parseConversationResetEvent :: "rawEvent \<Rightarrow> ConversationResetEvent" where
  "parseConversationResetEvent raw =
     \<lparr>cr_NewConversationID = raw_NewConversationID raw, cr_SessionID = raw_SessionID raw,
      cr_UUID = raw_UUID raw\<rparr>"

definition parseRateLimitEvent :: "rawEvent \<Rightarrow> RateLimitEvent" where
  "parseRateLimitEvent raw =
     (let i = raw_RateLimitInfo raw in
      \<lparr>rl_Status = rr_Status i, rl_Utilization = rr_Utilization i, rl_ResetsAt = rr_ResetsAt i,
       rl_RateLimitType = rr_RateLimitType i, rl_OverageStatus = rr_OverageStatus i,
       rl_OverageResetsAt = rr_OverageResetsAt i,
       rl_OverageDisabledReason = rr_OverageDisabledReason i, rl_UUID = raw_UUID raw,
       rl_SessionID = raw_SessionID raw,
       rl_Raw = (case rr_Raw i of None \<Rightarrow> [] | Some m \<Rightarrow> m)\<rparr>)"

definition parseCLIToolProgressEvent :: "rawEvent \<Rightarrow> CLIToolProgressEvent" where
  "parseCLIToolProgressEvent raw =
     \<lparr>ctp_ToolUseID = raw_ToolUseID raw, ctp_ToolName = raw_ToolName raw,
      ctp_ElapsedSeconds = raw_ElapsedTimeSeconds raw, ctp_TaskID = raw_TaskID raw\<rparr>"

definition parseToolUseSummaryEvent :: "rawEvent \<Rightarrow> ToolUseSummaryEvent" where
  "parseToolUseSummaryEvent raw =
     \<lparr>tus_Summary = raw_Summary raw, tus_PrecedingToolUseIDs = raw_PrecedingToolUseIDs raw\<rparr>"

definition parseAuthStatusEvent :: "rawEvent \<Rightarrow> AuthStatusEvent" where
  "parseAuthStatusEvent raw =
     \<lparr>as_IsAuthenticating = raw_IsAuthenticating raw, as_Output = raw_Output raw,
      as_Error =
        (case raw_ErrorData raw of
           None \<Rightarrow> []
         | Some j \<Rightarrow> (case d_str j [] of (s, ok) \<Rightarrow> if ok then s else []))\<rparr>"

record rawErrorObject =
  eo_Type :: string
  eo_Message :: string

definition d_error_object :: "rawErrorObject dec" where
  [json_eval]: "d_error_object =
     d_struct
       [fld ''type'' d_str eo_Type eo_Type_update, fld ''message'' d_str eo_Message eo_Message_update]"

definition parseErrorEvent :: "rawEvent \<Rightarrow> ErrorEvent" where
  "parseErrorEvent raw =
     (case (case raw_ErrorData raw of
              None \<Rightarrow> (\<lparr>eo_Type = [], eo_Message = []\<rparr>, True)
            | Some j \<Rightarrow> d_error_object j \<lparr>eo_Type = [], eo_Message = []\<rparr>) of
        (obj, ok) \<Rightarrow>
          (let msg =
                 (if eo_Message obj \<noteq> [] then eo_Message obj
                  else if \<not> ok then
                    ''unknown error (unmarshal failed: ''
                      @ previewLine (raw_bytes (raw_ErrorData raw)) @ '')''
                  else ''unknown error'');
               d = \<lparr>ed_typ = normalizeAPIErrorType (eo_Type obj), ed_message = msg,
                    ed_retry_after = 0\<rparr> in
           \<lparr>ee_Err =
              (case classifyError d of
                 Some e \<Rightarrow> e
               | None \<Rightarrow> wrap_sentinel ErrAPI (eo_Type obj @ '': '' @ msg)),
            ee_Fatal = False\<rparr>))"

end
