(* ===== verification/Parse.thy ===== *)
theory Parse
  imports Decode Activity Context_Tracker
begin

text \<open>
  The decode loop \<^verbatim>\<open>ParseEvents\<close> (parse.go) and what it shares with the session's loop:
  \<^verbatim>\<open>decodeStatelessEvent\<close> (decode.go), the result event, the content blocks of an assistant message
  and the classification of API failures (error.go). The reader is given as the lines the scanner
  yields, each with the state of the context and the clock when the loop gets to it.
\<close>

section \<open>API failures\<close>

definition syntheticAPIError :: "rawEvent \<Rightarrow> rawMessage \<Rightarrow> go_error" where
  "syntheticAPIError raw m =
     (let text = concat (map rc_Text (filter (\<lambda>b. rc_Type b = ''text'') (rm_Content m)));
          msg = (if text = [] then ''synthetic CLI api-error message'' else text);
          errType = fst (unmarshal_raw d_str (raw_ErrorData raw) []) in
      case classifyAPIFailure msg errType (raw_APIErrorStatus raw) of
        None \<Rightarrow> wrap_sentinel ErrAPI msg
      | Some class \<Rightarrow>
          if error_is class ErrAPI then wrap_sentinel ErrAPI msg
          else EWrap2 (ESent ErrAPI) class)"

definition resultErrorText :: "rawEvent \<Rightarrow> string" where
  "resultErrorText raw =
     (if raw_Result raw \<noteq> [] then raw_Result raw
      else if raw_Errors raw \<noteq> [] then join ''; '' (raw_Errors raw)
      else ''turn ended in error'')"

definition resultError :: "rawEvent \<Rightarrow> go_error option" where
  "resultError raw =
     (if \<not> raw_IsError raw \<or> raw_Subtype raw = ''error_max_turns'' then None
      else if raw_TerminalReason raw = ''prompt_too_long''
              \<or> raw_TerminalReason raw = ''blocking_limit''
      then Some (wrap_sentinel ErrContextWindowExceeded (resultErrorText raw))
      else classifyAPIFailure (resultErrorText raw) [] (raw_APIErrorStatus raw))"

definition exitResultMessage :: "ResultEvent \<Rightarrow> string" where
  "exitResultMessage r =
     (let msg = join ''; '' (re_Errors r);
          msg = (if msg = [] then re_Text r else msg);
          msg = (if msg = [] then ''turn ended in error'' else msg) in
      if re_TerminalReason r \<noteq> [] then msg @ '' (terminal_reason '' @ re_TerminalReason r @ '')''
      else msg)"

section \<open>Results\<close>

definition toUsage :: "rawUsage \<Rightarrow> Usage" where
  "toUsage r =
     \<lparr>us_InputTokens = ru_InputTokens r, us_OutputTokens = ru_OutputTokens r,
      us_CacheReadTokens = ru_CacheReadInputTokens r,
      us_CacheCreateTokens = ru_CacheCreationInputTokens r\<rparr>"

definition convert_usage :: "rawModelUsage \<Rightarrow> ModelUsage" where
  "convert_usage v =
     \<lparr>mu_InputTokens = rmu_InputTokens v, mu_OutputTokens = rmu_OutputTokens v,
      mu_CacheReadTokens = rmu_CacheReadInputTokens v,
      mu_CacheCreateTokens = rmu_CacheCreationInputTokens v, mu_CostUSD = rmu_CostUSD v,
      mu_ContextWindow = rmu_ContextWindow v, mu_MaxOutputTokens = rmu_MaxOutputTokens v,
      mu_WebSearchRequests = rmu_WebSearchRequests v, mu_WebFetchRequests = rmu_WebFetchRequests v\<rparr>"

definition convertModelUsage :: "(string \<times> rawModelUsage) list option \<Rightarrow> (string \<times> ModelUsage) list" where
  "convertModelUsage raw =
     (case raw of None \<Rightarrow> [] | Some m \<Rightarrow> map (\<lambda>(k, v). (k, convert_usage v)) m)"

definition newResultEvent ::
    "rawEvent \<Rightarrow> string \<Rightarrow> (string \<times> ModelUsage) list \<Rightarrow> ContextSnapshot option \<Rightarrow> ResultEvent" where
  "newResultEvent raw text modelUsage snapshot =
     \<lparr>re_Text = text, re_Subtype = raw_Subtype raw, re_StopReason = raw_StopReason raw,
      re_StructuredOutput = raw_bytes (raw_StructuredOutput raw),
      re_Duration = wrap64 (float_to_int64 (raw_DurationMS raw) * 1000000),
      re_CostUSD = raw_CostUSD raw, re_SessionID = raw_SessionID raw,
      re_NumTurns = raw_NumTurns raw, re_Usage = toUsage (raw_Usage raw),
      re_ModelUsage = modelUsage, re_ContextSnapshot = snapshot,
      re_Origin = parseOrigin (raw_Origin raw), re_ResultIndex = raw_ResultIndex raw,
      re_IsError = raw_IsError raw, re_TerminalReason = raw_TerminalReason raw,
      re_APIErrorStatus = raw_APIErrorStatus raw, re_Errors = raw_Errors raw,
      re_Unsolicited = False\<rparr>"

section \<open>Stateless lines\<close>

text \<open>
  \<open>None\<close> is "not mine", \<open>Some None\<close> "handled, emit nothing".
\<close>

definition decode_system ::
    "rawEvent \<Rightarrow> string \<Rightarrow> taskTypeBackfiller \<Rightarrow> taskTypeBackfiller \<times> event option option" where
  "decode_system raw line b =
     (let sub = raw_Subtype raw in
      if sub = ''init'' \<or> sub = [] then (b, None)
      else if sub = ''status'' then
        (b, Some (Some (EvCompactStatus
           \<lparr>cst_SessionID = raw_SessionID raw, cst_Status = string_or_empty (raw_Status raw)\<rparr>)))
      else if sub = ''compact_boundary'' then
        (b, Some (Some (EvCompactBoundary (parseCompactBoundaryEvent raw))))
      else if sub = ''task_started'' \<or> sub = ''task_progress'' \<or> sub = ''task_updated''
              \<or> sub = ''task_notification'' then
        (case backfill_apply b (parseTaskEvent raw line) of (b', ev) \<Rightarrow> (b', Some (Some (EvTask ev))))
      else if sub = ''hook_started'' \<or> sub = ''hook_progress'' \<or> sub = ''hook_response'' then
        (b, Some (Some (EvHook (parseHookEvent raw line))))
      else if sub = ''thinking_tokens'' then
        (b, Some (Some (EvThinkingTokens
           \<lparr>tt_EstimatedTokens = raw_EstimatedTokens raw,
            tt_EstimatedTokensDelta = raw_EstimatedTokensDelta raw,
            tt_SessionID = raw_SessionID raw, tt_UUID = raw_UUID raw\<rparr>)))
      else if sub = ''files_persisted'' then
        (b, Some (Some (EvFilesPersisted (parseFilesPersistedEvent raw))))
      else if sub = ''background_tasks_changed'' then
        (b, Some (Some (EvBackgroundTasksChanged (parseBackgroundTasksChangedEvent raw))))
      else if sub = ''session_state_changed'' then
        (b, Some (Some (EvSessionStateChanged (parseSessionStateChangedEvent raw))))
      else if sub = ''commands_changed'' then
        (b, Some (Some (EvCommandsChanged (parseCommandsChangedEvent raw))))
      else if sub = ''permission_denied'' then
        (b, Some (Some (EvPermissionDenied (parsePermissionDeniedEvent raw line))))
      else (b, Some (Some (EvUnknown \<lparr>uk_Type = ''system/'' @ sub, uk_Raw = line\<rparr>))))"

definition decodeStatelessEvent ::
    "rawEvent \<Rightarrow> string \<Rightarrow> taskTypeBackfiller \<Rightarrow> taskTypeBackfiller \<times> event option option" where
  "decodeStatelessEvent raw line b =
     (let ty = raw_Type raw in
      if ty = ''system'' then decode_system raw line b
      else if ty = ''rate_limit_event'' then (b, Some (Some (EvRateLimit (parseRateLimitEvent raw))))
      else if ty = ''user'' then (b, Some (Some (EvUser (parseUserEvent raw))))
      else if ty = ''prompt_suggestion'' then
        (b, Some (Some (EvPromptSuggestion
           \<lparr>ps_Suggestion = raw_Suggestion raw, ps_SessionID = raw_SessionID raw,
            ps_UUID = raw_UUID raw\<rparr>)))
      else if ty = ''tool_progress'' then
        (b, Some (Some (EvCLIToolProgress (parseCLIToolProgressEvent raw))))
      else if ty = ''tool_use_summary'' then
        (b, Some (Some (EvToolUseSummary (parseToolUseSummaryEvent raw))))
      else if ty = ''auth_status'' then (b, Some (Some (EvAuthStatus (parseAuthStatusEvent raw))))
      else if ty = ''conversation_reset'' then
        (b, Some (Some (EvConversationReset (parseConversationResetEvent raw))))
      else if ty = ''keep_alive'' then (b, Some None)
      else (b, None))"

section \<open>Assistant messages\<close>

record assistantMeta =
  am_ParentToolUseID :: string
  am_Model :: string
  am_SubagentType :: string
  am_TaskDescription :: string

text \<open>\<^verbatim>\<open>json.Marshal\<close> of a content block: the empty fields are omitted.\<close>

definition opt_member :: "string \<Rightarrow> string \<Rightarrow> (string \<times> string) list" where
  "opt_member k s = (if s = [] then [] else [(k, quote_json s)])"

definition opt_raw :: "string \<Rightarrow> raw_msg \<Rightarrow> (string \<times> string) list" where
  "opt_raw k m = (case m of None \<Rightarrow> [] | Some j \<Rightarrow> [(k, compact_json False (jraw j))])"

definition marshal_content :: "rawContent \<Rightarrow> string" where
  "marshal_content b =
     obj_json
       ([(''type'', quote_json (rc_Type b))]
        @ opt_member ''text'' (rc_Text b)
        @ opt_member ''thinking'' (rc_Thinking b)
        @ opt_member ''signature'' (rc_Signature b)
        @ opt_member ''id'' (rc_ID b)
        @ opt_member ''name'' (rc_Name b)
        @ opt_raw ''input'' (rc_Input b)
        @ opt_member ''tool_use_id'' (rc_ToolUseID b)
        @ opt_raw ''content'' (rc_Content b)
        @ (if rc_IsError b then [(''is_error'', ''true'')] else []))"

definition tool_use_event :: "rawContent \<Rightarrow> assistantMeta \<Rightarrow> bool \<Rightarrow> bool \<Rightarrow> event" where
  "tool_use_event b meta server mcp =
     EvToolUse
       \<lparr>tu_ID = rc_ID b, tu_Name = rc_Name b, tu_Input = raw_bytes (rc_Input b),
        tu_ParentToolUseID = am_ParentToolUseID meta, tu_Model = am_Model meta,
        tu_SubagentType = am_SubagentType meta, tu_TaskDescription = am_TaskDescription meta,
        tu_ServerSide = server, tu_MCP = mcp\<rparr>"

text \<open>The text a block adds to the result, and the event it emits.\<close>

definition parseContentBlock :: "rawContent \<Rightarrow> assistantMeta \<Rightarrow> string list \<times> event list" where
  "parseContentBlock b meta =
     (let ty = rc_Type b in
      if ty = ''thinking'' then
        ([], [EvThinking
           \<lparr>th_Content = rc_Thinking b, th_Signature = rc_Signature b,
            th_ParentToolUseID = am_ParentToolUseID meta, th_Model = am_Model meta,
            th_SubagentType = am_SubagentType meta, th_TaskDescription = am_TaskDescription meta\<rparr>])
      else if ty = ''text'' then
        ([rc_Text b], [EvText
           \<lparr>tx_Content = rc_Text b, tx_ParentToolUseID = am_ParentToolUseID meta,
            tx_Model = am_Model meta, tx_SubagentType = am_SubagentType meta,
            tx_TaskDescription = am_TaskDescription meta\<rparr>])
      else if ty = ''tool_use'' then ([], [tool_use_event b meta False False])
      else if ty = ''server_tool_use'' then ([], [tool_use_event b meta True False])
      else if ty = ''mcp_tool_use'' then ([], [tool_use_event b meta False True])
      else if ty = ''tool_result'' then
        ([], [EvToolResult
           \<lparr>tr_ToolUseID = rc_ToolUseID b, tr_Content = extractContent (rc_Content b),
            tr_IsError = rc_IsError b, tr_ParentToolUseID = am_ParentToolUseID meta\<rparr>])
      else if ty \<noteq> [] then
        ([], [EvUnknown \<lparr>uk_Type = ''content/'' @ ty, uk_Raw = marshal_content b\<rparr>])
      else ([], []))"

definition content_texts :: "assistantMeta \<Rightarrow> rawContent list \<Rightarrow> string list" where
  "content_texts meta bs = concat (map (\<lambda>b. fst (parseContentBlock b meta)) bs)"

definition content_events :: "assistantMeta \<Rightarrow> rawContent list \<Rightarrow> event list" where
  "content_events meta bs = concat (map (\<lambda>b. snd (parseContentBlock b meta)) bs)"

fun first_tool :: "rawContent list \<Rightarrow> string" where
  "first_tool [] = []"
| "first_tool (b # bs) = (if rc_Type b = ''tool_use'' then rc_Name b else first_tool bs)"

definition context_management :: "rawMessage \<Rightarrow> event list" where
  "context_management m =
     (case rm_ContextManagement m of
        None \<Rightarrow> []
      | Some j \<Rightarrow> if jraw j = ''null'' then [] else [EvContextManagement \<lparr>cmg_Raw = jraw j\<rparr>])"

section \<open>The loop\<close>

text \<open>
  What the loop keeps besides the activity tracker, which wraps every emission and feeds nothing
  back: a step returns the events to emit in order and whether the loop returns.
\<close>

record parse_state =
  pa_resultText :: "string list"
  pa_ctxTracker :: contextTracker
  pa_turnCounter :: int
  pa_backfill :: taskTypeBackfiller

definition init_parse_state :: parse_state where
  "init_parse_state =
     \<lparr>pa_resultText = [], pa_ctxTracker = newContextTracker, pa_turnCounter = 0,
      pa_backfill = newTaskTypeBackfiller\<rparr>"

type_synonym parse_step = "parse_state \<times> event list \<times> bool"

definition non_fatal :: "go_error \<Rightarrow> event" where
  "non_fatal e = EvError \<lparr>ee_Err = e, ee_Fatal = False\<rparr>"

definition line_error :: "string \<Rightarrow> event" where
  "line_error line =
     non_fatal (EWrap ''unmarshal JSONL: '' json_error ('' (line: '' @ previewLine line @ '')''))"

definition parse_assistant :: "rawEvent \<Rightarrow> rawMessage \<Rightarrow> parse_state \<Rightarrow> parse_step" where
  "parse_assistant raw m st =
     (let parent = string_or_empty (raw_ParentToolUseID raw) in
      if isAPIErrorMessage raw then
        (if parent \<noteq> [] then (st, [non_fatal (syntheticAPIError raw m)], False)
         else (st, [EvError \<lparr>ee_Err = syntheticAPIError raw m, ee_Fatal = True\<rparr>], True))
      else
        (let turn = wrap64 (pa_turnCounter st + 1);
             meta = \<lparr>am_ParentToolUseID = parent, am_Model = rm_Model m,
                     am_SubagentType = raw_SubagentType raw,
                     am_TaskDescription = raw_TaskDescription raw\<rparr> in
         (st\<lparr>pa_turnCounter := (if parent = [] then turn else pa_turnCounter st),
             pa_resultText := pa_resultText st @ content_texts meta (rm_Content m)\<rparr>,
          (if parent = []
           then [EvTurn \<lparr>tn_Turn = turn, tn_ToolName = first_tool (rm_Content m)\<rparr>] else [])
            @ content_events meta (rm_Content m) @ context_management m,
          False)))"

definition result_errors :: "rawEvent \<Rightarrow> event list" where
  "result_errors raw =
     (if raw_Subtype raw = ''error_max_turns'' then [non_fatal (classifyMaxTurns (raw_Errors raw))]
      else [])
     @ (case resultError raw of None \<Rightarrow> [] | Some e \<Rightarrow> [non_fatal e])"

definition parse_result :: "iter \<Rightarrow> rawEvent \<Rightarrow> parse_state \<Rightarrow> parse_step" where
  "parse_result it raw st =
     (let mu = convertModelUsage (raw_ModelUsage raw) in
      case ct_finish it mu (pa_ctxTracker st) of
        (ctx, snapshot) \<Rightarrow>
          (let ev = newResultEvent raw (join [] (pa_resultText st)) mu snapshot;
               ev = ev\<lparr>re_Unsolicited := IsTaskNotification (re_Origin ev)\<rparr>;
               st = st\<lparr>pa_ctxTracker := ctx\<rparr> in
           (if re_Unsolicited ev then st\<lparr>pa_resultText := []\<rparr> else st,
            result_errors raw @ [EvResult ev], \<not> re_Unsolicited ev)))"

definition parse_control_request :: "rawEvent \<Rightarrow> parse_state \<Rightarrow> parse_step" where
  "parse_control_request raw st =
     (case unmarshal_raw (d_one ''subtype'' d_str) (raw_Request raw) [] of
        (sub, ok) \<Rightarrow>
          if \<not> ok then (st, [non_fatal (EWrap ''unmarshal control request: '' json_error [])], False)
          else (st, [EvControlRequest
                       \<lparr>crq_RequestID = raw_RequestID raw, crq_Subtype = sub,
                        crq_Body = raw_bytes (raw_Request raw)\<rparr>], False))"

definition parse_stream_event :: "iter \<Rightarrow> rawEvent \<Rightarrow> parse_state \<Rightarrow> parse_step" where
  "parse_stream_event it raw st =
     (case ct_observe it None (raw_Event raw) (raw_SessionID raw) (pa_ctxTracker st) of
        (ctx, cs) \<Rightarrow>
          (st\<lparr>pa_ctxTracker := ctx\<rparr>,
           EvStream \<lparr>se_UUID = raw_UUID raw, se_SessionID = raw_SessionID raw,
                     se_Event = raw_bytes (raw_Event raw)\<rparr>
           # (case cs of None \<Rightarrow> [] | Some e \<Rightarrow> [EvContextSnapshot e]),
           False))"

definition parse_stateful :: "iter \<Rightarrow> rawEvent \<Rightarrow> string \<Rightarrow> parse_state \<Rightarrow> parse_step" where
  "parse_stateful it raw line st =
     (let ty = raw_Type raw in
      if ty = ''system'' then (st, [EvInit (parseInitEvent raw)], False)
      else if ty = ''assistant'' then
        (case raw_Message raw of None \<Rightarrow> (st, [], False) | Some m \<Rightarrow> parse_assistant raw m st)
      else if ty = ''result'' then parse_result it raw st
      else if ty = ''control_request'' then parse_control_request raw st
      else if ty = ''stream_event'' then parse_stream_event it raw st
      else if ty = ''error'' then (st, [EvError (parseErrorEvent raw)], False)
      else (st, [EvUnknown \<lparr>uk_Type = ty, uk_Raw = line\<rparr>], False))"

definition parse_event :: "iter \<Rightarrow> rawEvent \<Rightarrow> string \<Rightarrow> parse_state \<Rightarrow> parse_step" where
  "parse_event it raw line st =
     (case decodeStatelessEvent raw line (pa_backfill st) of
        (b, Some ev) \<Rightarrow> (st\<lparr>pa_backfill := b\<rparr>, (case ev of None \<Rightarrow> [] | Some e \<Rightarrow> [e]), False)
      | (b, None) \<Rightarrow> parse_stateful it raw line (st\<lparr>pa_backfill := b\<rparr>))"

definition parse_line :: "iter \<Rightarrow> string \<Rightarrow> parse_state \<Rightarrow> parse_step" where
  "parse_line it line st =
     (if line = [] then (st, [], False)
      else case decode_line line of
        None \<Rightarrow> (st, [line_error line], False)
      | Some raw \<Rightarrow> parse_event it raw line st)"

text \<open>
  The lines, each with whether the context is done and with the clock when the loop reads it, and
  the scanner's error with the clock at the end.
\<close>

record scanned =
  sl_Done :: bool
  sl_Now :: nanos
  sl_Line :: string

fun parse_feed ::
    "iter \<Rightarrow> scanned list \<Rightarrow> (nanos \<times> go_error) option \<Rightarrow> parse_state \<Rightarrow> (nanos \<times> event) list" where
  "parse_feed it [] err st =
     (case err of None \<Rightarrow> [] | Some (now, e) \<Rightarrow> [(now, non_fatal (EWrap ''scanner: '' e []))])"
| "parse_feed it (l # ls) err st =
     (if sl_Done l then []
      else case parse_line it (sl_Line l) st of
        (st', evs, stop) \<Rightarrow>
          map (Pair (sl_Now l)) evs @ (if stop then [] else parse_feed it ls err st'))"

definition ParseEvents :: "iter \<Rightarrow> scanned list \<Rightarrow> (nanos \<times> go_error) option \<Rightarrow> event list" where
  "ParseEvents it ls err = snd (track_stream (parse_feed it ls err init_parse_state))"

text \<open>
  \<^verbatim>\<open>bufio.Scanner\<close> with \<^verbatim>\<open>ScanLines\<close> and the loop's buffer limit: the lines of a byte stream without
  their line end, and whether a line was too long.
\<close>

definition max_line :: nat where
  "max_line = 10 * 1024 * 1024"

definition drop_cr :: "string \<Rightarrow> string" where
  "drop_cr s = (if s \<noteq> [] \<and> last s = CHR 0x0D then butlast s else s)"

fun scan_lines :: "string \<Rightarrow> string \<Rightarrow> string list \<times> bool" where
  "scan_lines acc [] = ((if acc = [] then [] else [drop_cr (rev acc)]), False)"
| "scan_lines acc (c # cs) =
     (if c = CHR 0x0A then
        (case scan_lines [] cs of (ls, e) \<Rightarrow> (drop_cr (rev acc) # ls, e))
      else if max_line \<le> Suc (length acc) then ([], True)
      else scan_lines (c # acc) cs)"

section \<open>Classification facts\<close>

lemma wrap_sentinel_not [simp]: "error_is (wrap_sentinel s m) t = (s = t)"
  by simp

lemma syntheticAPIError_is_API: "error_is (syntheticAPIError raw m) ErrAPI"
  by (simp add: syntheticAPIError_def Let_def split: option.split)

text \<open>Every error a classifier builds matches exactly one sentinel.\<close>

definition names_one :: "go_error \<Rightarrow> bool" where
  "names_one e \<longleftrightarrow> (\<exists>s. \<forall>t. error_is e t \<longleftrightarrow> t = s)"

lemma classifyError_names_one: "classifyError d = Some e \<Longrightarrow> names_one e"
  by (auto simp: classifyError_def Let_def names_one_def split: if_splits)

lemma classifyAPIFailure_names_one: "classifyAPIFailure m t s = Some e \<Longrightarrow> names_one e"
  by (simp add: classifyAPIFailure_def Let_def classifyError_names_one)

lemma resultError_names_one: "resultError raw = Some e \<Longrightarrow> names_one e"
  by (auto simp: resultError_def names_one_def classifyAPIFailure_names_one [unfolded names_one_def]
      split: if_splits)

section \<open>What a step emits\<close>

text \<open>Events that neither carry text or turns nor end anything.\<close>

definition quiet :: "event \<Rightarrow> bool" where
  "quiet ev =
     (case ev of
        EvText _ \<Rightarrow> False
      | EvResult _ \<Rightarrow> False
      | EvTurn _ \<Rightarrow> False
      | EvError e \<Rightarrow> \<not> ee_Fatal e
      | EvCLIStateChange _ \<Rightarrow> False
      | _ \<Rightarrow> True)"

definition terminal_event :: "event \<Rightarrow> bool" where
  "terminal_event ev =
     (case ev of EvResult r \<Rightarrow> \<not> re_Unsolicited r | EvError e \<Rightarrow> ee_Fatal e | _ \<Rightarrow> False)"

text \<open>The texts seen since the last unsolicited result.\<close>

fun texts_since :: "string list \<Rightarrow> event list \<Rightarrow> string list" where
  "texts_since acc [] = acc"
| "texts_since acc (ev # evs) =
     texts_since
       (case ev of EvText e \<Rightarrow> acc @ [tx_Content e]
                 | EvResult r \<Rightarrow> (if re_Unsolicited r then [] else acc)
                 | _ \<Rightarrow> acc) evs"

fun results_carry :: "string list \<Rightarrow> event list \<Rightarrow> bool" where
  "results_carry acc [] = True"
| "results_carry acc (ev # evs) =
     ((case ev of EvResult r \<Rightarrow> re_Text r = concat acc | _ \<Rightarrow> True)
      \<and> results_carry (texts_since acc [ev]) evs)"

fun turn_numbers :: "event list \<Rightarrow> int list" where
  "turn_numbers [] = []"
| "turn_numbers (ev # evs) = (case ev of EvTurn e \<Rightarrow> [tn_Turn e] | _ \<Rightarrow> []) @ turn_numbers evs"

lemma texts_since_append: "texts_since acc (xs @ ys) = texts_since (texts_since acc xs) ys"
  by (induction xs arbitrary: acc) auto

lemma results_carry_append:
  "results_carry acc (xs @ ys) \<longleftrightarrow> results_carry acc xs \<and> results_carry (texts_since acc xs) ys"
  by (induction xs arbitrary: acc) auto

lemma turn_numbers_append: "turn_numbers (xs @ ys) = turn_numbers xs @ turn_numbers ys"
  by (induction xs) (auto split: event.split)

lemma quiet_one:
  assumes "quiet ev"
  shows "texts_since acc (ev # evs) = texts_since acc evs"
    and "results_carry acc (ev # evs) = results_carry acc evs"
    and "turn_numbers (ev # evs) = turn_numbers evs"
    and "\<not> terminal_event ev" and "\<not> is_state_change ev"
  using assms
  by (cases ev; simp add: quiet_def terminal_event_def is_state_change_def)+

lemma quiet_list:
  assumes "list_all quiet evs"
  shows "texts_since acc evs = acc \<and> results_carry acc evs \<and> turn_numbers evs = []
    \<and> list_all (\<lambda>ev. \<not> terminal_event ev) evs \<and> list_all (\<lambda>ev. \<not> is_state_change ev) evs"
  using assms by (induction evs) (auto simp: quiet_one simp del: texts_since.simps(2)
      results_carry.simps(2) turn_numbers.simps(2))

lemma decode_system_quiet: "decode_system raw line b = (b', Some (Some e)) \<Longrightarrow> quiet e"
  by (auto simp: decode_system_def Let_def quiet_def split: if_splits prod.splits)

lemma decodeStatelessEvent_quiet:
  "decodeStatelessEvent raw line b = (b', Some (Some e)) \<Longrightarrow> quiet e"
  by (auto simp: decodeStatelessEvent_def Let_def quiet_def
      dest: decode_system_quiet [unfolded quiet_def] split: if_splits)

lemma content_events_facts:
  "texts_since acc (content_events meta bs) = acc @ content_texts meta bs
   \<and> results_carry acc (content_events meta bs) \<and> turn_numbers (content_events meta bs) = []
   \<and> list_all (\<lambda>ev. \<not> terminal_event ev \<and> \<not> is_state_change ev) (content_events meta bs)"
proof (induction bs arbitrary: acc)
  case Nil
  show ?case by (simp add: content_events_def content_texts_def)
next
  case (Cons b bs)
  have one: "texts_since acc (snd (parseContentBlock b meta)) = acc @ fst (parseContentBlock b meta)"
    "results_carry acc (snd (parseContentBlock b meta))"
    "turn_numbers (snd (parseContentBlock b meta)) = []"
    "list_all (\<lambda>ev. \<not> terminal_event ev \<and> \<not> is_state_change ev) (snd (parseContentBlock b meta))"
    by (simp_all add: parseContentBlock_def Let_def tool_use_event_def terminal_event_def
        is_state_change_def)
  have "content_events meta (b # bs) = snd (parseContentBlock b meta) @ content_events meta bs"
    "content_texts meta (b # bs) = fst (parseContentBlock b meta) @ content_texts meta bs"
    by (simp_all add: content_events_def content_texts_def)
  with one Cons [of "acc @ fst (parseContentBlock b meta)"] show ?case
    by (simp add: texts_since_append results_carry_append turn_numbers_append)
qed

lemma context_management_quiet: "list_all quiet (context_management m)"
  by (simp add: context_management_def quiet_def split: option.split)

lemma result_errors_quiet: "list_all quiet (result_errors raw)"
  by (simp add: result_errors_def non_fatal_def quiet_def split: option.split)

text \<open>
  A step keeps the books: its texts are in the state, its result (if any) carries the texts so far,
  it numbers its turn, it emits a terminal event exactly when it stops, and then last.
\<close>

definition step_ok :: "parse_state \<Rightarrow> parse_step \<Rightarrow> bool" where
  "step_ok st r =
     (case r of (st', evs, stop) \<Rightarrow>
        texts_since (pa_resultText st) evs = pa_resultText st'
        \<and> results_carry (pa_resultText st) evs
        \<and> ((turn_numbers evs = [] \<and> pa_turnCounter st' = pa_turnCounter st)
            \<or> (turn_numbers evs = [wrap64 (pa_turnCounter st + 1)]
               \<and> pa_turnCounter st' = wrap64 (pa_turnCounter st + 1)))
        \<and> list_all (\<lambda>ev. \<not> is_state_change ev) evs
        \<and> (if stop then evs \<noteq> [] \<and> terminal_event (last evs)
             \<and> list_all (\<lambda>ev. \<not> terminal_event ev) (butlast evs)
           else list_all (\<lambda>ev. \<not> terminal_event ev) evs))"

lemma step_ok_quiet:
  "list_all quiet evs \<Longrightarrow> pa_resultText st' = pa_resultText st \<Longrightarrow>
     pa_turnCounter st' = pa_turnCounter st \<Longrightarrow> step_ok st (st', evs, False)"
  using quiet_list [of evs "pa_resultText st"] by (simp add: step_ok_def)

lemma step_ok_assistant: "step_ok st (parse_assistant raw m st)"
proof (cases "isAPIErrorMessage raw")
  case True
  then show ?thesis
    by (simp add: parse_assistant_def Let_def step_ok_def non_fatal_def terminal_event_def
        is_state_change_def)
next
  case False
  let ?meta = "\<lparr>am_ParentToolUseID = string_or_empty (raw_ParentToolUseID raw),
      am_Model = rm_Model m, am_SubagentType = raw_SubagentType raw,
      am_TaskDescription = raw_TaskDescription raw\<rparr>"
  note cm = quiet_list [OF context_management_quiet, of "pa_resultText st @ content_texts ?meta (rm_Content m)" m]
  note ce = content_events_facts [of "pa_resultText st" ?meta "rm_Content m"]
  show ?thesis
    using False cm ce
    by (auto simp: parse_assistant_def Let_def step_ok_def texts_since_append results_carry_append
        turn_numbers_append terminal_event_def [of "EvTurn _"] is_state_change_def [of "EvTurn _"]
        list_all_iff)
qed

lemma step_ok_result: "step_ok st (parse_result it raw st)"
proof -
  note p = quiet_list [OF result_errors_quiet [of raw], of "pa_resultText st"]
  obtain ctx sn where f:
    "ct_finish it (convertModelUsage (raw_ModelUsage raw)) (pa_ctxTracker st) = (ctx, sn)"
    by (cases "ct_finish it (convertModelUsage (raw_ModelUsage raw)) (pa_ctxTracker st)")
  show ?thesis
    using p
    by (simp add: parse_result_def Let_def f step_ok_def texts_since_append results_carry_append
        turn_numbers_append newResultEvent_def terminal_event_def [of "EvResult _"]
        is_state_change_def [of "EvResult _"] join_Nil_sep)
qed

lemma step_ok_one: "quiet ev \<Longrightarrow> step_ok st (st, [ev], False)"
  by (rule step_ok_quiet) simp_all

lemma step_ok_control: "step_ok st (parse_control_request raw st)"
  by (auto simp: parse_control_request_def non_fatal_def quiet_def intro!: step_ok_one split: prod.split)

lemma step_ok_stream: "step_ok st (parse_stream_event it raw st)"
  by (auto simp: parse_stream_event_def quiet_def intro!: step_ok_quiet split: prod.split option.split)

lemma step_ok_stateful: "step_ok st (parse_stateful it raw line st)"
proof -
  have i: "step_ok st (st, [EvInit (parseInitEvent raw)], False)"
    by (rule step_ok_one) (simp add: quiet_def)
  have e: "step_ok st (st, [EvError (parseErrorEvent raw)], False)"
    by (rule step_ok_one) (simp add: quiet_def parseErrorEvent_def Let_def split: prod.split)
  have u: "step_ok st (st, [EvUnknown \<lparr>uk_Type = raw_Type raw, uk_Raw = line\<rparr>], False)"
    by (rule step_ok_one) (simp add: quiet_def)
  have n: "step_ok st (st, [], False)"
    by (rule step_ok_quiet) simp_all
  show ?thesis
    unfolding parse_stateful_def Let_def
    by (simp only: i e u n step_ok_assistant step_ok_result step_ok_control step_ok_stream
        simp_thms split: if_split option.split)
qed

lemma step_ok_event: "step_ok st (parse_event it raw line st)"
proof (cases "decodeStatelessEvent raw line (pa_backfill st)")
  case (Pair b r)
  show ?thesis
  proof (cases r)
    case (Some ev)
    with Pair show ?thesis
      by (auto simp: parse_event_def intro!: step_ok_quiet dest!: decodeStatelessEvent_quiet
          split: option.split)
  next
    case None
    have same: "step_ok (st\<lparr>pa_backfill := b\<rparr>) x \<Longrightarrow> step_ok st x" for x
      by (simp add: step_ok_def split: prod.splits)
    show ?thesis
      unfolding parse_event_def Pair None prod.case option.case
      by (rule same) (rule step_ok_stateful)
  qed
qed

lemma step_ok_line: "step_ok st (parse_line it line st)"
  by (auto simp: parse_line_def line_error_def non_fatal_def quiet_def step_ok_event
      intro!: step_ok_quiet split: option.split)

section \<open>The whole run\<close>

lemma snd_Pair [simp]: "map (snd \<circ> Pair n) xs = xs"
  by (induction xs) auto

lemma turns_shift:
  "wrap64 (wrap64 (c + 1) + int i + 1) = wrap64 (c + int (Suc i) + 1)"
  by (simp add: add.assoc)

lemma feed_results: "results_carry (pa_resultText st) (map snd (parse_feed it ls err st))"
proof (induction it ls err st rule: parse_feed.induct)
  case (1 it err st)
  then show ?case by (auto simp: non_fatal_def split: option.split)
next
  case (2 it l ls err st)
  obtain st' evs stop where s: "parse_line it (sl_Line l) st = (st', evs, stop)"
    by (cases "parse_line it (sl_Line l) st") auto
  have ok: "step_ok st (st', evs, stop)" using step_ok_line [of st it "sl_Line l"] s by simp
  show ?case
  proof (cases "sl_Done l \<or> stop")
    case True
    with ok show ?thesis by (auto simp: s step_ok_def)
  next
    case False
    with 2 s have "results_carry (pa_resultText st') (map snd (parse_feed it ls err st'))" by auto
    with False ok s show ?thesis by (simp add: step_ok_def results_carry_append)
  qed
qed

lemma feed_plain: "list_all (\<lambda>e. \<not> is_state_change (snd e)) (parse_feed it ls err st)"
proof (induction it ls err st rule: parse_feed.induct)
  case (1 it err st)
  then show ?case by (auto simp: non_fatal_def is_state_change_def split: option.split)
next
  case (2 it l ls err st)
  obtain st' evs stop where s: "parse_line it (sl_Line l) st = (st', evs, stop)"
    by (cases "parse_line it (sl_Line l) st") auto
  have "step_ok st (st', evs, stop)" using step_ok_line [of st it "sl_Line l"] s by simp
  with 2 s show ?case by (auto simp: step_ok_def list_all_iff)
qed

lemma feed_turns:
  "\<exists>n. turn_numbers (map snd (parse_feed it ls err st))
     = map (\<lambda>i. wrap64 (pa_turnCounter st + int i + 1)) [0..<n]"
proof (induction it ls err st rule: parse_feed.induct)
  case (1 it err st)
  then show ?case by (auto simp: non_fatal_def split: option.split intro!: exI [of _ 0])
next
  case (2 it l ls err st)
  obtain st' evs stop where s: "parse_line it (sl_Line l) st = (st', evs, stop)"
    by (cases "parse_line it (sl_Line l) st") auto
  have ok: "step_ok st (st', evs, stop)" using step_ok_line [of st it "sl_Line l"] s by simp
  let ?f = "\<lambda>c i. wrap64 (c + int i + 1)"
  show ?case
  proof (cases "sl_Done l")
    case True
    then show ?thesis by (auto intro!: exI [of _ 0])
  next
    case False
    obtain m where m: "turn_numbers (map snd (if stop then [] else parse_feed it ls err st'))
        = map (?f (pa_turnCounter st')) [0..<m]"
    proof (cases stop)
      case True
      then show ?thesis using that [of 0] by simp
    next
      case False
      with 2 s \<open>\<not> sl_Done l\<close> that show ?thesis by auto
    qed
    have t: "turn_numbers (map snd (parse_feed it (l # ls) err st))
        = turn_numbers evs @ map (?f (pa_turnCounter st')) [0..<m]"
      using False s m by (simp add: turn_numbers_append)
    from ok consider "turn_numbers evs = []" "pa_turnCounter st' = pa_turnCounter st"
      | "turn_numbers evs = [wrap64 (pa_turnCounter st + 1)]"
        "pa_turnCounter st' = wrap64 (pa_turnCounter st + 1)"
      by (auto simp: step_ok_def)
    then show ?thesis
    proof cases
      case 1
      with t show ?thesis by auto
    next
      case 2
      have "turn_numbers (map snd (parse_feed it (l # ls) err st))
          = map (?f (pa_turnCounter st)) (0 # map Suc [0..<m])"
        unfolding t 2 by (simp add: turns_shift del: of_nat_Suc)
      also have "0 # map Suc [0..<m] = [0..<Suc m]"
        by (simp add: map_Suc_upt upt_conv_Cons)
      finally show ?thesis by blast
    qed
  qed
qed

lemma feed_terminal:
  "list_all (\<lambda>ev. \<not> terminal_event ev) (butlast (map snd (parse_feed it ls err st)))"
proof (induction it ls err st rule: parse_feed.induct)
  case (1 it err st)
  then show ?case by (auto split: option.split)
next
  case (2 it l ls err st)
  obtain st' evs stop where s: "parse_line it (sl_Line l) st = (st', evs, stop)"
    by (cases "parse_line it (sl_Line l) st") auto
  have ok: "step_ok st (st', evs, stop)" using step_ok_line [of st it "sl_Line l"] s by simp
  show ?case
  proof (cases "sl_Done l \<or> stop")
    case True
    with ok show ?thesis by (auto simp: s step_ok_def)
  next
    case False
    with 2 ok s show ?thesis
      by (auto simp: step_ok_def butlast_append list_all_iff dest: in_set_butlastD)
  qed
qed

lemma ParseEvents_filter:
  "filter (\<lambda>ev. \<not> is_state_change ev) (ParseEvents it ls err)
     = map snd (parse_feed it ls err init_parse_state)"
  using track_stream_view [of "parse_feed it ls err init_parse_state"] feed_plain
  by (auto simp: ParseEvents_def list_all_iff split: prod.splits)

lemma track_stream_last:
  "evs \<noteq> [] \<Longrightarrow> snd (track_stream evs) \<noteq> [] \<and> last (snd (track_stream evs)) = snd (last evs)"
proof (cases evs rule: rev_cases)
  case (snoc xs e)
  then show ?thesis
    by (cases e) (auto simp: track_stream_snoc emit_tracked_def split: prod.splits)
qed simp

lemma state_change_one:
  "is_state_change ev \<Longrightarrow> texts_since acc (ev # evs) = texts_since acc evs"
  "is_state_change ev \<Longrightarrow> results_carry acc (ev # evs) = results_carry acc evs"
  "is_state_change ev \<Longrightarrow> turn_numbers (ev # evs) = turn_numbers evs"
  by (cases ev; simp add: is_state_change_def)+

lemma results_carry_filter:
  "results_carry acc (filter (\<lambda>ev. \<not> is_state_change ev) evs) = results_carry acc evs"
proof (induction evs arbitrary: acc)
  case (Cons ev evs)
  show ?case
  proof (cases "is_state_change ev")
    case True
    with Cons show ?thesis by (simp add: state_change_one del: results_carry.simps(2))
  next
    case False
    with Cons show ?thesis by simp
  qed
qed simp

lemma turn_numbers_filter:
  "turn_numbers (filter (\<lambda>ev. \<not> is_state_change ev) evs) = turn_numbers evs"
proof (induction evs)
  case (Cons ev evs)
  show ?case
  proof (cases "is_state_change ev")
    case True
    with Cons show ?thesis by (simp add: state_change_one del: turn_numbers.simps(2))
  next
    case False
    with Cons show ?thesis by simp
  qed
qed simp

text \<open>
  The run has ended within some lines when the context was done at one of them or a terminal event
  was emitted.
\<close>

lemma parse_line_terminal:
  assumes "parse_line it line st = (st', evs, stop)"
  shows "stop \<longleftrightarrow> (\<exists>e \<in> set evs. terminal_event e)"
  using step_ok_line [of st it line] assms
  by (cases evs rule: rev_cases) (auto simp: step_ok_def list_all_iff split: if_splits)

lemma feed_insert:
  assumes "decode_line bad = None" "bad \<noteq> []" "\<not> sl_Done l" "sl_Line l = bad"
  shows "\<exists>g. parse_feed it (ls @ ms) err st = parse_feed it ls None st @ g
    \<and> (if (\<exists>x \<in> set ls. sl_Done x) \<or> (\<exists>e \<in> set (parse_feed it ls None st). terminal_event (snd e))
       then g = [] \<and> parse_feed it (ls @ l # ms) err st = parse_feed it ls None st
       else parse_feed it (ls @ l # ms) err st
              = parse_feed it ls None st @ (sl_Now l, line_error bad) # g)"
proof (induction ls arbitrary: st)
  case Nil
  have "parse_feed it (l # ms) err st = (sl_Now l, line_error bad) # parse_feed it ms err st"
    using assms by (simp add: parse_line_def)
  then show ?case by simp
next
  case (Cons x ls)
  obtain st' evs stop where s: "parse_line it (sl_Line x) st = (st', evs, stop)"
    by (cases "parse_line it (sl_Line x) st") auto
  note t = parse_line_terminal [OF s]
  show ?case
  proof (cases "sl_Done x \<or> stop")
    case True
    with t show ?thesis by (auto simp: s)
  next
    case False
    then have front: "parse_feed it (x # xs) e st = map (Pair (sl_Now x)) evs @ parse_feed it xs e st'"
      for xs e by (simp add: s)
    have "(\<exists>e \<in> set (parse_feed it (x # ls) None st). terminal_event (snd e))
        = (\<exists>e \<in> set (parse_feed it ls None st'). terminal_event (snd e))"
      using False t by (simp add: front bex_Un del: parse_feed.simps)
    with Cons [of st'] False show ?thesis by (auto simp: front simp del: parse_feed.simps split: if_splits)
  qed
qed

section \<open>Sample lines\<close>

definition quoted :: "string \<Rightarrow> string" where
  "quoted s = map (\<lambda>c. if c = CHR ''~'' then CHR 0x22 else c) s"

definition result_line :: string where
  "result_line = quoted ''{~type~:~result~}''"

lemma fld_skip:
  "fold_name k \<noteq> fold_name n \<Longrightarrow> upd (\<lambda>_. get r) r = r \<Longrightarrow> fld n d get upd [(k, j)] (r, ok) = (r, ok)"
  by (simp add: fld_def get_field_def)

lemma fld_skip2:
  "fold_name k \<noteq> fold_name n \<Longrightarrow> fold_name k' \<noteq> fold_name n \<Longrightarrow> upd (\<lambda>_. get r) r = r \<Longrightarrow>
     fld n d get upd [(k, j), (k', j')] (r, ok) = (r, ok)"
  by (simp add: fld_def get_field_def)

lemma parse_result_line:
  "parse_json result_line =
     Some (JObj result_line [(''type'', JStr (quoted ''~result~'') ''result'')])"
  by code_simp

lemma decode_result_line: "decode_line result_line = Some (zero_rawEvent\<lparr>raw_Type := ''result''\<rparr>)"
proof -
  have "d_rawEvent (JObj result_line [(''type'', JStr (quoted ''~result~'') ''result'')]) zero_rawEvent
      = (zero_rawEvent\<lparr>raw_Type := ''result''\<rparr>, True)"
    unfolding d_rawEvent_def d_struct_def json.case
    by (simp add: fld_skip)
       (simp add: fld_def get_field_def d_str_def upper_char_def ascii_lower_def)
  then show ?thesis
    by (simp add: decode_line_def unmarshal_def unmarshal_raw_def parse_result_line)
qed

lemma raw_zero_facts [simp]:
  "raw_Origin zero_rawEvent = None" "raw_IsError zero_rawEvent = False"
  "raw_Subtype zero_rawEvent = []" "raw_ModelUsage zero_rawEvent = None"
  "raw_Message zero_rawEvent = None" "raw_ParentToolUseID zero_rawEvent = None"
  by (simp_all add: zero_rawEvent_def)

definition sample_scan :: "scanned list" where
  "sample_scan = [\<lparr>sl_Done = False, sl_Now = 1, sl_Line = ''nope''\<rparr>,
                  \<lparr>sl_Done = False, sl_Now = 2, sl_Line = result_line\<rparr>,
                  \<lparr>sl_Done = False, sl_Now = 3, sl_Line = ''late''\<rparr>]"

lemma decode_nope: "decode_line ''nope'' = None"
proof -
  have "parse_json ''nope'' = None" by code_simp
  then show ?thesis by (simp add: decode_line_def unmarshal_def unmarshal_raw_def)
qed

definition sample_result :: ResultEvent where
  "sample_result = newResultEvent (zero_rawEvent\<lparr>raw_Type := ''result''\<rparr>) [] [] None"

lemma sample_result_solicited: "\<not> re_Unsolicited sample_result"
  by (simp add: sample_result_def newResultEvent_def)

lemma sample_parse: "ParseEvents it sample_scan None = [line_error ''nope'', EvResult sample_result]"
proof -
  have ne: "result_line \<noteq> []" by (simp add: result_line_def quoted_def)
  have "parse_feed it sample_scan None init_parse_state
      = [(1, line_error ''nope''), (2, EvResult sample_result)]"
    by (simp add: sample_scan_def parse_line_def decode_nope ne decode_result_line parse_event_def
        decodeStatelessEvent_def parse_stateful_def parse_result_def init_parse_state_def
        newContextTracker_def ct_finish_def learnWindows_def ct_reset_def convertModelUsage_def
        result_errors_def resultError_def newResultEvent_def parseOrigin_def IsTaskNotification_def
        sample_result_def)
  then show ?thesis
    by (simp add: ParseEvents_def track_stream_def emit_tracked_def observe_def line_error_def
        non_fatal_def moveTo_def newActivityTracker_def transition_events_def)
qed

section \<open>Properties\<close>

text \<open>
  C5: A run ends at its terminal event: for every input, clock and map order, nothing follows a
  result that answers the prompt, and nothing follows a fatal error.
\<close>

theorem nothing_follows_the_terminal_event:
  assumes "ParseEvents it ls err = xs @ e # ys" and "terminal_event e"
  shows "ys = []"
proof (rule ccontr)
  assume ys: "ys \<noteq> []"
  let ?feed = "parse_feed it ls err init_parse_state"
  have e: "\<not> is_state_change e"
    using assms(2) by (auto simp: terminal_event_def is_state_change_def split: event.splits)
  have f: "map snd ?feed = filter (\<lambda>ev. \<not> is_state_change ev) xs @ e
      # filter (\<lambda>ev. \<not> is_state_change ev) ys"
    using ParseEvents_filter [of it ls err] assms(1) e by simp
  then have ne: "?feed \<noteq> []" by auto
  have "last ys = snd (last ?feed)"
    using track_stream_last [OF ne] assms(1) ys by (simp add: ParseEvents_def)
  moreover have "\<not> is_state_change (snd (last ?feed))"
    using feed_plain [of it ls err init_parse_state] ne by (simp add: list_all_iff)
  ultimately have "last ys \<in> set (filter (\<lambda>ev. \<not> is_state_change ev) ys)"
    using last_in_set [OF ys] by auto
  then have "filter (\<lambda>ev. \<not> is_state_change ev) ys \<noteq> []"
    by (metis empty_iff empty_set)
  then have "e \<in> set (butlast (map snd ?feed))" unfolding f by (simp add: butlast_append)
  with feed_terminal [of it ls err init_parse_state] assms(2) show False
    by (auto simp: list_all_iff)
qed

theorem nothing_follows_the_terminal_event_witness:
  "terminal_event (EvResult sample_result)
   \<and> ParseEvents id sample_scan None = [line_error ''nope''] @ EvResult sample_result # []"
proof -
  have t: "terminal_event (EvResult sample_result)"
    by (simp add: terminal_event_def sample_result_solicited)
  have p: "\<exists>ys. ParseEvents id sample_scan None = [line_error ''nope''] @ EvResult sample_result # ys"
    by (simp add: sample_parse)
  then obtain ys where y:
    "ParseEvents id sample_scan None = [line_error ''nope''] @ EvResult sample_result # ys" by blast
  then have "ys = []" using t by (rule nothing_follows_the_terminal_event)
  with t y show ?thesis by simp
qed

lemma ParseEvents_carry: "results_carry [] (ParseEvents it ls err)"
  using feed_results [of init_parse_state it ls err]
    results_carry_filter [of "[]" "ParseEvents it ls err"] ParseEvents_filter [of it ls err]
  by (simp add: init_parse_state_def)

text \<open>
  C6: A result carries exactly the text of its turn: the text of every result in the output is the
  concatenation, in order, of the texts of the text events emitted since the last result of a turn
  the CLI started by itself.
\<close>

theorem results_carry_their_text:
  assumes "ParseEvents it ls err = xs @ EvResult r # ys"
  shows "re_Text r = concat (texts_since [] xs)"
  using ParseEvents_carry [of it ls err] assms by (simp add: results_carry_append)

theorem results_carry_their_text_witness:
  "re_Text sample_result = concat (texts_since [] [line_error ''nope''])"
  by (rule results_carry_their_text [of id sample_scan None _ _ "[]"]) (simp add: sample_parse)

text \<open>
  The turns of a run are numbered 1, 2, 3, ... in the order they are emitted (modulo the width
  of Go's int), whatever else is in the stream.
\<close>

lemma turns_are_numbered:
  "\<exists>n. turn_numbers (ParseEvents it ls err) = map (\<lambda>i. wrap64 (int i + 1)) [0..<n]"
proof -
  have "turn_numbers (ParseEvents it ls err)
      = turn_numbers (map snd (parse_feed it ls err init_parse_state))"
    using turn_numbers_filter [of "ParseEvents it ls err"] ParseEvents_filter [of it ls err] by simp
  then show ?thesis
    using feed_turns [of it ls err init_parse_state] by (simp add: init_parse_state_def)
qed

text \<open>
  C8: A malformed line disturbs nothing but itself: inserting it anywhere in the input inserts
  exactly one non-fatal error into what is emitted, at its place, and leaves every other emission as
  it was. The only exception is a run that had ended before it, by a terminal event or because the
  context was done at an earlier line: then nothing more is emitted with or without the line.
\<close>

theorem malformed_line_is_isolated:
  assumes "decode_line bad = None" "bad \<noteq> []" "\<not> sl_Done l" "sl_Line l = bad"
    and "before = parse_feed it ls None st"
    and "ended = ((\<exists>x \<in> set ls. sl_Done x) \<or> (\<exists>e \<in> set before. terminal_event (snd e)))"
  shows "\<exists>after. parse_feed it (ls @ ms) err st = before @ after
    \<and> parse_feed it (ls @ l # ms) err st
        = before @ (if ended then [] else [(sl_Now l, line_error bad)]) @ after
    \<and> (ended \<longrightarrow> after = [])
    \<and> (\<exists>e. line_error bad = EvError \<lparr>ee_Err = e, ee_Fatal = False\<rparr>)"
  using feed_insert [OF assms(1-4), of it ls ms err st] assms(5,6)
  by (auto simp: line_error_def non_fatal_def split: if_splits)

theorem malformed_line_is_isolated_witness:
  "parse_feed id [\<lparr>sl_Done = False, sl_Now = 1, sl_Line = ''nope''\<rparr>] None init_parse_state
     = [(1, line_error ''nope'')]"
  using malformed_line_is_isolated
    [of "''nope''" "\<lparr>sl_Done = False, sl_Now = 1, sl_Line = ''nope''\<rparr>" "[]" id "[]" init_parse_state
      False "[]" None]
  by (simp add: decode_nope)

text \<open>
  The synthetic message of a failed API call always reports as \<^verbatim>\<open>ErrAPI\<close>, ends the run when it is
  top level and does not when a subagent produced it; no text of it is emitted as a reply.
\<close>

lemma synthetic_api_error_is_reported:
  assumes "isAPIErrorMessage raw"
  shows "\<exists>e fatal. parse_assistant raw m st = (st, [EvError \<lparr>ee_Err = e, ee_Fatal = fatal\<rparr>], fatal)
    \<and> error_is e ErrAPI
    \<and> (fatal \<longleftrightarrow> string_or_empty (raw_ParentToolUseID raw) = [])"
  using assms syntheticAPIError_is_API [of raw m]
  by (auto simp: parse_assistant_def Let_def non_fatal_def)

lemma synthetic_api_error_is_reported_witness:
  "snd (snd (parse_assistant (zero_rawEvent\<lparr>raw_IsApiErrorMessage := True\<rparr>) zero_rawMessage
     init_parse_state)) = True"
  using synthetic_api_error_is_reported
    [of "zero_rawEvent\<lparr>raw_IsApiErrorMessage := True\<rparr>" zero_rawMessage init_parse_state]
  by (auto simp: isAPIErrorMessage_def string_or_empty_def)

text \<open>
  C9: A failed turn is explained before its result: the events of a result line are non-fatal
  errors followed by the result; a turn that hit the limit is explained by an error that is
  \<^verbatim>\<open>ErrMaxTurns\<close> and no other sentinel, a prompt too long for the window by one that is
  \<^verbatim>\<open>ErrContextWindowExceeded\<close>, and every error a result is classified as names exactly one sentinel.
\<close>

theorem failed_turns_are_explained:
  "\<exists>errs r. fst (snd (parse_result it raw st)) = map non_fatal errs @ [EvResult r]
    \<and> list_all names_one errs
    \<and> (raw_Subtype raw = ''error_max_turns'' \<longrightarrow> (\<exists>e. errs = [e] \<and> error_is e ErrMaxTurns))
    \<and> (raw_IsError raw \<and> raw_Subtype raw \<noteq> ''error_max_turns''
        \<and> raw_TerminalReason raw \<in> {''prompt_too_long'', ''blocking_limit''}
        \<longrightarrow> (\<exists>e. errs = [e] \<and> error_is e ErrContextWindowExceeded))
    \<and> (\<not> raw_IsError raw \<and> raw_Subtype raw \<noteq> ''error_max_turns'' \<longrightarrow> errs = [])"
proof -
  define errs where "errs =
    (if raw_Subtype raw = ''error_max_turns'' then [classifyMaxTurns (raw_Errors raw)] else [])
     @ (case resultError raw of None \<Rightarrow> [] | Some e \<Rightarrow> [e])"
  have "\<exists>r. fst (snd (parse_result it raw st)) = map non_fatal errs @ [EvResult r]"
    by (auto simp: parse_result_def Let_def result_errors_def errs_def split: prod.split option.split)
  moreover have "list_all names_one errs"
    by (auto simp: errs_def classifyMaxTurns_def Let_def names_one_def
        resultError_names_one [unfolded names_one_def] split: option.split)
  moreover have "raw_Subtype raw = ''error_max_turns'' \<Longrightarrow> errs = [classifyMaxTurns (raw_Errors raw)]"
    by (simp add: errs_def resultError_def)
  moreover have "error_is (classifyMaxTurns (raw_Errors raw)) ErrMaxTurns"
    by (simp add: classifyMaxTurns_def Let_def)
  moreover have "raw_IsError raw \<Longrightarrow> raw_Subtype raw \<noteq> ''error_max_turns'' \<Longrightarrow>
      raw_TerminalReason raw \<in> {''prompt_too_long'', ''blocking_limit''} \<Longrightarrow>
      errs = [wrap_sentinel ErrContextWindowExceeded (resultErrorText raw)]"
    by (auto simp: errs_def resultError_def)
  moreover have "\<not> raw_IsError raw \<Longrightarrow> raw_Subtype raw \<noteq> ''error_max_turns'' \<Longrightarrow> errs = []"
    by (simp add: errs_def resultError_def)
  ultimately show ?thesis by (metis error_is_wrap_sentinel)
qed

theorem failed_turns_are_explained_witness:
  "\<exists>e r. fst (snd (parse_result id (zero_rawEvent\<lparr>raw_Subtype := ''error_max_turns''\<rparr>) init_parse_state))
       = [non_fatal e, EvResult r] \<and> error_is e ErrMaxTurns"
  using failed_turns_are_explained
    [of id "zero_rawEvent\<lparr>raw_Subtype := ''error_max_turns''\<rparr>" init_parse_state]
  by (auto simp: numeral_2_eq_2)

end
