(* ===== verification/Stream_Run.thy ===== *)
theory Stream_Run
  imports Parse
begin

text \<open>
  stream.go: the lifecycle states and the stream of a one-shot run, whose goroutine tracks the state
  of every event before it hands it on, until it finds the context done while it waits to hand one on.
  The channel is the list of delivered events. \<^verbatim>\<open>Wait\<close> is modelled after the events channel is closed.
\<close>

section \<open>States\<close>

datatype State = StateStarting | StateIdle | StateRunning | StateDone | StateFailed

definition state_name :: "State \<Rightarrow> string" where
  "state_name s =
     (case s of
        StateStarting \<Rightarrow> ''starting'' | StateIdle \<Rightarrow> ''idle'' | StateRunning \<Rightarrow> ''running''
      | StateDone \<Rightarrow> ''done'' | StateFailed \<Rightarrow> ''failed'')"

definition max_turns_error :: "ResultEvent \<Rightarrow> go_error" where
  "max_turns_error e = EMaxTurns (re_NumTurns e) ''reached maximum number of turns''"

section \<open>The stream\<close>

record Stream =
  st_state :: State
  st_result :: "ResultEvent option"
  st_err :: "go_error option"
  st_waited :: bool

definition newStream :: Stream where
  "newStream = \<lparr>st_state = StateStarting, st_result = None, st_err = None, st_waited = False\<rparr>"

definition or_error :: "go_error option \<Rightarrow> go_error \<Rightarrow> go_error option" where
  "or_error old e = (case old of None \<Rightarrow> Some e | Some _ \<Rightarrow> old)"

definition stream_trackState :: "event \<Rightarrow> Stream \<Rightarrow> Stream" where
  "stream_trackState ev s =
     (case ev of
        EvInit _ \<Rightarrow> s\<lparr>st_state := StateRunning\<rparr>
      | EvResult e \<Rightarrow>
          (if re_Unsolicited e then
             (if st_result s = None then s\<lparr>st_result := Some e\<rparr> else s)
           else
             s\<lparr>st_state := StateDone, st_result := Some e,
               st_err := (if st_err s = None \<and> re_Subtype e = ''error_max_turns''
                          then Some (max_turns_error e) else st_err s)\<rparr>)
      | EvError e \<Rightarrow>
          (if ee_Fatal e then
             s\<lparr>st_state := StateFailed, st_err := or_error (st_err s) (ee_Err e)\<rparr>
           else s)
      | _ \<Rightarrow> s)"

definition stream_track_all :: "event list \<Rightarrow> Stream \<Rightarrow> Stream" where
  "stream_track_all evs s = foldl (\<lambda>s ev. stream_trackState ev s) s evs"

text \<open>
  The goroutine of \<^verbatim>\<open>newStream\<close>: it tracks an event and hands it on, or takes the \<^verbatim>\<open>ctx.Done\<close> case of its
  \<^verbatim>\<open>select\<close> instead, after which it drains the rest untracked. \<open>quitAt\<close> is the number of the event at which
  that happens. The result is the stream it leaves and what it handed on.
\<close>

fun stream_feed :: "nat option \<Rightarrow> event list \<Rightarrow> Stream \<Rightarrow> Stream \<times> event list" where
  "stream_feed quitAt [] s = (s, [])"
| "stream_feed quitAt (ev # evs) s =
     (let s = stream_trackState ev s in
      if quitAt = Some 0 then (s, [])
      else case stream_feed (map_option (\<lambda>k. k - 1) quitAt) evs s of (s, out) \<Rightarrow> (s, ev # out))"

definition stream_wait :: "Stream \<Rightarrow> Stream \<times> ResultEvent option \<times> go_error option" where
  "stream_wait s =
     (if st_waited s then (s, st_result s, st_err s)
      else (s\<lparr>st_waited := True\<rparr>, st_result s, st_err s))"

section \<open>What the stream remembers\<close>

text \<open>The reference: the last solicited result, else the first one; the first fatal error.\<close>

definition results_of :: "event list \<Rightarrow> ResultEvent list" where
  "results_of evs = concat (map (\<lambda>ev. case ev of EvResult e \<Rightarrow> [e] | _ \<Rightarrow> []) evs)"

definition answer_of :: "event list \<Rightarrow> ResultEvent option" where
  "answer_of evs =
     (let es = filter (\<lambda>e. \<not> re_Unsolicited e) (results_of evs) in
      if es \<noteq> [] then Some (last es)
      else case results_of evs of [] \<Rightarrow> None | e # _ \<Rightarrow> Some e)"

fun failure_of :: "event list \<Rightarrow> go_error option" where
  "failure_of [] = None"
| "failure_of (ev # evs) =
     (case ev of
        EvError e \<Rightarrow> if ee_Fatal e then Some (ee_Err e) else failure_of evs
      | EvResult e \<Rightarrow>
          if \<not> re_Unsolicited e \<and> re_Subtype e = ''error_max_turns'' then Some (max_turns_error e)
          else failure_of evs
      | _ \<Rightarrow> failure_of evs)"

lemma results_of_snoc [simp]:
  "results_of (evs @ [ev]) = results_of evs @ (case ev of EvResult e \<Rightarrow> [e] | _ \<Rightarrow> [])"
  by (simp add: results_of_def)

lemma track_all_snoc [simp]:
  "stream_track_all (evs @ [ev]) s = stream_trackState ev (stream_track_all evs s)"
  by (simp add: stream_track_all_def)

lemma failure_of_snoc: "failure_of (evs @ [ev]) = (case failure_of evs of None \<Rightarrow> failure_of [ev] | e \<Rightarrow> e)"
  by (induction evs) (auto split: event.split option.split)

lemma answer_of_None: "answer_of evs = None \<longleftrightarrow> results_of evs = []"
  by (auto simp: answer_of_def Let_def split: list.splits)

lemma answer_of_snoc:
  "answer_of (evs @ [ev]) =
     (case ev of
        EvResult e \<Rightarrow> if re_Unsolicited e \<and> answer_of evs \<noteq> None then answer_of evs else Some e
      | _ \<Rightarrow> answer_of evs)"
proof (cases "\<exists>e. ev = EvResult e")
  case True
  then obtain e where ev: "ev = EvResult e" ..
  show ?thesis
  proof (cases "re_Unsolicited e")
    case True
    with ev answer_of_None [of evs] show ?thesis
      by (cases "results_of evs") (auto simp: answer_of_def Let_def split: list.split)
  next
    case False
    with ev show ?thesis by (auto simp: answer_of_def Let_def)
  qed
next
  case False
  then have "results_of (evs @ [ev]) = results_of evs"
    by (cases ev) auto
  then have "answer_of (evs @ [ev]) = answer_of evs"
    by (simp only: answer_of_def)
  with False show ?thesis by (cases ev) auto
qed

section \<open>Properties\<close>

lemma stream_tracked:
  "st_result (stream_track_all evs newStream) = answer_of evs
     \<and> st_err (stream_track_all evs newStream) = failure_of evs"
proof (induction evs rule: rev_induct)
  case Nil
  show ?case by (simp add: stream_track_all_def newStream_def answer_of_def results_of_def)
next
  case (snoc ev evs)
  then show ?case
    by (cases ev) (auto simp: stream_trackState_def answer_of_snoc failure_of_snoc or_error_def
        split: option.split)
qed

text \<open>What the goroutine tracked: one event more than it handed on, when it gave up.\<close>

definition tracked_part :: "nat option \<Rightarrow> event list \<Rightarrow> event list" where
  "tracked_part quitAt evs = (case quitAt of None \<Rightarrow> evs | Some k \<Rightarrow> take (Suc k) evs)"

lemma stream_feed_is:
  "stream_feed quitAt evs s =
     (stream_track_all (tracked_part quitAt evs) s,
      case quitAt of None \<Rightarrow> evs | Some k \<Rightarrow> if k < length evs then take k evs else evs)"
proof (induction quitAt evs s rule: stream_feed.induct)
  case (2 quitAt ev evs s)
  show ?case
  proof (cases "quitAt = Some 0")
    case True
    then show ?thesis by (simp add: tracked_part_def stream_track_all_def)
  next
    case False
    have d: "(case quitAt of None \<Rightarrow> ev # evs
          | Some k \<Rightarrow> if k < length (ev # evs) then take k (ev # evs) else ev # evs)
        = ev # (case map_option (\<lambda>k. k - 1) quitAt of None \<Rightarrow> evs
          | Some k \<Rightarrow> if k < length evs then take k evs else evs)"
      using False by (cases quitAt) (auto simp: gr0_conv_Suc)
    have t: "tracked_part quitAt (ev # evs) = ev # tracked_part (map_option (\<lambda>k. k - 1) quitAt) evs"
      using False by (cases quitAt) (auto simp: tracked_part_def gr0_conv_Suc)
    show ?thesis
      unfolding stream_feed.simps Let_def if_not_P [OF False] 2 [OF refl False] prod.case d t
      by (simp add: stream_track_all_def)
  qed
qed (simp add: tracked_part_def stream_track_all_def split: option.split)

lemma stream_wait_is:
  "snd (stream_wait (fst (stream_feed quitAt evs newStream)))
     = (answer_of (tracked_part quitAt evs), failure_of (tracked_part quitAt evs))"
  using stream_tracked [of "tracked_part quitAt evs"] by (auto simp: stream_feed_is stream_wait_def)

text \<open>
  A one-shot run returns its answer: whatever events the stream carries, \<^verbatim>\<open>Wait\<close> returns the last
  solicited result it tracked, or the first task-notification result when the prompt was never
  answered, with the first fatal error or turn limit as its error, and calling it again returns the
  same.
\<close>

lemma wait_returns_the_answer:
  "snd (stream_wait (fst (stream_feed quitAt evs newStream)))
     = (answer_of (tracked_part quitAt evs), failure_of (tracked_part quitAt evs))
   \<and> snd (stream_wait (fst (stream_wait (fst (stream_feed quitAt evs newStream)))))
     = (answer_of (tracked_part quitAt evs), failure_of (tracked_part quitAt evs))"
  using stream_tracked [of "tracked_part quitAt evs"] by (auto simp: stream_feed_is stream_wait_def)

end
