(* ===== verification/Session.thy ===== *)
theory Session
  imports Activity Context_Tracker Router Raw_Event Stream_Run
begin

text \<open>
  session.go, commands.go and the session side of router.go: the state a session shares between its
  callers and its read loop, and its operations, each one critical section or one atomic access. The
  clock is an argument, read once per call. Channels are lists of what they buffer with a closed
  flag; a send that would block is a send that has not happened yet, so \<open>pump_deliver\<close> is partial.
  Reading stdout is in \<open>Session_Read\<close>, the control protocol in \<open>Control\<close>, the interleavings of
  callers, reader and pump in \<open>Session_Steps\<close>.
\<close>

section \<open>State\<close>

text \<open>
  What travels through the pump: stderr lines arrive without a stamp. The goroutines started for
  incoming control requests are numbered in the order of \<open>ss_spawned\<close>; \<open>ss_cancelled\<close> are those whose
  context was cancelled.
\<close>

datatype pump_item = Unstamped event | Stamped stampedEvent

record controlResult =
  cr_Response :: raw_msg
  cr_Err :: "go_error option"

record Session =
  ss_stdinClosed :: bool
  ss_hasStdin :: bool
  ss_stdin :: "string list"
  ss_reqCounter :: int
  ss_pending :: "string list"
  ss_replies :: "(string \<times> controlResult) list"
  ss_spawned :: "(string \<times> raw_msg) list"
  ss_inboundCancel :: "(string \<times> nat) list"
  ss_cancelled :: "nat list"
  ss_pump :: "pump_item list"
  ss_pumpClosed :: bool
  ss_events :: "event list"
  ss_eventsClosed :: bool
  ss_done :: bool
  ss_sessionID :: string
  ss_serverInfo :: raw_msg
  ss_state :: State
  ss_result :: "ResultEvent option"
  ss_err :: "go_error option"
  ss_waited :: bool
  ss_ready_chans :: "bool list"
  ss_resultReady :: nat
  ss_ready :: bool
  ss_activity :: activityTracker
  ss_lastStdoutAt :: nanos
  ss_promptEchoed :: bool
  ss_unread :: int
  ss_turnEchoed :: bool
  ss_sentAny :: bool
  ss_surfaceReplays :: bool
  ss_contextWindows :: window_store
  ss_commands :: "SlashCommand list option"
  ss_commandsChanged :: bool
  ss_ticker :: bool
  ss_activeGen :: gen
  ss_genCounter :: gen
  ss_lastEventAtNs :: nanos
  ss_routed :: bool
  ss_router :: eventRouter
  ss_handles :: "QueryHandle list"
  ss_stdinWriteTimeout :: nanos
  ss_controlTimeout :: nanos
  ss_initTimeout :: nanos

definition eventsCap :: nat where
  "eventsCap = 64"

definition errSessionEnded :: go_error where
  "errSessionEnded = ENew ''session ended''"

text \<open>The session \<^verbatim>\<open>Client.Connect\<close> builds, before the read loop and the handshake start.\<close>

definition newSession :: "bool \<Rightarrow> nanos \<Rightarrow> nanos \<Rightarrow> nanos \<Rightarrow> Session" where
  "newSession replay stdinTimeout controlTimeout initTimeout =
     \<lparr>ss_stdinClosed = False, ss_hasStdin = True, ss_stdin = [], ss_reqCounter = 0,
      ss_pending = [], ss_replies = [], ss_spawned = [], ss_inboundCancel = [],
      ss_cancelled = [], ss_pump = [], ss_pumpClosed = False, ss_events = [],
      ss_eventsClosed = False, ss_done = False, ss_sessionID = [], ss_serverInfo = None,
      ss_state = StateStarting, ss_result = None, ss_err = None, ss_waited = False,
      ss_ready_chans = [False], ss_resultReady = 0, ss_ready = False,
      ss_activity = newActivityTracker, ss_lastStdoutAt = 0, ss_promptEchoed = False,
      ss_unread = 0, ss_turnEchoed = False, ss_sentAny = False, ss_surfaceReplays = replay,
      ss_contextWindows = [], ss_commands = None, ss_commandsChanged = False, ss_ticker = False,
      ss_activeGen = 0, ss_genCounter = 0, ss_lastEventAtNs = 0, ss_routed = False,
      ss_router = newEventRouter, ss_handles = [], ss_stdinWriteTimeout = stdinTimeout,
      ss_controlTimeout = controlTimeout, ss_initTimeout = initTimeout\<rparr>"

section \<open>Arrival stamps\<close>

text \<open>
  \<^verbatim>\<open>stamp\<close> is not atomic: it notes the time, loads the active generation, and stores 0 when the event
  is terminal. The two halves are separate functions so that other steps can come between.
\<close>

definition ends_query :: "pumped \<Rightarrow> bool" where
  "ends_query p =
     (case p of
        PBarrier \<Rightarrow> False
      | PEvent ev \<Rightarrow>
          (case ev of EvResult _ \<Rightarrow> True | EvError e \<Rightarrow> ee_Fatal e | EvCLIExit _ \<Rightarrow> True | _ \<Rightarrow> False))"

definition stamp_load :: "nanos \<Rightarrow> pumped \<Rightarrow> Session \<Rightarrow> Session \<times> stampedEvent" where
  "stamp_load now p s =
     (s\<lparr>ss_lastEventAtNs := (if p = PBarrier then ss_lastEventAtNs s else now)\<rparr>,
      \<lparr>sv_ev = p, sv_at = now, sv_gen = ss_activeGen s\<rparr>)"

definition stamp_store :: "pumped \<Rightarrow> Session \<Rightarrow> Session" where
  "stamp_store p s = (if ends_query p then s\<lparr>ss_activeGen := 0\<rparr> else s)"

definition stamp :: "nanos \<Rightarrow> pumped \<Rightarrow> Session \<Rightarrow> Session \<times> stampedEvent" where
  "stamp now p s = (case stamp_load now p s of (s, sev) \<Rightarrow> (stamp_store p s, sev))"

definition stampNoQuery :: "nanos \<Rightarrow> event \<Rightarrow> Session \<Rightarrow> Session \<times> stampedEvent" where
  "stampNoQuery now ev s =
     (s\<lparr>ss_lastEventAtNs := now\<rparr>, \<lparr>sv_ev = PEvent ev, sv_at = now, sv_gen = 0\<rparr>)"

definition pumpSendRaw :: "stampedEvent \<Rightarrow> Session \<Rightarrow> Session" where
  "pumpSendRaw sev s = s\<lparr>ss_pump := ss_pump s @ [Stamped sev]\<rparr>"

text \<open>\<^verbatim>\<open>sendEvent\<close>: dropped once the pump is closed.\<close>

definition sendEvent :: "nanos \<Rightarrow> pumped \<Rightarrow> Session \<Rightarrow> Session" where
  "sendEvent now p s =
     (if ss_pumpClosed s then s
      else case stamp now p s of (s, sev) \<Rightarrow> pumpSendRaw sev s)"

section \<open>Turns and prompts\<close>

definition notePromptEcho :: "UserEvent \<Rightarrow> Session \<Rightarrow> Session" where
  "notePromptEcho ue s =
     (if ue_ParentToolUseID ue \<noteq> []
         \<or> (case ue_Origin ue of None \<Rightarrow> False | Some og \<Rightarrow> og_Kind og \<noteq> ''human'') then s
      else
        s\<lparr>ss_promptEchoed := ss_promptEchoed s \<or> ss_state s = StateRunning,
          ss_unread := (if ss_unread s > 0 then ss_unread s - 1 else ss_unread s),
          ss_turnEchoed := True\<rparr>)"

definition noteTurnStart :: "Session \<Rightarrow> bool" where
  "noteTurnStart s \<longleftrightarrow> ss_sentAny s \<and> ss_unread s = 0 \<and> \<not> ss_turnEchoed s"

definition noteTurnEnd :: "ResultEvent \<Rightarrow> Session \<Rightarrow> Session" where
  "noteTurnEnd e s =
     (let callerTurn =
            (case re_Origin e of None \<Rightarrow> True | Some og \<Rightarrow> og_Kind og = ''human'') in
      s\<lparr>ss_unread :=
          (if callerTurn \<and> \<not> ss_turnEchoed s \<and> ss_unread s > 0 then ss_unread s - 1
           else ss_unread s),
        ss_turnEchoed := False\<rparr>)"

text \<open>The result, marked when it is held; the transition to emit before it.\<close>

definition observeUnsolicitedResult ::
    "nanos \<Rightarrow> ResultEvent \<Rightarrow> Session \<Rightarrow> Session \<times> ResultEvent \<times> (CLIStateChangeEvent option) option" where
  "observeUnsolicitedResult now e s =
     (if \<not> IsTaskNotification (re_Origin e) then (s, e, None)
      else
        (let pending = (ss_state s = StateRunning) in
         if pending \<and> ss_promptEchoed s then (s, e, None)
         else
           (case at_observeUnsolicitedResult now pending (ss_activity s) of
              (act, transition) \<Rightarrow>
                (s\<lparr>ss_activity := act\<rparr>, e\<lparr>re_Unsolicited := True\<rparr>, Some transition))))"

section \<open>Queries\<close>

definition close_ready :: "Session \<Rightarrow> Session" where
  "close_ready s = s\<lparr>ss_ready_chans := (ss_ready_chans s)[ss_resultReady s := True]\<rparr>"

definition prepareQuery :: "Session \<Rightarrow> Session \<times> go_error option" where
  "prepareQuery s =
     (case ss_state s of
        StateFailed \<Rightarrow>
          (s, Some (case ss_err s of
                      Some e \<Rightarrow> EWrap ''session failed: '' e []
                    | None \<Rightarrow> ENew ''session failed: %!w(<nil>)''))
      | StateRunning \<Rightarrow> (s, Some (ENew ''query already in progress''))
      | StateDone \<Rightarrow> (s, Some (ENew ''session ended''))
      | StateStarting \<Rightarrow> (s, Some (ENew ''session not ready''))
      | StateIdle \<Rightarrow>
          (s\<lparr>ss_state := StateRunning, ss_waited := False, ss_result := None, ss_err := None,
             ss_promptEchoed := False, ss_resultReady := length (ss_ready_chans s),
             ss_ready_chans := ss_ready_chans s @ [False]\<rparr>, None))"

text \<open>\<^verbatim>\<open>failQuery\<close> stores the generation first, then takes the lock.\<close>

definition failQuery_store :: "Session \<Rightarrow> Session" where
  "failQuery_store s = s\<lparr>ss_activeGen := 0\<rparr>"

definition failQuery_locked :: "go_error \<Rightarrow> Session \<Rightarrow> Session" where
  "failQuery_locked e s =
     close_ready (s\<lparr>ss_state := StateFailed, ss_err := or_error (ss_err s) e\<rparr>)"

definition failQuery :: "go_error \<Rightarrow> Session \<Rightarrow> Session" where
  "failQuery e s = failQuery_locked e (failQuery_store s)"

definition validateSendable :: "Session \<Rightarrow> go_error option" where
  "validateSendable s =
     (case ss_state s of
        StateFailed \<Rightarrow>
          Some (case ss_err s of
                  Some e \<Rightarrow> EWrap ''session failed: '' e []
                | None \<Rightarrow> ENew ''session failed: %!w(<nil>)'')
      | StateDone \<Rightarrow> Some (ENew ''session ended'')
      | StateStarting \<Rightarrow> Some (ENew ''session not ready'')
      | _ \<Rightarrow> None)"

section \<open>Messages on stdin\<close>

text \<open>
  A content block is the bytes \<^verbatim>\<open>TextBlock\<close> and its siblings made. Marshalling compacts them again,
  which leaves what these constructors made unchanged; a block that is not JSON makes the marshal
  fail, which the constructors exclude.
\<close>

type_synonym ContentBlock = string

definition TextBlock :: "string \<Rightarrow> ContentBlock" where
  "TextBlock t = obj_json [(''type'', quote_json ''text''), (''text'', quote_json t)]"

record Message =
  msg_Text :: string
  msg_Blocks :: "ContentBlock list"
  msg_FromHuman :: bool

definition array_json :: "string list \<Rightarrow> string" where
  "array_json es = ''['' @ join '','' es @ '']''"

definition message_content :: "Message \<Rightarrow> string" where
  "message_content m =
     (if msg_Blocks m = [] then quote_json (msg_Text m)
      else array_json (map (compact_json False) (TextBlock (msg_Text m) # msg_Blocks m)))"

definition user_message :: "string \<Rightarrow> Message \<Rightarrow> string" where
  "user_message sid m =
     obj_json
       ([(''type'', quote_json ''user'')]
        @ (if sid = [] then [] else [(''session_id'', quote_json sid)])
        @ [(''message'',
             obj_json [(''role'', quote_json ''user''), (''content'', message_content m)]),
           (''parent_tool_use_id'', ''null'')]
        @ (if msg_FromHuman m
           then [(''origin'', obj_json [(''kind'', quote_json ''human'')])] else []))"

text \<open>What the operating system does with a write.\<close>

datatype write_outcome =
    WriteOk
  | WriteError go_error
  | WriteTimedOut
  | WriteAborted go_error

definition default_write_timeout :: nanos where
  "default_write_timeout = 30 * 1000000000"

definition write_timeout :: "nanos \<Rightarrow> Session \<Rightarrow> nanos" where
  "write_timeout t s =
     (let t = (if t \<le> 0 then ss_stdinWriteTimeout s else t) in
      if t \<le> 0 then default_write_timeout else t)"

definition writeStdinTimeout ::
    "string \<Rightarrow> nanos \<Rightarrow> write_outcome \<Rightarrow> Session \<Rightarrow> Session \<times> go_error option" where
  "writeStdinTimeout data timeout w s =
     (if ss_stdinClosed s then (s, Some (ENew ''session closed''))
      else if \<not> ss_hasStdin s then (s, Some (ENew ''stdin closed''))
      else
        (case w of
           WriteOk \<Rightarrow> (s\<lparr>ss_stdin := ss_stdin s @ [data]\<rparr>, None)
         | WriteError e \<Rightarrow> (s\<lparr>ss_stdinClosed := True\<rparr>, Some e)
         | WriteTimedOut \<Rightarrow>
             (s\<lparr>ss_stdinClosed := True\<rparr>,
              Some (ENew (''stdin write timeout after '' @ duration_text (write_timeout timeout s)
                          @ '' (CLI is not reading stdin)'')))
         | WriteAborted e \<Rightarrow>
             (s\<lparr>ss_stdinClosed := True\<rparr>, Some (EWrap ''stdin write aborted: '' e []))))"

definition writeStdin :: "string \<Rightarrow> write_outcome \<Rightarrow> Session \<Rightarrow> Session \<times> go_error option" where
  "writeStdin data w s = writeStdinTimeout data 0 w s"

text \<open>The message is counted before the write, and the count is taken back when the write fails.\<close>

definition send_count :: "Session \<Rightarrow> Session" where
  "send_count s = s\<lparr>ss_unread := wrap64 (ss_unread s + 1), ss_sentAny := True\<rparr>"

definition send_uncount :: "Session \<Rightarrow> Session" where
  "send_uncount s = s\<lparr>ss_unread := wrap64 (ss_unread s - 1)\<rparr>"

definition send_write :: "string \<Rightarrow> Message \<Rightarrow> write_outcome \<Rightarrow> Session \<Rightarrow> Session \<times> go_error option" where
  "send_write sid m w s =
     (case writeStdin (user_message sid m @ [CHR 0x0A]) w s of
        (s, None) \<Rightarrow> (s, None)
      | (s, Some e) \<Rightarrow> (send_uncount s, Some e))"

definition sendUserMessage :: "Message \<Rightarrow> write_outcome \<Rightarrow> Session \<Rightarrow> Session \<times> go_error option" where
  "sendUserMessage m w s = send_write (ss_sessionID s) m w (send_count s)"

definition emitQueryActivity :: "nanos \<Rightarrow> Session \<Rightarrow> Session" where
  "emitQueryActivity now s =
     (case markQuery now (ss_activity s) of
        (act, transition) \<Rightarrow>
          (let s = s\<lparr>ss_activity := act\<rparr> in
           case transition of
             None \<Rightarrow> s
           | Some e \<Rightarrow> sendEvent now (PEvent (EvCLIStateChange e)) s))"

definition QueryMsg :: "nanos \<Rightarrow> Message \<Rightarrow> write_outcome \<Rightarrow> Session \<Rightarrow> Session \<times> go_error option" where
  "QueryMsg now m w s =
     (case prepareQuery s of
        (s, Some e) \<Rightarrow> (s, Some e)
      | (s, None) \<Rightarrow> sendUserMessage m w (emitQueryActivity now s))"

definition SendMsg :: "nanos \<Rightarrow> Message \<Rightarrow> write_outcome \<Rightarrow> Session \<Rightarrow> Session \<times> go_error option" where
  "SendMsg now m w s =
     (case validateSendable s of
        Some e \<Rightarrow> (s, Some e)
      | None \<Rightarrow> sendUserMessage m w (emitQueryActivity now s))"

section \<open>Waiting\<close>

text \<open>
  \<^verbatim>\<open>Wait\<close> takes the lock, blocks on the ready channel it found or on the end of the session, and takes
  the lock again.
\<close>

definition wait_begin :: "Session \<Rightarrow> (ResultEvent option \<times> go_error option) + nat" where
  "wait_begin s =
     (if ss_waited s then Inl (ss_result s, ss_err s) else Inr (ss_resultReady s))"

definition wait_unblocked :: "nat \<Rightarrow> Session \<Rightarrow> bool" where
  "wait_unblocked i s \<longleftrightarrow> ss_ready_chans s ! i \<or> ss_done s"

definition wait_end :: "Session \<Rightarrow> Session \<times> ResultEvent option \<times> go_error option" where
  "wait_end s = (s\<lparr>ss_waited := True\<rparr>, ss_result s, ss_err s)"

definition trackState :: "event \<Rightarrow> Session \<Rightarrow> Session" where
  "trackState ev s =
     (case ev of
        EvInit _ \<Rightarrow> (if ss_state s = StateStarting then s\<lparr>ss_state := StateIdle\<rparr> else s)
      | EvResult e \<Rightarrow>
          close_ready
            (s\<lparr>ss_state := StateIdle, ss_result := Some e,
               ss_err := (if ss_err s = None \<and> re_Subtype e = ''error_max_turns''
                          then Some (max_turns_error e) else ss_err s)\<rparr>)
      | EvError e \<Rightarrow>
          (if ee_Fatal e then
             close_ready (s\<lparr>ss_state := StateFailed, ss_err := or_error (ss_err s) (ee_Err e)\<rparr>)
           else s)
      | _ \<Rightarrow> s)"

definition setDoneState :: "Session \<Rightarrow> Session" where
  "setDoneState s =
     s\<lparr>ss_state := (if ss_state s \<noteq> StateFailed then StateDone else ss_state s), ss_ready := True\<rparr>"

section \<open>Commands\<close>

definition setCommands :: "SlashCommand list option \<Rightarrow> Session \<Rightarrow> Session" where
  "setCommands cmds s = s\<lparr>ss_commands := cmds, ss_commandsChanged := True\<rparr>"

definition seedCommands :: "raw_msg \<Rightarrow> Session \<Rightarrow> Session" where
  "seedCommands info s =
     (case unmarshal_raw (d_one ''commands'' (d_slice d_SlashCommand zero_SlashCommand)) info None of
        (cmds, ok) \<Rightarrow>
          if \<not> ok \<or> cmds = None then s
          else if \<not> ss_commandsChanged s then s\<lparr>ss_commands := cmds\<rparr>
          else s)"

section \<open>Routing\<close>

definition routeStamped :: "nanos \<Rightarrow> stampedEvent \<Rightarrow> Session \<Rightarrow> Session" where
  "routeStamped now sev s =
     (case sv_ev sev of
        PBarrier \<Rightarrow>
          s\<lparr>ss_router := flushLegacyBuffered now (ss_events s) (ss_router s), ss_events := []\<rparr>
      | PEvent ev \<Rightarrow>
          (case route_event ev (sv_at sev) (sv_gen sev) (ss_handles s, ss_router s) of
             (hs, r) \<Rightarrow> s\<lparr>ss_handles := hs, ss_router := r\<rparr>))"

text \<open>
  One turn of the pump: nothing when the pump is empty or blocked. A barrier is only sent after
  routing was enabled, so it never meets the events channel.
\<close>

definition pump_stamp :: "nanos \<Rightarrow> pump_item \<Rightarrow> Session \<Rightarrow> Session \<times> stampedEvent" where
  "pump_stamp now it s = (case it of Stamped sev \<Rightarrow> (s, sev) | Unstamped ev \<Rightarrow> stamp now (PEvent ev) s)"

definition pump_deliver :: "nanos \<Rightarrow> Session \<Rightarrow> Session option" where
  "pump_deliver now s =
     (case ss_pump s of
        [] \<Rightarrow> None
      | it # its \<Rightarrow>
          (case pump_stamp now it (s\<lparr>ss_pump := its\<rparr>) of
             (s, sev) \<Rightarrow>
               if ss_routed s then Some (routeStamped now sev s)
               else case sv_ev sev of
                 PBarrier \<Rightarrow> Some s
               | PEvent ev \<Rightarrow>
                   if length (ss_events s) < eventsCap then Some (s\<lparr>ss_events := ss_events s @ [ev]\<rparr>)
                   else None))"

definition EnableRouting :: "nanos \<Rightarrow> Session \<Rightarrow> Session" where
  "EnableRouting now s =
     (if ss_routed s then s
      else sendEvent now PBarrier (s\<lparr>ss_router := newEventRouter, ss_routed := True\<rparr>))"

text \<open>\<^verbatim>\<open>armQuery\<close>: the counter, the critical section, then the store of the active generation.\<close>

definition arm_count :: "Session \<Rightarrow> Session \<times> gen" where
  "arm_count s = (s\<lparr>ss_genCounter := ss_genCounter s + 1\<rparr>, ss_genCounter s + 1)"

definition arm_handle :: "gen \<Rightarrow> Session \<Rightarrow> Session" where
  "arm_handle g s =
     (case arm_locked g (ss_handles s, ss_router s) of
        (hs, r) \<Rightarrow> s\<lparr>ss_handles := hs, ss_router := r\<rparr>)"

definition arm_store :: "gen \<Rightarrow> Session \<Rightarrow> Session" where
  "arm_store g s = s\<lparr>ss_activeGen := g\<rparr>"

definition armQuery :: "Session \<Rightarrow> Session \<times> nat" where
  "armQuery s =
     (case arm_count s of
        (s, g) \<Rightarrow>
          (if er_shutdown (ss_router s) then (arm_handle g s, length (ss_handles s))
           else (arm_store g (arm_handle g s), length (ss_handles s))))"

definition session_detach :: "nat \<Rightarrow> close_reason \<Rightarrow> Session \<Rightarrow> Session" where
  "session_detach i reason s =
     (case detachLocked (Some i) reason (ss_handles s, ss_router s) of
        (hs, r) \<Rightarrow> s\<lparr>ss_handles := hs, ss_router := r\<rparr>)"

definition shutdownRouter :: "Session \<Rightarrow> Session" where
  "shutdownRouter s =
     (if \<not> ss_routed s then s
      else
        (let reason = (case ss_err s of None \<Rightarrow> SessionEnded | Some e \<Rightarrow> OtherReason e) in
         case shutdown_locked reason (ss_handles s, ss_router s) of
           (hs, r) \<Rightarrow> s\<lparr>ss_handles := hs, ss_router := r\<rparr>))"

definition DrainOrphans :: "Session \<Rightarrow> Session \<times> OrphanEvent list" where
  "DrainOrphans s =
     (if \<not> ss_routed s then (s, [])
      else case router_drain (ss_router s) of (r, out) \<Rightarrow> (s\<lparr>ss_router := r\<rparr>, out))"

definition router_stats :: "Session \<Rightarrow> 64 word \<times> 64 word" where
  "router_stats s =
     (if \<not> ss_routed s then (0, 0)
      else (er_orphansDropped (ss_router s), er_mailboxDropped (ss_router s)))"

text \<open>\<^verbatim>\<open>QueryCtxMsg\<close>, run without interruption; the error of the submission context is an argument.\<close>

definition QueryCtxMsg ::
    "nanos \<Rightarrow> go_error option \<Rightarrow> Message \<Rightarrow> write_outcome \<Rightarrow> Session \<Rightarrow> Session \<times> (go_error + nat)" where
  "QueryCtxMsg now ctxErr m w s =
     (case ctxErr of
        Some e \<Rightarrow> (s, Inl e)
      | None \<Rightarrow>
          (case prepareQuery (EnableRouting now s) of
             (s, Some e) \<Rightarrow> (s, Inl e)
           | (s, None) \<Rightarrow>
               (case armQuery s of
                  (s, h) \<Rightarrow>
                    (case sendUserMessage m w (emitQueryActivity now s) of
                       (s, None) \<Rightarrow> (s, Inr h)
                     | (s, Some e) \<Rightarrow>
                         (session_detach h (OtherReason e) (failQuery e s), Inl e)))))"

end
