(* ===== verification/Control.thy ===== *)
theory Control
  imports Session Parse "HOL-Library.Char_ord" "HOL-Library.List_Lexorder"
begin

text \<open>
  The control protocol: control.go, control_requests.go and the control parts of session.go.
  Outgoing: a request takes the next id, registers a one-slot channel under it, writes a line and
  waits; the read loop hands a response to the channel registered under its id. Incoming: a
  permission or user-input request runs a callback and answers it. Callbacks are arguments; what the
  \<^verbatim>\<open>select\<close> statements choose between is an argument too.
\<close>

section \<open>Outgoing requests\<close>

text \<open>A map with string keys is marshalled in the order of its keys.\<close>

definition map_json :: "(string \<times> string) list \<Rightarrow> string" where
  "map_json m = obj_json (sort_key fst m)"

definition request_id :: "int \<Rightarrow> string" where
  "request_id n = ''req_'' @ show_int n"

definition control_line :: "string \<Rightarrow> string \<Rightarrow> (string \<times> string) list \<Rightarrow> string" where
  "control_line rid subtype data =
     map_json
       [(''type'', quote_json ''control_request''), (''request_id'', quote_json rid),
        (''request'', map_json (map_put ''subtype'' (quote_json subtype) data))]"

definition register_request :: "Session \<Rightarrow> Session \<times> string" where
  "register_request s =
     (let n = wrap64 (ss_reqCounter s + 1); rid = request_id n in
      (s\<lparr>ss_reqCounter := n, ss_pending := remove1 rid (ss_pending s) @ [rid],
         ss_replies := map_del rid (ss_replies s)\<rparr>, rid))"

text \<open>The caller's last step drops the registration and its channel.\<close>

definition unregister :: "string \<Rightarrow> Session \<Rightarrow> Session" where
  "unregister rid s =
     s\<lparr>ss_pending := remove1 rid (ss_pending s), ss_replies := map_del rid (ss_replies s)\<rparr>"

definition control_begin ::
    "string \<Rightarrow> (string \<times> string) list \<Rightarrow> write_outcome \<Rightarrow> Session \<Rightarrow> Session \<times> (go_error + string)" where
  "control_begin subtype data w s =
     (case register_request s of
        (s, rid) \<Rightarrow>
          (case writeStdin (control_line rid subtype data @ [CHR 0x0A]) w s of
             (s, Some e) \<Rightarrow> (unregister rid s, Inl e)
           | (s, None) \<Rightarrow> (s, Inr rid)))"

definition cancelControlRequest :: "string \<Rightarrow> write_outcome \<Rightarrow> Session \<Rightarrow> Session" where
  "cancelControlRequest rid w s =
     fst (writeStdin
            (map_json [(''type'', quote_json ''control_cancel_request''),
                       (''request_id'', quote_json rid)] @ [CHR 0x0A]) w s)"

text \<open>How the wait ends: the reply, the deadline, or the end of the session's context.\<close>

datatype await_end = GotReply | TimedOut write_outcome | ContextEnded go_error

text \<open>\<open>None\<close> while the reply is not there: the wait goes on.\<close>

definition control_await ::
    "string \<Rightarrow> string \<Rightarrow> await_end \<Rightarrow> Session \<Rightarrow> (Session \<times> (go_error + raw_msg)) option" where
  "control_await subtype rid how s =
     (case how of
        GotReply \<Rightarrow>
          (case map_of (ss_replies s) rid of
             None \<Rightarrow> None
           | Some r \<Rightarrow>
               Some (unregister rid s,
                     (case cr_Err r of
                        Some e \<Rightarrow> Inl (EWrap (subtype @ '': '') e [])
                      | None \<Rightarrow> Inr (cr_Response r))))
      | TimedOut w \<Rightarrow>
          Some (unregister rid (cancelControlRequest rid w s),
                Inl (ENew (subtype @ '': timeout after '' @ duration_text (ss_controlTimeout s))))
      | ContextEnded e \<Rightarrow> Some (unregister rid s, Inl e))"

definition initialize_await :: "string \<Rightarrow> await_end \<Rightarrow> Session \<Rightarrow> (Session \<times> go_error option) option" where
  "initialize_await rid how s =
     (case how of
        GotReply \<Rightarrow>
          (case map_of (ss_replies s) rid of
             None \<Rightarrow> None
           | Some r \<Rightarrow>
               (case cr_Err r of
                  Some e \<Rightarrow> Some (unregister rid s, Some (EWrap ''initialize: '' e []))
                | None \<Rightarrow>
                    Some (unregister rid (seedCommands (cr_Response r)
                            (s\<lparr>ss_serverInfo := cr_Response r\<rparr>)), None)))
      | TimedOut _ \<Rightarrow>
          Some (unregister rid s,
                Some (ENew (''initialize: timeout after '' @ duration_text (ss_initTimeout s))))
      | ContextEnded e \<Rightarrow> Some (unregister rid s, Some e))"

section \<open>Incoming responses\<close>

record rawControlResult =
  rcr_RequestID :: string
  rcr_Subtype :: string
  rcr_Response :: raw_msg
  rcr_Error :: string

definition zero_control_result :: rawControlResult where
  "zero_control_result =
     \<lparr>rcr_RequestID = [], rcr_Subtype = [], rcr_Response = None, rcr_Error = []\<rparr>"

definition d_control_result :: "rawControlResult dec" where
  "d_control_result =
     d_one ''response''
       (d_struct
          [fld ''request_id'' d_str rcr_RequestID rcr_RequestID_update,
           fld ''subtype'' d_str rcr_Subtype rcr_Subtype_update,
           fld ''response'' d_raw rcr_Response rcr_Response_update,
           fld ''error'' d_str rcr_Error rcr_Error_update])"

definition deliver_reply :: "string \<Rightarrow> controlResult \<Rightarrow> Session \<Rightarrow> Session" where
  "deliver_reply rid r s =
     (if rid \<in> set (ss_pending s) then
        s\<lparr>ss_pending := remove1 rid (ss_pending s), ss_replies := map_put rid r (ss_replies s)\<rparr>
      else s)"

definition control_result :: "rawControlResult \<Rightarrow> controlResult" where
  "control_result r =
     (if rcr_Subtype r = ''error''
      then \<lparr>cr_Response = None, cr_Err = Some (ENew (''control error: '' @ rcr_Error r))\<rparr>
      else \<lparr>cr_Response = rcr_Response r, cr_Err = None\<rparr>)"

definition handleControlResponse :: "nanos \<Rightarrow> string \<Rightarrow> Session \<Rightarrow> Session" where
  "handleControlResponse now line s =
     (case unmarshal d_control_result line zero_control_result of
        (r, ok) \<Rightarrow>
          if \<not> ok then
            sendEvent now
              (PEvent (EvError \<lparr>ee_Err = EWrap ''unmarshal control_response: '' json_error [],
                                ee_Fatal = False\<rparr>)) s
          else deliver_reply (rcr_RequestID r) (control_result r) s)"

text \<open>
  At the end of the read loop every waiter still registered gets the error; a send into a channel
  that holds a reply already is skipped.
\<close>

definition failPendingRequests :: "Session \<Rightarrow> Session" where
  "failPendingRequests s =
     s\<lparr>ss_replies :=
         foldl (\<lambda>rs rid. if map_of rs rid = None
                        then map_put rid \<lparr>cr_Response = None, cr_Err = Some errSessionEnded\<rparr> rs
                        else rs) (ss_replies s) (ss_pending s),
       ss_pending := []\<rparr>"

section \<open>Permission requests\<close>

record ToolPermissionRequest =
  pr_ToolName :: string
  pr_Input :: raw_msg
  pr_PermissionSuggestions :: "raw_msg list"
  pr_ToolUseID :: string
  pr_AgentID :: string
  pr_DecisionReason :: string
  pr_DecisionReasonType :: string
  pr_ClassifierApprovable :: "bool option"
  pr_Title :: string
  pr_DisplayName :: string
  pr_Description :: string
  pr_BlockedPath :: string
  pr_SuppressAlwaysAllowRule :: bool
  pr_RequiresUserInteraction :: bool

definition zero_permission_request :: ToolPermissionRequest where
  "zero_permission_request =
     \<lparr>pr_ToolName = [], pr_Input = None, pr_PermissionSuggestions = [], pr_ToolUseID = [],
      pr_AgentID = [], pr_DecisionReason = [], pr_DecisionReasonType = [],
      pr_ClassifierApprovable = None, pr_Title = [], pr_DisplayName = [], pr_Description = [],
      pr_BlockedPath = [], pr_SuppressAlwaysAllowRule = False, pr_RequiresUserInteraction = False\<rparr>"

definition d_permission_request :: "ToolPermissionRequest dec" where
  "d_permission_request =
     d_struct
       [fld ''tool_name'' d_str pr_ToolName pr_ToolName_update,
        fld ''input'' d_raw pr_Input pr_Input_update,
        fld ''permission_suggestions'' (d_list d_raw None) pr_PermissionSuggestions
          pr_PermissionSuggestions_update,
        fld ''tool_use_id'' d_str pr_ToolUseID pr_ToolUseID_update,
        fld ''agent_id'' d_str pr_AgentID pr_AgentID_update,
        fld ''decision_reason'' d_str pr_DecisionReason pr_DecisionReason_update,
        fld ''decision_reason_type'' d_str pr_DecisionReasonType pr_DecisionReasonType_update,
        fld ''classifier_approvable'' (d_ptr d_bool False) pr_ClassifierApprovable
          pr_ClassifierApprovable_update,
        fld ''title'' d_str pr_Title pr_Title_update,
        fld ''display_name'' d_str pr_DisplayName pr_DisplayName_update,
        fld ''description'' d_str pr_Description pr_Description_update,
        fld ''blocked_path'' d_str pr_BlockedPath pr_BlockedPath_update,
        fld ''suppress_always_allow_rule'' d_bool pr_SuppressAlwaysAllowRule
          pr_SuppressAlwaysAllowRule_update,
        fld ''requires_user_interaction'' d_bool pr_RequiresUserInteraction
          pr_RequiresUserInteraction_update]"

text \<open>A \<^verbatim>\<open>RawMessage\<close> a callback made: \<open>None\<close> is nil, and its bytes need not be JSON.\<close>

record PermissionResponse =
  pp_Allow :: bool
  pp_UpdatedInput :: "string option"
  pp_DenyMessage :: string
  pp_UpdatedPermissions :: "string option list"
  pp_Interrupt :: bool

record QuestionOption =
  qo_Label :: string
  qo_Description :: string

record Question =
  qn_Question :: string
  qn_Header :: string
  qn_Options :: "QuestionOption list"
  qn_MultiSelect :: bool

definition d_question_option :: "QuestionOption dec" where
  "d_question_option =
     d_struct [fld ''label'' d_str qo_Label qo_Label_update,
               fld ''description'' d_str qo_Description qo_Description_update]"

definition zero_option :: QuestionOption where
  "zero_option = \<lparr>qo_Label = [], qo_Description = []\<rparr>"

definition zero_question :: Question where
  "zero_question = \<lparr>qn_Question = [], qn_Header = [], qn_Options = [], qn_MultiSelect = False\<rparr>"

definition d_question :: "Question dec" where
  "d_question =
     d_struct
       [fld ''question'' d_str qn_Question qn_Question_update,
        fld ''header'' d_str qn_Header qn_Header_update,
        fld ''options'' (d_list d_question_option zero_option) qn_Options qn_Options_update,
        fld ''multiSelect'' d_bool qn_MultiSelect qn_MultiSelect_update]"

section \<open>Answering requests\<close>

text \<open>
  What a callback does: it returns a value and an error, or it panics with an error or with another
  value, printed.
\<close>

datatype 'a callback = Returns 'a "go_error option" | PanicsError go_error | PanicsValue string

record callbacks =
  cb_canUseTool :: "(string \<Rightarrow> raw_msg \<Rightarrow> PermissionResponse option callback) option"
  cb_canUseToolReq :: "(ToolPermissionRequest \<Rightarrow> PermissionResponse option callback) option"
  cb_canUseToolReqCtx :: "(ToolPermissionRequest \<Rightarrow> PermissionResponse option callback) option"
  cb_userInput :: "(Question list option \<Rightarrow> (string \<times> string) list option callback) option"
  cb_userInputCtx :: "(Question list option \<Rightarrow> (string \<times> string) list option callback) option"

definition panic_error :: "go_error + string \<Rightarrow> go_error" where
  "panic_error p =
     (case p of Inl e \<Rightarrow> EWrap ''callback panic: '' e [] | Inr t \<Rightarrow> ENew (''callback panic: '' @ t))"

definition callback_result :: "'a \<Rightarrow> 'a callback \<Rightarrow> 'a \<times> go_error option" where
  "callback_result z c =
     (case c of
        Returns a e \<Rightarrow> (a, e)
      | PanicsError e \<Rightarrow> (z, Some (panic_error (Inl e)))
      | PanicsValue t \<Rightarrow> (z, Some (panic_error (Inr t))))"

text \<open>
  The circumstances of a handler's \<^verbatim>\<open>select\<close>: which case it takes, whether the request's context is
  done, and the error of the session's context, which ends the request's context too.
\<close>

record circumstances =
  ci_CallbackFirst :: bool
  ci_RequestDone :: bool
  ci_SessionErr :: "go_error option"

definition circumstances_ok :: "circumstances \<Rightarrow> bool" where
  "circumstances_ok c \<longleftrightarrow>
     (ci_SessionErr c \<noteq> None \<longrightarrow> ci_RequestDone c) \<and> (ci_CallbackFirst c \<or> ci_RequestDone c)"

text \<open>A reply's data is \<open>None\<close> when it cannot be marshalled.\<close>

datatype reply = ReplyData "string option" | ReplyError go_error | NoReply

definition settle :: "circumstances \<Rightarrow> 'a \<times> go_error option \<Rightarrow> ('a \<Rightarrow> reply) \<Rightarrow> reply" where
  "settle c res k =
     (if ci_CallbackFirst c then
        (if ci_RequestDone c \<and> ci_SessionErr c = None then NoReply
         else case snd res of Some e \<Rightarrow> ReplyError e | None \<Rightarrow> k (fst res))
      else case ci_SessionErr c of Some e \<Rightarrow> ReplyError e | None \<Rightarrow> NoReply)"

definition marshal_raw :: "string option \<Rightarrow> string option" where
  "marshal_raw m =
     (case m of
        None \<Rightarrow> Some ''null''
      | Some s \<Rightarrow> if parse_json s = None then None else Some (compact_json False s))"

definition marshal_raw_msg :: "raw_msg \<Rightarrow> string" where
  "marshal_raw_msg m = (case m of None \<Rightarrow> ''null'' | Some j \<Rightarrow> compact_json False (jraw j))"

fun all_some :: "'a option list \<Rightarrow> 'a list option" where
  "all_some [] = Some []"
| "all_some (None # xs) = None"
| "all_some (Some x # xs) = map_option (Cons x) (all_some xs)"

definition nil_dereference :: go_error where
  "nil_dereference = EExt ''runtime error: invalid memory address or nil pointer dereference''"

definition permission_data :: "ToolPermissionRequest \<Rightarrow> PermissionResponse \<Rightarrow> string option" where
  "permission_data req resp =
     (if pp_Allow resp then
        (case (if pp_UpdatedInput resp = None then Some (marshal_raw_msg (pr_Input req))
               else marshal_raw (pp_UpdatedInput resp),
               all_some (map marshal_raw (pp_UpdatedPermissions resp))) of
           (Some input, Some perms) \<Rightarrow>
             Some (map_json
               ([(''behavior'', quote_json ''allow''), (''updatedInput'', input)]
                @ (if pp_UpdatedPermissions resp = [] then []
                   else [(''updatedPermissions'', array_json perms)])))
         | _ \<Rightarrow> None)
      else
        Some (map_json
          ([(''behavior'', quote_json ''deny''), (''message'', quote_json (pp_DenyMessage resp))]
           @ (if pp_Interrupt resp then [(''interrupt'', ''true'')] else []))))"

text \<open>A callback that returns nil without an error makes the handler panic on it, which it recovers.\<close>

definition permission_reply :: "ToolPermissionRequest \<Rightarrow> PermissionResponse option \<Rightarrow> reply" where
  "permission_reply req resp =
     (case resp of
        None \<Rightarrow> ReplyError (panic_error (Inl nil_dereference))
      | Some r \<Rightarrow> ReplyData (permission_data req r))"

definition permission_callback ::
    "callbacks \<Rightarrow> ToolPermissionRequest \<Rightarrow> PermissionResponse option callback option" where
  "permission_callback cb req =
     (case cb_canUseToolReqCtx cb of
        Some f \<Rightarrow> Some (f req)
      | None \<Rightarrow>
          (case cb_canUseToolReq cb of
             Some f \<Rightarrow> Some (f req)
           | None \<Rightarrow>
               (case cb_canUseTool cb of
                  Some f \<Rightarrow> Some (f (pr_ToolName req) (pr_Input req))
                | None \<Rightarrow> None)))"

definition question_json :: "Question \<Rightarrow> string" where
  "question_json q =
     obj_json
       ([(''question'', quote_json (qn_Question q))]
        @ opt_member ''header'' (qn_Header q)
        @ (if qn_Options q = [] then []
           else [(''options'',
                  array_json (map (\<lambda>p. obj_json ([(''label'', quote_json (qo_Label p))]
                                   @ opt_member ''description'' (qo_Description p)))
                             (qn_Options q)))])
        @ (if qn_MultiSelect q then [(''multiSelect'', ''true'')] else []))"

definition answers_json :: "(string \<times> string) list \<Rightarrow> string" where
  "answers_json as = map_json (map (\<lambda>(k, v). (k, quote_json v)) as)"

definition user_input_data ::
    "Question list option \<Rightarrow> (string \<times> string) list option \<Rightarrow> string" where
  "user_input_data qs as =
     map_json
       [(''behavior'', quote_json ''allow''),
        (''updatedInput'',
          map_json
            [(''questions'',
               (case qs of None \<Rightarrow> ''null'' | Some qs \<Rightarrow> array_json (map question_json qs))),
             (''answers'', answers_json (case as of None \<Rightarrow> [] | Some m \<Rightarrow> m))])]"

definition handleUserInput :: "callbacks \<Rightarrow> circumstances \<Rightarrow> ToolPermissionRequest \<Rightarrow> reply" where
  "handleUserInput cb c req =
     (case unmarshal_raw (d_one ''questions'' (d_slice d_question zero_question)) (pr_Input req) None of
        (qs, ok) \<Rightarrow>
          if \<not> ok then ReplyError json_error
          else
            (case (case cb_userInputCtx cb of
                     Some f \<Rightarrow> f qs
                   | None \<Rightarrow> (case cb_userInput cb of
                                Some f \<Rightarrow> f qs
                              | None \<Rightarrow> PanicsError nil_dereference)) of
               res \<Rightarrow>
                 settle c (callback_result None res)
                   (\<lambda>as. ReplyData (Some (user_input_data qs as)))))"

definition handleControlRequest :: "callbacks \<Rightarrow> circumstances \<Rightarrow> raw_msg \<Rightarrow> reply" where
  "handleControlRequest cb c body =
     (case unmarshal_raw (d_one ''subtype'' d_str) body [] of
        (subtype, ok) \<Rightarrow>
          if \<not> ok then ReplyError json_error
          else if subtype = ''can_use_tool'' then
            (case unmarshal_raw d_permission_request body zero_permission_request of
               (req, ok) \<Rightarrow>
                 if \<not> ok then ReplyError json_error
                 else if pr_ToolName req = ''AskUserQuestion''
                         \<and> (cb_userInputCtx cb \<noteq> None \<or> cb_userInput cb \<noteq> None) then
                   handleUserInput cb c req
                 else
                   (case permission_callback cb req of
                      None \<Rightarrow> ReplyError (ENew ''no canUseTool callback registered'')
                    | Some res \<Rightarrow>
                        settle c (callback_result None res) (permission_reply req)))
          else ReplyError (ENew (''unsupported control request: '' @ subtype)))"

text \<open>
  The line of a reply; \<open>goq\<close> is \<^verbatim>\<open>strconv.Quote\<close>, which the fallback for data that cannot be
  marshalled uses.
\<close>

definition control_response :: "(string \<Rightarrow> string) \<Rightarrow> string \<Rightarrow> reply \<Rightarrow> string option" where
  "control_response goq rid r =
     (case r of
        NoReply \<Rightarrow> None
      | ReplyError e \<Rightarrow>
          Some (obj_json
            [(''type'', quote_json ''control_response''),
             (''response'',
               obj_json
                 ([(''subtype'', quote_json ''error''), (''request_id'', quote_json rid)]
                  @ opt_member ''error'' (error_text e)))])
      | ReplyData (Some d) \<Rightarrow>
          Some (obj_json
            [(''type'', quote_json ''control_response''),
             (''response'',
               obj_json [(''subtype'', quote_json ''success''), (''request_id'', quote_json rid),
                         (''response'', d)])])
      | ReplyData None \<Rightarrow>
          Some (''{\"type\":\"control_response\",\"response\":{\"subtype\":\"error\",\"request_id\":''
                @ goq rid @ '',\"error\":\"marshal failure\"}}''))"

definition send_reply ::
    "(string \<Rightarrow> string) \<Rightarrow> nanos \<Rightarrow> string \<Rightarrow> reply \<Rightarrow> write_outcome \<Rightarrow> Session \<Rightarrow> Session" where
  "send_reply goq now rid r w s =
     (case control_response goq rid r of
        None \<Rightarrow> s
      | Some line \<Rightarrow>
          (case writeStdin (line @ [CHR 0x0A]) w s of
             (s, None) \<Rightarrow> s
           | (s, Some e) \<Rightarrow>
               sendEvent now
                 (PEvent (EvError \<lparr>ee_Err = EWrap ''write control response: '' e [],
                                   ee_Fatal = False\<rparr>)) s))"

section \<open>Withdrawals\<close>

text \<open>
  A handler registers its cancel function under the request id and removes whatever is there when it
  returns; a cancel request from the CLI takes the function out and calls it.
\<close>

definition inbound_register :: "string \<Rightarrow> nat \<Rightarrow> Session \<Rightarrow> Session" where
  "inbound_register rid n s = s\<lparr>ss_inboundCancel := map_put rid n (ss_inboundCancel s)\<rparr>"

definition inbound_finish :: "string \<Rightarrow> nat \<Rightarrow> Session \<Rightarrow> Session" where
  "inbound_finish rid n s =
     s\<lparr>ss_inboundCancel := map_del rid (ss_inboundCancel s), ss_cancelled := n # ss_cancelled s\<rparr>"

definition inbound_cancel :: "string \<Rightarrow> Session \<Rightarrow> Session" where
  "inbound_cancel rid s =
     (case map_of (ss_inboundCancel s) rid of
        None \<Rightarrow> s
      | Some n \<Rightarrow> s\<lparr>ss_inboundCancel := map_del rid (ss_inboundCancel s),
                    ss_cancelled := n # ss_cancelled s\<rparr>)"

section \<open>The phases of a request\<close>

text \<open>
  The abstract view of the request table: where each request id stands. The steps below are what
  callers, the read loop and the end of the session do to it.
\<close>

datatype phase = Unused | Waiting | Answered controlResult

datatype control_op =
    CBegin string "(string \<times> string) list" write_outcome
  | CResponse string controlResult
  | CAwait string string await_end
  | CSessionEnd

definition control_step :: "control_op \<Rightarrow> Session \<Rightarrow> Session" where
  "control_step a s =
     (case a of
        CBegin sub data w \<Rightarrow> fst (control_begin sub data w s)
      | CResponse rid r \<Rightarrow> deliver_reply rid r s
      | CAwait sub rid how \<Rightarrow>
          (case control_await sub rid how s of None \<Rightarrow> s | Some (s', _) \<Rightarrow> s')
      | CSessionEnd \<Rightarrow> failPendingRequests s)"

definition phase_of :: "Session \<Rightarrow> string \<Rightarrow> phase" where
  "phase_of s rid =
     (if rid \<in> set (ss_pending s) then Waiting
      else case map_of (ss_replies s) rid of Some r \<Rightarrow> Answered r | None \<Rightarrow> Unused)"

text \<open>
  The specification: a response answers a waiting request and is dropped otherwise; a wait that ends
  forgets the request; the end of the session answers whatever waits.
\<close>

definition ended_reply :: controlResult where
  "ended_reply = \<lparr>cr_Response = None, cr_Err = Some errSessionEnded\<rparr>"

definition next_id :: "Session \<Rightarrow> string" where
  "next_id s = request_id (wrap64 (ss_reqCounter s + 1))"

definition can_write :: "write_outcome \<Rightarrow> Session \<Rightarrow> bool" where
  "can_write w s \<longleftrightarrow> \<not> ss_stdinClosed s \<and> ss_hasStdin s \<and> w = WriteOk"

definition phase_step :: "control_op \<Rightarrow> Session \<Rightarrow> (string \<Rightarrow> phase) \<Rightarrow> string \<Rightarrow> phase" where
  "phase_step a s ph =
     (case a of
        CBegin _ _ w \<Rightarrow> ph(next_id s := (if can_write w s then Waiting else Unused))
      | CResponse rid r \<Rightarrow> if ph rid = Waiting then ph(rid := Answered r) else ph
      | CAwait _ rid how \<Rightarrow>
          if how = GotReply \<and> (\<forall>r. ph rid \<noteq> Answered r) then ph else ph(rid := Unused)
      | CSessionEnd \<Rightarrow> \<lambda>rid. if ph rid = Waiting then Answered ended_reply else ph rid)"

definition control_inv :: "Session \<Rightarrow> bool" where
  "control_inv s \<longleftrightarrow>
     distinct (ss_pending s) \<and> (\<forall>rid \<in> set (ss_pending s). map_of (ss_replies s) rid = None)"

lemma write_keeps_control:
  "writeStdinTimeout data t w s = (s', e) \<Longrightarrow>
     ss_pending s' = ss_pending s \<and> ss_replies s' = ss_replies s \<and> ss_reqCounter s' = ss_reqCounter s"
  by (auto simp: writeStdinTimeout_def split: if_splits write_outcome.splits)

lemma write_succeeds: "snd (writeStdin data w s) = None \<longleftrightarrow> can_write w s"
  by (auto simp: writeStdin_def writeStdinTimeout_def can_write_def split: write_outcome.split)

lemma cancel_keeps_control:
  "ss_pending (cancelControlRequest rid w s) = ss_pending s"
  "ss_replies (cancelControlRequest rid w s) = ss_replies s"
  unfolding cancelControlRequest_def writeStdin_def
  by (auto simp: writeStdinTimeout_def split: write_outcome.split)

definition fill_ended :: "string list \<Rightarrow> (string \<times> controlResult) list \<Rightarrow> (string \<times> controlResult) list" where
  "fill_ended ids rs =
     foldl (\<lambda>rs rid. if map_of rs rid = None then map_put rid ended_reply rs else rs) rs ids"

lemma map_of_fill_ended:
  "map_of (fill_ended ids rs) x
     = (if x \<in> set ids \<and> map_of rs x = None then Some ended_reply else map_of rs x)"
proof (induction ids arbitrary: rs)
  case Nil
  show ?case by (simp add: fill_ended_def)
next
  case (Cons i ids)
  have "fill_ended (i # ids) rs
      = fill_ended ids (if map_of rs i = None then map_put i ended_reply rs else rs)"
    by (simp add: fill_ended_def)
  with Cons show ?case by (simp add: map_of_put)
qed

lemma failPendingRequests_fill:
  "failPendingRequests s = s\<lparr>ss_replies := fill_ended (ss_pending s) (ss_replies s), ss_pending := []\<rparr>"
  unfolding failPendingRequests_def fill_ended_def ended_reply_def ..

lemma phase_unregister:
  "control_inv s \<Longrightarrow> phase_of (unregister rid s) = (phase_of s)(rid := Unused)"
  by (auto simp: fun_eq_iff control_inv_def phase_of_def unregister_def map_of_del)

lemma control_inv_unregister: "control_inv s \<Longrightarrow> control_inv (unregister rid s)"
  by (auto simp: control_inv_def unregister_def map_of_del)

lemma phase_register:
  "control_inv s \<Longrightarrow> register_request s = (s', rid) \<Longrightarrow>
     rid = next_id s \<and> control_inv s' \<and> phase_of s' = (phase_of s)(rid := Waiting)"
  by (auto simp: register_request_def Let_def next_id_def control_inv_def phase_of_def map_of_del
      fun_eq_iff)

lemma phase_of_cong:
  "ss_pending s' = ss_pending s \<Longrightarrow> ss_replies s' = ss_replies s \<Longrightarrow>
     phase_of s' = phase_of s \<and> control_inv s' = control_inv s"
  by (simp add: phase_of_def control_inv_def fun_eq_iff)

lemma begin_refines:
  assumes inv: "control_inv s"
  shows "control_inv (fst (control_begin sub data w s))
    \<and> phase_of (fst (control_begin sub data w s)) = phase_step (CBegin sub data w) s (phase_of s)"
proof -
  obtain s1 rid where reg: "register_request s = (s1, rid)" by (cases "register_request s")
  note r = phase_register [OF inv reg]
  have same: "can_write w s1 = can_write w s"
    using reg by (auto simp: register_request_def Let_def can_write_def)
  let ?line = "control_line rid sub data @ [CHR 0x0A]"
  obtain s2 e where wr: "writeStdin ?line w s1 = (s2, e)" by (cases "writeStdin ?line w s1")
  have keep: "ss_pending s2 = ss_pending s1" "ss_replies s2 = ss_replies s1"
    using wr write_keeps_control unfolding writeStdin_def by blast+
  note c = phase_of_cong [OF keep]
  have ok: "e = None \<longleftrightarrow> can_write w s" using write_succeeds [of ?line w s1] wr same by simp
  show ?thesis
  proof (cases e)
    case None
    then have "fst (control_begin sub data w s) = s2" by (simp add: control_begin_def reg wr)
    with r c ok None show ?thesis by (simp add: phase_step_def)
  next
    case (Some x)
    then have "fst (control_begin sub data w s) = unregister rid s2"
      by (simp add: control_begin_def reg wr)
    moreover have "\<not> can_write w s" using ok Some by simp
    ultimately show ?thesis
      using r c phase_unregister [of s2 rid] control_inv_unregister [of s2 rid]
      by (simp add: phase_step_def)
  qed
qed

lemma response_refines:
  "control_inv s \<Longrightarrow> control_inv (deliver_reply rid r s)
     \<and> phase_of (deliver_reply rid r s) = phase_step (CResponse rid r) s (phase_of s)"
  by (auto simp: control_inv_def phase_of_def deliver_reply_def phase_step_def map_of_put fun_eq_iff
      split: option.split)

lemma await_refines:
  assumes inv: "control_inv s"
  shows "control_inv (control_step (CAwait sub rid how) s)
    \<and> phase_of (control_step (CAwait sub rid how) s) = phase_step (CAwait sub rid how) s (phase_of s)"
proof (cases how)
  case GotReply
  show ?thesis
  proof (cases "map_of (ss_replies s) rid")
    case None
    then have "\<forall>r. phase_of s rid \<noteq> Answered r" by (simp add: phase_of_def)
    with GotReply None inv show ?thesis by (simp add: control_step_def control_await_def phase_step_def)
  next
    case (Some r)
    have "rid \<notin> set (ss_pending s)" using inv Some by (auto simp: control_inv_def)
    then have "phase_of s rid = Answered r" using Some by (simp add: phase_of_def)
    with GotReply Some inv phase_unregister control_inv_unregister show ?thesis
      by (auto simp: control_step_def control_await_def phase_step_def)
  qed
next
  case (TimedOut w)
  have "control_inv (cancelControlRequest rid w s)" "phase_of (cancelControlRequest rid w s) = phase_of s"
    using phase_of_cong [OF cancel_keeps_control, of rid w s] inv by auto
  with TimedOut phase_unregister control_inv_unregister show ?thesis
    by (simp add: control_step_def control_await_def phase_step_def)
next
  case (ContextEnded e)
  with inv phase_unregister control_inv_unregister show ?thesis
    by (simp add: control_step_def control_await_def phase_step_def)
qed

lemma session_end_refines:
  "control_inv s \<Longrightarrow> control_inv (failPendingRequests s)
     \<and> phase_of (failPendingRequests s) = phase_step CSessionEnd s (phase_of s)"
  by (auto simp: control_inv_def phase_of_def failPendingRequests_fill phase_step_def
      map_of_fill_ended fun_eq_iff split: option.split)

lemma step_refines:
  assumes "control_inv s"
  shows "control_inv (control_step a s) \<and> phase_of (control_step a s) = phase_step a s (phase_of s)"
proof (cases a)
  case (CBegin sub data w)
  with begin_refines [OF assms, of sub data w] show ?thesis by (simp add: control_step_def)
next
  case (CResponse rid r)
  with response_refines [OF assms, of rid r] show ?thesis by (simp add: control_step_def)
next
  case (CAwait sub rid how)
  with await_refines [OF assms, of sub rid how] show ?thesis by simp
next
  case CSessionEnd
  with session_end_refines [OF assms] show ?thesis by (simp add: control_step_def)
qed

section \<open>Properties\<close>

definition control_run :: "control_op list \<Rightarrow> Session \<Rightarrow> Session" where
  "control_run ops s = foldl (\<lambda>s a. control_step a s) s ops"

fun phase_run :: "control_op list \<Rightarrow> Session \<Rightarrow> (string \<Rightarrow> phase) \<Rightarrow> string \<Rightarrow> phase" where
  "phase_run [] s ph = ph"
| "phase_run (a # ops) s ph = phase_run ops (control_step a s) (phase_step a s ph)"

lemma control_run_refines:
  "control_inv s \<Longrightarrow> control_inv (control_run ops s)
     \<and> phase_of (control_run ops s) = phase_run ops s (phase_of s)"
proof (induction ops arbitrary: s)
  case Nil
  then show ?case by (simp add: control_run_def)
next
  case (Cons a ops)
  from step_refines [OF Cons.prems, of a] Cons.IH [of "control_step a s"] show ?case
    by (simp add: control_run_def)
qed

lemma control_inv_new: "control_inv (newSession b t c i)"
  by (simp add: control_inv_def newSession_def)

lemma phase_of_new: "phase_of (newSession b t c i) = (\<lambda>_. Unused)"
  by (simp add: phase_of_def newSession_def fun_eq_iff)

text \<open>
  C4: The request table is a correlation table: over any sequence of requests, responses, ends of
  waits and the end of the session, each request id stands where the specification puts it. A
  response answers the request waiting under its id and nothing else, later responses to it are
  dropped, a wait that ended leaves nothing behind, and the end of the session answers every request
  that still waits.
\<close>

theorem control_requests_are_correlated:
  "phase_of (control_run ops (newSession b t c i))
     = phase_run ops (newSession b t c i) (\<lambda>_. Unused)"
  using control_run_refines [OF control_inv_new, of ops b t c i] by (simp add: phase_of_new)

text \<open>
  No control request waits for ever: a request that is still waiting when the read loop ends gets
  the session-ended error under its own name.
\<close>

lemma session_end_releases_every_request:
  assumes "phase_of (control_run ops (newSession b t c i)) rid = Waiting"
  shows "map_option snd
      (control_await sub rid GotReply (failPendingRequests (control_run ops (newSession b t c i))))
    = Some (Inl (EWrap (sub @ '': '') errSessionEnded []))"
proof -
  let ?s = "control_run ops (newSession b t c i)"
  have inv: "control_inv ?s" using control_run_refines [OF control_inv_new] by blast
  have "phase_of (failPendingRequests ?s) rid = Answered ended_reply"
    using session_end_refines [OF inv] assms by (simp add: phase_step_def)
  then have "map_of (ss_replies (failPendingRequests ?s)) rid = Some ended_reply"
    by (simp add: phase_of_def split: if_splits option.splits)
  then show ?thesis by (simp add: control_await_def ended_reply_def)
qed

definition sample_control_run :: "control_op list" where
  "sample_control_run =
     [CBegin ''mcp_status'' [] WriteOk, CBegin ''interrupt'' [] WriteOk,
      CResponse ''req_1'' \<lparr>cr_Response = None, cr_Err = None\<rparr>]"

lemma session_end_releases_every_request_witness:
  "map_option snd
      (control_await ''interrupt'' ''req_2'' GotReply
        (failPendingRequests (control_run sample_control_run (newSession False 0 0 0))))
    = Some (Inl (EWrap (''interrupt'' @ '': '') errSessionEnded []))"
proof (rule session_end_releases_every_request)
  have w: "wrap64 1 = 1" "wrap64 2 = 2" by (simp_all add: wrap64_def)
  have r: "request_id 1 = ''req_1''" "request_id 2 = ''req_2''"
    by code_simp+
  show "phase_of (control_run sample_control_run (newSession False 0 0 0)) ''req_2'' = Waiting"
    unfolding control_run_refines [OF control_inv_new, THEN conjunct2] phase_of_new sample_control_run_def
    by (simp add: phase_step_def next_id_def control_step_def control_begin_def
        register_request_def Let_def newSession_def w r writeStdin_def writeStdinTimeout_def
        can_write_def deliver_reply_def)
qed

text \<open>
  The requests that reach a callback: permission requests that decode, with a callback to ask, or
  questions that decode.
\<close>

definition asks_user :: "callbacks \<Rightarrow> ToolPermissionRequest \<Rightarrow> bool" where
  "asks_user cb req \<longleftrightarrow>
     pr_ToolName req = ''AskUserQuestion'' \<and> (cb_userInputCtx cb \<noteq> None \<or> cb_userInput cb \<noteq> None)"

definition reaches_callback :: "callbacks \<Rightarrow> raw_msg \<Rightarrow> bool" where
  "reaches_callback cb body \<longleftrightarrow>
     unmarshal_raw (d_one ''subtype'' d_str) body [] = (''can_use_tool'', True)
     \<and> (case unmarshal_raw d_permission_request body zero_permission_request of
          (req, ok) \<Rightarrow>
            ok \<and> (if asks_user cb req
                   then snd (unmarshal_raw (d_one ''questions'' (d_slice d_question zero_question))
                               (pr_Input req) None)
                   else permission_callback cb req \<noteq> None))"

lemma settle_silent:
  "circumstances_ok c \<Longrightarrow> (\<And>a. k a \<noteq> NoReply) \<Longrightarrow>
     settle c res k = NoReply \<longleftrightarrow> ci_RequestDone c \<and> ci_SessionErr c = None"
  by (auto simp: settle_def circumstances_ok_def split: option.split)

lemma permission_reply_speaks: "permission_reply req a \<noteq> NoReply"
  by (simp add: permission_reply_def split: option.split)

text \<open>The circumstances of a handler that nothing disturbs: its callback returns, the session lives on.\<close>

definition undisturbed :: circumstances where
  "undisturbed = \<lparr>ci_CallbackFirst = True, ci_RequestDone = False, ci_SessionErr = None\<rparr>"

lemma settle_cases:
  assumes "circumstances_ok c"
  shows "settle c res k =
    (if ci_CallbackFirst c then (if ci_RequestDone c \<and> ci_SessionErr c = None then NoReply
                                 else settle undisturbed res k)
     else case ci_SessionErr c of Some e \<Rightarrow> ReplyError e | None \<Rightarrow> NoReply)"
  using assms by (auto simp: settle_def undisturbed_def circumstances_ok_def)

lemma handler_cases:
  assumes "circumstances_ok c"
  shows "handleControlRequest cb c body =
    (if reaches_callback cb body \<and> ci_RequestDone c
     then (case ci_SessionErr c of
             None \<Rightarrow> NoReply
           | Some e \<Rightarrow> if ci_CallbackFirst c then handleControlRequest cb undisturbed body
                       else ReplyError e)
     else handleControlRequest cb undisturbed body)"
proof -
  have ok: "ci_CallbackFirst c \<or> ci_RequestDone c" "ci_SessionErr c \<noteq> None \<Longrightarrow> ci_RequestDone c"
    using assms by (auto simp: circumstances_ok_def)
  have s: "settle c res k =
      (if ci_RequestDone c
       then (case ci_SessionErr c of
               None \<Rightarrow> NoReply
             | Some e \<Rightarrow> if ci_CallbackFirst c then settle undisturbed res k else ReplyError e)
       else settle undisturbed res k)" for res :: "'x \<times> go_error option" and k
    using ok by (auto simp: settle_cases [OF assms] split: option.split)
  show ?thesis
    by (auto simp: handleControlRequest_def handleUserInput_def reaches_callback_def asks_user_def s
        split: prod.splits option.splits)
qed

text \<open>
  C17: Exactly the withdrawn requests stay unanswered: a control request gets no response when it
  reached a callback and the CLI withdrew it while the session was alive, and every other request
  gets one, whatever the callbacks do, panics included. When the session ends while a callback runs,
  a response is still written, although the comments of the callback types say that none is: the
  error of the session, or the callback's own answer if that was ready and taken first. In all other
  circumstances the answer is the one of an undisturbed handler.
\<close>

theorem only_withdrawn_requests_stay_unanswered:
  assumes "circumstances_ok c"
  shows "(control_response goq rid (handleControlRequest cb c body) = None
      \<longleftrightarrow> reaches_callback cb body \<and> ci_RequestDone c \<and> ci_SessionErr c = None)
    \<and> (reaches_callback cb body \<and> ci_SessionErr c = Some e \<longrightarrow>
         handleControlRequest cb c body
           = (if ci_CallbackFirst c then handleControlRequest cb undisturbed body else ReplyError e))
    \<and> (\<not> reaches_callback cb body \<or> \<not> ci_RequestDone c \<longrightarrow>
         handleControlRequest cb c body = handleControlRequest cb undisturbed body)"
proof -
  note silent = settle_silent [OF assms]
  have "control_response goq rid r = None \<longleftrightarrow> r = NoReply" for r
    by (cases r) (auto simp: control_response_def split: option.split)
  moreover have "handleControlRequest cb c body = NoReply
      \<longleftrightarrow> reaches_callback cb body \<and> ci_RequestDone c \<and> ci_SessionErr c = None"
    by (auto simp: handleControlRequest_def handleUserInput_def reaches_callback_def asks_user_def
        silent permission_reply_speaks split: prod.splits option.splits if_splits)
  moreover have "ci_SessionErr c \<noteq> None \<Longrightarrow> ci_RequestDone c"
    using assms by (simp add: circumstances_ok_def)
  ultimately show ?thesis using handler_cases [OF assms, of cb body] by auto
qed

definition sample_callbacks :: callbacks where
  "sample_callbacks =
     \<lparr>cb_canUseTool = None, cb_canUseToolReq = None,
      cb_canUseToolReqCtx = Some (\<lambda>_. Returns (Some \<lparr>pp_Allow = False, pp_UpdatedInput = None,
        pp_DenyMessage = ''no'', pp_UpdatedPermissions = [], pp_Interrupt = False\<rparr>) None),
      cb_userInput = None, cb_userInputCtx = None\<rparr>"

definition sample_request :: raw_msg where
  "sample_request =
     Some (JObj [] [(''subtype'', JStr [] ''can_use_tool''), (''tool_name'', JStr [] ''Bash'')])"

lemma sample_request_reaches: "reaches_callback sample_callbacks sample_request"
  by code_simp

theorem only_withdrawn_requests_stay_unanswered_witness:
  "control_response (\<lambda>s. s) ''1''
     (handleControlRequest sample_callbacks
        \<lparr>ci_CallbackFirst = False, ci_RequestDone = True, ci_SessionErr = None\<rparr> sample_request) = None
   \<and> handleControlRequest sample_callbacks
        \<lparr>ci_CallbackFirst = False, ci_RequestDone = True, ci_SessionErr = Some (ENew ''ended'')\<rparr>
        sample_request
     = ReplyError (ENew ''ended'')"
  using sample_request_reaches
    only_withdrawn_requests_stay_unanswered
      [of "\<lparr>ci_CallbackFirst = False, ci_RequestDone = True, ci_SessionErr = None\<rparr>" "\<lambda>s. s" "''1''"
        sample_callbacks sample_request "ENew []"]
    only_withdrawn_requests_stay_unanswered
      [of "\<lparr>ci_CallbackFirst = False, ci_RequestDone = True, ci_SessionErr = Some (ENew ''ended'')\<rparr>"
        "\<lambda>s. s" "''1''" sample_callbacks sample_request "ENew ''ended''"]
  by (simp add: circumstances_ok_def)

end
