(* ===== verification/Internals.thy ===== *)
theory Internals
  imports Parse Bounded_Buffer
begin

text \<open>
  internal.go: the ring of the last stderr lines, the reader that captures raw stdout lines into such
  a ring while bytes pass through, the error built from a process exit, and the removal of a markdown
  code fence. The lemmas show that the ring is the list of the last lines, that the capture does not
  depend on how the bytes were cut into reads, and what the fence stripper returns.
\<close>

section \<open>The ring\<close>

record stderrRing =
  sr_buf :: "string list"
  sr_pos :: nat
  sr_full :: bool

definition maxStderrLines :: nat where
  "maxStderrLines = 1000"

definition newStderrRing :: "nat \<Rightarrow> stderrRing" where
  "newStderrRing cap = \<lparr>sr_buf = replicate cap [], sr_pos = 0, sr_full = False\<rparr>"

definition ring_add :: "string \<Rightarrow> stderrRing \<Rightarrow> stderrRing" where
  "ring_add line r =
     (let buf = (sr_buf r)[sr_pos r := line]; pos = sr_pos r + 1 in
      if pos = length buf then r\<lparr>sr_buf := buf, sr_pos := 0, sr_full := True\<rparr>
      else r\<lparr>sr_buf := buf, sr_pos := pos\<rparr>)"

definition ring_lines :: "stderrRing \<Rightarrow> string list" where
  "ring_lines r =
     (if \<not> sr_full r then take (sr_pos r) (sr_buf r)
      else drop (sr_pos r) (sr_buf r) @ take (sr_pos r) (sr_buf r))"

definition ring_inv :: "nat \<Rightarrow> stderrRing \<Rightarrow> bool" where
  "ring_inv cap r \<longleftrightarrow> length (sr_buf r) = cap \<and> sr_pos r < cap"

lemma ring_inv_new: "0 < cap \<Longrightarrow> ring_inv cap (newStderrRing cap)"
  by (simp add: ring_inv_def newStderrRing_def)

lemma ring_lines_new [simp]: "ring_lines (newStderrRing cap) = []"
  by (simp add: ring_lines_def newStderrRing_def)

lemma ring_add_inv: "ring_inv cap r \<Longrightarrow> ring_inv cap (ring_add line r)"
  by (auto simp: ring_inv_def ring_add_def Let_def)

lemma ring_add_lines:
  assumes "ring_inv cap r"
  shows "ring_lines (ring_add line r) = last_n cap (ring_lines r @ [line])"
proof -
  have len: "length (sr_buf r) = cap" and pos: "sr_pos r < cap"
    using assms by (auto simp: ring_inv_def)
  have split: "drop (sr_pos r) (sr_buf r) = sr_buf r ! sr_pos r # drop (Suc (sr_pos r)) (sr_buf r)"
    using len pos by (simp add: Cons_nth_drop_Suc)
  have upd: "(sr_buf r)[sr_pos r := line]
      = take (sr_pos r) (sr_buf r) @ line # drop (Suc (sr_pos r)) (sr_buf r)"
    using len pos by (simp add: upd_conv_take_nth_drop)
  have tk: "take (sr_pos r) (take (sr_pos r) (sr_buf r) @ zs) = take (sr_pos r) (sr_buf r)" for zs
    using len pos by simp
  show ?thesis
    using len pos split
    by (auto simp: ring_lines_def ring_add_def Let_def upd last_n_def min_def)
qed

lemma ring_lines_cap: "ring_inv cap r \<Longrightarrow> length (ring_lines r) \<le> cap"
  by (auto simp: ring_inv_def ring_lines_def)

interpretation stderr_ring: drop_oldest "ring_inv cap" ring_add ring_lines cap for cap
  by unfold_locales (simp_all add: ring_add_inv ring_add_lines ring_lines_cap)

section \<open>Capturing lines\<close>

record lineCaptureReader =
  lc_ring :: stderrRing
  lc_buf :: string

function capture_drain :: "lineCaptureReader \<Rightarrow> lineCaptureReader" where
  "capture_drain r =
     (case index_byte (CHR 0x0A) (lc_buf r) of
        None \<Rightarrow> r
      | Some idx \<Rightarrow>
          capture_drain
            (r\<lparr>lc_ring := ring_add (take idx (lc_buf r)) (lc_ring r),
               lc_buf := drop (idx + 1) (lc_buf r)\<rparr>))"
  by pat_completeness auto
termination
  by (relation "measure (\<lambda>r. length (lc_buf r))") (auto dest: index_byte_less)

declare capture_drain.simps [simp del]

text \<open>A read that returned the bytes \<open>p\<close>.\<close>

definition capture_read :: "string \<Rightarrow> lineCaptureReader \<Rightarrow> lineCaptureReader" where
  "capture_read p r =
     (if p \<noteq> [] then capture_drain (r\<lparr>lc_buf := lc_buf r @ p\<rparr>) else r)"

definition capture_flush :: "lineCaptureReader \<Rightarrow> lineCaptureReader" where
  "capture_flush r =
     (if lc_buf r \<noteq> [] then r\<lparr>lc_ring := ring_add (lc_buf r) (lc_ring r), lc_buf := []\<rparr> else r)"

definition newCapture :: "nat \<Rightarrow> lineCaptureReader" where
  "newCapture cap = \<lparr>lc_ring = newStderrRing cap, lc_buf = []\<rparr>"

section \<open>Exit errors\<close>

definition inferErrorMessage :: "string \<Rightarrow> string" where
  "inferErrorMessage stderr =
     (let lower = to_lower stderr in
      if contains lower ''command not found'' then
        ''claude binary not found (is it installed and in PATH?)''
      else if contains lower ''no such file or directory'' \<and> \<not> contains lower ''{'' then
        ''file or directory not found (check working directory and binary path)''
      else if contains lower ''permission denied'' then ''permission denied running claude binary''
      else if contains lower ''enoent'' then ''file or directory not found (ENOENT)''
      else if contains lower ''eacces'' then ''permission denied (EACCES)''
      else if contains lower ''context window exceeded''
              \<or> contains lower ''context length exceeded'' then ''context window exceeded''
      else
        (let candidates =
               filter (\<lambda>line. line \<noteq> [] \<and> \<not> has_prefix line ''{'')
                 (map trim_space (rev (split_on (CHR 0x0A) (trim_space stderr)))) in
         case candidates of
           [] \<Rightarrow> []
         | line # _ \<Rightarrow> if length line > 200 then take 200 line @ ''...'' else line))"

text \<open>What \<^verbatim>\<open>proc.Wait\<close> returned: an exit status or another error.\<close>

datatype wait_error = ExitError int string | OtherError go_error

definition wait_error_text :: "wait_error \<Rightarrow> string" where
  "wait_error_text e = (case e of ExitError _ t \<Rightarrow> t | OtherError g \<Rightarrow> error_text g)"

definition processExitError :: "wait_error \<Rightarrow> string \<Rightarrow> go_error" where
  "processExitError err stderr =
     (let details = parseErrorDetails stderr;
          msg = (case details of Some d \<Rightarrow> ed_message d | None \<Rightarrow> []);
          class = (case details of Some d \<Rightarrow> classifyError d | None \<Rightarrow> None);
          msg = (if msg = [] then inferErrorMessage stderr else msg) in
      case err of
        ExitError code _ \<Rightarrow> ECli code stderr msg [] class
      | OtherError _ \<Rightarrow> ECli (-1) stderr (if msg = [] then wait_error_text err else msg) [] class)"

section \<open>Code fences\<close>

definition fence :: string where
  "fence = ''```''"

definition is_alnum :: "char \<Rightarrow> bool" where
  "is_alnum c \<longleftrightarrow> ascii_lower c \<or> ascii_upper c \<or> is_digit c"

definition isOpeningFence :: "string \<Rightarrow> bool" where
  "isOpeningFence line \<longleftrightarrow> has_prefix line fence \<and> list_all is_alnum (drop 3 line)"

text \<open>The scan for the closing fence: the bytes before its line.\<close>

function find_fence :: "string \<Rightarrow> nat \<Rightarrow> nat option" where
  "find_fence rest pos =
     (case index_byte (CHR 0x0A) (drop pos rest) of
        None \<Rightarrow> (if trim_space (drop pos rest) = fence then Some pos else None)
      | Some nl \<Rightarrow>
          if trim_space (take nl (drop pos rest)) = fence then Some pos
          else find_fence rest (pos + nl + 1))"
  by pat_completeness auto
termination
  by (relation "measure (\<lambda>(rest, pos). length rest - pos)") (auto dest!: index_byte_less)

declare find_fence.simps [simp del]

definition stripCodeFence :: "string \<Rightarrow> string" where
  "stripCodeFence s0 =
     (let s = trim_space s0 in
      case index_byte (CHR 0x0A) s of
        None \<Rightarrow> s
      | Some i \<Rightarrow>
          if \<not> isOpeningFence (trim_space (take i s)) then s
          else
            (let rest = drop (i + 1) s in
             case find_fence rest 0 of
               None \<Rightarrow> s
             | Some p \<Rightarrow> trim_space (take p rest)))"

section \<open>Facts on the capture\<close>

lemma split_on_index:
  "split_on c s = (case index_byte c s of
                     None \<Rightarrow> [s]
                   | Some i \<Rightarrow> take i s # split_on c (drop (i + 1) s))"
  by (induction s) (auto split: list.splits option.splits)

lemma split_on_append:
  "split_on c (xs @ ys) = butlast (split_on c xs) @ split_on c (last (split_on c xs) @ ys)"
proof (induction xs)
  case Nil
  then show ?case by simp
next
  case (Cons x xs)
  obtain f fs where s: "split_on c xs = f # fs" by (meson split_on_not_Nil list.exhaust)
  show ?case
  proof (cases "x = c")
    case True
    with Cons s show ?thesis by simp
  next
    case False
    show ?thesis
    proof (cases fs)
      case Nil
      with Cons s False show ?thesis by simp
    next
      case (Cons g gs)
      with \<open>split_on c (xs @ ys) = _\<close> s False show ?thesis by simp
    qed
  qed
qed

lemma capture_drain_lines:
  "capture_drain r =
     r\<lparr>lc_ring := stderr_ring.add_all (butlast (split_on (CHR 0x0A) (lc_buf r))) (lc_ring r),
       lc_buf := last (split_on (CHR 0x0A) (lc_buf r))\<rparr>"
proof (induction r rule: capture_drain.induct)
  case (1 r)
  show ?case
  proof (cases "index_byte (CHR 0x0A) (lc_buf r)")
    case None
    then show ?thesis by (simp add: capture_drain.simps [of r] split_on_index)
  next
    case (Some i)
    let ?r = "r\<lparr>lc_ring := ring_add (take i (lc_buf r)) (lc_ring r), lc_buf := drop (i + 1) (lc_buf r)\<rparr>"
    have sp: "split_on (CHR 0x0A) (lc_buf r)
        = take i (lc_buf r) # split_on (CHR 0x0A) (drop (i + 1) (lc_buf r))"
      using Some split_on_index [of "CHR 0x0A" "lc_buf r"] by simp
    have "capture_drain r = capture_drain ?r"
      using Some by (simp add: capture_drain.simps [of r])
    also have "\<dots> = ?r\<lparr>lc_ring := stderr_ring.add_all
        (butlast (split_on (CHR 0x0A) (lc_buf ?r))) (lc_ring ?r),
        lc_buf := last (split_on (CHR 0x0A) (lc_buf ?r))\<rparr>"
      by (rule "1.IH" [OF Some])
    finally show ?thesis
      by (simp add: sp stderr_ring.add_all_def)
  qed
qed

definition capture_all :: "string list \<Rightarrow> lineCaptureReader \<Rightarrow> lineCaptureReader" where
  "capture_all ps r = foldl (\<lambda>r p. capture_read p r) r ps"

lemma capture_all_snoc [simp]: "capture_all (ps @ [p]) r = capture_read p (capture_all ps r)"
  by (simp add: capture_all_def)

lemma capture_all_lines:
  "capture_all ps (newCapture cap) =
     \<lparr>lc_ring = stderr_ring.add_all (butlast (split_on (CHR 0x0A) (concat ps))) (newStderrRing cap),
      lc_buf = last (split_on (CHR 0x0A) (concat ps))\<rparr>"
proof (induction ps rule: rev_induct)
  case Nil
  then show ?case by (simp add: capture_all_def newCapture_def)
next
  case (snoc p ps)
  show ?case
  proof (cases "p = []")
    case True
    with snoc show ?thesis by (simp add: capture_read_def)
  next
    case False
    with snoc split_on_append [of "CHR 0x0A" "concat ps" p] show ?thesis
      by (simp add: capture_read_def capture_drain_lines butlast_append stderr_ring.add_all_append)
  qed
qed

text \<open>The lines of a text: an unterminated last line counts, an empty one does not.\<close>

definition text_lines :: "string \<Rightarrow> string list" where
  "text_lines s =
     (let ls = split_on (CHR 0x0A) s in if last ls = [] then butlast ls else ls)"

section \<open>Facts on trimming\<close>

lemma space_seqs_nl: "p \<in> set space_seqs \<Longrightarrow> CHR 0x0A \<in> set p \<Longrightarrow> p = [CHR 0x0A]"
  by (auto simp: space_seqs_def)

lemma space_seqs_not_Nil: "p \<in> set space_seqs \<Longrightarrow> p \<noteq> []"
  by (auto simp: space_seqs_def)

lemma has_prefix_snoc_nl:
  assumes "p \<in> set space_seqs" "x \<noteq> []"
  shows "has_prefix (x @ [CHR 0x0A]) p \<longleftrightarrow> has_prefix x p"
proof (cases "length p \<le> length x")
  case True
  then show ?thesis by (simp add: has_prefix_def)
next
  case False
  have "p \<noteq> take (length p) (x @ [CHR 0x0A])"
  proof
    assume "p = take (length p) (x @ [CHR 0x0A])"
    with False have "p = x @ [CHR 0x0A]" by simp
    with space_seqs_nl [OF assms(1)] assms(2) show False by auto
  qed
  with False show ?thesis by (auto simp: has_prefix_def)
qed

lemma space_prefix_snoc_nl: "x \<noteq> [] \<Longrightarrow> space_prefix space_seqs (x @ [CHR 0x0A]) = space_prefix space_seqs x"
proof -
  assume "x \<noteq> []"
  then have "filter (has_prefix (x @ [CHR 0x0A])) space_seqs = filter (has_prefix x) space_seqs"
    by (intro filter_cong) (auto simp: has_prefix_snoc_nl)
  then show ?thesis by (simp add: space_prefix_def)
qed

lemma space_prefix_nl: "space_prefix space_seqs (CHR 0x0A # x) = 1"
  "space_prefix (map rev space_seqs) (CHR 0x0A # x) = 1"
  by (simp_all add: space_prefix_def space_seqs_def has_prefix_def)

lemma trim_seqs_snoc_nl:
  "trim_seqs space_seqs (x @ [CHR 0x0A])
     = (if trim_seqs space_seqs x = [] then [] else trim_seqs space_seqs x @ [CHR 0x0A])"
proof (induction "length x" arbitrary: x rule: less_induct)
  case less
  show ?case
  proof (cases "x = []")
    case True
    then show ?thesis
      by (simp add: trim_seqs.simps [of space_seqs "[CHR 0x0A]"] space_prefix_nl)
  next
    case False
    show ?thesis
    proof (cases "space_prefix space_seqs x = 0")
      case True
      with False show ?thesis
        by (simp add: trim_seqs.simps [of space_seqs "x @ _"] trim_seqs.simps [of space_seqs x]
            space_prefix_snoc_nl)
    next
      case pos: False
      have le: "space_prefix space_seqs x \<le> length x" by (rule space_prefix_le)
      have "trim_seqs space_seqs (x @ [CHR 0x0A])
          = trim_seqs space_seqs (drop (space_prefix space_seqs x) x @ [CHR 0x0A])"
        using pos False le
        by (simp add: trim_seqs.simps [of space_seqs "x @ _"] space_prefix_snoc_nl)
      moreover have "trim_seqs space_seqs x
          = trim_seqs space_seqs (drop (space_prefix space_seqs x) x)"
        using pos by (simp add: trim_seqs.simps [of space_seqs x])
      ultimately show ?thesis using less [of "drop (space_prefix space_seqs x) x"] pos False le by simp
    qed
  qed
qed

lemma trim_space_snoc_nl: "trim_space (x @ [CHR 0x0A]) = trim_space x"
  by (simp add: trim_space_def trim_left_space_def trim_right_space_def trim_seqs_snoc_nl)
     (simp add: trim_seqs.simps [of _ "CHR 0x0A # _"] space_prefix_nl)

text \<open>A text that starts and ends with a backtick is not trimmed.\<close>

lemma space_prefix_tick:
  "space_prefix space_seqs (CHR ''`'' # x) = 0"
  "space_prefix (map rev space_seqs) (CHR ''`'' # x) = 0"
  by (simp_all add: space_prefix_def space_seqs_def has_prefix_def)

lemma trim_space_ticks: "trim_space (CHR ''`'' # x @ [CHR ''`'']) = CHR ''`'' # x @ [CHR ''`'']"
proof -
  have l: "trim_seqs space_seqs (CHR ''`'' # y) = CHR ''`'' # y" for y
    by (simp add: trim_seqs.simps [of _ "CHR ''`'' # y"] space_prefix_tick)
  have r: "trim_seqs (map rev space_seqs) (CHR ''`'' # y) = CHR ''`'' # y" for y
    by (simp add: trim_seqs.simps [of _ "CHR ''`'' # y"] space_prefix_tick)
  show ?thesis by (simp add: trim_space_def trim_left_space_def trim_right_space_def l r)
qed

section \<open>Facts on fences\<close>

lemma space_prefix_alnum:
  assumes "is_alnum c"
  shows "space_prefix (map rev space_seqs) (c # x) = 0"
proof -
  have heads: "list_all (\<lambda>p. p \<noteq> [] \<and> \<not> is_alnum (hd p)) (map rev space_seqs)"
    by code_simp
  have "\<not> has_prefix (c # x) p" if "p \<in> set (map rev space_seqs)" for p
  proof
    assume "has_prefix (c # x) p"
    moreover have "p \<noteq> []" "\<not> is_alnum (hd p)"
      using heads that unfolding list_all_iff by blast+
    ultimately show False using assms by (cases p) (auto simp: has_prefix_def)
  qed
  then have "filter (has_prefix (c # x)) (map rev space_seqs) = []"
    unfolding filter_empty_conv by blast
  then show ?thesis by (simp add: space_prefix_def)
qed

lemma trim_space_opening:
  assumes "list_all is_alnum tag"
  shows "trim_space (fence @ tag) = fence @ tag"
proof (cases tag rule: rev_cases)
  case Nil
  then show ?thesis using trim_space_ticks [of "''`''"] by (simp add: fence_def)
next
  case (snoc t c)
  have l: "trim_seqs space_seqs (CHR ''`'' # y) = CHR ''`'' # y" for y
    by (simp add: trim_seqs.simps [of _ "CHR ''`'' # y"] space_prefix_tick)
  have r: "trim_seqs (map rev space_seqs) (c # y) = c # y" for y
    using assms snoc by (simp add: trim_seqs.simps [of _ "c # y"] space_prefix_alnum)
  show ?thesis
    by (simp add: snoc trim_space_def trim_left_space_def trim_right_space_def l r fence_def)
qed

lemma find_fence_shift:
  "find_fence rest pos = map_option ((+) pos) (find_fence (drop pos rest) 0)"
proof (induction "length rest - pos" arbitrary: rest pos rule: less_induct)
  case less
  show ?case
  proof (cases "index_byte (CHR 0x0A) (drop pos rest)")
    case None
    then show ?thesis
      by (simp add: find_fence.simps [of rest pos] find_fence.simps [of "drop pos rest" 0])
  next
    case (Some nl)
    have lt: "nl < length rest - pos" using index_byte_less [OF Some] by simp
    have a: "find_fence rest (pos + nl + 1)
        = map_option ((+) (pos + nl + 1)) (find_fence (drop (pos + nl + 1) rest) 0)"
      by (rule less) (use lt in simp)
    have b: "find_fence (drop pos rest) (nl + 1)
        = map_option ((+) (nl + 1)) (find_fence (drop (nl + 1) (drop pos rest)) 0)"
    proof (cases pos)
      case 0
      then show ?thesis using less [of rest "nl + 1"] lt by simp
    next
      case (Suc p)
      have "length (drop pos rest) - (nl + 1) < length rest - pos" using lt by simp
      then show ?thesis by (intro less)
    qed
    show ?thesis
      using Some a b
      by (cases "find_fence (drop (Suc (nl + pos)) rest) 0")
         (simp_all add: find_fence.simps [of rest pos] find_fence.simps [of "drop pos rest" 0]
          add.commute)
  qed
qed

lemma find_fence_body:
  "\<forall>l \<in> set (split_on (CHR 0x0A) body). trim_space l \<noteq> fence \<Longrightarrow>
     find_fence (body @ CHR 0x0A # fence) 0 = Some (length body + 1)"
proof (induction "length body" arbitrary: body rule: less_induct)
  case less
  have fence_nl: "CHR 0x0A \<notin> set fence" by (simp add: fence_def)
  have fence_trim: "trim_space fence = fence" using trim_space_ticks [of "''`''"] by (simp add: fence_def)
  show ?case
  proof (cases "index_byte (CHR 0x0A) body")
    case None
    have nl: "CHR 0x0A \<notin> set body" using None by (induction body) (auto split: if_splits)
    have "trim_space body \<noteq> fence" using less.prems None split_on_index [of "CHR 0x0A" body] by simp
    moreover have "find_fence fence 0 = Some 0"
      by (simp add: find_fence.simps [of fence 0] index_byte_None fence_nl fence_trim)
    ultimately show ?thesis
      by (simp add: find_fence.simps [of "body @ _" 0] index_byte_append [OF nl]
          find_fence_shift [of "body @ _" "Suc (length body)"])
  next
    case (Some i)
    have i: "i < length body" using Some by (rule index_byte_less)
    have idx: "index_byte (CHR 0x0A) (body @ zs) = Some i" for zs
      using Some by (induction body arbitrary: i) (auto split: if_splits)
    have sp: "split_on (CHR 0x0A) body = take i body # split_on (CHR 0x0A) (drop (i + 1) body)"
      using Some split_on_index [of "CHR 0x0A" body] by simp
    have "find_fence (drop (i + 1) body @ CHR 0x0A # fence) 0 = Some (length (drop (i + 1) body) + 1)"
      by (rule less.hyps) (use i less.prems sp in auto)
    then show ?thesis
      using less.prems sp i
      by (simp add: find_fence.simps [of "body @ _" 0] idx find_fence_shift [of "body @ _" "Suc i"])
  qed
qed

section \<open>Properties\<close>

text \<open>
  C19: The diagnostics ring does not depend on how the pipe cut the stream: after any sequence of
  reads and the final flush it holds exactly the last \<open>cap\<close> lines of the bytes read, an unterminated
  last line included.
\<close>

theorem capture_keeps_the_last_lines:
  assumes "0 < cap"
  shows "ring_lines (lc_ring (capture_flush (capture_all ps (newCapture cap))))
    = last_n cap (text_lines (concat ps))"
proof -
  have inv: "ring_inv cap (newStderrRing cap)" using assms by (rule ring_inv_new)
  let ?ls = "split_on (CHR 0x0A) (concat ps)"
  have ls: "butlast ?ls @ [last ?ls] = ?ls" by simp
  show ?thesis
  proof (cases "last ?ls = []")
    case True
    then show ?thesis
      using stderr_ring.add_all_items [OF inv, of "butlast ?ls"]
      by (simp add: capture_flush_def capture_all_lines text_lines_def)
  next
    case False
    have "ring_lines (ring_add (last ?ls) (stderr_ring.add_all (butlast ?ls) (newStderrRing cap)))
        = last_n cap ?ls"
      using stderr_ring.add_all_items [OF inv, of ?ls] ls
      by (metis append_self_conv2 ring_lines_new stderr_ring.add_all_snoc)
    with False show ?thesis
      by (simp add: capture_flush_def capture_all_lines text_lines_def)
  qed
qed

theorem capture_keeps_the_last_lines_witness:
  "ring_lines (lc_ring (capture_flush (capture_all [''a'', CHR 0x0A # ''b'', ''c''] (newCapture 10))))
     = [''a'', ''bc'']"
  using capture_keeps_the_last_lines [of 10 "[''a'', CHR 0x0A # ''b'', ''c'']"]
  by (simp add: text_lines_def last_n_def)

text \<open>
  A fenced answer is unwrapped: a block opened by three backticks with an optional alphanumeric
  language tag and closed by a line of three backticks gives its trimmed body, for every body none
  of whose lines is itself a closing fence.
\<close>

lemma fenced_text_is_unwrapped:
  assumes "list_all is_alnum tag"
    and "\<forall>l \<in> set (split_on (CHR 0x0A) body). trim_space l \<noteq> fence"
  shows "stripCodeFence (fence @ tag @ CHR 0x0A # body @ CHR 0x0A # fence) = trim_space body"
proof -
  let ?s = "fence @ tag @ CHR 0x0A # body @ CHR 0x0A # fence"
  have s: "trim_space ?s = ?s"
    using trim_space_ticks [of "''``'' @ tag @ CHR 0x0A # body @ CHR 0x0A # ''``''"]
    by (simp add: fence_def)
  have "CHR 0x0A \<notin> set tag"
    using assms(1) by (auto simp: list_all_iff is_alnum_def ascii_lower_def ascii_upper_def is_digit_def)
  then have i: "index_byte (CHR 0x0A) ?s = Some (length (fence @ tag))"
    using index_byte_append [of "CHR 0x0A" "fence @ tag"] by (simp add: fence_def)
  have o: "isOpeningFence (fence @ tag)"
    using assms(1) by (simp add: isOpeningFence_def has_prefix_def fence_def)
  have "find_fence (body @ CHR 0x0A # fence) 0 = Some (length body + 1)"
    using assms(2) by (rule find_fence_body)
  moreover have "take (length body + 1) (body @ CHR 0x0A # fence) = body @ [CHR 0x0A]" by simp
  moreover have "take (length (fence @ tag)) ?s = fence @ tag" by simp
  moreover have "drop (length (fence @ tag) + 1) ?s = body @ CHR 0x0A # fence" by simp
  ultimately show ?thesis
    by (simp only: stripCodeFence_def s Let_def i option.case trim_space_opening [OF assms(1)] o not_True_eq_False if_False
        trim_space_snoc_nl)
qed

lemma fenced_text_is_unwrapped_witness:
  "stripCodeFence (fence @ ''json'' @ CHR 0x0A # ''{}'' @ CHR 0x0A # fence) = ''{}''"
proof -
  have "trim_space ''{}'' = ''{}''" by code_simp
  then show ?thesis
    using fenced_text_is_unwrapped [of "''json''" "''{}''"]
    by (simp add: is_alnum_def ascii_lower_def fence_def)
qed

text \<open>
  The error of a process exit reports as exactly the sentinels its structured stderr classifies
  as, so that \<^verbatim>\<open>errors.Is\<close> on the exit error answers as on the classification, and it keeps the exit
  code and all of stderr.
\<close>

lemma exit_error_reports_its_class:
  "\<exists>msg class. processExitError (ExitError code t) stderr = ECli code stderr msg [] class
    \<and> (\<forall>s. error_is (processExitError (ExitError code t) stderr) s
         \<longleftrightarrow> (\<exists>d e. parseErrorDetails stderr = Some d \<and> classifyError d = Some e \<and> error_is e s))"
  by (auto simp: processExitError_def Let_def split: option.split)

end
