(* ===== verification/Session_Read.thy ===== *)
theory Session_Read
  imports Control Internals
begin

text \<open>
  The read loop of session.go: what one stdout line does to the session and to the loop's own
  variables, what it does when stdout ends, and how the end is classified. Every event goes through
  the activity tracker into the pump; a result or a fatal error is stamped before the state moves.
  The loop of the one-shot path is in \<open>Parse\<close>; the lemmas at the end relate the two.
\<close>

section \<open>Emitting\<close>

definition emitTransition ::
    "CLIStateChangeEvent option \<Rightarrow> nanos \<Rightarrow> gen \<Rightarrow> Session \<Rightarrow> Session" where
  "emitTransition tr arr g s =
     (case tr of
        None \<Rightarrow> s
      | Some e \<Rightarrow>
          (pumpSendRaw \<lparr>sv_ev = PEvent (EvCLIStateChange e), sv_at = arr, sv_gen = g\<rparr> s)
            \<lparr>ss_ticker := (csc_State e = ActivityAwaitingToolResult)\<rparr>)"

definition pumpSendStamped :: "nanos \<Rightarrow> stampedEvent \<Rightarrow> Session \<Rightarrow> Session" where
  "pumpSendStamped now sev s =
     (case sv_ev sev of
        PBarrier \<Rightarrow> pumpSendRaw sev s
      | PEvent ev \<Rightarrow>
          (case observe now ev (ss_activity s) of
             (act, tr) \<Rightarrow>
               pumpSendRaw sev (emitTransition tr (sv_at sev) (sv_gen sev) (s\<lparr>ss_activity := act\<rparr>))))"

definition pumpSend :: "nanos \<Rightarrow> event \<Rightarrow> Session \<Rightarrow> Session" where
  "pumpSend now ev s = (case stamp now (PEvent ev) s of (s, sev) \<Rightarrow> pumpSendStamped now sev s)"

definition pump_sends :: "nanos \<Rightarrow> event list \<Rightarrow> Session \<Rightarrow> Session" where
  "pump_sends now evs s = foldl (\<lambda>s ev. pumpSend now ev s) s evs"

definition emitToolProgress :: "nanos \<Rightarrow> Session \<Rightarrow> Session" where
  "emitToolProgress now s =
     (case FirstPending (ss_activity s) of
        None \<Rightarrow> s
      | Some p \<Rightarrow>
          sendEvent now
            (PEvent (EvToolProgress
               \<lparr>tp_ToolUseID = pt_ID p, tp_ToolName = pt_Name p,
                tp_Elapsed = wrap64 (now - pt_StartedAt p), tp_At = now\<rparr>)) s)"

text \<open>A stderr line: the ring of the last lines, and the pump, without a stamp.\<close>

definition stderr_line :: "string \<Rightarrow> stderrRing \<times> Session \<Rightarrow> stderrRing \<times> Session" where
  "stderr_line line rs =
     (case rs of (ring, s) \<Rightarrow>
        (ring_add line ring, s\<lparr>ss_pump := ss_pump s @ [Unstamped (EvStderr line)]\<rparr>))"

section \<open>The loop's variables\<close>

record reader =
  rl_resultText :: "string list"
  rl_ctxTracker :: contextTracker
  rl_lastStdoutErr :: "go_error option"
  rl_turnAPIErr :: bool
  rl_errorResult :: "ResultEvent option"
  rl_unknowns :: "UnknownEvent list"
  rl_turnCounter :: int
  rl_backfill :: taskTypeBackfiller

definition init_reader :: reader where
  "init_reader =
     \<lparr>rl_resultText = [], rl_ctxTracker = newContextTracker, rl_lastStdoutErr = None,
      rl_turnAPIErr = False, rl_errorResult = None, rl_unknowns = [], rl_turnCounter = 0,
      rl_backfill = newTaskTypeBackfiller\<rparr>"

section \<open>One line\<close>

definition read_stateless :: "nanos \<Rightarrow> event option \<Rightarrow> Session \<Rightarrow> Session" where
  "read_stateless now ev s =
     (case ev of
        None \<Rightarrow> s
      | Some e \<Rightarrow>
          (case e of
             EvUser ue \<Rightarrow>
               (if ue_IsReplay ue then
                  (let s = notePromptEcho ue s in
                   if ss_surfaceReplays s then pumpSend now e s else s)
                else pumpSend now e s)
           | EvCommandsChanged cc \<Rightarrow> pumpSend now e (setCommands (Some (cc_Commands cc)) s)
           | _ \<Rightarrow> pumpSend now e s))"

definition read_init :: "nanos \<Rightarrow> rawEvent \<Rightarrow> reader \<times> Session \<Rightarrow> reader \<times> Session" where
  "read_init now raw rs =
     (case rs of (r, s) \<Rightarrow>
        (let ev = EvInit ((parseInitEvent raw)\<lparr>ini_Unsolicited := noteTurnStart s\<rparr>);
             s = s\<lparr>ss_sessionID := raw_SessionID raw\<rparr>;
             s = (trackState ev s)\<lparr>ss_ready := True\<rparr> in
         (r\<lparr>rl_resultText := [], rl_ctxTracker := ct_reset (rl_ctxTracker r)\<rparr>, pumpSend now ev s)))"

text \<open>A fatal error and a result: stamp first, then track, then send.\<close>

definition send_tracked :: "nanos \<Rightarrow> event \<Rightarrow> Session \<Rightarrow> Session" where
  "send_tracked now ev s =
     (case stamp now (PEvent ev) s of
        (s, sev) \<Rightarrow> pumpSendStamped now sev (trackState ev s))"

definition content_unknowns :: "event list \<Rightarrow> UnknownEvent list" where
  "content_unknowns evs =
     concat (map (\<lambda>ev. case ev of
                         EvUnknown u \<Rightarrow> if has_prefix (uk_Type u) ''content/'' then [u] else []
                       | _ \<Rightarrow> []) evs)"

definition read_assistant ::
    "nanos \<Rightarrow> rawEvent \<Rightarrow> rawMessage \<Rightarrow> reader \<times> Session \<Rightarrow> reader \<times> Session" where
  "read_assistant now raw m rs =
     (case rs of (r, s) \<Rightarrow>
        (let parent = string_or_empty (raw_ParentToolUseID raw) in
         if isAPIErrorMessage raw then
           (let e = syntheticAPIError raw m in
            if parent \<noteq> [] then (r, pumpSend now (non_fatal e) s)
            else
              (r\<lparr>rl_lastStdoutErr := Some e, rl_turnAPIErr := True\<rparr>,
               send_tracked now (EvError \<lparr>ee_Err = e, ee_Fatal = True\<rparr>) s))
         else
           (let turn = wrap64 (rl_turnCounter r + 1);
                meta = \<lparr>am_ParentToolUseID = parent, am_Model = rm_Model m,
                        am_SubagentType = raw_SubagentType raw,
                        am_TaskDescription = raw_TaskDescription raw\<rparr>;
                evs = content_events meta (rm_Content m) in
            (r\<lparr>rl_turnCounter := (if parent = [] then turn else rl_turnCounter r),
               rl_resultText := rl_resultText r @ content_texts meta (rm_Content m),
               rl_unknowns := rl_unknowns r @ content_unknowns evs\<rparr>,
             pump_sends now
               ((if parent = []
                 then [EvTurn \<lparr>tn_Turn = turn, tn_ToolName = first_tool (rm_Content m)\<rparr>] else [])
                @ evs @ context_management m) s))))"

text \<open>The errors a result line reports before its result.\<close>

definition read_result_errors :: "rawEvent \<Rightarrow> bool \<Rightarrow> event list" where
  "read_result_errors raw reported =
     (if raw_Subtype raw = ''error_max_turns'' then [non_fatal (classifyMaxTurns (raw_Errors raw))]
      else [])
     @ (case resultError raw of
          None \<Rightarrow> []
        | Some e \<Rightarrow> if reported then [] else [non_fatal e])"

definition finish_result :: "nanos \<Rightarrow> ResultEvent \<Rightarrow> Session \<Rightarrow> Session" where
  "finish_result now ev s =
     (case observeUnsolicitedResult now ev (noteTurnEnd ev s) of
        (s, ev, Some transition) \<Rightarrow>
          (case stampNoQuery now (EvResult ev) s of
             (s, sev) \<Rightarrow>
               pumpSendRaw sev (emitTransition transition (sv_at sev) (ss_activeGen s) s))
      | (s, ev, None) \<Rightarrow> send_tracked now (EvResult ev) s)"

definition read_result :: "iter \<Rightarrow> nanos \<Rightarrow> rawEvent \<Rightarrow> reader \<times> Session \<Rightarrow> reader \<times> Session" where
  "read_result it now raw rs =
     (case rs of (r, s) \<Rightarrow>
        (let mu = convertModelUsage (raw_ModelUsage raw) in
         case ct_finish it mu (rl_ctxTracker r) of
           (ctx, snapshot) \<Rightarrow>
             (let ev = newResultEvent raw (join [] (rl_resultText r)) mu snapshot;
                  s = pump_sends now (read_result_errors raw (rl_turnAPIErr r)) s in
              (r\<lparr>rl_ctxTracker := ctx,
                 rl_lastStdoutErr :=
                   (case resultError raw of
                      Some e \<Rightarrow> if rl_turnAPIErr r then rl_lastStdoutErr r else Some e
                    | None \<Rightarrow> rl_lastStdoutErr r),
                 rl_turnAPIErr := False,
                 rl_errorResult := (if re_IsError ev then Some ev else rl_errorResult r),
                 rl_resultText := []\<rparr>,
               finish_result now ev s))))"

definition read_stream_event :: "iter \<Rightarrow> nanos \<Rightarrow> rawEvent \<Rightarrow> reader \<times> Session \<Rightarrow> reader \<times> Session" where
  "read_stream_event it now raw rs =
     (case rs of (r, s) \<Rightarrow>
        (case ct_observe it (Some (observedContextWindow it (ss_contextWindows s))) (raw_Event raw)
                (raw_SessionID raw) (rl_ctxTracker r) of
           (ctx, cs) \<Rightarrow>
             (r\<lparr>rl_ctxTracker := ctx\<rparr>,
              pump_sends now
                (EvStream \<lparr>se_UUID = raw_UUID raw, se_SessionID = raw_SessionID raw,
                           se_Event = raw_bytes (raw_Event raw)\<rparr>
                 # (case cs of None \<Rightarrow> [] | Some e \<Rightarrow> [EvContextSnapshot e])) s)))"

definition read_error :: "nanos \<Rightarrow> rawEvent \<Rightarrow> reader \<times> Session \<Rightarrow> reader \<times> Session" where
  "read_error now raw rs =
     (case rs of (r, s) \<Rightarrow>
        (r\<lparr>rl_lastStdoutErr := Some (ee_Err (parseErrorEvent raw))\<rparr>,
         pumpSend now (EvError (parseErrorEvent raw)) s))"

definition read_stateful ::
    "iter \<Rightarrow> nanos \<Rightarrow> rawEvent \<Rightarrow> string \<Rightarrow> reader \<times> Session \<Rightarrow> reader \<times> Session" where
  "read_stateful it now raw line rs =
     (case rs of (r, s) \<Rightarrow>
        (let ty = raw_Type raw in
         if ty = ''control_response'' then (r, handleControlResponse now line s)
         else if ty = ''control_request'' then
           (r, s\<lparr>ss_spawned := ss_spawned s @ [(raw_RequestID raw, raw_Request raw)]\<rparr>)
         else if ty = ''control_cancel_request'' then (r, inbound_cancel (raw_RequestID raw) s)
         else if ty = ''system'' then read_init now raw (r, s)
         else if ty = ''assistant'' then
           (case raw_Message raw of None \<Rightarrow> (r, s) | Some m \<Rightarrow> read_assistant now raw m (r, s))
         else if ty = ''result'' then read_result it now raw (r, s)
         else if ty = ''stream_event'' then read_stream_event it now raw (r, s)
         else if ty = ''error'' then read_error now raw (r, s)
         else
           (let u = \<lparr>uk_Type = ty, uk_Raw = line\<rparr> in
            (r\<lparr>rl_unknowns := rl_unknowns r @ [u]\<rparr>, pumpSend now (EvUnknown u) s))))"

definition read_event ::
    "iter \<Rightarrow> nanos \<Rightarrow> rawEvent \<Rightarrow> string \<Rightarrow> reader \<times> Session \<Rightarrow> reader \<times> Session" where
  "read_event it now raw line rs =
     (case decodeStatelessEvent raw line (rl_backfill (fst rs)) of
        (b, Some ev) \<Rightarrow> ((fst rs)\<lparr>rl_backfill := b\<rparr>, read_stateless now ev (snd rs))
      | (b, None) \<Rightarrow> read_stateful it now raw line ((fst rs)\<lparr>rl_backfill := b\<rparr>, snd rs))"

definition read_line :: "iter \<Rightarrow> nanos \<Rightarrow> string \<Rightarrow> reader \<times> Session \<Rightarrow> reader \<times> Session" where
  "read_line it now line rs =
     (case rs of (r, s0) \<Rightarrow>
        (let s = s0\<lparr>ss_lastStdoutAt := now\<rparr> in
         if line = [] then (r, s)
         else case decode_line line of
           None \<Rightarrow> (r, pumpSend now (line_error line) s)
         | Some raw \<Rightarrow> read_event it now raw line (r, s)))"

definition read_lines :: "iter \<Rightarrow> (nanos \<times> string) list \<Rightarrow> reader \<times> Session \<Rightarrow> reader \<times> Session" where
  "read_lines it ls rs = foldl (\<lambda>rs (now, line). read_line it now line rs) rs ls"

section \<open>The end of stdout\<close>

definition unknown_text :: "(string \<Rightarrow> string) \<Rightarrow> UnknownEvent \<Rightarrow> string" where
  "unknown_text goq u =
     (let msg = ''unknown event '' @ goq (uk_Type u) @ '': '' @ uk_Raw u in
      if length msg > 200 then take 200 msg @ ''...'' else msg)"

text \<open>
  What the loop adds to the exit error: with no message from stderr it reports the last error stdout
  carried, else the last failed result, else the lines it did not understand. \<open>goq\<close> is
  \<^verbatim>\<open>strconv.Quote\<close>.
\<close>

definition exit_diagnosis ::
    "(string \<Rightarrow> string) \<Rightarrow> reader \<Rightarrow> string list \<Rightarrow> go_error \<Rightarrow> go_error" where
  "exit_diagnosis goq r stdoutLines e =
     (case e of
        ECli code stderr msg evs class \<Rightarrow>
          (case (case rl_lastStdoutErr r of
                   Some x \<Rightarrow>
                     if msg = [] then
                       (error_text x, (case class of None \<Rightarrow> Some x | Some c \<Rightarrow> Some c))
                     else (msg, class)
                 | None \<Rightarrow> (msg, class)) of
             (msg, class) \<Rightarrow>
               (let msg = (case rl_errorResult r of
                             Some ev \<Rightarrow> if msg = [] then exitResultMessage ev else msg
                           | None \<Rightarrow> msg);
                    msg = (if msg = [] \<and> rl_unknowns r \<noteq> [] then
                             ''unrecognized CLI events may contain error details: ''
                               @ join ''; '' (map (unknown_text goq) (rl_unknowns r))
                           else msg) in
                ECli code stderr msg stdoutLines class))
      | _ \<Rightarrow> e)"

text \<open>The signal of a killed process is the operating system's and comes as an argument.\<close>

definition extractExitDetails :: "string \<Rightarrow> wait_error option \<Rightarrow> string \<times> int" where
  "extractExitDetails sig err =
     (case err of
        None \<Rightarrow> ([], 0)
      | Some (ExitError code _) \<Rightarrow> (sig, code)
      | Some (OtherError _) \<Rightarrow> ([], -1))"

definition classifyExit ::
    "nanos \<Rightarrow> string \<Rightarrow> wait_error option \<Rightarrow> go_error option \<Rightarrow> go_error option \<Rightarrow> CLIExitEvent" where
  "classifyExit now sig waitErr ctxErr cliErr =
     (case extractExitDetails sig waitErr of
        (signal, code) \<Rightarrow>
          (let ev = \<lparr>cx_Reason = ExitReasonUnknown, cx_ExitCode = code, cx_Signal = signal,
                     cx_Err = cliErr, cx_At = now\<rparr> in
           if ctxErr \<noteq> None then
             ev\<lparr>cx_Reason := ExitReasonContextCanceled,
                cx_Err := (if cliErr = None then ctxErr else cliErr)\<rparr>
           else if waitErr = None then ev\<lparr>cx_Reason := ExitReasonNormal\<rparr>
           else if signal \<noteq> [] then ev\<lparr>cx_Reason := ExitReasonKilled\<rparr>
           else if code > 0 then ev\<lparr>cx_Reason := ExitReasonCrashed\<rparr>
           else ev))"

definition read_scan_error :: "nanos \<Rightarrow> go_error option \<Rightarrow> Session \<Rightarrow> Session" where
  "read_scan_error now err s =
     (case err of None \<Rightarrow> s | Some e \<Rightarrow> pumpSend now (non_fatal (EWrap ''scanner: '' e [])) s)"

text \<open>After the process was waited for: the fatal error of a failed exit and the exit event.\<close>

definition read_exit ::
    "(string \<Rightarrow> string) \<Rightarrow> nanos \<Rightarrow> string \<Rightarrow> wait_error option \<Rightarrow> go_error option
       \<Rightarrow> string list \<Rightarrow> string list \<Rightarrow> reader \<times> Session \<Rightarrow> Session \<times> CLIExitEvent" where
  "read_exit goq now sig waitErr ctxErr stderrLines stdoutLines rs =
     (case waitErr of
        None \<Rightarrow> (snd rs, classifyExit now sig None ctxErr None)
      | Some w \<Rightarrow>
          (let e = exit_diagnosis goq (fst rs) stdoutLines
                     (processExitError w (join [CHR 0x0A] stderrLines)) in
           (send_tracked now (EvError \<lparr>ee_Err = e, ee_Fatal = True\<rparr>) (snd rs),
            classifyExit now sig waitErr ctxErr (Some e))))"

text \<open>
  The deferred end, in the order the deferred functions run: the ticker stops, the pump closes and
  drains, the exit event goes out (in routed mode to the router, else into the events channel when
  the consumer leaves room in time), the router shuts down, the events channel closes, pending
  requests fail, the state becomes done.
\<close>

fun pump_drain :: "nat \<Rightarrow> nanos \<Rightarrow> Session \<Rightarrow> Session" where
  "pump_drain 0 now s = s"
| "pump_drain (Suc n) now s =
     (case pump_deliver now s of None \<Rightarrow> s | Some s' \<Rightarrow> pump_drain n now s')"

definition deliver_exit :: "nanos \<Rightarrow> CLIExitEvent \<Rightarrow> Session \<Rightarrow> Session" where
  "deliver_exit now ev s =
     (case stamp now (PEvent (EvCLIExit ev)) s of
        (s, sev) \<Rightarrow>
          if ss_routed s then routeStamped now sev s
          else if length (ss_events s) < eventsCap then
            s\<lparr>ss_events := ss_events s @ [EvCLIExit ev]\<rparr>
          else s)"

definition end_session :: "nanos \<Rightarrow> CLIExitEvent \<Rightarrow> Session \<Rightarrow> Session" where
  "end_session now ev s =
     (let s = s\<lparr>ss_ticker := False\<rparr>;
          s = s\<lparr>ss_pumpClosed := True\<rparr>;
          s = pump_drain (length (ss_pump s)) now s;
          s = shutdownRouter (deliver_exit now ev s);
          s = failPendingRequests (s\<lparr>ss_eventsClosed := True\<rparr>) in
      (setDoneState s)\<lparr>ss_done := True\<rparr>)"

end
