(* ===== verification/Session_Steps.thy ===== *)
theory Session_Steps
  imports Session_Read
begin

text \<open>
  How callers, the read loop, the pump and the CLI interleave over one session in routed mode. A step
  is one critical section or one atomic access of the code, so a stamp's load and store, the state
  change and the send of a result are four steps, and so are the parts of submitting a query. The
  theorems say whose answers a query's mailbox can hold in every reachable state.

  The CLI is described by what its protocol promises and nothing else: each prompt that reached it
  gets one result, in order; the results of turns it started itself carry a task-notification
  origin, and none of them comes between the replay echo of a prompt and that prompt's result.
  \<open>P\<close> tells which prompt a result answers, by the generation of its query; it is arbitrary. Messages
  injected with \<^verbatim>\<open>SendMsg\<close> have no generation and are not part of these runs.
\<close>

section \<open>The world\<close>

text \<open>A caller inside \<^verbatim>\<open>QueryCtxMsg\<close>; \<open>CStored\<close> is where the prompt is about to be written.\<close>

datatype caller_pc =
    CIdle
  | CPrepared
  | CCounted gen
  | CArmed gen nat
  | CStored gen nat

text \<open>A caller whose write failed goes through \<^verbatim>\<open>failQuery\<close> and \<^verbatim>\<open>detach\<close> while others may run.\<close>

datatype fail_stage = FStore | FLock | FDetach | FOver

text \<open>The read loop around an event that ends a query, and after stdout ended.\<close>

datatype reader_pc =
    RIdle
  | RLoaded event stampedEvent
  | RStored event stampedEvent
  | RTracked event stampedEvent
  | RClosed
  | RExited
  | RDone

text \<open>\<open>w_cli\<close> holds the prompts the CLI has not answered, with whether each was echoed.\<close>

record world =
  w_s :: Session
  w_caller :: caller_pc
  w_failing :: "(fail_stage \<times> nat \<times> go_error) list"
  w_reader :: reader_pc
  w_cli :: "(gen \<times> bool) list"

definition init_world :: "Session \<Rightarrow> world" where
  "init_world s =
     \<lparr>w_s = s, w_caller = CIdle, w_failing = [], w_reader = RIdle, w_cli = []\<rparr>"

definition connect_ready :: "Session \<Rightarrow> Session" where
  "connect_ready s =
     s\<lparr>ss_ready := True,
       ss_state := (if ss_state s = StateStarting then StateIdle else ss_state s)\<rparr>"

text \<open>
  What a result line can be: the answer to the oldest prompt, or the end of a turn the CLI started.
\<close>

definition cli_result ::
    "(ResultEvent \<Rightarrow> gen) \<Rightarrow> ResultEvent \<Rightarrow> (gen \<times> bool) list \<Rightarrow> (gen \<times> bool) list \<Rightarrow> bool" where
  "cli_result P e q q' \<longleftrightarrow>
     \<not> re_Unsolicited e
     \<and> ((\<exists>g echoed. q = (g, echoed) # q' \<and> P e = g
            \<and> (IsTaskNotification (re_Origin e) \<longrightarrow> echoed))
        \<or> (q' = q \<and> IsTaskNotification (re_Origin e) \<and> (\<forall>(g, echoed) \<in> set q. \<not> echoed)))"

definition fatal_event :: "event \<Rightarrow> bool" where
  "fatal_event ev \<longleftrightarrow> (\<exists>e. ev = EvError e \<and> ee_Fatal e)"

text \<open>
  What the protocol means by the end of a query: a result, a fatal error, the CLI's exit. It is said
  here once more, apart from the code's test \<^const>\<open>ends_query\<close>, so that the runs below do not depend on
  that test: all other events, harmless errors among them, may be sent at any time.
\<close>

fun query_over :: "pumped \<Rightarrow> bool" where
  "query_over (PEvent (EvResult e)) = True"
| "query_over (PEvent (EvError e)) = ee_Fatal e"
| "query_over (PEvent (EvCLIExit e)) = True"
| "query_over _ = False"

section \<open>Steps\<close>

inductive step :: "(ResultEvent \<Rightarrow> gen) \<Rightarrow> world \<Rightarrow> world \<Rightarrow> bool" for P :: "ResultEvent \<Rightarrow> gen" where
  Ready: "step P w (w\<lparr>w_s := connect_ready (w_s w)\<rparr>)"
| Enable: "step P w (w\<lparr>w_s := EnableRouting now (w_s w)\<rparr>)"
| Prepare: "\<lbrakk>w_caller w = CIdle; ss_routed (w_s w); prepareQuery (w_s w) = (s, None)\<rbrakk>
    \<Longrightarrow> step P w (w\<lparr>w_s := s, w_caller := CPrepared\<rparr>)"
| Count: "\<lbrakk>w_caller w = CPrepared; ss_genCounter (w_s w) + 1 \<noteq> 0; arm_count (w_s w) = (s, g)\<rbrakk>
    \<Longrightarrow> step P w (w\<lparr>w_s := s, w_caller := CCounted g\<rparr>)"
| ArmDead: "\<lbrakk>w_caller w = CCounted g; er_shutdown (ss_router (w_s w))\<rbrakk>
    \<Longrightarrow> step P w (w\<lparr>w_s := arm_handle g (w_s w),
                    w_caller := CStored g (length (ss_handles (w_s w)))\<rparr>)"
| Arm: "\<lbrakk>w_caller w = CCounted g; \<not> er_shutdown (ss_router (w_s w))\<rbrakk>
    \<Longrightarrow> step P w (w\<lparr>w_s := arm_handle g (w_s w),
                    w_caller := CArmed g (length (ss_handles (w_s w)))\<rparr>)"
| Store: "w_caller w = CArmed g i
    \<Longrightarrow> step P w (w\<lparr>w_s := arm_store g (w_s w), w_caller := CStored g i\<rparr>)"
| Activity: "step P w (w\<lparr>w_s := emitQueryActivity now (w_s w)\<rparr>)"
| Write: "\<lbrakk>w_caller w = CStored g i; sendUserMessage m out (w_s w) = (s, None)\<rbrakk>
    \<Longrightarrow> step P w (w\<lparr>w_s := s, w_caller := CIdle, w_cli := w_cli w @ [(g, False)]\<rparr>)"
| WriteFail: "\<lbrakk>w_caller w = CStored g i; sendUserMessage m out (w_s w) = (s, Some e)\<rbrakk>
    \<Longrightarrow> step P w (w\<lparr>w_s := s, w_caller := CIdle,
                    w_cli := (if arrived then w_cli w @ [(g, False)] else w_cli w),
                    w_failing := w_failing w @ [(FStore, i, e)]\<rparr>)"
| FailStore: "\<lbrakk>k < length (w_failing w); w_failing w ! k = (FStore, i, e)\<rbrakk>
    \<Longrightarrow> step P w (w\<lparr>w_s := failQuery_store (w_s w),
                    w_failing := (w_failing w)[k := (FLock, i, e)]\<rparr>)"
| FailLock: "\<lbrakk>k < length (w_failing w); w_failing w ! k = (FLock, i, e)\<rbrakk>
    \<Longrightarrow> step P w (w\<lparr>w_s := failQuery_locked e (w_s w),
                    w_failing := (w_failing w)[k := (FDetach, i, e)]\<rparr>)"
| FailDetach: "\<lbrakk>k < length (w_failing w); w_failing w ! k = (FDetach, i, e)\<rbrakk>
    \<Longrightarrow> step P w (w\<lparr>w_s := session_detach i (OtherReason e) (w_s w),
                    w_failing := (w_failing w)[k := (FOver, i, e)]\<rparr>)"
| Detach: "i < length (ss_handles (w_s w))
    \<Longrightarrow> step P w (w\<lparr>w_s := session_detach i QueryDetached (w_s w)\<rparr>)"
| Take: "\<lbrakk>i < length (ss_handles (w_s w)); qh_ch (ss_handles (w_s w) ! i) = ev # evs\<rbrakk>
    \<Longrightarrow> step P w (w\<lparr>w_s := (w_s w)\<lparr>ss_handles :=
            (ss_handles (w_s w))[i := (ss_handles (w_s w) ! i)\<lparr>qh_ch := evs\<rparr>]\<rparr>\<rparr>)"
| Drain: "step P w (w\<lparr>w_s := fst (DrainOrphans (w_s w))\<rparr>)"
| Pump: "pump_deliver now (w_s w) = Some s \<Longrightarrow> step P w (w\<lparr>w_s := s\<rparr>)"
| Plain: "\<lbrakk>\<not> query_over (PEvent ev); \<not> ss_pumpClosed (w_s w)\<rbrakk>
    \<Longrightarrow> step P w (w\<lparr>w_s := pumpSend now ev (w_s w)\<rparr>)"
| LateSend: "\<lbrakk>\<not> query_over p; \<not> ss_pumpClosed (w_s w)\<rbrakk>
    \<Longrightarrow> step P w (w\<lparr>w_s := pumpSendRaw \<lparr>sv_ev = p, sv_at = now, sv_gen = g\<rparr> (w_s w)\<rparr>)"
| Stderr: "step P w (w\<lparr>w_s := snd (stderr_line line (ring, w_s w))\<rparr>)"
| Echo: "\<lbrakk>w_reader w = RIdle; w_cli w = (g, False) # q\<rbrakk>
    \<Longrightarrow> step P w (w\<lparr>w_s := notePromptEcho ue (w_s w), w_cli := (g, True) # q\<rparr>)"
| ReadHeld: "\<lbrakk>w_reader w = RIdle; cli_result P e (w_cli w) q;
      observeUnsolicitedResult now e (noteTurnEnd e (w_s w)) = (s, e', Some tr)\<rbrakk>
    \<Longrightarrow> step P w (w\<lparr>w_s := (case stampNoQuery now (EvResult e') s of
                            (s, sev) \<Rightarrow> pumpSendRaw sev
                                         (emitTransition tr (sv_at sev) (ss_activeGen s) s)),
                    w_cli := q\<rparr>)"
| ReadResult: "\<lbrakk>w_reader w = RIdle; cli_result P e (w_cli w) q;
      observeUnsolicitedResult now e (noteTurnEnd e (w_s w)) = (s, e', None);
      stamp_load now (PEvent (EvResult e')) s = (s', sev)\<rbrakk>
    \<Longrightarrow> step P w (w\<lparr>w_s := s', w_reader := RLoaded (EvResult e') sev, w_cli := q\<rparr>)"
| ReadFatal: "\<lbrakk>w_reader w = RIdle; fatal_event ev; stamp_load now (PEvent ev) (w_s w) = (s, sev)\<rbrakk>
    \<Longrightarrow> step P w (w\<lparr>w_s := s, w_reader := RLoaded ev sev\<rparr>)"
| StampStore: "w_reader w = RLoaded ev sev
    \<Longrightarrow> step P w (w\<lparr>w_s := stamp_store (PEvent ev) (w_s w), w_reader := RStored ev sev\<rparr>)"
| Track: "w_reader w = RStored ev sev
    \<Longrightarrow> step P w (w\<lparr>w_s := trackState ev (w_s w), w_reader := RTracked ev sev\<rparr>)"
| Send: "w_reader w = RTracked ev sev
    \<Longrightarrow> step P w (w\<lparr>w_s := pumpSendStamped now sev (w_s w), w_reader := RIdle\<rparr>)"
| Eof: "w_reader w = RIdle
    \<Longrightarrow> step P w (w\<lparr>w_s := (w_s w)\<lparr>ss_pumpClosed := True\<rparr>, w_reader := RClosed\<rparr>)"
| Exit: "w_reader w = RClosed
    \<Longrightarrow> step P w (w\<lparr>w_s := deliver_exit now x (w_s w), w_reader := RExited\<rparr>)"
| Shutdown: "w_reader w = RExited
    \<Longrightarrow> step P w (w\<lparr>w_s := setDoneState (failPendingRequests (shutdownRouter (w_s w))),
                    w_reader := RDone\<rparr>)"

inductive reachable :: "(ResultEvent \<Rightarrow> gen) \<Rightarrow> Session \<Rightarrow> world \<Rightarrow> bool"
  for P :: "ResultEvent \<Rightarrow> gen" and s0 :: Session where
  Init: "reachable P s0 (init_world s0)"
| Next: "reachable P s0 w \<Longrightarrow> step P w w' \<Longrightarrow> reachable P s0 w'"

inductive_cases step_elim: "step P w w'"
inductive_simps reachable_simp: "reachable P s0 w"

section \<open>What the operations touch\<close>

text \<open>The code's test recognises exactly the events that end a query.\<close>

lemma query_over_iff [simp]: "query_over p \<longleftrightarrow> ends_query p"
  by (cases p rule: query_over.cases) (simp_all add: ends_query_def)

text \<open>
  The control part of a session: lifecycle state, active generation, generation counter, the echo
  flag and the router's shutdown flag.
\<close>

definition core :: "Session \<Rightarrow> State \<times> gen \<times> gen \<times> bool \<times> bool" where
  "core s =
     (ss_state s, ss_activeGen s, ss_genCounter s, ss_promptEchoed s, er_shutdown (ss_router s))"

lemma core_eqD:
  "core s' = core s \<Longrightarrow> ss_state s' = ss_state s \<and> ss_activeGen s' = ss_activeGen s
     \<and> ss_genCounter s' = ss_genCounter s \<and> ss_promptEchoed s' = ss_promptEchoed s
     \<and> er_shutdown (ss_router s') = er_shutdown (ss_router s)"
  by (simp add: core_def)

text \<open>The data part: what travels and where it lands.\<close>

definition freight :: "Session \<Rightarrow> pump_item list \<times> QueryHandle list" where
  "freight s = (ss_pump s, ss_handles s)"

lemma detach_keeps [simp]:
  "er_shutdown (snd (detachLocked p reason (hs, r))) = er_shutdown r"
  "map qh_gen (fst (detachLocked p reason (hs, r))) = map qh_gen hs"
  by (auto simp: detachLocked_def map_update split: option.split)
     (metis list_update_id map_update)+

lemma detach_shutdown: "detachLocked p reason (hs, r) = (hs', r') \<Longrightarrow> er_shutdown r' = er_shutdown r"
  using detach_keeps(1) [of p reason hs r] by (simp del: detach_keeps)

lemma arm_shutdown: "arm_locked g (hs, r) = (hs', r') \<Longrightarrow> er_shutdown r' = er_shutdown r"
  by (auto simp: arm_locked_def Let_def split: prod.splits if_splits dest: detach_shutdown)

lemma route_shutdown: "route_event ev t g (hs, r) = (hs', r') \<Longrightarrow> er_shutdown r' = er_shutdown r"
  by (auto simp: route_event_def Let_def split: option.splits prod.splits if_splits)

lemma flush_shutdown [simp]: "er_shutdown (flushLegacyBuffered now evs r) = er_shutdown r"
proof -
  have "er_shutdown (foldl (\<lambda>r ev. addOrphanLocked (f ev) r) r evs) = er_shutdown r"
    for f :: "event \<Rightarrow> OrphanEvent"
    by (induction evs arbitrary: r) simp_all
  then show ?thesis by (simp add: flushLegacyBuffered_def)
qed

lemma drain_shutdown: "router_drain r = (r', out) \<Longrightarrow> er_shutdown r' = er_shutdown r"
  by (auto simp: router_drain_def split: if_splits)

lemma stamp_load_eq:
  "stamp_load now p s = (s', sev) \<Longrightarrow> core s' = core s \<and> freight s' = freight s
     \<and> sev = \<lparr>sv_ev = p, sv_at = now, sv_gen = ss_activeGen s\<rparr>"
  by (auto simp: stamp_load_def core_def freight_def)

lemma core_simps [simp]:
  "core (pumpSendRaw sev s) = core s"
  "core (noteTurnEnd e s) = core s"
  "core (fst (stamp_load now p s)) = core s"
  "core (s\<lparr>ss_handles := hs\<rparr>) = core s"
  "core (s\<lparr>ss_activity := act\<rparr>) = core s"
  "core (s\<lparr>ss_pump := its\<rparr>) = core s"
  "core (s\<lparr>ss_pumpClosed := b\<rparr>) = core s"
  "core (s\<lparr>ss_events := evs\<rparr>) = core s"
  "core (fst (stampNoQuery now ev s)) = core s"
  "core (failPendingRequests s) = core s"
  by (simp_all add: core_def pumpSendRaw_def noteTurnEnd_def Let_def stamp_load_def stampNoQuery_def
      failPendingRequests_def)

lemma core_more [simp]:
  "core (emitTransition tr t g s) = core s"
  "core (session_detach i reason s) = core s"
  "core (fst (DrainOrphans s)) = core s"
  "core (routeStamped now sev s) = core s"
  "core (snd (stderr_line line (ring, s))) = core s"
proof -
  show "core (emitTransition tr t g s) = core s"
    by (simp add: emitTransition_def core_def pumpSendRaw_def split: option.split)
  show "core (session_detach i reason s) = core s"
    by (auto simp: session_detach_def core_def split: prod.split dest: detach_shutdown)
  show "core (fst (DrainOrphans s)) = core s"
    by (auto simp: DrainOrphans_def core_def split: prod.split dest: drain_shutdown)
  show "core (routeStamped now sev s) = core s"
    by (auto simp: routeStamped_def core_def split: pumped.split prod.split dest: route_shutdown)
  show "core (snd (stderr_line line (ring, s))) = core s"
    by (simp add: stderr_line_def core_def)
qed

lemma core_pumpSendStamped [simp]: "core (pumpSendStamped now sev s) = core s"
  by (simp add: pumpSendStamped_def split: pumped.split prod.split)

lemma stamp_plain: "\<not> ends_query p \<Longrightarrow> stamp now p s = stamp_load now p s"
  by (simp add: stamp_def stamp_store_def split: prod.split)

lemma core_pumpSend [simp]: "\<not> ends_query (PEvent ev) \<Longrightarrow> core (pumpSend now ev s) = core s"
  by (auto simp: pumpSend_def stamp_plain split: prod.split dest: stamp_load_eq)

lemma core_sendEvent [simp]: "\<not> ends_query p \<Longrightarrow> core (sendEvent now p s) = core s"
  by (auto simp: sendEvent_def stamp_plain split: prod.split dest: stamp_load_eq)

lemma core_emitQueryActivity [simp]: "core (emitQueryActivity now s) = core s"
  by (simp add: emitQueryActivity_def Let_def ends_query_def split: prod.split option.split)

lemma core_write: "writeStdinTimeout d t w s = (s', e) \<Longrightarrow> core s' = core s \<and> freight s' = freight s"
  by (auto simp: writeStdinTimeout_def core_def freight_def split: if_splits write_outcome.splits)

lemma core_sendUserMessage:
  "sendUserMessage m w s = (s', e) \<Longrightarrow> core s' = core s \<and> freight s' = freight s"
  by (auto simp: sendUserMessage_def send_write_def send_count_def send_uncount_def core_def
      freight_def writeStdin_def split: prod.splits option.splits
      dest!: core_write [unfolded core_def freight_def])

lemma core_observeUnsolicited:
  "observeUnsolicitedResult now e s = (s', e', t) \<Longrightarrow>
     core s' = core s \<and> freight s' = freight s
     \<and> (t = None \<longrightarrow> e' = e
          \<and> (IsTaskNotification (re_Origin e) \<longrightarrow> ss_state s = StateRunning \<and> ss_promptEchoed s))
     \<and> (t \<noteq> None \<longrightarrow> re_Unsolicited e')"
  by (auto simp: observeUnsolicitedResult_def Let_def core_def freight_def split: if_splits prod.splits)

section \<open>What travels is labelled right\<close>

text \<open>
  A stamped result carries no generation or that of the query it answers, and in the mailbox of a
  query there are only results that answer it.
\<close>

definition stamp_ok :: "(ResultEvent \<Rightarrow> gen) \<Rightarrow> stampedEvent \<Rightarrow> bool" where
  "stamp_ok P sev \<longleftrightarrow>
     (\<forall>e. sv_ev sev = PEvent (EvResult e) \<longrightarrow>
        sv_gen sev = 0 \<or> (\<not> re_Unsolicited e \<and> sv_gen sev = P e))"

definition item_ok :: "(ResultEvent \<Rightarrow> gen) \<Rightarrow> pump_item \<Rightarrow> bool" where
  "item_ok P it \<longleftrightarrow>
     (case it of Unstamped ev \<Rightarrow> \<not> ends_query (PEvent ev) | Stamped sev \<Rightarrow> stamp_ok P sev)"

definition box_ok :: "(ResultEvent \<Rightarrow> gen) \<Rightarrow> QueryHandle \<Rightarrow> bool" where
  "box_ok P h \<longleftrightarrow>
     qh_gen h \<noteq> 0 \<and> (\<forall>e. EvResult e \<in> set (qh_ch h) \<longrightarrow> \<not> re_Unsolicited e \<and> P e = qh_gen h)"

definition freight_ok :: "(ResultEvent \<Rightarrow> gen) \<Rightarrow> Session \<Rightarrow> bool" where
  "freight_ok P s \<longleftrightarrow> list_all (item_ok P) (ss_pump s) \<and> list_all (box_ok P) (ss_handles s)"

lemma freight_ok_cong: "freight s' = freight s \<Longrightarrow> freight_ok P s' = freight_ok P s"
  by (simp add: freight_ok_def freight_def)

lemma stamp_ok_plain: "\<not> ends_query (sv_ev sev) \<Longrightarrow> stamp_ok P sev"
  by (auto simp: stamp_ok_def ends_query_def)

lemma freight_pumpSendRaw: "freight_ok P s \<Longrightarrow> stamp_ok P sev \<Longrightarrow> freight_ok P (pumpSendRaw sev s)"
  by (simp add: freight_ok_def pumpSendRaw_def item_ok_def)

lemma freight_emitTransition: "freight_ok P s \<Longrightarrow> freight_ok P (emitTransition tr t g s)"
proof (cases tr)
  case (Some e)
  assume ok: "freight_ok P s"
  have "stamp_ok P \<lparr>sv_ev = PEvent (EvCLIStateChange e), sv_at = t, sv_gen = g\<rparr>"
    by (rule stamp_ok_plain) (simp add: ends_query_def)
  with ok have "freight_ok P (pumpSendRaw \<lparr>sv_ev = PEvent (EvCLIStateChange e), sv_at = t, sv_gen = g\<rparr> s)"
    by (rule freight_pumpSendRaw)
  with Some show ?thesis by (simp add: emitTransition_def freight_ok_def)
qed (simp add: emitTransition_def)

lemma freight_activity: "freight_ok P (s\<lparr>ss_activity := act\<rparr>) = freight_ok P s"
  by (simp add: freight_ok_def)

lemma freight_pumpSendStamped:
  "freight_ok P s \<Longrightarrow> stamp_ok P sev \<Longrightarrow> freight_ok P (pumpSendStamped now sev s)"
  by (auto simp: pumpSendStamped_def freight_activity intro!: freight_pumpSendRaw freight_emitTransition
      split: pumped.split prod.split)

lemma freight_plain:
  assumes "freight_ok P s" "\<not> ends_query (PEvent ev)"
  shows "freight_ok P (pumpSend now ev s)"
proof -
  obtain s' sev where l: "stamp_load now (PEvent ev) s = (s', sev)" by (cases "stamp_load now (PEvent ev) s")
  note e = stamp_load_eq [OF l]
  have "freight_ok P s'" using e assms(1) freight_ok_cong by blast
  moreover have "stamp_ok P sev" by (rule stamp_ok_plain) (use e assms(2) in simp)
  ultimately show ?thesis
    using assms(2) by (simp add: pumpSend_def stamp_plain l freight_pumpSendStamped)
qed

lemma freight_sendEvent:
  assumes "freight_ok P s" "\<not> ends_query p"
  shows "freight_ok P (sendEvent now p s)"
proof -
  obtain s' sev where l: "stamp_load now p s = (s', sev)" by (cases "stamp_load now p s")
  note e = stamp_load_eq [OF l]
  have "freight_ok P s'" using e assms(1) freight_ok_cong by blast
  moreover have "stamp_ok P sev" by (rule stamp_ok_plain) (use e assms(2) in simp)
  ultimately show ?thesis
    using assms by (simp add: sendEvent_def stamp_plain l freight_pumpSendRaw)
qed

lemma freight_emitQueryActivity: "freight_ok P s \<Longrightarrow> freight_ok P (emitQueryActivity now s)"
  by (auto simp: emitQueryActivity_def Let_def freight_activity ends_query_def
      intro!: freight_sendEvent split: prod.split option.split)

lemma boxes_detach:
  "list_all (box_ok P) hs \<Longrightarrow> detachLocked p reason (hs, r) = (hs', r') \<Longrightarrow> list_all (box_ok P) hs'"
proof (cases p)
  case (Some i)
  assume ok: "list_all (box_ok P) hs" and d: "detachLocked p reason (hs, r) = (hs', r')"
  show ?thesis
  proof (cases "i < length hs")
    case True
    with ok have "box_ok P (hs ! i)" by (simp add: list_all_length)
    then have "box_ok P ((hs ! i)\<lparr>qh_detached := True, qh_closeReason := Some reason, qh_closed := True\<rparr>)"
      by (simp add: box_ok_def)
    with ok d Some show ?thesis by (auto simp: detachLocked_def list_all_update split: if_splits)
  next
    case False
    with ok d Some show ?thesis by (auto simp: detachLocked_def list_update_beyond split: if_splits)
  qed
qed (simp add: detachLocked_def)

lemma boxes_route:
  assumes ok: "list_all (box_ok P) hs"
    and st: "stamp_ok P \<lparr>sv_ev = PEvent ev, sv_at = t, sv_gen = g\<rparr>"
    and r: "route_event ev t g (hs, r) = (hs', r')"
  shows "list_all (box_ok P) hs'"
proof (cases "er_shutdown r \<or> live_handle hs r g = None")
  case True
  with ok r show ?thesis by (auto simp: route_event_def split: if_splits)
next
  case False
  then obtain i where live: "live_handle hs r g = Some i" and up: "\<not> er_shutdown r" by auto
  obtain ch d where m: "mailbox_send ev (qh_ch (hs ! i), qh_dropped (hs ! i)) = (ch, d)"
    by (cases "mailbox_send ev (qh_ch (hs ! i), qh_dropped (hs ! i))")
  have hs': "hs' = hs[i := (hs ! i)\<lparr>qh_ch := ch, qh_dropped := d\<rparr>]"
    using r live up m by (auto simp: route_event_def Let_def)
  show ?thesis
  proof (cases "i < length hs")
    case True
    with ok have h: "box_ok P (hs ! i)" by (simp add: list_all_length)
    have g: "qh_gen (hs ! i) = g" using live by (auto simp: live_handle_def split: option.splits if_splits)
    have "set ch \<subseteq> insert ev (set (qh_ch (hs ! i)))"
      using mailbox_send_subset [of ev "qh_ch (hs ! i)" "qh_dropped (hs ! i)"] m by simp
    then have "box_ok P ((hs ! i)\<lparr>qh_ch := ch, qh_dropped := d\<rparr>)"
      using h st g by (auto simp: box_ok_def stamp_ok_def)
    with ok hs' show ?thesis by (simp add: list_all_update)
  next
    case False
    with ok hs' show ?thesis by (simp add: list_update_beyond)
  qed
qed

lemma freight_route: "freight_ok P s \<Longrightarrow> stamp_ok P sev \<Longrightarrow> freight_ok P (routeStamped now sev s)"
proof (cases "sv_ev sev")
  case (PEvent ev)
  assume ok: "freight_ok P s" and st: "stamp_ok P sev"
  have st': "stamp_ok P \<lparr>sv_ev = PEvent ev, sv_at = sv_at sev, sv_gen = sv_gen sev\<rparr>"
    using st PEvent by (simp add: stamp_ok_def)
  obtain hs' r' where r: "route_event ev (sv_at sev) (sv_gen sev) (ss_handles s, ss_router s) = (hs', r')"
    by (cases "route_event ev (sv_at sev) (sv_gen sev) (ss_handles s, ss_router s)")
  have "list_all (box_ok P) hs'" by (rule boxes_route [OF _ st' r]) (use ok in \<open>simp add: freight_ok_def\<close>)
  with ok PEvent r show ?thesis by (simp add: routeStamped_def freight_ok_def)
qed (simp add: routeStamped_def freight_ok_def)

lemma freight_detach: "freight_ok P s \<Longrightarrow> freight_ok P (session_detach i reason s)"
  by (auto simp: session_detach_def freight_ok_def split: prod.split intro: boxes_detach)

lemma freight_arm: "freight_ok P s \<Longrightarrow> g \<noteq> 0 \<Longrightarrow> freight_ok P (arm_handle g s)"
  by (auto simp: arm_handle_def arm_locked_def Let_def freight_ok_def
      split: prod.splits if_splits dest: boxes_detach) (simp_all add: box_ok_def)

lemma freight_shutdown: "freight_ok P s \<Longrightarrow> freight_ok P (shutdownRouter s)"
  by (auto simp: shutdownRouter_def Let_def shutdown_locked_def freight_ok_def
      split: prod.splits option.splits dest: boxes_detach)

lemma freight_drain: "freight_ok P s \<Longrightarrow> freight_ok P (fst (DrainOrphans s))"
  by (simp add: DrainOrphans_def freight_ok_def split: prod.split)

lemma freight_end: "freight_ok P s \<Longrightarrow> freight_ok P (setDoneState (failPendingRequests s))"
  by (simp add: setDoneState_def failPendingRequests_def freight_ok_def)

lemma freight_enable: "freight_ok P s \<Longrightarrow> freight_ok P (EnableRouting now s)"
proof (cases "ss_routed s")
  case False
  assume "freight_ok P s"
  then have "freight_ok P (s\<lparr>ss_router := newEventRouter, ss_routed := True\<rparr>)"
    by (simp add: freight_ok_def)
  with False show ?thesis by (simp add: EnableRouting_def freight_sendEvent ends_query_def)
qed (simp add: EnableRouting_def)

lemma freight_exit:
  assumes "freight_ok P s"
  shows "freight_ok P (deliver_exit now x s)"
proof -
  obtain s' sev where l: "stamp now (PEvent (EvCLIExit x)) s = (s', sev)"
    by (cases "stamp now (PEvent (EvCLIExit x)) s")
  have "freight_ok P s'" "stamp_ok P sev"
    using l assms by (auto simp: stamp_def stamp_load_def stamp_store_def freight_ok_def stamp_ok_def
        split: if_splits)
  then show ?thesis
    using l freight_route [of P s' sev now] by (auto simp: deliver_exit_def freight_ok_def)
qed

lemma pump_effect:
  assumes ok: "freight_ok P s" and d: "pump_deliver now s = Some s'"
  shows "freight_ok P s' \<and> core s' = core s"
proof -
  obtain it its where p: "ss_pump s = it # its" using d by (auto simp: pump_deliver_def split: list.splits)
  obtain t sev where st: "pump_stamp now it (s\<lparr>ss_pump := its\<rparr>) = (t, sev)"
    by (cases "pump_stamp now it (s\<lparr>ss_pump := its\<rparr>)")
  have item: "item_ok P it" "freight_ok P (s\<lparr>ss_pump := its\<rparr>)"
    using ok p by (auto simp: freight_ok_def)
  have t: "freight_ok P t \<and> core t = core s \<and> stamp_ok P sev"
  proof (cases it)
    case (Stamped x)
    with st item show ?thesis by (auto simp: pump_stamp_def item_ok_def)
  next
    case (Unstamped ev)
    then have plain: "\<not> ends_query (PEvent ev)" using item by (simp add: item_ok_def)
    then have "stamp_load now (PEvent ev) (s\<lparr>ss_pump := its\<rparr>) = (t, sev)"
      using st Unstamped by (simp add: pump_stamp_def stamp_plain)
    note e = stamp_load_eq [OF this]
    have "stamp_ok P sev" by (rule stamp_ok_plain) (use e plain in simp)
    then show ?thesis using e item freight_ok_cong by (metis core_simps(6))
  qed
  then show ?thesis
    using d p st freight_route [of P t sev now]
    by (auto simp: pump_deliver_def freight_ok_def split: if_splits pumped.splits)
qed

section \<open>The invariant\<close>

text \<open>The parts of the control invariant, over the program counters and the core of the session.\<close>

definition busy :: "State \<Rightarrow> bool" where
  "busy st \<longleftrightarrow> st \<noteq> StateStarting \<and> st \<noteq> StateIdle"

definition mid_result :: "reader_pc \<Rightarrow> bool" where
  "mid_result r \<longleftrightarrow> (\<exists>e sev. r = RLoaded (EvResult e) sev \<or> r = RStored (EvResult e) sev)"

definition over :: "reader_pc \<Rightarrow> bool" where
  "over r \<longleftrightarrow> r = RClosed \<or> r = RExited \<or> r = RDone"

fun caller_gen :: "caller_pc \<Rightarrow> gen option" where
  "caller_gen (CCounted g) = Some g"
| "caller_gen (CArmed g i) = Some g"
| "caller_gen (CStored g i) = Some g"
| "caller_gen _ = None"

text \<open>The generation of the query being answered: its prompt is out, or about to be written.\<close>

definition out_gens :: "caller_pc \<Rightarrow> (gen \<times> bool) list \<Rightarrow> gen set" where
  "out_gens c q = fst ` set q \<union> (case c of CStored g i \<Rightarrow> {g} | _ \<Rightarrow> {})"

definition control_ok ::
    "caller_pc \<Rightarrow> reader_pc \<Rightarrow> (gen \<times> bool) list \<Rightarrow> State \<times> gen \<times> gen \<times> bool \<times> bool \<Rightarrow> bool" where
  "control_ok c r q k \<longleftrightarrow>
     (case k of (st, active, counter, echoed, down) \<Rightarrow>
        (c \<noteq> CIdle \<longrightarrow> busy st \<and> q = [] \<and> \<not> mid_result r)
        \<and> (q \<noteq> [] \<longrightarrow> busy st \<and> \<not> mid_result r)
        \<and> length q \<le> 1
        \<and> (mid_result r \<longrightarrow> busy st)
        \<and> (echoed \<and> st = StateRunning \<and> \<not> mid_result r \<longrightarrow> (\<exists>g. q = [(g, True)]))
        \<and> (\<not> over r \<longrightarrow> (\<forall>g \<in> out_gens c q. active = 0 \<or> active = g))
        \<and> (down \<longrightarrow> over r)
        \<and> caller_gen c \<noteq> Some 0)"

definition reader_ok :: "(ResultEvent \<Rightarrow> gen) \<Rightarrow> reader_pc \<Rightarrow> bool" where
  "reader_ok P r \<longleftrightarrow>
     (\<forall>ev sev. r = RLoaded ev sev \<or> r = RStored ev sev \<or> r = RTracked ev sev \<longrightarrow>
        sv_ev sev = PEvent ev \<and> stamp_ok P sev \<and> (fatal_event ev \<or> (\<exists>e. ev = EvResult e)))"

definition world_ok :: "(ResultEvent \<Rightarrow> gen) \<Rightarrow> world \<Rightarrow> bool" where
  "world_ok P w \<longleftrightarrow>
     control_ok (w_caller w) (w_reader w) (w_cli w) (core (w_s w))
     \<and> reader_ok P (w_reader w) \<and> freight_ok P (w_s w)"

lemma core_enable:
  "fst (core (EnableRouting now s)) = ss_state s
   \<and> ss_activeGen (EnableRouting now s) = ss_activeGen s
   \<and> ss_genCounter (EnableRouting now s) = ss_genCounter s
   \<and> ss_promptEchoed (EnableRouting now s) = ss_promptEchoed s
   \<and> (er_shutdown (ss_router (EnableRouting now s)) \<longrightarrow> er_shutdown (ss_router s))"
proof (cases "ss_routed s")
  case False
  let ?t = "s\<lparr>ss_router := newEventRouter, ss_routed := True\<rparr>"
  have "core (EnableRouting now s) = core ?t"
    using False by (simp add: EnableRouting_def ends_query_def)
  then show ?thesis by (simp add: core_def newEventRouter_def)
qed (simp add: EnableRouting_def core_def)

lemma core_prepare:
  "prepareQuery s = (s', None) \<Longrightarrow>
     ss_state s = StateIdle \<and> freight s' = freight s
     \<and> core s' = (StateRunning, ss_activeGen s, ss_genCounter s, False, er_shutdown (ss_router s))"
  by (auto simp: prepareQuery_def core_def freight_def split: State.splits)

lemma core_arm_handle: "core (arm_handle g s) = core s"
  by (auto simp: arm_handle_def core_def split: prod.split dest: arm_shutdown)

lemma core_track:
  "core (trackState ev s) =
     (if \<exists>e. ev = EvResult e then StateIdle
      else if fatal_event ev then StateFailed
      else if (\<exists>e. ev = EvInit e) \<and> ss_state s = StateStarting then StateIdle
      else ss_state s,
      ss_activeGen s, ss_genCounter s, ss_promptEchoed s, er_shutdown (ss_router s))
   \<and> freight (trackState ev s) = freight s"
  by (cases ev) (auto simp: trackState_def close_ready_def core_def freight_def fatal_event_def)

lemma core_echo:
  "freight (notePromptEcho ue s) = freight s
   \<and> core (notePromptEcho ue s)
     = (ss_state s, ss_activeGen s, ss_genCounter s, ss_promptEchoed (notePromptEcho ue s),
        er_shutdown (ss_router s))
   \<and> (ss_promptEchoed (notePromptEcho ue s) \<longrightarrow> ss_promptEchoed s \<or> ss_state s = StateRunning)"
  by (auto simp: notePromptEcho_def core_def freight_def)

lemma core_end:
  "core (setDoneState (failPendingRequests (shutdownRouter s)))
     = (if ss_state s = StateFailed then StateFailed else StateDone, ss_activeGen s, ss_genCounter s,
        ss_promptEchoed s, er_shutdown (ss_router (shutdownRouter s)))"
  by (simp add: setDoneState_def failPendingRequests_def shutdownRouter_def core_def Let_def
      split: prod.split)

lemma core_exit:
  "core (deliver_exit now x s)
     = (ss_state s, 0, ss_genCounter s, ss_promptEchoed s, er_shutdown (ss_router s))"
proof -
  obtain s' sev where l: "stamp now (PEvent (EvCLIExit x)) s = (s', sev)"
    by (cases "stamp now (PEvent (EvCLIExit x)) s")
  have c: "core s' = (ss_state s, 0, ss_genCounter s, ss_promptEchoed s, er_shutdown (ss_router s))"
    using l by (auto simp: stamp_def stamp_load_def stamp_store_def core_def ends_query_def)
  have "deliver_exit now x s = routeStamped now sev s'
      \<or> deliver_exit now x s = s'\<lparr>ss_events := ss_events s' @ [EvCLIExit x]\<rparr>
      \<or> deliver_exit now x s = s'"
    using l by (simp add: deliver_exit_def)
  with c show ?thesis by auto
qed

lemmas control_defs = control_ok_def busy_def mid_result_def over_def out_gens_def

text \<open>Steps that leave the control part alone.\<close>

lemma world_ok_same:
  assumes "world_ok P w" "core s' = core (w_s w)" "freight_ok P s'"
  shows "world_ok P (w\<lparr>w_s := s'\<rparr>)" "world_ok P (w\<lparr>w_s := s', w_failing := f\<rparr>)"
  using assms by (simp_all add: world_ok_def)

text \<open>A step that only clears the active generation.\<close>

lemma control_clear:
  "control_ok c r q (st, a, n, e, d) \<Longrightarrow> control_ok c r q (st, 0, n, e, d)"
  by (simp add: control_ok_def)

lemma control_fail:
  "control_ok c r q (st, a, n, e, d) \<Longrightarrow> control_ok c r q (StateFailed, a, n, e, d)"
  by (auto simp: control_ok_def busy_def)

lemma core_expand: "core s = (ss_state s, ss_activeGen s, ss_genCounter s, ss_promptEchoed s, er_shutdown (ss_router s))"
  by (simp add: core_def)

subsection \<open>The caller's steps\<close>

lemma ok_ready: "world_ok P w \<Longrightarrow> world_ok P (w\<lparr>w_s := connect_ready (w_s w)\<rparr>)"
  by (auto simp: world_ok_def connect_ready_def core_def freight_ok_def control_defs)

lemma ok_enable: "world_ok P w \<Longrightarrow> world_ok P (w\<lparr>w_s := EnableRouting now (w_s w)\<rparr>)"
  using core_enable [of now "w_s w"]
  by (auto simp: world_ok_def freight_enable core_expand control_ok_def)

lemma ok_prepare:
  assumes "world_ok P w" "w_caller w = CIdle" "prepareQuery (w_s w) = (s, None)"
  shows "world_ok P (w\<lparr>w_s := s, w_caller := CPrepared\<rparr>)"
  using assms core_prepare [OF assms(3)] freight_ok_cong [of s "w_s w" P]
  by (auto simp: world_ok_def core_expand [of "w_s w"] control_defs)

lemma control_count:
  "control_ok CPrepared r q (st, a, n, e, d) \<Longrightarrow> g \<noteq> 0 \<Longrightarrow>
     control_ok (CCounted g) r q (st, a, n', e, d)"
  by (clarsimp simp: control_ok_def out_gens_def)

lemma ok_count:
  assumes "world_ok P w" "w_caller w = CPrepared" "ss_genCounter (w_s w) + 1 \<noteq> 0"
    and "arm_count (w_s w) = (s, g)"
  shows "world_ok P (w\<lparr>w_s := s, w_caller := CCounted g\<rparr>)"
proof -
  have s: "s = (w_s w)\<lparr>ss_genCounter := ss_genCounter (w_s w) + 1\<rparr>" and g: "g \<noteq> 0"
    using assms(3,4) by (auto simp: arm_count_def)
  have "control_ok (CCounted g) (w_reader w) (w_cli w) (core s)"
    unfolding core_expand
    by (rule control_count [OF _ g, where n = "ss_genCounter (w_s w)"])
       (use assms(1,2) in \<open>simp add: s world_ok_def core_def\<close>)
  with assms(1) show ?thesis by (simp add: s world_ok_def freight_ok_def)
qed

lemma ok_arm:
  assumes "world_ok P w" "w_caller w = CCounted g"
  shows "er_shutdown (ss_router (w_s w)) \<Longrightarrow>
      world_ok P (w\<lparr>w_s := arm_handle g (w_s w), w_caller := CStored g i\<rparr>)"
    and "world_ok P (w\<lparr>w_s := arm_handle g (w_s w), w_caller := CArmed g i\<rparr>)"
proof -
  have g: "g \<noteq> 0" using assms by (auto simp: world_ok_def control_ok_def split: prod.splits)
  then have f: "freight_ok P (arm_handle g (w_s w))"
    using assms(1) by (simp add: world_ok_def freight_arm)
  show "world_ok P (w\<lparr>w_s := arm_handle g (w_s w), w_caller := CArmed g i\<rparr>)"
    using assms f by (auto simp: world_ok_def core_arm_handle core_expand [of "w_s w"] control_ok_def out_gens_def)
  assume "er_shutdown (ss_router (w_s w))"
  then have "over (w_reader w)" using assms(1) by (simp add: world_ok_def core_def control_ok_def)
  then show "world_ok P (w\<lparr>w_s := arm_handle g (w_s w), w_caller := CStored g i\<rparr>)"
    using assms f by (auto simp: world_ok_def core_arm_handle core_expand [of "w_s w"] control_ok_def)
qed

lemma ok_store:
  "world_ok P w \<Longrightarrow> w_caller w = CArmed g i \<Longrightarrow>
     world_ok P (w\<lparr>w_s := arm_store g (w_s w), w_caller := CStored g i\<rparr>)"
  by (auto simp: world_ok_def arm_store_def core_def freight_ok_def control_ok_def out_gens_def)

lemma control_write:
  assumes "control_ok (CStored g i) r q k"
  shows "control_ok CIdle r (q @ [(g, False)]) k" "control_ok CIdle r q k"
proof -
  obtain st a n e d where k: "k = (st, a, n, e, d)" by (cases k)
  have q: "q = []" "busy st" "\<not> mid_result r" "d \<longrightarrow> over r" "over r \<or> a = 0 \<or> a = g"
    "\<not> (e \<and> st = StateRunning)"
    using assms unfolding k control_ok_def out_gens_def by clarsimp+
  then show "control_ok CIdle r (q @ [(g, False)]) k" "control_ok CIdle r q k"
    by (simp_all add: k control_ok_def out_gens_def) blast+
qed

lemma ok_write:
  assumes "world_ok P w" "w_caller w = CStored g i" "sendUserMessage m out (w_s w) = (s, e)"
  shows "world_ok P (w\<lparr>w_s := s, w_caller := CIdle, w_cli := w_cli w @ [(g, False)]\<rparr>)"
    and "world_ok P (w\<lparr>w_s := s, w_caller := CIdle, w_cli := w_cli w @ [(g, False)],
                      w_failing := f\<rparr>)"
    and "world_ok P (w\<lparr>w_s := s, w_caller := CIdle, w_failing := f\<rparr>)"
proof -
  have e: "core s = core (w_s w)" "freight_ok P s = freight_ok P (w_s w)"
    using core_sendUserMessage [OF assms(3)] freight_ok_cong [of s "w_s w" P] by simp_all
  have "control_ok (CStored g i) (w_reader w) (w_cli w) (core (w_s w))"
    using assms(1,2) by (simp add: world_ok_def)
  note c = control_write [OF this]
  show "world_ok P (w\<lparr>w_s := s, w_caller := CIdle, w_cli := w_cli w @ [(g, False)]\<rparr>)"
    "world_ok P (w\<lparr>w_s := s, w_caller := CIdle, w_cli := w_cli w @ [(g, False)], w_failing := f\<rparr>)"
    "world_ok P (w\<lparr>w_s := s, w_caller := CIdle, w_failing := f\<rparr>)"
    using assms(1) c e by (simp_all add: world_ok_def)
qed

lemma ok_failStore:
  "world_ok P w \<Longrightarrow> world_ok P (w\<lparr>w_s := failQuery_store (w_s w), w_failing := f\<rparr>)"
  by (auto simp: world_ok_def failQuery_store_def core_def freight_ok_def intro: control_clear)

lemma ok_failLock:
  "world_ok P w \<Longrightarrow> world_ok P (w\<lparr>w_s := failQuery_locked e (w_s w), w_failing := f\<rparr>)"
  by (auto simp: world_ok_def failQuery_locked_def close_ready_def core_def freight_ok_def
      intro: control_fail)

subsection \<open>The reader's steps\<close>

lemma ok_echo:
  assumes "world_ok P w" "w_reader w = RIdle" "w_cli w = (g, False) # q"
  shows "world_ok P (w\<lparr>w_s := notePromptEcho ue (w_s w), w_cli := (g, True) # q\<rparr>)"
  using assms core_echo [of ue "w_s w"] freight_ok_cong [of "notePromptEcho ue (w_s w)" "w_s w" P]
  by (auto simp: world_ok_def core_expand [of "w_s w"] control_defs)

lemma cli_result_tail: "cli_result P e q q' \<Longrightarrow> q' = q \<or> q' = tl q"
  by (auto simp: cli_result_def)

lemma control_pop:
  "control_ok c r q (st, a, n, e, d) \<Longrightarrow> e \<and> st = StateRunning \<longrightarrow> mid_result r \<or> q' = q \<Longrightarrow>
     q' = q \<or> q' = tl q \<Longrightarrow> control_ok c r q' (st, a, n, e, d)"
proof -
  assume ok: "control_ok c r q (st, a, n, e, d)" and echo: "e \<and> st = StateRunning \<longrightarrow> mid_result r \<or> q' = q"
    and q': "q' = q \<or> q' = tl q"
  show ?thesis
  proof (cases "q' = q")
    case True
    with ok show ?thesis by simp
  next
    case False
    moreover have "length q \<le> 1" using ok by (simp add: control_ok_def)
    ultimately have "q' = []" using q' by (cases q) auto
    moreover have "\<not> (e \<and> st = StateRunning \<and> \<not> mid_result r)" using echo False by blast
    ultimately show ?thesis using ok by (clarsimp simp: control_ok_def out_gens_def split: caller_pc.splits)
  qed
qed

lemma ok_held:
  assumes ok: "world_ok P w" and r: "w_reader w = RIdle" and c: "cli_result P e (w_cli w) q"
    and o: "observeUnsolicitedResult now e (noteTurnEnd e (w_s w)) = (s, e', Some tr)"
  shows "world_ok P (w\<lparr>w_s := (case stampNoQuery now (EvResult e') s of
                            (s, sev) \<Rightarrow> pumpSendRaw sev
                                         (emitTransition tr (sv_at sev) (ss_activeGen s) s)),
                    w_cli := q\<rparr>)"
proof -
  note eff = core_observeUnsolicited [OF o]
  have same: "core s = core (w_s w)" using eff by simp
  have "freight s = freight (w_s w)" using eff by (simp add: freight_def noteTurnEnd_def Let_def)
  then have fs: "freight_ok P s" using ok freight_ok_cong [of s "w_s w" P] by (simp add: world_ok_def)
  obtain t sev where st: "stampNoQuery now (EvResult e') s = (t, sev)"
    by (cases "stampNoQuery now (EvResult e') s")
  then have t: "core t = core s" "freight_ok P t" "stamp_ok P sev"
    using fs by (auto simp: stampNoQuery_def core_def freight_ok_def stamp_ok_def)
  have "\<not> (ss_promptEchoed (w_s w) \<and> ss_state (w_s w) = StateRunning)"
    using o core_eqD [OF core_simps(2) [of e "w_s w"]]
    by (auto simp: observeUnsolicitedResult_def Let_def split: if_splits)
  then have "control_ok (w_caller w) (w_reader w) q (core (w_s w))"
    using ok cli_result_tail [OF c] unfolding world_ok_def core_expand [of "w_s w"]
    by (auto intro: control_pop)
  with ok t same st show ?thesis
    by (simp add: world_ok_def freight_pumpSendRaw freight_emitTransition)
qed

lemma ok_result:
  assumes ok: "world_ok P w" and r: "w_reader w = RIdle" and c: "cli_result P e (w_cli w) q"
    and o: "observeUnsolicitedResult now e (noteTurnEnd e (w_s w)) = (s, e', None)"
    and l: "stamp_load now (PEvent (EvResult e')) s = (s', sev)"
  shows "world_ok P (w\<lparr>w_s := s', w_reader := RLoaded (EvResult e') sev, w_cli := q\<rparr>)"
proof -
  note eff = core_observeUnsolicited [OF o] and le = stamp_load_eq [OF l]
  have same: "core s' = core (w_s w)" "e' = e" using eff le by simp_all
  have f: "freight s' = freight (w_s w)" using eff le by (simp add: freight_def noteTurnEnd_def Let_def)
  have ctl: "control_ok (w_caller w) RIdle (w_cli w) (core (w_s w))"
    using ok r by (simp add: world_ok_def)
  have note_same: "ss_state (noteTurnEnd e (w_s w)) = ss_state (w_s w)"
    "ss_promptEchoed (noteTurnEnd e (w_s w)) = ss_promptEchoed (w_s w)"
    using core_eqD [OF core_simps(2) [of e "w_s w"]] by simp_all
  have act: "ss_activeGen s = ss_activeGen (w_s w)"
    using eff core_eqD [OF core_simps(2) [of e "w_s w"]] by (simp add: core_def)
  have not_own: "\<not> (IsTaskNotification (re_Origin e) \<and> (\<forall>(g, echoed) \<in> set (w_cli w). \<not> echoed))"
  proof
    assume own: "IsTaskNotification (re_Origin e) \<and> (\<forall>(g, echoed) \<in> set (w_cli w). \<not> echoed)"
    then have "ss_state (w_s w) = StateRunning" "ss_promptEchoed (w_s w)"
      using eff note_same by auto
    then obtain g where "w_cli w = [(g, True)]"
      using ctl by (auto simp: control_ok_def core_def mid_result_def)
    with own show False by simp
  qed
  then obtain g echoed where cli: "w_cli w = (g, echoed) # q" "P e = g" "\<not> re_Unsolicited e"
    using c unfolding cli_result_def by blast
  have q: "q = []" and busy: "busy (ss_state (w_s w))" and idle: "w_caller w = CIdle"
    and a: "ss_activeGen (w_s w) = 0 \<or> ss_activeGen (w_s w) = g"
    and down: "\<not> er_shutdown (ss_router (w_s w))"
    using ctl cli by (auto simp: control_ok_def core_def out_gens_def over_def)
  have "control_ok (w_caller w) (RLoaded (EvResult e') sev) q (core (w_s w))"
    using q busy idle down by (auto simp: control_ok_def core_def out_gens_def mid_result_def)
  moreover have "reader_ok P (RLoaded (EvResult e') sev)"
    using le act a cli same(2) by (auto simp: reader_ok_def stamp_ok_def)
  ultimately show ?thesis
    using ok same f freight_ok_cong [of s' "w_s w" P] by (simp add: world_ok_def)
qed

lemma ok_fatal:
  assumes ok: "world_ok P w" and r: "w_reader w = RIdle" and f: "fatal_event ev"
    and l: "stamp_load now (PEvent ev) (w_s w) = (s, sev)"
  shows "world_ok P (w\<lparr>w_s := s, w_reader := RLoaded ev sev\<rparr>)"
proof -
  note le = stamp_load_eq [OF l]
  have nr: "ev \<noteq> EvResult e" for e using f by (auto simp: fatal_event_def)
  then have "control_ok (w_caller w) (RLoaded ev sev) (w_cli w) (core (w_s w))"
    using ok r by (auto simp: world_ok_def core_expand [of "w_s w"] control_ok_def mid_result_def over_def)
  moreover have "reader_ok P (RLoaded ev sev)"
    using le f nr by (auto simp: reader_ok_def stamp_ok_def)
  ultimately show ?thesis
    using ok le freight_ok_cong [of s "w_s w" P] by (simp add: world_ok_def)
qed

lemma reader_ok_step:
  "reader_ok P (RLoaded ev sev) = reader_ok P (RStored ev sev)"
  "reader_ok P (RStored ev sev) = reader_ok P (RTracked ev sev)"
  "reader_ok P RIdle" "reader_ok P RClosed" "reader_ok P RExited" "reader_ok P RDone"
  by (auto simp: reader_ok_def)

lemma ok_stamp_store:
  assumes ok: "world_ok P w" and r: "w_reader w = RLoaded ev sev"
  shows "world_ok P (w\<lparr>w_s := stamp_store (PEvent ev) (w_s w), w_reader := RStored ev sev\<rparr>)"
proof -
  have "control_ok (w_caller w) (RStored ev sev) (w_cli w) (core (w_s w))"
    using ok r by (auto simp: world_ok_def core_expand [of "w_s w"] control_ok_def mid_result_def over_def)
  then have "control_ok (w_caller w) (RStored ev sev) (w_cli w) (core (stamp_store (PEvent ev) (w_s w)))"
    by (auto simp: stamp_store_def core_def intro: control_clear)
  with ok r show ?thesis
    by (auto simp: world_ok_def reader_ok_step stamp_store_def freight_ok_def)
qed

lemma ok_track:
  assumes ok: "world_ok P w" and r: "w_reader w = RStored ev sev"
  shows "world_ok P (w\<lparr>w_s := trackState ev (w_s w), w_reader := RTracked ev sev\<rparr>)"
proof -
  have ctl: "control_ok (w_caller w) (RStored ev sev) (w_cli w) (core (w_s w))"
    and rd: "reader_ok P (RStored ev sev)"
    using ok r by (simp_all add: world_ok_def)
  have "control_ok (w_caller w) (RTracked ev sev) (w_cli w) (core (trackState ev (w_s w)))"
  proof (cases "\<exists>e. ev = EvResult e")
    case True
    then have "w_caller w = CIdle" "w_cli w = []" "\<not> er_shutdown (ss_router (w_s w))"
      using ctl by (auto simp: core_expand [of "w_s w"] control_ok_def mid_result_def over_def)
    with True show ?thesis by (simp add: core_track control_ok_def out_gens_def mid_result_def)
  next
    case False
    then have "fatal_event ev" using rd by (auto simp: reader_ok_def)
    with False ctl show ?thesis
      by (auto simp: core_track core_expand [of "w_s w"] control_ok_def mid_result_def over_def busy_def)
  qed
  with ok r core_track [of ev "w_s w"] freight_ok_cong [of "trackState ev (w_s w)" "w_s w" P] show ?thesis
    by (simp add: world_ok_def reader_ok_step)
qed

lemma ok_send:
  assumes ok: "world_ok P w" and r: "w_reader w = RTracked ev sev"
  shows "world_ok P (w\<lparr>w_s := pumpSendStamped now sev (w_s w), w_reader := RIdle\<rparr>)"
proof -
  have "stamp_ok P sev" using ok r by (simp add: world_ok_def reader_ok_def)
  moreover have "control_ok (w_caller w) RIdle (w_cli w) (core (w_s w))"
    using ok r by (auto simp: world_ok_def core_expand [of "w_s w"] control_ok_def mid_result_def over_def)
  ultimately show ?thesis
    using ok by (simp add: world_ok_def reader_ok_step freight_pumpSendStamped)
qed

lemma over_not_mid: "over r \<Longrightarrow> \<not> mid_result r" "\<not> mid_result RIdle"
  by (auto simp: over_def mid_result_def)

lemma control_over:
  "control_ok c r q (st, a, n, e, d) \<Longrightarrow> \<not> mid_result r \<Longrightarrow> over r' \<Longrightarrow>
     st' = st \<or> st' = StateFailed \<or> st' = StateDone \<Longrightarrow> control_ok c r' q (st', a', n', e, d')"
  using over_not_mid(1) [of r'] by (auto simp: control_ok_def busy_def)

lemma ok_over:
  assumes ok: "world_ok P w" and r: "w_reader w = RIdle \<or> over (w_reader w)" and r': "over r'"
    and core: "core s = (st, a, n, e, d)" "e = ss_promptEchoed (w_s w)"
    and st: "st = ss_state (w_s w) \<or> st = StateFailed \<or> st = StateDone" and f: "freight_ok P s"
  shows "world_ok P (w\<lparr>w_s := s, w_reader := r'\<rparr>)"
proof -
  have nm: "\<not> mid_result (w_reader w)" using r over_not_mid by auto
  have c: "control_ok (w_caller w) (w_reader w) (w_cli w)
      (ss_state (w_s w), ss_activeGen (w_s w), ss_genCounter (w_s w), ss_promptEchoed (w_s w),
       er_shutdown (ss_router (w_s w)))"
    using ok by (simp add: world_ok_def core_def)
  have "reader_ok P r'" using r' reader_ok_step by (auto simp: over_def)
  with control_over [OF c nm r' st] core f show ?thesis by (simp add: world_ok_def)
qed

subsection \<open>Every step\<close>

lemma world_freight: "world_ok P w \<Longrightarrow> freight_ok P (w_s w)"
  by (simp add: world_ok_def)

lemma world_ok_step: "step P w w' \<Longrightarrow> world_ok P w \<Longrightarrow> world_ok P w'"
proof (induction rule: step.induct)
  case (Take i w ev evs)
  let ?h = "(ss_handles (w_s w) ! i)\<lparr>qh_ch := evs\<rparr>"
  have "box_ok P (ss_handles (w_s w) ! i)"
    using Take by (simp add: world_ok_def freight_ok_def list_all_length)
  then have "box_ok P ?h" using Take(2) by (auto simp: box_ok_def)
  then have "freight_ok P ((w_s w)\<lparr>ss_handles := (ss_handles (w_s w))[i := ?h]\<rparr>)"
    using Take by (simp add: world_ok_def freight_ok_def list_all_update)
  with Take show ?case by (intro world_ok_same(1)) simp_all
next
  case (LateSend p w now g)
  have "stamp_ok P \<lparr>sv_ev = p, sv_at = now, sv_gen = g\<rparr>" by (rule stamp_ok_plain) (use LateSend in simp)
  with LateSend show ?case
    by (intro world_ok_same(1)) (auto simp: world_ok_def freight_pumpSendRaw)
next
  case (Pump now w s)
  with pump_effect [of P "w_s w" now s] show ?case
    by (intro world_ok_same(1)) (auto simp: world_ok_def)
next
  case (Eof w)
  then show ?case
    by (intro ok_over [OF _ _ _ core_expand]) (auto simp: over_def world_ok_def freight_ok_def)
next
  case (Exit w now x)
  then show ?case
    by (intro ok_over [OF _ _ _ core_exit]) (auto simp: over_def world_ok_def freight_exit)
next
  case (Shutdown w)
  then show ?case
    by (intro ok_over [OF _ _ _ core_end])
       (auto simp: over_def world_ok_def freight_end freight_shutdown)
next
  case (Stderr w line ring)
  then have "freight_ok P (snd (stderr_line line (ring, w_s w)))"
    by (auto simp: stderr_line_def world_ok_def freight_ok_def item_ok_def ends_query_def)
  with Stderr show ?case by (intro world_ok_same(1)) simp_all
qed (simp_all add: ok_ready ok_enable ok_prepare ok_count ok_arm ok_store ok_write ok_failStore
      ok_failLock ok_echo ok_held ok_result ok_fatal ok_stamp_store ok_track ok_send
      world_ok_same freight_emitQueryActivity freight_detach freight_drain freight_plain
      world_freight)

subsection \<open>Generations\<close>

text \<open>The generations handed out, in order, and the counter.\<close>

definition tags :: "Session \<Rightarrow> gen list \<times> gen" where
  "tags s = (map qh_gen (ss_handles s), ss_genCounter s)"

lemma tags_cong: "core s' = core s \<Longrightarrow> freight s' = freight s \<Longrightarrow> tags s' = tags s"
  by (simp add: tags_def core_def freight_def)

lemma map_gen_update: "qh_gen h = qh_gen (hs ! i) \<Longrightarrow> map qh_gen (hs[i := h]) = map qh_gen hs"
proof (cases "i < length hs")
  case True
  assume "qh_gen h = qh_gen (hs ! i)"
  with True show ?thesis by (simp add: map_update list_update_same_conv)
qed (simp add: list_update_beyond)

lemma tags_detach: "detachLocked p reason (hs, r) = (hs', r') \<Longrightarrow> map qh_gen hs' = map qh_gen hs"
  using detach_keeps(2) [of p reason hs r] by (simp del: detach_keeps)

lemma tags_route: "route_event ev t g (hs, r) = (hs', r') \<Longrightarrow> map qh_gen hs' = map qh_gen hs"
  by (auto simp: route_event_def Let_def map_gen_update split: if_splits option.splits prod.splits)

lemma tags_raw [simp]:
  "tags (pumpSendRaw sev s) = tags s"
  "tags (s\<lparr>ss_activity := act\<rparr>) = tags s"
  "tags (s\<lparr>ss_pumpClosed := b\<rparr>) = tags s"
  "tags (s\<lparr>ss_events := evs\<rparr>) = tags s"
  "tags (noteTurnEnd e s) = tags s"
  "tags (notePromptEcho ue s) = tags s"
  "tags (stamp_store p s) = tags s"
  "tags (trackState ev s) = tags s"
  "tags (failQuery_store s) = tags s"
  "tags (failQuery_locked err s) = tags s"
  "tags (arm_store g s) = tags s"
  "tags (connect_ready s) = tags s"
  "tags (snd (stderr_line line (ring, s))) = tags s"
  "tags (setDoneState s) = tags s"
  "tags (failPendingRequests s) = tags s"
  by (simp_all add: tags_def pumpSendRaw_def noteTurnEnd_def notePromptEcho_def stamp_store_def
      Let_def trackState_def close_ready_def failQuery_store_def failQuery_locked_def arm_store_def
      connect_ready_def stderr_line_def setDoneState_def failPendingRequests_def split: event.split)

lemma tags_emit [simp]:
  "tags (emitTransition tr t g s) = tags s"
  "tags (pumpSendStamped now sev s) = tags s"
proof -
  show emit: "tags (emitTransition tr t g s) = tags s" for tr t g s
    by (simp add: emitTransition_def tags_def pumpSendRaw_def split: option.split)
  show "tags (pumpSendStamped now sev s) = tags s"
    by (simp add: pumpSendStamped_def emit split: pumped.split prod.split)
qed

lemma tags_stamp: "stamp_load now p s = (s', sev) \<Longrightarrow> tags s' = tags s"
  "stamp now p s = (s', sev) \<Longrightarrow> tags s' = tags s"
  "stampNoQuery now ev s = (s', sev) \<Longrightarrow> tags s' = tags s"
  by (auto simp: stamp_def stamp_load_def stamp_store_def stampNoQuery_def tags_def split: if_splits)

lemma tags_send [simp]:
  "tags (pumpSend now ev s) = tags s"
  "tags (sendEvent now p s) = tags s"
  "tags (emitQueryActivity now s) = tags s"
proof -
  show "tags (pumpSend now ev s) = tags s"
    by (auto simp: pumpSend_def split: prod.split dest: tags_stamp)
  show snd: "tags (sendEvent now p s) = tags s" for p s
    by (auto simp: sendEvent_def split: prod.split dest: tags_stamp)
  show "tags (emitQueryActivity now s) = tags s"
    by (simp add: emitQueryActivity_def Let_def snd split: prod.split option.split)
qed

lemma tags_router [simp]:
  "tags (session_detach i reason s) = tags s"
  "tags (fst (DrainOrphans s)) = tags s"
  "tags (shutdownRouter s) = tags s"
  "tags (routeStamped now sev s) = tags s"
  "tags (EnableRouting now s) = tags s"
  "tags (deliver_exit now x s) = tags s"
proof -
  show "tags (session_detach i reason s) = tags s"
    by (auto simp: session_detach_def tags_def split: prod.split dest: tags_detach)
  show "tags (fst (DrainOrphans s)) = tags s"
    by (simp add: DrainOrphans_def tags_def split: prod.split)
  show "tags (shutdownRouter s) = tags s"
    by (auto simp: shutdownRouter_def shutdown_locked_def tags_def Let_def split: prod.splits
        dest: tags_detach)
  show route: "tags (routeStamped now sev s) = tags s" for sev s
    by (auto simp: routeStamped_def tags_def split: pumped.split prod.split dest: tags_route)
  show "tags (EnableRouting now s) = tags s"
    by (simp add: EnableRouting_def) (simp add: tags_def)
  show "tags (deliver_exit now x s) = tags s"
    by (auto simp: deliver_exit_def route split: prod.split dest: tags_stamp)
qed

lemma tags_pump: "pump_deliver now s = Some s' \<Longrightarrow> tags s' = tags s"
proof -
  have pop: "tags (s\<lparr>ss_pump := its\<rparr>) = tags s" for its by (simp add: tags_def)
  have st: "pump_stamp now it (s\<lparr>ss_pump := its\<rparr>) = (t, sev) \<Longrightarrow> tags t = tags s" for it its t sev
    using pop by (auto simp: pump_stamp_def split: pump_item.splits dest: tags_stamp)
  assume "pump_deliver now s = Some s'"
  then show ?thesis
    by (auto simp: pump_deliver_def split: list.splits prod.splits if_splits pumped.splits dest: st)
qed

lemma tags_arm: "tags (arm_handle g s) = (map qh_gen (ss_handles s) @ [g], ss_genCounter s)"
  by (auto simp: arm_handle_def arm_locked_def Let_def tags_def split: prod.splits dest: tags_detach)

lemma word_below_next: "x + 1 \<noteq> 0 \<Longrightarrow> x < x + 1" for x :: "'a::len word"
  by unat_arith

definition gens_ok :: "caller_pc \<Rightarrow> gen list \<times> gen \<Rightarrow> bool" where
  "gens_ok c k \<longleftrightarrow>
     distinct (fst k) \<and> (\<forall>g \<in> set (fst k). g \<le> snd k)
     \<and> (\<forall>g. c = CCounted g \<longrightarrow> g = snd k \<and> g \<notin> set (fst k))"

lemma gens_arm:
  "gens_ok (CCounted g) (tags s) \<Longrightarrow> \<forall>g. c \<noteq> CCounted g \<Longrightarrow> gens_ok c (tags (arm_handle g s))"
  unfolding tags_arm by (clarsimp simp: gens_ok_def tags_def)

lemma gens_ok_step: "step P w w' \<Longrightarrow> gens_ok (w_caller w) (tags (w_s w)) \<Longrightarrow> gens_ok (w_caller w') (tags (w_s w'))"
proof (induction rule: step.induct)
  case (Prepare w s)
  then have "tags s = tags (w_s w)" using core_prepare by (simp add: tags_def core_def freight_def)
  with Prepare show ?case by (simp add: gens_ok_def)
next
  case (Count w s g)
  then have s: "tags s = (fst (tags (w_s w)), g)" "g = snd (tags (w_s w)) + 1" "snd (tags (w_s w)) < g"
    using word_below_next [OF Count(2)] by (auto simp: arm_count_def tags_def)
  then have "g \<notin> set (fst (tags (w_s w)))" "\<forall>x \<in> set (fst (tags (w_s w))). x \<le> g"
    using Count.prems by (auto simp: gens_ok_def)
  with s Count.prems show ?case by (auto simp: gens_ok_def)
next
  case (ArmDead w g)
  then show ?case by (simp add: gens_arm)
next
  case (Arm w g)
  then show ?case by (simp add: gens_arm)
next
  case (Write w g i m out s)
  have "tags s = tags (w_s w)" using core_sendUserMessage [OF Write(2)] tags_cong by blast
  with Write show ?case by (simp add: gens_ok_def)
next
  case (WriteFail w g i m out s e arrived)
  have "tags s = tags (w_s w)" using core_sendUserMessage [OF WriteFail(2)] tags_cong by blast
  with WriteFail show ?case by (simp add: gens_ok_def)
next
  case (Take i w ev evs)
  have "tags ((w_s w)\<lparr>ss_handles := (ss_handles (w_s w))[i := (ss_handles (w_s w) ! i)\<lparr>qh_ch := evs\<rparr>]\<rparr>)
      = tags (w_s w)"
    by (simp add: tags_def map_gen_update)
  with Take show ?case by simp
next
  case (Pump now w s)
  with tags_pump show ?case by simp
next
  case (ReadHeld w e q now s e' tr)
  then have s: "tags s = tags (w_s w)"
    using tags_cong [of s "noteTurnEnd e (w_s w)"] core_observeUnsolicited by fastforce
  obtain t sev where "stampNoQuery now (EvResult e') s = (t, sev)" by (cases "stampNoQuery now (EvResult e') s")
  with ReadHeld s tags_stamp(3) show ?case by simp
next
  case (ReadResult w e q now s e' s' sev)
  then have "tags s = tags (w_s w)"
    using tags_cong [of s "noteTurnEnd e (w_s w)"] core_observeUnsolicited by fastforce
  with ReadResult tags_stamp(1) show ?case by simp
next
  case (ReadFatal w ev now s sev)
  with tags_stamp(1) show ?case by simp
qed (simp_all add: gens_ok_def)

subsection \<open>The running query's generation is armed\<close>

text \<open>
  While a query runs and no failed submission is about to mark the session failed, the active
  generation is the running query's, unless the reader is between the two halves of a stamp.
\<close>

definition settled :: "(fail_stage \<times> nat \<times> go_error) list \<Rightarrow> bool" where
  "settled fs \<longleftrightarrow> (\<forall>(st, i, e) \<in> set fs. st \<noteq> FStore \<and> st \<noteq> FLock)"

definition in_stamp :: "reader_pc \<Rightarrow> bool" where
  "in_stamp r \<longleftrightarrow> (\<exists>ev sev. r = RStored ev sev)"

definition armed_ok ::
    "caller_pc \<Rightarrow> (fail_stage \<times> nat \<times> go_error) list \<Rightarrow> reader_pc \<Rightarrow> (gen \<times> bool) list
       \<Rightarrow> State \<Rightarrow> gen \<Rightarrow> bool" where
  "armed_ok c fs r q st active \<longleftrightarrow>
     (st = StateRunning \<and> settled fs \<and> \<not> over r \<and> \<not> in_stamp r \<longrightarrow>
        (\<forall>g \<in> out_gens c q. active = g))"

definition armed :: "world \<Rightarrow> bool" where
  "armed w \<longleftrightarrow>
     armed_ok (w_caller w) (w_failing w) (w_reader w) (w_cli w) (ss_state (w_s w)) (ss_activeGen (w_s w))"

lemma armed_same:
  "armed w \<Longrightarrow> core s = core (w_s w) \<Longrightarrow> armed (w\<lparr>w_s := s\<rparr>)"
  by (simp add: armed_def core_def)

lemma settled_update:
  assumes "k < length fs" "settled (fs[k := (FDetach, i, e)]) \<or> settled (fs[k := (FOver, i, e)])"
    and "fs ! k = (FDetach, i, e)"
  shows "settled fs"
  unfolding settled_def
proof
  fix x assume "x \<in> set fs"
  then obtain j where j: "j < length fs" "fs ! j = x" by (auto simp: in_set_conv_nth)
  show "case x of (st, i, e) \<Rightarrow> st \<noteq> FStore \<and> st \<noteq> FLock"
  proof (cases "j = k")
    case False
    then have "fs[k := y] ! j = x" for y using j by simp
    then have "x \<in> set (fs[k := (FDetach, i, e)]) \<and> x \<in> set (fs[k := (FOver, i, e)])"
      using j by (metis length_list_update nth_mem)
    with assms(2) show ?thesis by (auto simp: settled_def)
  qed (use assms(3) j in auto)
qed

lemma armed_step: "step P w w' \<Longrightarrow> world_ok P w \<Longrightarrow> armed w \<Longrightarrow> armed w'"
proof (induction rule: step.induct)
  case (Ready w)
  then show ?case by (simp add: armed_def armed_ok_def connect_ready_def)
next
  case (Enable w now)
  then show ?case using core_enable [of now "w_s w"] by (simp add: armed_def core_def)
next
  case (Prepare w s)
  then have "ss_state (w_s w) = StateIdle" using core_prepare by blast
  then have "w_cli w = []" using Prepare(4) by (auto simp: world_ok_def control_ok_def core_def busy_def)
  then show ?case by (simp add: armed_def armed_ok_def out_gens_def)
next
  case (ArmDead w g)
  then have "over (w_reader w)" by (auto simp: world_ok_def control_ok_def core_def)
  then show ?case by (simp add: armed_def armed_ok_def)
next
  case (Arm w g)
  then show ?case using core_arm_handle [of g "w_s w"]
    by (simp add: armed_def armed_ok_def core_def out_gens_def)
next
  case (Store w g i)
  then have "w_cli w = []" by (simp add: world_ok_def control_ok_def core_def)
  then show ?case by (simp add: armed_def armed_ok_def arm_store_def out_gens_def)
next
  case (Write w g i m out s)
  then have "core s = core (w_s w)" using core_sendUserMessage by blast
  with Write show ?case by (auto simp: armed_def armed_ok_def core_def out_gens_def)
next
  case (WriteFail w g i m out s e arrived)
  then show ?case by (simp add: armed_def armed_ok_def settled_def)
next
  case (FailStore k w i e)
  then have "\<not> settled ((w_failing w)[k := (FLock, i, e)])"
    by (auto simp: settled_def set_update_memI intro!: bexI [of _ "(FLock, i, e)"])
  then show ?case by (simp add: armed_def armed_ok_def)
next
  case (FailLock k w i e)
  then show ?case by (simp add: armed_def armed_ok_def failQuery_locked_def close_ready_def)
next
  case (FailDetach k w i e)
  then have "core (session_detach i (OtherReason e) (w_s w)) = core (w_s w)" by simp
  with FailDetach settled_update [of k "w_failing w" i e] show ?case
    by (auto simp: armed_def armed_ok_def core_def)
next
  case (Pump now w s)
  with pump_effect [of P "w_s w" now s] show ?case by (intro armed_same) (auto simp: world_ok_def)
next
  case (Echo w g q ue)
  then show ?case using core_echo [of ue "w_s w"]
    by (auto simp: armed_def armed_ok_def core_def out_gens_def)
next
  case (ReadHeld w e q now s e' tr)
  have s: "core s = core (w_s w)" using core_observeUnsolicited [OF ReadHeld(3)] by simp
  obtain t sev where st: "stampNoQuery now (EvResult e') s = (t, sev)"
    by (cases "stampNoQuery now (EvResult e') s")
  have "core t = core s" using core_simps(9) [of now "EvResult e'" s] st by (simp del: core_simps)
  then have c: "core (pumpSendRaw sev (emitTransition tr (sv_at sev) (ss_activeGen t) t)) = core (w_s w)"
    using s by simp
  have "out_gens (w_caller w) q \<subseteq> out_gens (w_caller w) (w_cli w)"
    using ReadHeld(2) by (auto simp: cli_result_def out_gens_def)
  with ReadHeld(5) c st show ?case by (auto simp: armed_def armed_ok_def core_def)
next
  case (ReadResult w e q now s e' s' sev)
  have "core s' = core (w_s w)"
    using core_observeUnsolicited [OF ReadResult(3)] stamp_load_eq [OF ReadResult(4)] by simp
  moreover have "out_gens (w_caller w) q \<subseteq> out_gens (w_caller w) (w_cli w)"
    using ReadResult(2) by (auto simp: cli_result_def out_gens_def)
  ultimately show ?case using ReadResult(1,6)
    by (auto simp: armed_def armed_ok_def core_def over_def in_stamp_def)
next
  case (ReadFatal w ev now s sev)
  with stamp_load_eq [OF ReadFatal(3)] show ?case
    by (simp add: armed_def armed_ok_def core_def over_def in_stamp_def)
next
  case (StampStore w ev sev)
  then show ?case by (simp add: armed_def armed_ok_def in_stamp_def)
next
  case (Track w ev sev)
  then have "fatal_event ev \<or> (\<exists>e. ev = EvResult e)" by (auto simp: world_ok_def reader_ok_def)
  then have "ss_state (trackState ev (w_s w)) \<noteq> StateRunning"
    using core_track [of ev "w_s w"] by (auto simp: core_def split: if_splits)
  then show ?case by (simp add: armed_def armed_ok_def)
next
  case (Send w ev sev now)
  have "core (pumpSendStamped now sev (w_s w)) = core (w_s w)" by simp
  with Send show ?case by (simp add: armed_def armed_ok_def core_def over_def in_stamp_def)
next
  case (Count w s g)
  then show ?case by (auto simp: armed_def armed_ok_def arm_count_def out_gens_def)
next
  case (Eof w)
  then show ?case by (simp add: armed_def armed_ok_def over_def)
next
  case (Exit w now x)
  then show ?case by (simp add: armed_def armed_ok_def over_def)
next
  case (Shutdown w)
  then show ?case by (simp add: armed_def armed_ok_def over_def)
qed (simp_all add: armed_same)

section \<open>Reachable worlds\<close>

lemma init_ok:
  "world_ok P (init_world (newSession b t c i))
   \<and> gens_ok CIdle (tags (newSession b t c i)) \<and> armed (init_world (newSession b t c i))"
  by (simp add: world_ok_def init_world_def newSession_def core_def control_defs reader_ok_def
      freight_ok_def gens_ok_def tags_def armed_def armed_ok_def newEventRouter_def)

lemma reachable_ok:
  "reachable P (newSession b t c i) w \<Longrightarrow>
     world_ok P w \<and> gens_ok (w_caller w) (tags (w_s w)) \<and> armed w"
proof (induction rule: reachable.induct)
  case Init
  from init_ok show ?case by (simp add: init_world_def)
next
  case (Next w w')
  with world_ok_step gens_ok_step armed_step show ?case by blast
qed

text \<open>A run: one query, submitted and written, its answer read, tracked, sent and delivered.\<close>

definition sample_message :: Message where
  "sample_message = \<lparr>msg_Text = ''hi'', msg_Blocks = [], msg_FromHuman = True\<rparr>"

definition sample_ready :: Session where
  "sample_ready = EnableRouting 0 (connect_ready (newSession False 0 0 0))"

definition sample_written :: Session where
  "sample_written =
     fst (sendUserMessage sample_message WriteOk
            (arm_store 1 (arm_handle 1 (fst (arm_count (fst (prepareQuery sample_ready)))))))"

definition sample_sent :: Session where
  "sample_sent =
     pumpSendStamped 5 \<lparr>sv_ev = PEvent (EvResult sample_result), sv_at = 5, sv_gen = 1\<rparr>
       (trackState (EvResult sample_result)
         (stamp_store (PEvent (EvResult sample_result))
           (fst (stamp_load 5 (PEvent (EvResult sample_result)) (noteTurnEnd sample_result sample_written)))))"

definition sample_delivered :: Session where
  "sample_delivered = the (pump_deliver 6 (the (pump_deliver 6 sample_sent)))"

lemmas sample_defs = sample_ready_def sample_written_def EnableRouting_def
  connect_ready_def newSession_def sendEvent_def stamp_def stamp_load_def stamp_store_def
  ends_query_def pumpSendRaw_def prepareQuery_def arm_count_def arm_handle_def arm_locked_def
  detachLocked_def newEventRouter_def arm_store_def sendUserMessage_def send_count_def
  send_write_def writeStdin_def writeStdinTimeout_def Let_def

lemma sample_reaches_ready:
  "reachable P (newSession False 0 0 0) (init_world sample_ready)"
proof -
  have "reachable P (newSession False 0 0 0)
      ((init_world (newSession False 0 0 0))\<lparr>w_s := connect_ready (newSession False 0 0 0)\<rparr>)"
    using reachable.Next [OF reachable.Init step.Ready] by (simp add: init_world_def)
  from reachable.Next [OF this step.Enable [where now = 0]] show ?thesis
    by (simp add: init_world_def sample_ready_def)
qed

lemma sample_reaches_written:
  "reachable P (newSession False 0 0 0) ((init_world sample_written)\<lparr>w_cli := [(1, False)]\<rparr>)"
proof -
  define s1 where "s1 = fst (prepareQuery sample_ready)"
  define s2 where "s2 = fst (arm_count s1)"
  define s3 where "s3 = arm_handle 1 s2"
  define s4 where "s4 = arm_store 1 s3"
  note d = s1_def s2_def s3_def s4_def
  have g: "prepareQuery sample_ready = (s1, None)" "arm_count s1 = (s2, 1)"
    "\<not> er_shutdown (ss_router s2)" "ss_routed sample_ready" "ss_genCounter s1 + 1 \<noteq> 0"
    "sendUserMessage sample_message WriteOk s4 = (sample_written, None)" "length (ss_handles s2) = 0"
    by (simp_all add: d sample_defs)
  let ?w = "init_world sample_ready"
  have "step P ?w (?w\<lparr>w_s := s1, w_caller := CPrepared\<rparr>)"
    by (rule step.Prepare) (use g in \<open>simp_all add: init_world_def\<close>)
  from reachable.Next [OF sample_reaches_ready this]
  have r1: "reachable P (newSession False 0 0 0) ((init_world s1)\<lparr>w_caller := CPrepared\<rparr>)"
    by (simp add: init_world_def)
  have "step P ((init_world s1)\<lparr>w_caller := CPrepared\<rparr>)
      ((init_world s1)\<lparr>w_caller := CPrepared\<rparr>\<lparr>w_s := s2, w_caller := CCounted 1\<rparr>)"
    by (rule step.Count) (use g in \<open>simp_all add: init_world_def\<close>)
  from reachable.Next [OF r1 this]
  have r2: "reachable P (newSession False 0 0 0) ((init_world s2)\<lparr>w_caller := CCounted 1\<rparr>)"
    by (simp add: init_world_def)
  have "reachable P (newSession False 0 0 0) ((init_world s3)\<lparr>w_caller := CArmed 1 0\<rparr>)"
    using reachable.Next [OF r2 step.Arm [of _ 1]] g by (simp add: init_world_def s3_def)
  from reachable.Next [OF this step.Store [of _ 1 0]]
  have r4: "reachable P (newSession False 0 0 0) ((init_world s4)\<lparr>w_caller := CStored 1 0\<rparr>)"
    by (simp add: init_world_def s4_def)
  show ?thesis
    using reachable.Next [OF r4 step.Write [of _ 1 0]] g by (simp add: init_world_def)
qed

lemma sample_origin: "re_Origin sample_result = None"
  by (simp add: sample_result_def newResultEvent_def parseOrigin_def)

lemma sample_reaches_sent: "reachable (\<lambda>_. 1) (newSession False 0 0 0) (init_world sample_sent)"
proof -
  let ?P = "\<lambda>_ :: ResultEvent. 1 :: gen" and ?ev = "EvResult sample_result"
  define t1 where "t1 = noteTurnEnd sample_result sample_written"
  define t2 where "t2 = fst (stamp_load 5 (PEvent ?ev) t1)"
  define t3 where "t3 = stamp_store (PEvent ?ev) t2"
  define t4 where "t4 = trackState ?ev t3"
  let ?sev = "\<lparr>sv_ev = PEvent ?ev, sv_at = 5, sv_gen = 1\<rparr>"
  have a: "ss_activeGen t1 = 1"
    by (simp add: t1_def noteTurnEnd_def sample_defs)
  have g: "observeUnsolicitedResult 5 sample_result t1 = (t1, sample_result, None)"
    "stamp_load 5 (PEvent ?ev) t1 = (t2, ?sev)"
    "cli_result ?P sample_result [(1, False)] []"
    using a by (auto simp: observeUnsolicitedResult_def sample_origin IsTaskNotification_def t2_def
        stamp_load_def cli_result_def sample_result_solicited)
  let ?w = "(init_world sample_written)\<lparr>w_cli := [(1, False)]\<rparr>"
  have "step ?P ?w (?w\<lparr>w_s := t2, w_reader := RLoaded ?ev ?sev, w_cli := []\<rparr>)"
    by (rule step.ReadResult [where e = sample_result and now = 5 and s = t1])
       (use g in \<open>simp_all add: init_world_def t1_def\<close>)
  from reachable.Next [OF sample_reaches_written this]
  have "reachable ?P (newSession False 0 0 0) ((init_world t2)\<lparr>w_reader := RLoaded ?ev ?sev\<rparr>)"
    by (simp add: init_world_def)
  from reachable.Next [OF this step.StampStore [of _ ?ev ?sev]]
  have "reachable ?P (newSession False 0 0 0) ((init_world t3)\<lparr>w_reader := RStored ?ev ?sev\<rparr>)"
    by (simp add: init_world_def t3_def)
  from reachable.Next [OF this step.Track [of _ ?ev ?sev]]
  have "reachable ?P (newSession False 0 0 0) ((init_world t4)\<lparr>w_reader := RTracked ?ev ?sev\<rparr>)"
    by (simp add: init_world_def t4_def)
  from reachable.Next [OF this step.Send [of _ ?ev ?sev _ 5]] show ?thesis
    by (simp add: init_world_def sample_sent_def t4_def t3_def t2_def t1_def)
qed

lemma sample_pumps:
  "\<exists>s. pump_deliver 6 sample_sent = Some s \<and> pump_deliver 6 s = Some sample_delivered
     \<and> map qh_ch (ss_handles sample_delivered) = [[EvResult sample_result]]
     \<and> map qh_gen (ss_handles sample_delivered) = [1]"
proof -
  have "\<exists>s. pump_deliver 6 sample_sent = Some s \<and>
      (\<exists>s'. pump_deliver 6 s = Some s' \<and> map qh_ch (ss_handles s') = [[EvResult sample_result]]
          \<and> map qh_gen (ss_handles s') = [1])"
    by (simp add: sample_sent_def pumpSendStamped_def observe_def moveTo_def newActivityTracker_def
        emitTransition_def trackState_def close_ready_def noteTurnEnd_def sample_defs
        pump_deliver_def pump_stamp_def routeStamped_def flushLegacyBuffered_def route_event_def
        live_handle_def mailbox_send_def queryMailboxCap_def)
  then show ?thesis by (auto simp: sample_delivered_def)
qed

lemma sample_reaches_delivered:
  "reachable (\<lambda>_. 1) (newSession False 0 0 0) (init_world sample_delivered)"
proof -
  obtain s where s: "pump_deliver 6 sample_sent = Some s" "pump_deliver 6 s = Some sample_delivered"
    using sample_pumps by auto
  have "reachable (\<lambda>_. 1) (newSession False 0 0 0) (init_world s)"
    using reachable.Next [OF sample_reaches_sent step.Pump] s(1) by (simp add: init_world_def)
  from reachable.Next [OF this step.Pump] s(2) show ?thesis by (simp add: init_world_def)
qed

section \<open>Properties\<close>

text \<open>
  C1: A buffered old result never answers the next question: in every reachable interleaving of
  callers, reader, pump, failing writes, detaches and the end of the session, the results in the
  mailbox of a query are answers to the prompt of that very query and never the results of turns the
  CLI started itself, and no two queries share a generation.
\<close>

theorem answers_reach_only_their_query:
  assumes "reachable P (newSession b t c i) w"
    and "h \<in> set (ss_handles (w_s w))" and "EvResult e \<in> set (qh_ch h)"
  shows "P e = qh_gen h \<and> \<not> re_Unsolicited e \<and> distinct (map qh_gen (ss_handles (w_s w)))"
  using reachable_ok [OF assms(1)] assms(2,3)
  by (auto simp: world_ok_def freight_ok_def list_all_iff box_ok_def gens_ok_def tags_def)

theorem answers_reach_only_their_query_witness:
  "(1 :: gen) = qh_gen (hd (ss_handles sample_delivered)) \<and> \<not> re_Unsolicited sample_result
     \<and> distinct (map qh_gen (ss_handles sample_delivered))"
proof -
  have m: "map qh_ch (ss_handles sample_delivered) = [[EvResult sample_result]]"
    using sample_pumps by blast
  then have h: "hd (ss_handles sample_delivered) \<in> set (ss_handles sample_delivered)"
    "EvResult sample_result \<in> set (qh_ch (hd (ss_handles sample_delivered)))"
    by (cases "ss_handles sample_delivered"; simp)+
  show ?thesis
    using answers_reach_only_their_query [OF sample_reaches_delivered, of _ sample_result] h
    by (simp add: init_world_def)
qed

text \<open>
  C2: The answer is not lost on the way in: whenever a query runs whose prompt reached the CLI and
  no failed submission is being cleaned up, the reader stamps the next result with the generation of
  that query.
\<close>

theorem answer_is_stamped_with_its_query:
  assumes "reachable P (newSession b t c i) w"
    and "ss_state (w_s w) = StateRunning" and "w_cli w = [(g, echoed)]"
    and "w_reader w = RIdle" and "settled (w_failing w)"
  shows "sv_gen (snd (stamp now (PEvent (EvResult e)) (w_s w))) = g"
proof -
  have "armed w" using reachable_ok [OF assms(1)] by simp
  then have "ss_activeGen (w_s w) = g"
    using assms by (auto simp: armed_def armed_ok_def over_def in_stamp_def out_gens_def)
  then show ?thesis by (simp add: stamp_def stamp_load_def)
qed

theorem answer_is_stamped_with_its_query_witness:
  "sv_gen (snd (stamp 9 (PEvent (EvResult sample_result)) sample_written)) = 1"
proof -
  have "ss_state sample_written = StateRunning" by (simp add: sample_defs)
  then show ?thesis
    using answer_is_stamped_with_its_query [OF sample_reaches_written, of 1 False]
    by (simp add: init_world_def settled_def)
qed

text \<open>
  C3: Queries are accepted one at a time: whenever a query is accepted, no other one is being
  submitted, no prompt is waiting for its answer, and no answer is on its way into the state.
\<close>

theorem queries_are_accepted_one_at_a_time:
  assumes "reachable P (newSession b t c i) w" and "prepareQuery (w_s w) = (s, None)"
  shows "w_caller w = CIdle \<and> w_cli w = [] \<and> \<not> mid_result (w_reader w)"
proof -
  have "ss_state (w_s w) = StateIdle" using core_prepare assms(2) by blast
  moreover have "control_ok (w_caller w) (w_reader w) (w_cli w) (core (w_s w))"
    using reachable_ok [OF assms(1)] by (simp add: world_ok_def)
  ultimately show ?thesis by (auto simp: control_ok_def core_def busy_def)
qed

theorem queries_are_accepted_one_at_a_time_witness:
  "w_caller (init_world sample_ready) = CIdle \<and> w_cli (init_world sample_ready) = []
     \<and> \<not> mid_result (w_reader (init_world sample_ready))"
proof (rule queries_are_accepted_one_at_a_time [OF sample_reaches_ready [of "\<lambda>_. 0"]])
  show "prepareQuery (w_s (init_world sample_ready)) = (fst (prepareQuery sample_ready), None)"
    by (simp add: init_world_def sample_defs)
qed

end
