(* ===== verification/Session_Text.thy ===== *)
theory Session_Text
  imports Session_Read
begin

text \<open>
  What the read loop of a session puts on the pump, line by line: the books it keeps on the text of a
  turn agree with the text events it emits.
\<close>

section \<open>The events on the pump\<close>

definition on_pump :: "Session \<Rightarrow> event list" where
  "on_pump s =
     concat (map (\<lambda>it. case it of
                         Stamped sev \<Rightarrow> (case sv_ev sev of PEvent ev \<Rightarrow> [ev] | PBarrier \<Rightarrow> [])
                       | Unstamped ev \<Rightarrow> [ev]) (ss_pump s))"

text \<open>The texts of the turn that is going on: since the last init or result.\<close>

fun turn_texts :: "string list \<Rightarrow> event list \<Rightarrow> string list" where
  "turn_texts acc [] = acc"
| "turn_texts acc (ev # evs) =
     turn_texts
       (case ev of EvText e \<Rightarrow> acc @ [tx_Content e] | EvInit _ \<Rightarrow> [] | EvResult _ \<Rightarrow> [] | _ \<Rightarrow> acc) evs"

fun turn_carry :: "string list \<Rightarrow> event list \<Rightarrow> bool" where
  "turn_carry acc [] = True"
| "turn_carry acc (ev # evs) =
     ((case ev of EvResult r \<Rightarrow> re_Text r = concat acc | _ \<Rightarrow> True)
      \<and> turn_carry (turn_texts acc [ev]) evs)"

definition neutral :: "event \<Rightarrow> bool" where
  "neutral ev = (case ev of EvText _ \<Rightarrow> False | EvInit _ \<Rightarrow> False | EvResult _ \<Rightarrow> False | _ \<Rightarrow> True)"

lemma turn_texts_append: "turn_texts acc (xs @ ys) = turn_texts (turn_texts acc xs) ys"
  by (induction xs arbitrary: acc) auto

lemma turn_carry_append:
  "turn_carry acc (xs @ ys) \<longleftrightarrow> turn_carry acc xs \<and> turn_carry (turn_texts acc xs) ys"
  by (induction xs arbitrary: acc) auto

lemma neutral_one: "neutral ev \<Longrightarrow> turn_texts acc [ev] = acc \<and> turn_carry acc [ev]"
  by (cases ev) (auto simp: neutral_def)

lemma neutral_list: "list_all neutral evs \<Longrightarrow> turn_texts acc evs = acc \<and> turn_carry acc evs"
proof (induction evs arbitrary: acc)
  case (Cons ev evs)
  then show ?case by (cases ev) (auto simp: neutral_def)
qed simp

section \<open>Growing\<close>

text \<open>From \<open>s\<close> to \<open>s'\<close> the pump grows by events that keep the books, from texts \<open>a\<close> to texts \<open>b\<close>.\<close>

definition grows :: "string list \<Rightarrow> Session \<Rightarrow> Session \<Rightarrow> string list \<Rightarrow> bool" where
  "grows a s s' b \<longleftrightarrow>
     (\<exists>evs. on_pump s' = on_pump s @ evs \<and> turn_texts a evs = b \<and> turn_carry a evs)"

lemma grows_same: "ss_pump s' = ss_pump s \<Longrightarrow> grows a s s' a"
  by (auto simp: grows_def on_pump_def)

lemma grows_trans: "grows a s s1 b \<Longrightarrow> grows b s1 s2 c \<Longrightarrow> grows a s s2 c"
  unfolding grows_def by (metis append_assoc turn_carry_append turn_texts_append)

lemma pump_stamp_parts [simp]:
  "ss_pump (fst (stamp now p s)) = ss_pump s" "sv_ev (snd (stamp now p s)) = p"
  by (simp_all add: stamp_def stamp_load_def stamp_store_def)

lemma trackState_pump [simp]: "ss_pump (trackState ev s) = ss_pump s"
  by (simp add: trackState_def close_ready_def split: event.split)

lemma grows_raw:
  "sv_ev sev = PEvent ev \<Longrightarrow> turn_carry a [ev] \<Longrightarrow> grows a s (pumpSendRaw sev s) (turn_texts a [ev])"
  unfolding grows_def by (rule exI [of _ "[ev]"]) (simp add: on_pump_def pumpSendRaw_def)

lemma grows_transition: "grows a s (emitTransition tr arr g s) a"
proof (cases tr)
  case (Some e)
  have "grows a s (pumpSendRaw \<lparr>sv_ev = PEvent (EvCLIStateChange e), sv_at = arr, sv_gen = g\<rparr> s)
      (turn_texts a [EvCLIStateChange e])"
    by (rule grows_raw) simp_all
  with Some show ?thesis by (simp add: emitTransition_def grows_def on_pump_def)
qed (simp add: emitTransition_def grows_same)

lemma grows_stamped:
  assumes "sv_ev sev = PEvent ev" "turn_carry a [ev]"
  shows "grows a s (pumpSendStamped now sev s) (turn_texts a [ev])"
proof -
  obtain act tr where o: "observe now ev (ss_activity s) = (act, tr)" by fastforce
  have "grows a s (emitTransition tr (sv_at sev) (sv_gen sev) (s\<lparr>ss_activity := act\<rparr>)) a"
    by (rule grows_trans [OF grows_same grows_transition]) simp
  from grows_trans [OF this grows_raw [OF assms]] show ?thesis
    by (simp add: pumpSendStamped_def assms(1) o)
qed

lemma grows_send: "turn_carry a [ev] \<Longrightarrow> grows a s (pumpSend now ev s) (turn_texts a [ev])"
proof -
  assume c: "turn_carry a [ev]"
  obtain s1 sev where st: "stamp now (PEvent ev) s = (s1, sev)" by fastforce
  have "grows a s s1 a" using pump_stamp_parts(1) [of now "PEvent ev" s] st by (intro grows_same) simp
  moreover have "sv_ev sev = PEvent ev" using pump_stamp_parts(2) [of now "PEvent ev" s] st by simp
  ultimately show ?thesis using grows_trans grows_stamped [OF _ c] st by (simp add: pumpSend_def)
qed

lemma grows_tracked: "turn_carry a [ev] \<Longrightarrow> grows a s (send_tracked now ev s) (turn_texts a [ev])"
proof -
  assume c: "turn_carry a [ev]"
  obtain s1 sev where st: "stamp now (PEvent ev) s = (s1, sev)" by fastforce
  have "grows a s (trackState ev s1) a"
    using pump_stamp_parts(1) [of now "PEvent ev" s] st by (intro grows_same) simp
  moreover have "sv_ev sev = PEvent ev" using pump_stamp_parts(2) [of now "PEvent ev" s] st by simp
  ultimately show ?thesis
    using grows_trans grows_stamped [OF _ c] st by (simp add: send_tracked_def)
qed

lemma grows_neutral: "neutral ev \<Longrightarrow> grows a s (pumpSend now ev s) a"
  using grows_send [of a ev s now] neutral_one [of ev a] by simp

lemma grows_sends: "turn_carry a evs \<Longrightarrow> grows a s (pump_sends now evs s) (turn_texts a evs)"
proof (induction evs arbitrary: a s)
  case Nil
  show ?case by (simp add: pump_sends_def grows_same)
next
  case (Cons ev evs)
  have "grows a s (pumpSend now ev s) (turn_texts a [ev])"
    using Cons.prems by (intro grows_send) simp
  moreover have "grows (turn_texts a [ev]) (pumpSend now ev s) (pump_sends now evs (pumpSend now ev s))
      (turn_texts (turn_texts a [ev]) evs)"
    using Cons.prems by (intro Cons.IH) simp
  ultimately show ?case
    using grows_trans by (simp add: pump_sends_def)
qed

lemma grows_sendEvent: "neutral ev \<Longrightarrow> grows a s (sendEvent now (PEvent ev) s) a"
proof -
  assume n: "neutral ev"
  obtain s1 sev where st: "stamp now (PEvent ev) s = (s1, sev)" by fastforce
  have "grows a s s1 a" using pump_stamp_parts(1) [of now "PEvent ev" s] st by (intro grows_same) simp
  moreover have "grows a s1 (pumpSendRaw sev s1) a"
    using grows_raw [of sev ev a s1] pump_stamp_parts(2) [of now "PEvent ev" s] st neutral_one [OF n, of a]
    by simp
  ultimately show ?thesis
    using grows_trans st by (auto simp: sendEvent_def grows_same)
qed

section \<open>Lines\<close>

lemma decode_system_neutral: "decode_system raw line b = (b', Some (Some e)) \<Longrightarrow> neutral e"
  by (auto simp: decode_system_def Let_def neutral_def split: if_splits prod.splits)

lemma decodeStatelessEvent_neutral:
  "decodeStatelessEvent raw line b = (b', Some (Some e)) \<Longrightarrow> neutral e"
  by (auto simp: decodeStatelessEvent_def Let_def neutral_def
      dest: decode_system_neutral [unfolded neutral_def] split: if_splits)

lemma content_events_turn:
  "turn_texts acc (content_events meta bs) = acc @ content_texts meta bs
   \<and> turn_carry acc (content_events meta bs)"
proof (induction bs arbitrary: acc)
  case Nil
  show ?case by (simp add: content_events_def content_texts_def)
next
  case (Cons b bs)
  have one: "turn_texts acc (snd (parseContentBlock b meta)) = acc @ fst (parseContentBlock b meta)"
    "turn_carry acc (snd (parseContentBlock b meta))"
    by (simp_all add: parseContentBlock_def Let_def tool_use_event_def)
  have "content_events meta (b # bs) = snd (parseContentBlock b meta) @ content_events meta bs"
    "content_texts meta (b # bs) = fst (parseContentBlock b meta) @ content_texts meta bs"
    by (simp_all add: content_events_def content_texts_def)
  with one Cons [of "acc @ fst (parseContentBlock b meta)"] show ?case
    by (simp add: turn_texts_append turn_carry_append)
qed

lemma notePromptEcho_pump [simp]: "ss_pump (notePromptEcho ue s) = ss_pump s"
  by (simp add: notePromptEcho_def)

lemma read_stateless_grows:
  "(\<And>e. ev = Some e \<Longrightarrow> neutral e) \<Longrightarrow> grows a s (read_stateless now ev s) a"
proof (cases ev)
  case (Some e)
  moreover assume "\<And>e. ev = Some e \<Longrightarrow> neutral e"
  ultimately have n: "neutral e" by simp
  have u: "grows a s (pumpSend now e s') a" if "ss_pump s' = ss_pump s" for s'
    by (rule grows_trans [OF grows_same [OF that] grows_neutral [OF n]])
  then show ?thesis using Some n
    by (cases e) (auto simp: read_stateless_def Let_def setCommands_def intro: u grows_same)
qed (simp add: read_stateless_def grows_same)

lemma read_result_errors_neutral: "list_all neutral (read_result_errors raw b)"
  by (simp add: read_result_errors_def non_fatal_def neutral_def split: option.split)

lemma observe_result_parts:
  assumes "observeUnsolicitedResult now ev s = (s', ev', tr)"
  shows "ss_pump s' = ss_pump s" "re_Text ev' = re_Text ev"
  using assms by (auto simp: observeUnsolicitedResult_def Let_def split: if_splits prod.splits)

lemma finish_result_grows:
  assumes "re_Text ev = concat a"
  shows "grows a s (finish_result now ev s) []"
proof -
  obtain s1 ev1 tr where o: "observeUnsolicitedResult now ev (noteTurnEnd ev s) = (s1, ev1, tr)"
    by (metis prod_cases3)
  have g: "grows a s s1 a"
    by (rule grows_same) (simp add: observe_result_parts(1) [OF o] noteTurnEnd_def Let_def)
  have c: "turn_carry a [EvResult ev1]" using observe_result_parts(2) [OF o] assms by simp
  show ?thesis
  proof (cases tr)
    case None
    have "grows a s1 (send_tracked now (EvResult ev1) s1) []"
      using grows_tracked [OF c] by simp
    with g o None show ?thesis using grows_trans by (simp add: finish_result_def)
  next
    case (Some t)
    obtain s2 sev where st: "stampNoQuery now (EvResult ev1) s1 = (s2, sev)" by fastforce
    then have "ss_pump s2 = ss_pump s1" and e: "sv_ev sev = PEvent (EvResult ev1)"
      by (auto simp: stampNoQuery_def)
    then have "grows a s s2 a" using g grows_same grows_trans by blast
    then have "grows a s (emitTransition t (sv_at sev) (ss_activeGen s2) s2) a"
      using grows_transition grows_trans by blast
    from grows_trans [OF this grows_raw [OF e c]] o Some st show ?thesis
      by (simp add: finish_result_def)
  qed
qed

text \<open>One line: the loop's text is what the pump's events say it is.\<close>

lemma read_init_grows:
  "grows a s (snd (read_init now raw (r, s))) [] \<and> rl_resultText (fst (read_init now raw (r, s))) = []"
proof -
  let ?ev = "EvInit ((parseInitEvent raw)\<lparr>ini_Unsolicited := noteTurnStart s\<rparr>)"
  let ?s = "(trackState ?ev (s\<lparr>ss_sessionID := raw_SessionID raw\<rparr>))\<lparr>ss_ready := True\<rparr>"
  have "grows a s ?s a" by (rule grows_same) simp
  from grows_trans [OF this grows_send [of a ?ev ?s now]] show ?thesis
    by (simp add: read_init_def Let_def)
qed

lemma grows_sends_to:
  "turn_carry a evs \<Longrightarrow> turn_texts a evs = b \<Longrightarrow> grows a s (pump_sends now evs s) b"
  using grows_sends by blast

lemma read_assistant_grows:
  "grows (rl_resultText r) s (snd (read_assistant now raw m (r, s)))
     (rl_resultText (fst (read_assistant now raw m (r, s))))"
proof (cases "isAPIErrorMessage raw")
  case True
  have "grows a s (pumpSend now (non_fatal e) s) a" for a e
    by (rule grows_neutral) (simp add: neutral_def non_fatal_def)
  moreover have "grows a s (send_tracked now (EvError e) s) a" for a e
    using grows_tracked [of a "EvError e" s now] by simp
  ultimately show ?thesis using True by (simp add: read_assistant_def Let_def)
next
  case False
  let ?meta = "\<lparr>am_ParentToolUseID = string_or_empty (raw_ParentToolUseID raw),
      am_Model = rm_Model m, am_SubagentType = raw_SubagentType raw,
      am_TaskDescription = raw_TaskDescription raw\<rparr>"
  have "list_all neutral (context_management m)"
    by (simp add: context_management_def neutral_def split: option.split)
  note cm = neutral_list [OF this]
  have "grows a s (pump_sends now (turn @ content_events ?meta (rm_Content m) @ context_management m) s)
      (a @ content_texts ?meta (rm_Content m))" if "list_all neutral turn" for a turn
    using neutral_list [OF that] cm content_events_turn
    by (intro grows_sends_to) (simp_all add: turn_texts_append turn_carry_append)
  then show ?thesis
    using False by (simp add: read_assistant_def Let_def neutral_def)
qed

lemma read_result_grows:
  "grows (rl_resultText r) s (snd (read_result it now raw (r, s)))
     (rl_resultText (fst (read_result it now raw (r, s))))"
proof -
  obtain ctx snapshot where f: "ct_finish it (convertModelUsage (raw_ModelUsage raw)) (rl_ctxTracker r)
      = (ctx, snapshot)" by fastforce
  let ?ev = "newResultEvent raw (join [] (rl_resultText r)) (convertModelUsage (raw_ModelUsage raw)) snapshot"
  have "grows (rl_resultText r) s (pump_sends now (read_result_errors raw (rl_turnAPIErr r)) s) (rl_resultText r)"
    using grows_sends neutral_list [OF read_result_errors_neutral] by metis
  moreover have "re_Text ?ev = concat (rl_resultText r)" by (simp add: newResultEvent_def join_Nil_sep)
  ultimately have "grows (rl_resultText r) s
      (finish_result now ?ev (pump_sends now (read_result_errors raw (rl_turnAPIErr r)) s)) []"
    using finish_result_grows grows_trans by blast
  then show ?thesis by (simp add: read_result_def f Let_def)
qed

lemma read_stream_event_grows:
  "grows (rl_resultText r) s (snd (read_stream_event it now raw (r, s)))
     (rl_resultText (fst (read_stream_event it now raw (r, s))))"
proof -
  obtain ctx cs where o: "ct_observe it (Some (observedContextWindow it (ss_contextWindows s)))
      (raw_Event raw) (raw_SessionID raw) (rl_ctxTracker r) = (ctx, cs)" by fastforce
  have "list_all neutral (EvStream x # (case cs of None \<Rightarrow> [] | Some e \<Rightarrow> [EvContextSnapshot e]))" for x
    by (simp add: neutral_def split: option.split)
  note n = neutral_list [OF this]
  show ?thesis using n by (simp add: read_stream_event_def o grows_sends_to del: turn_texts.simps(2) turn_carry.simps(2))
qed

lemma handleControlResponse_grows: "grows a s (handleControlResponse now line s) a"
  by (auto simp: handleControlResponse_def deliver_reply_def neutral_def
      intro!: grows_same grows_sendEvent split: prod.split)

lemma read_stateful_grows:
  "grows (rl_resultText r) s (snd (read_stateful it now raw line (r, s)))
     (rl_resultText (fst (read_stateful it now raw line (r, s))))"
proof -
  have i: "grows a s (snd (read_init now raw (r, s))) []" for a using read_init_grows by blast
  have "neutral (EvUnknown u)" "neutral (EvError e)" for u e by (simp_all add: neutral_def)
  note n = this [THEN grows_neutral]
  show ?thesis
    using i read_init_grows read_assistant_grows read_result_grows read_stream_event_grows
      handleControlResponse_grows n grows_same
    by (auto simp: read_stateful_def Let_def inbound_cancel_def read_error_def
        intro!: grows_same split: option.split)
qed

lemma read_line_grows:
  "grows (rl_resultText r) s (snd (read_line it now line (r, s)))
     (rl_resultText (fst (read_line it now line (r, s))))"
proof -
  have z: "grows a s (s\<lparr>ss_lastStdoutAt := now\<rparr>) a" for a by (rule grows_same) simp
  have e: "grows a s' (pumpSend now (line_error line) s') a" for a s'
    by (rule grows_neutral) (simp add: line_error_def non_fatal_def neutral_def)
  have g: "grows (rl_resultText r) s' (snd (read_event it now raw line (r, s')))
      (rl_resultText (fst (read_event it now raw line (r, s'))))" for raw s'
  proof -
    obtain b ev where d: "decodeStatelessEvent raw line (rl_backfill r) = (b, ev)" by fastforce
    show ?thesis
    proof (cases ev)
      case None
      with d read_stateful_grows [of "r\<lparr>rl_backfill := b\<rparr>" s' it now raw line] show ?thesis
        by (simp add: read_event_def)
    next
      case (Some ev')
      have "neutral e" if "ev' = Some e" for e
        using d Some that decodeStatelessEvent_neutral by simp
      then have "grows (rl_resultText r) s' (read_stateless now ev' s') (rl_resultText r)"
        by (rule read_stateless_grows)
      with d Some show ?thesis by (simp add: read_event_def)
    qed
  qed
  show ?thesis
    using grows_trans [OF z e] grows_trans [OF z g] z
    by (simp add: read_line_def Let_def split: option.split)
qed

lemma read_lines_grows:
  "grows (rl_resultText (fst rs)) (snd rs) (snd (read_lines it ls rs)) (rl_resultText (fst (read_lines it ls rs)))"
proof (induction ls arbitrary: rs)
  case Nil
  show ?case by (simp add: read_lines_def grows_same)
next
  case (Cons l ls)
  obtain now line where l: "l = (now, line)" by fastforce
  obtain r s where rs: "rs = (r, s)" by fastforce
  have "grows (rl_resultText r) s (snd (read_line it now line (r, s)))
      (rl_resultText (fst (read_line it now line (r, s))))"
    by (rule read_line_grows)
  from grows_trans [OF this Cons.IH [of "read_line it now line (r, s)"]] show ?case
    by (simp add: read_lines_def l rs)
qed

text \<open>
  C31: In a session every result carries exactly the text of its own turn: whatever lines the CLI
  writes and whatever state the session is in, the text of each result the read loop puts on the pump
  is the concatenation of the text blocks it put there since the last init or result.
\<close>

theorem session_results_carry_their_text:
  assumes "on_pump (snd (read_lines it ls (init_reader, s))) = on_pump s @ xs @ EvResult r # ys"
  shows "re_Text r = concat (turn_texts [] xs)"
proof -
  obtain evs where "on_pump (snd (read_lines it ls (init_reader, s))) = on_pump s @ evs" "turn_carry [] evs"
    using read_lines_grows [of "(init_reader, s)" it ls] by (auto simp: grows_def init_reader_def)
  with assms show ?thesis by (simp add: turn_carry_append)
qed

text \<open>A sample: one result line.\<close>

lemma on_pump_raw:
  "sv_ev sev = PEvent ev \<Longrightarrow> on_pump (pumpSendRaw sev s) = on_pump s @ [ev]"
  by (simp add: on_pump_def pumpSendRaw_def)

lemma finish_result_last:
  "\<exists>evs r. on_pump (finish_result now ev s) = on_pump s @ evs @ [EvResult r]"
proof -
  obtain s1 ev1 tr where o: "observeUnsolicitedResult now ev (noteTurnEnd ev s) = (s1, ev1, tr)"
    by (metis prod_cases3)
  have p: "on_pump s1 = on_pump s"
    using observe_result_parts(1) [OF o] by (simp add: on_pump_def noteTurnEnd_def Let_def)
  have t: "\<exists>evs. on_pump (emitTransition t arr g s') = on_pump s' @ evs" for t arr g s'
    using grows_transition [of "[]" s' t arr g] by (auto simp: grows_def)
  show ?thesis
  proof (cases tr)
    case None
    obtain s2 sev where st: "stamp now (PEvent (EvResult ev1)) s1 = (s2, sev)" by fastforce
    have e: "sv_ev sev = PEvent (EvResult ev1)" and q: "on_pump s2 = on_pump s1"
      using pump_stamp_parts [of now "PEvent (EvResult ev1)" s1] st by (simp_all add: on_pump_def)
    obtain act trn where ob: "observe now (EvResult ev1) (ss_activity (trackState (EvResult ev1) s2)) = (act, trn)"
      by fastforce
    obtain evs where "on_pump (emitTransition trn (sv_at sev) (sv_gen sev)
          ((trackState (EvResult ev1) s2)\<lparr>ss_activity := act\<rparr>)) = on_pump s @ evs"
      using t [of trn "sv_at sev" "sv_gen sev" "(trackState (EvResult ev1) s2)\<lparr>ss_activity := act\<rparr>"] p q
      by (auto simp: on_pump_def)
    with on_pump_raw [OF e] o None st ob e show ?thesis
      by (auto simp: finish_result_def send_tracked_def pumpSendStamped_def)
  next
    case (Some tx)
    obtain s2 sev where st: "stampNoQuery now (EvResult ev1) s1 = (s2, sev)" by fastforce
    then have e: "sv_ev sev = PEvent (EvResult ev1)" and "ss_pump s2 = ss_pump s1"
      by (auto simp: stampNoQuery_def)
    then have q: "on_pump s2 = on_pump s1" by (simp add: on_pump_def)
    obtain evs where "on_pump (emitTransition tx (sv_at sev) (ss_activeGen s2) s2) = on_pump s @ evs"
      using t [of tx "sv_at sev" "ss_activeGen s2" s2] p q by auto
    with on_pump_raw [OF e] o Some st show ?thesis by (auto simp: finish_result_def)
  qed
qed

lemma result_line_read:
  "\<exists>ev. snd (read_lines id [(now, result_line)] (init_reader, s))
      = finish_result now ev (s\<lparr>ss_lastStdoutAt := now\<rparr>)"
proof -
  have ne: "result_line \<noteq> []" by (simp add: result_line_def quoted_def)
  show ?thesis
    by (auto simp: read_lines_def read_line_def Let_def ne decode_result_line read_event_def
        decodeStatelessEvent_def read_stateful_def read_result_def read_result_errors_def resultError_def
        pump_sends_def split: prod.split)
qed

theorem session_results_carry_their_text_witness:
  "\<exists>xs r ys. on_pump (snd (read_lines id [(2, result_line)] (init_reader, newSession False 0 0 0)))
       = xs @ EvResult r # ys \<and> re_Text r = concat (turn_texts [] xs)"
proof -
  let ?s = "newSession False 0 0 0"
  have z: "on_pump ?s = []" "on_pump (?s\<lparr>ss_lastStdoutAt := 2\<rparr>) = []"
    by (simp_all add: on_pump_def newSession_def)
  obtain ev where "snd (read_lines id [(2, result_line)] (init_reader, ?s))
      = finish_result 2 ev (?s\<lparr>ss_lastStdoutAt := 2\<rparr>)"
    using result_line_read by blast
  then obtain evs r where p: "on_pump (snd (read_lines id [(2, result_line)] (init_reader, ?s)))
      = on_pump ?s @ evs @ EvResult r # []"
    using finish_result_last [of 2 ev "?s\<lparr>ss_lastStdoutAt := 2\<rparr>"] z by auto
  from session_results_carry_their_text [OF p] p z show ?thesis by auto
qed

end
