(* ===== verification/Go_Strings.thy ===== *)
theory Go_Strings
  imports Prelude
begin

text \<open>
  Facts on the functions of \<^verbatim>\<open>strings\<close> and \<^verbatim>\<open>strconv\<close> in \<open>Prelude\<close> that several components share: decimal
  numbers are read back, splitting undoes joining, trimming is idempotent.
\<close>

section \<open>Numbers in text\<close>

lemma digit_char_digit: "d < 10 \<Longrightarrow> is_digit (digit_char d)"
  by (simp add: is_digit_def digit_char_def)

lemma digit_val_char: "d < 10 \<Longrightarrow> digit_val (digit_char d) = d"
  by (simp add: digit_val_def digit_char_def)

lemma show_nat_digits: "list_all is_digit (show_nat n)"
  by (induction n rule: show_nat.induct) (subst show_nat.simps, auto simp: digit_char_digit)

lemma show_nat_not_Nil [simp]: "show_nat n \<noteq> []"
  by (subst show_nat.simps) simp

lemma read_nat_append: "read_nat a (xs @ ys) = read_nat (read_nat a xs) ys"
  by (induction a xs rule: read_nat.induct) auto

lemma read_show_nat [simp]: "read_nat 0 (show_nat n) = n"
  by (induction n rule: show_nat.induct)
    (subst show_nat.simps, auto simp: read_nat_append digit_val_char)

section \<open>Splitting and trimming\<close>

lemma split_on_sep:
  "split_on c (xs @ c # ys) = split_on c xs @ split_on c ys"
proof (induction xs)
  case (Cons x xs)
  then show ?case by (cases "split_on c xs") auto
qed simp

lemma split_join: "xs \<noteq> [] \<Longrightarrow> split_on c (join [c] xs) = concat (map (split_on c) xs)"
  by (induction "[c]" xs rule: join.induct) (simp_all add: split_on_sep)

lemma split_on_pieces: "p \<in> set (split_on c s) \<Longrightarrow> c \<notin> set p"
proof (induction s arbitrary: p)
  case (Cons x xs)
  then show ?case by (cases "split_on c xs") (auto split: if_splits)
qed simp

lemma split_on_none: "c \<notin> set s \<Longrightarrow> split_on c s = [s]"
  by (induction s) auto

lemma set_trim_seqs: "set (trim_seqs seqs s) \<subseteq> set s"
proof (induction seqs s rule: trim_seqs.induct)
  case (1 seqs s)
  have "set (drop (space_prefix seqs s) s) \<subseteq> set s" by (rule set_drop_subset)
  with 1 show ?case by (subst trim_seqs.simps) auto
qed

lemma set_trim_space: "set (trim_space s) \<subseteq> set s"
proof -
  have "set (trim_space s) \<subseteq> set (trim_left_space s)"
    using set_trim_seqs [of "map rev space_seqs" "rev (trim_left_space s)"]
    by (simp add: trim_space_def trim_right_space_def)
  also have "\<dots> \<subseteq> set s" by (simp add: trim_left_space_def set_trim_seqs)
  finally show ?thesis .
qed

text \<open>What is trimmed does not start with a blank, and neither does any prefix of it.\<close>

lemma trimmed_prefix: "space_prefix seqs (trim_seqs seqs s) = 0"
proof (induction seqs s rule: trim_seqs.induct)
  case (1 seqs s)
  then show ?case by (subst trim_seqs.simps) (auto simp: trim_seqs.simps [of seqs s])
qed

lemma trim_seqs_fixed: "space_prefix seqs s = 0 \<Longrightarrow> trim_seqs seqs s = s"
  by (subst trim_seqs.simps) simp

lemma space_prefix_0_iff:
  "[] \<notin> set seqs \<Longrightarrow> space_prefix seqs s = 0 \<longleftrightarrow> (\<forall>p \<in> set seqs. \<not> has_prefix s p)"
  by (auto simp: space_prefix_def filter_empty_conv neq_Nil_conv split: list.splits)
    (metis filter_eq_ConsD in_set_conv_decomp)+

lemma has_prefix_take: "has_prefix (take n s) p \<Longrightarrow> has_prefix s p"
  by (metis has_prefix_def length_take min_less_iff_conj nle_le take_all take_take min_def)

lemma trim_seqs_drop: "\<exists>k. trim_seqs seqs s = drop k s"
proof (induction seqs s rule: trim_seqs.induct)
  case (1 seqs s)
  show ?case
  proof (cases "space_prefix seqs s = 0")
    case True
    then show ?thesis by (metis drop_0 trim_seqs_fixed)
  next
    case False
    with 1 obtain k where "trim_seqs seqs (drop (space_prefix seqs s) s)
        = drop k (drop (space_prefix seqs s) s)" by blast
    with False show ?thesis by (metis drop_drop trim_seqs.simps)
  qed
qed

lemma space_seqs_no_Nil: "[] \<notin> set space_seqs"
  by (simp add: space_seqs_def)

lemma trim_space_idem: "trim_space (trim_space s) = trim_space s"
proof -
  define u where "u = trim_left_space s"
  define v where "v = trim_right_space u"
  have "space_prefix space_seqs u = 0" by (simp add: u_def trim_left_space_def trimmed_prefix)
  moreover have "\<exists>n. v = take n u"
    using trim_seqs_drop [of "map rev space_seqs" "rev u"]
    by (auto simp: v_def trim_right_space_def rev_drop)
  ultimately have "space_prefix space_seqs v = 0"
    unfolding space_prefix_0_iff [OF space_seqs_no_Nil] by (auto dest: has_prefix_take)
  then have "trim_left_space v = v" by (simp add: trim_left_space_def trim_seqs_fixed)
  moreover have "trim_right_space v = v"
    by (simp add: v_def trim_right_space_def trim_seqs_fixed trimmed_prefix)
  ultimately show ?thesis by (simp add: trim_space_def u_def v_def)
qed

text \<open>What is trimmed has no blank at either end, nor has a prefix of it a blank in front.\<close>

lemma trimmed_ends:
  assumes "trim_space r = r"
  shows "space_prefix space_seqs r = 0" "space_prefix (map rev space_seqs) (rev r) = 0"
proof -
  obtain k where k: "trim_left_space r = drop k r"
    using trim_seqs_drop by (auto simp: trim_left_space_def)
  let ?v = "trim_left_space r"
  obtain m where m: "trim_space r = rev (drop m (rev ?v))"
    using trim_seqs_drop [of "map rev space_seqs" "rev ?v"]
    by (auto simp: trim_space_def trim_right_space_def)
  have "length r = length (drop k r) - m" using assms m k by (metis length_drop length_rev)
  then have "k = 0 \<or> r = []" by (cases r) auto
  then have l: "?v = r" using k by (elim disjE) simp_all
  then show "space_prefix space_seqs r = 0"
    using trimmed_prefix [of space_seqs r] by (simp add: trim_left_space_def)
  from l assms have "rev (trim_seqs (map rev space_seqs) (rev r)) = r"
    by (simp add: trim_space_def trim_right_space_def)
  then have "trim_seqs (map rev space_seqs) (rev r) = rev r" by (metis rev_rev_ident)
  with trimmed_prefix [of "map rev space_seqs" "rev r"]
  show "space_prefix (map rev space_seqs) (rev r) = 0" by simp
qed

lemma has_suffix_iff: "has_suffix s p \<longleftrightarrow> (\<exists>q. s = q @ p)"
proof
  assume "has_suffix s p"
  then have "s = take (length s - length p) s @ p" by (metis append_take_drop_id has_suffix_def)
  then show "\<exists>q. s = q @ p" ..
qed (auto simp: has_suffix_def)

lemma has_suffix_drop: "has_suffix (drop n s) p \<Longrightarrow> has_suffix s p"
  by (metis append_take_drop_id append.assoc has_suffix_iff)

lemma trim_seqs_all:
  "trim_seqs seqs s = [] \<Longrightarrow> s \<noteq> [] \<Longrightarrow> \<exists>p \<in> set seqs. p \<noteq> [] \<and> has_suffix s p"
proof (induction seqs s rule: trim_seqs.induct)
  case (1 seqs s)
  let ?n = "space_prefix seqs s"
  have n: "?n \<noteq> 0" using 1 by (metis trim_seqs_fixed)
  show ?case
  proof (cases "drop ?n s = []")
    case True
    obtain p ps where f: "filter (has_prefix s) seqs = p # ps"
      using n by (cases "filter (has_prefix s) seqs") (auto simp: space_prefix_def)
    then have p: "p \<in> set seqs" "has_prefix s p" "?n = length p"
      by (auto simp: space_prefix_def dest: filter_eq_ConsD)
    then have "s = p" using True by (simp add: has_prefix_def)
    with p "1.prems" show ?thesis by (auto simp: has_suffix_def)
  next
    case False
    have "trim_seqs seqs (drop ?n s) = []" using "1.prems" n by (subst (asm) trim_seqs.simps) simp
    from "1.IH" [OF n this False] obtain p where "p \<in> set seqs" "p \<noteq> []" "has_suffix (drop ?n s) p"
      by blast
    then show ?thesis by (auto dest: has_suffix_drop)
  qed
qed

lemma trim_prefix_of_trimmed:
  assumes r: "trim_space r = r" and x: "x = take m r" "x \<noteq> []"
  shows "\<exists>k. trim_space x = take k x" "trim_space x \<noteq> []"
proof -
  have "space_prefix space_seqs r = 0" by (rule trimmed_ends [OF r])
  then have no: "\<not> has_prefix x p" if "p \<in> set space_seqs" for p
    using that x(1) has_prefix_take unfolding space_prefix_0_iff [OF space_seqs_no_Nil] by blast
  then have "space_prefix space_seqs x = 0" unfolding space_prefix_0_iff [OF space_seqs_no_Nil] by blast
  then have t: "trim_space x = rev (trim_seqs (map rev space_seqs) (rev x))"
    by (simp add: trim_space_def trim_left_space_def trim_right_space_def trim_seqs_fixed)
  moreover obtain k where "trim_seqs (map rev space_seqs) (rev x) = drop k (rev x)"
    using trim_seqs_drop by blast
  ultimately show "\<exists>k. trim_space x = take k x" by (auto simp: rev_drop)
  show "trim_space x \<noteq> []"
  proof
    assume "trim_space x = []"
    then have "trim_seqs (map rev space_seqs) (rev x) = []" using t by simp
    from trim_seqs_all [OF this] x(2) obtain p where p: "p \<in> set space_seqs" "has_suffix (rev x) (rev p)"
      by auto
    then have "drop (length x - length p) (rev x) = rev p" "length p \<le> length x"
      by (auto simp: has_suffix_def)
    then have "has_prefix x p" by (simp add: has_prefix_def rev_drop [symmetric] flip: rev_take)
    with no p(1) show False by blast
  qed
qed

end
