(* ===== verification/Version.thy ===== *)
theory Version
  imports Go_Strings
begin

text \<open>
  version.go and the display names of model.go: finding a version in the CLI's output, comparing
  versions, refusing an old CLI, and the version the library advertises. Versions are an instance of
  \<open>linorder\<close>; the theorems read the code's comparison as that order.
\<close>

section \<open>Versions\<close>

datatype semver = Semver (sv_major: int) (sv_minor: int) (sv_patch: int)

instantiation semver :: linorder
begin

fun less_eq_semver :: "semver \<Rightarrow> semver \<Rightarrow> bool" where
  "Semver a b c \<le> Semver a' b' c' \<longleftrightarrow> a < a' \<or> a = a' \<and> (b < b' \<or> b = b' \<and> c \<le> c')"

definition less_semver :: "semver \<Rightarrow> semver \<Rightarrow> bool" where
  "v < w \<longleftrightarrow> v \<le> w \<and> \<not> w \<le> (v :: semver)"

instance
proof
  fix x y z :: semver
  show "x < y \<longleftrightarrow> x \<le> y \<and> \<not> y \<le> x" by (rule less_semver_def)
  show "x \<le> x" by (cases x) simp
  show "x \<le> y \<Longrightarrow> y \<le> z \<Longrightarrow> x \<le> z" by (cases x; cases y; cases z) auto
  show "x \<le> y \<Longrightarrow> y \<le> x \<Longrightarrow> x = y" by (cases x; cases y) auto
  show "x \<le> y \<or> y \<le> x" by (cases x; cases y) auto
qed

end

text \<open>\<^verbatim>\<open>strconv.Atoi\<close> on digits, whose error is ignored: it stops at the largest \<^verbatim>\<open>int\<close>.\<close>

definition atoi_digits :: "string \<Rightarrow> int" where
  "atoi_digits ds = min (int (read_nat 0 ds)) (2 ^ 63 - 1)"

text \<open>
  \<^verbatim>\<open>semverRe\<close> at one position: each group takes all the digits there are, since no digit can be the
  dot that follows. The leftmost position that matches wins.
\<close>

definition semver_at :: "string \<Rightarrow> (string \<times> string \<times> string) option" where
  "semver_at s =
     (let a = takeWhile is_digit s; r = dropWhile is_digit s;
          b = takeWhile is_digit (tl r); r2 = dropWhile is_digit (tl r);
          c = takeWhile is_digit (tl r2) in
      if a \<noteq> [] \<and> has_prefix r ''.'' \<and> b \<noteq> [] \<and> has_prefix r2 ''.'' \<and> c \<noteq> []
      then Some (a, b, c) else None)"

fun semverRe :: "string \<Rightarrow> (string \<times> string \<times> string) option" where
  "semverRe [] = None"
| "semverRe (x # xs) = (case semver_at (x # xs) of Some m \<Rightarrow> Some m | None \<Rightarrow> semverRe xs)"

definition parseSemver :: "string \<Rightarrow> int \<times> int \<times> int \<times> bool" where
  "parseSemver s =
     (case semverRe s of
        None \<Rightarrow> (0, 0, 0, False)
      | Some (a, b, c) \<Rightarrow> (atoi_digits a, atoi_digits b, atoi_digits c, True))"

text \<open>\<^verbatim>\<open>cmp.Compare\<close>.\<close>

definition cmp_Compare :: "int \<Rightarrow> int \<Rightarrow> int" where
  "cmp_Compare x y = (if x < y then -1 else if x > y then 1 else 0)"

definition compareSemver :: "string \<Rightarrow> string \<Rightarrow> int" where
  "compareSemver a b =
     (case parseSemver a of
        (aMaj, aMin, aPat, _) \<Rightarrow>
          case parseSemver b of
            (bMaj, bMin, bPat, _) \<Rightarrow>
              if cmp_Compare aMaj bMaj \<noteq> 0 then cmp_Compare aMaj bMaj
              else if cmp_Compare aMin bMin \<noteq> 0 then cmp_Compare aMin bMin
              else cmp_Compare aPat bPat)"

section \<open>The CLI's version\<close>

definition MinCLIVersion :: string where
  "MinCLIVersion = ''2.0.0''"

record VersionError =
  ve_Found :: string
  ve_Minimum :: string

definition version_error_text :: "VersionError \<Rightarrow> string" where
  "version_error_text e =
     ''claudecli: CLI version '' @ ve_Found e @ '' is below minimum '' @ ve_Minimum e"

definition version_text :: "int \<Rightarrow> int \<Rightarrow> int \<Rightarrow> string" where
  "version_text a b c = show_int a @ ''.'' @ show_int b @ ''.'' @ show_int c"

text \<open>
  \<open>look\<close> is \<^verbatim>\<open>exec.LookPath\<close> and \<open>run\<close> the output of the binary with \<^verbatim>\<open>-v\<close>, or \<open>None\<close> when it fails or
  takes longer than two seconds.
\<close>

definition CheckCLIVersion ::
    "(string \<Rightarrow> string option) \<Rightarrow> (string \<Rightarrow> string option) \<Rightarrow> string \<Rightarrow> VersionError option" where
  "CheckCLIVersion look run binaryPath =
     (case look (if binaryPath = [] then ''claude'' else binaryPath) of
        None \<Rightarrow> None
      | Some resolved \<Rightarrow>
          (case run resolved of
             None \<Rightarrow> None
           | Some out \<Rightarrow>
               (case parseSemver out of
                  (maj, mnr, pat, ok) \<Rightarrow>
                    if \<not> ok then None
                    else let found = version_text maj mnr pat in
                      if compareSemver found MinCLIVersion < 0
                      then Some \<lparr>ve_Found = found, ve_Minimum = MinCLIVersion\<rparr> else None)))"

section \<open>The version the library advertises\<close>

definition SDKVersion :: string where
  "SDKVersion = ''0.0.0-dev''"

definition modulePath :: string where
  "modulePath = ''github.com/allbin/claudecli-go''"

definition normalizeVersion :: "string \<Rightarrow> string" where
  "normalizeVersion v = (if v = [] \<or> v = ''(devel)'' then [] else trim_prefix v ''v'')"

text \<open>A module of the enclosing binary: its path, its version and the version of its replacement.\<close>

record go_module =
  mod_Path :: string
  mod_Version :: string
  mod_Replace :: "string option"

fun dep_version :: "go_module list \<Rightarrow> string option" where
  "dep_version [] = None"
| "dep_version (d # ds) =
     (if mod_Path d \<noteq> modulePath then dep_version ds
      else
        (let v = normalizeVersion
                   (case mod_Replace d of Some r \<Rightarrow> r | None \<Rightarrow> mod_Version d) in
         if v \<noteq> [] then Some v else dep_version ds))"

text \<open>The build information: the main module and its dependencies, or \<open>None\<close>.\<close>

definition sdkVersion :: "(go_module \<times> go_module list) option \<Rightarrow> string" where
  "sdkVersion info =
     (case info of
        None \<Rightarrow> SDKVersion
      | Some (main, deps) \<Rightarrow>
          (case dep_version deps of
             Some v \<Rightarrow> v
           | None \<Rightarrow>
               (if mod_Path main = modulePath \<and> normalizeVersion (mod_Version main) \<noteq> []
                then normalizeVersion (mod_Version main) else SDKVersion)))"

section \<open>Model names\<close>

definition isAllDigits :: "string \<Rightarrow> bool" where
  "isAllDigits s = all_digits s"

definition model_tiers :: "string list" where
  "model_tiers = [''opus'', ''sonnet'', ''haiku'', ''fable'']"

fun scan_tokens :: "string list \<Rightarrow> string \<times> string list \<Rightarrow> string \<times> string list" where
  "scan_tokens [] (tier, nums) = (tier, nums)"
| "scan_tokens (t # ts) (tier, nums) =
     (if t \<in> set model_tiers then scan_tokens ts (t, nums)
      else if isAllDigits t \<and> length t \<noteq> 8 then scan_tokens ts (tier, nums @ [t])
      else scan_tokens ts (tier, nums))"

definition strip_marker :: "string \<Rightarrow> string" where
  "strip_marker i = (case index_of i ''['' of None \<Rightarrow> i | Some n \<Rightarrow> trim_space (take n i))"

definition ModelDisplayName :: "string \<Rightarrow> string" where
  "ModelDisplayName i =
     (let i = trim_space i in
      if i = [] then []
      else
        (let i = strip_marker i in
         case scan_tokens (split_on CHR ''-'' (to_lower i)) ([], []) of
           (tier, nums) \<Rightarrow>
             if tier = [] then i
             else (upper_char (hd tier) # tl tier)
                  @ (if nums = [] then [] else '' '' @ join ''.'' nums)))"

section \<open>Facts\<close>

definition version_of :: "string \<Rightarrow> semver" where
  "version_of s = (case parseSemver s of (a, b, c, _) \<Rightarrow> Semver a b c)"

definition names_version :: "string \<Rightarrow> bool" where
  "names_version s = (case parseSemver s of (_, _, _, ok) \<Rightarrow> ok)"

lemma less_semver_simp [simp]:
  "Semver a b c < Semver a' b' c' \<longleftrightarrow> a < a' \<or> a = a' \<and> (b < b' \<or> b = b' \<and> c < c')"
  by (auto simp: less_semver_def)

lemma compare_is_order:
  "compareSemver a b
     = (if version_of a < version_of b then -1 else if version_of b < version_of a then 1 else 0)"
  by (cases "parseSemver a"; cases "parseSemver b")
    (simp add: compareSemver_def version_of_def cmp_Compare_def)

lemma older_iff: "compareSemver a b < 0 \<longleftrightarrow> version_of a < version_of b"
  by (simp add: compare_is_order)

lemma digits_split:
  assumes "list_all is_digit ds" "r = [] \<or> \<not> is_digit (hd r)"
  shows "takeWhile is_digit (ds @ r) = ds" "dropWhile is_digit (ds @ r) = r"
  using assms by (cases r; auto simp: list_all_iff takeWhile_append dropWhile_append)+

lemma dot_no_digit: "\<not> is_digit CHR ''.''"
  by (simp add: is_digit_def)

lemma semver_at_text:
  assumes "list_all is_digit a" "list_all is_digit b" "list_all is_digit c" "a \<noteq> []" "b \<noteq> []" "c \<noteq> []"
    and "post = [] \<or> \<not> is_digit (hd post)"
  shows "semver_at (a @ ''.'' @ b @ ''.'' @ c @ post) = Some (a, b, c)"
  using assms by (simp add: semver_at_def digits_split dot_no_digit Let_def has_prefix_def)

lemma semverRe_skips:
  assumes "list_all (\<lambda>c. \<not> is_digit c) pre" "semver_at s = Some m"
  shows "semverRe (pre @ s) = Some m"
  using assms
proof (induction pre)
  case Nil
  then show ?case by (cases s) (auto simp: semver_at_def Let_def)
next
  case (Cons x xs)
  have "semver_at ((x # xs) @ s) = None"
    using Cons.prems by (simp add: semver_at_def Let_def)
  with Cons show ?case by simp
qed

lemma atoi_show: "0 \<le> n \<Longrightarrow> n < 2 ^ 63 \<Longrightarrow> atoi_digits (show_int n) = n"
  by (simp add: atoi_digits_def show_int_def min_def)

lemma show_int_digits: "0 \<le> n \<Longrightarrow> list_all is_digit (show_int n) \<and> show_int n \<noteq> []"
  by (simp add: show_int_def show_nat_digits)

lemma parse_found:
  assumes "0 \<le> a" "a < 2 ^ 63" "0 \<le> b" "b < 2 ^ 63" "0 \<le> c" "c < 2 ^ 63"
    and "list_all (\<lambda>c. \<not> is_digit c) pre" "post = [] \<or> \<not> is_digit (hd post)"
  shows "parseSemver (pre @ version_text a b c @ post) = (a, b, c, True)"
proof -
  have "semver_at (version_text a b c @ post) = Some (show_int a, show_int b, show_int c)"
    using assms show_int_digits [of a] show_int_digits [of b] show_int_digits [of c]
      semver_at_text [of "show_int a" "show_int b" "show_int c" post]
    by (simp add: version_text_def)
  from semverRe_skips [OF assms(7) this] assms show ?thesis
    by (simp add: parseSemver_def atoi_show)
qed

text \<open>
  C24: A version is found where it stands: the text of any version, after text without digits and
  before anything that is not a digit, is read back as that version.
\<close>

theorem version_text_is_found:
  assumes "0 \<le> a" "a < 2 ^ 63" "0 \<le> b" "b < 2 ^ 63" "0 \<le> c" "c < 2 ^ 63"
    and "list_all (\<lambda>c. \<not> is_digit c) pre" "post = [] \<or> \<not> is_digit (hd post)"
  shows "parseSemver (pre @ version_text a b c @ post) = (a, b, c, True)"
  using assms by (rule parse_found)

theorem version_text_is_found_witness:
  "parseSemver (''v'' @ version_text 2 1 227 @ '' (Claude Code)'') = (2, 1, 227, True)"
  by (rule version_text_is_found) (simp_all add: is_digit_def)

lemma parsed_range:
  assumes "parseSemver s = (a, b, c, ok)"
  shows "0 \<le> a \<and> a < 2 ^ 63 \<and> 0 \<le> b \<and> b < 2 ^ 63 \<and> 0 \<le> c \<and> c < 2 ^ 63"
  using assms by (auto simp: parseSemver_def atoi_digits_def min_def split: option.splits)

lemma parse_version_text:
  assumes "parseSemver s = (a, b, c, ok)"
  shows "parseSemver (version_text a b c) = (a, b, c, True)"
  using parse_found [of a b c "[]" "[]"] parsed_range [OF assms] by simp

lemma min_version: "version_of MinCLIVersion = Semver 2 0 0"
  by code_simp

text \<open>
  An old CLI is refused and no other: the check fails exactly when the binary is found, answers
  with a version and that version is below 2.0.0 in the order of versions; the error then names the
  version found. Whatever cannot be determined passes.
\<close>

lemma old_cli_is_refused:
  "CheckCLIVersion look run path =
     (case Option.bind (look (if path = [] then ''claude'' else path)) run of
        None \<Rightarrow> None
      | Some out \<Rightarrow>
          if names_version out \<and> version_of out < Semver 2 0 0
          then Some \<lparr>ve_Found = version_text (sv_major (version_of out)) (sv_minor (version_of out))
                                  (sv_patch (version_of out)),
                     ve_Minimum = ''2.0.0''\<rparr>
          else None)"
proof (cases "Option.bind (look (if path = [] then ''claude'' else path)) run")
  case None
  have "CheckCLIVersion look run path = None"
    using None unfolding CheckCLIVersion_def
    by (cases "look (if path = [] then ''claude'' else path)") simp_all
  with None show ?thesis by simp
next
  case (Some out)
  obtain a b c ok where p: "parseSemver out = (a, b, c, ok)" by (cases "parseSemver out")
  obtain r where r: "look (if path = [] then ''claude'' else path) = Some r" "run r = Some out"
    using Some by (auto simp: bind_eq_Some_conv)
  have "version_of out = Semver a b c" "names_version out = ok"
    "version_of (version_text a b c) = Semver a b c"
    by (simp_all add: version_of_def names_version_def p parse_version_text [OF p])
  then show ?thesis
    unfolding Some CheckCLIVersion_def r
    by (simp add: r p Let_def older_iff min_version)
      (simp add: MinCLIVersion_def)
qed

end
