(* ===== verification/Options.thy ===== *)
theory Options
  imports Go_Strings "HOL-Library.Char_ord" "HOL-Library.List_Lexorder" "HOL-Library.Multiset"
begin

text \<open>
  option.go and the thinking modes of model.go: the options record, every option constructor, how
  defaults and call-time options combine, and the three builders of the CLI's arguments. A Go map is
  an association list in the order the loop walks it; a callback is a name for the caller's function.
\<close>

section \<open>Options\<close>

type_synonym Model = string
type_synonym EffortLevel = string
type_synonym PermissionMode = string
type_synonym callback = nat

datatype ThinkingConfig =
    ThinkingAdaptive
  | ThinkingEnabled (BudgetTokens: int)
  | ThinkingDisabled

record options =
  op_binaryPath :: string
  op_model :: Model
  op_fallbackModel :: Model
  op_betas :: "string list"
  op_systemPrompt :: string
  op_systemPromptFile :: string
  op_appendSystemPrompt :: string
  op_appendSystemPromptFile :: string
  op_tools :: "string list"
  op_disallowedTools :: "string list"
  op_builtinTools :: "string list"
  op_permissionMode :: PermissionMode
  op_permissionPromptToolName :: string
  op_jsonSchema :: string
  op_maxBudget :: float64
  op_maxTurns :: int
  op_sessionID :: string
  op_sessionName :: string
  op_forkSession :: bool
  op_continueSession :: bool
  op_resume :: string
  op_mcpConfig :: "string list"
  op_strictMCPConfig :: bool
  op_agent :: string
  op_agentDef :: string
  op_settings :: string
  op_settingSources :: "string list"
  op_pluginDirs :: "string list"
  op_pluginURLs :: "string list"
  op_timeout :: nanos
  op_addDirs :: "string list"
  op_workDir :: string
  op_effort :: EffortLevel
  op_thinking :: "ThinkingConfig option"
  op_taskBudget :: int
  op_env :: "(string \<times> string) list"
  op_includePartialMessages :: bool
  op_extraArgs :: "(string \<times> string) list"
  op_stderrCallback :: "callback option"
  op_enableFileCheckpointing :: bool
  op_artifactWatch :: bool
  op_bare :: bool
  op_replayUserMessages :: bool
  op_dangerouslySkipPerms :: bool
  op_disableSlashCommands :: bool
  op_debugFile :: string
  op_safeMode :: bool
  op_autoCompact :: string
  op_excludeDynamicSystemPromptSections :: bool
  op_includeHookEvents :: bool
  op_forwardSubagentText :: bool
  op_promptSuggestions :: bool
  op_canUseTool :: "callback option"
  op_canUseToolReq :: "callback option"
  op_canUseToolReqCtx :: "callback option"
  op_userInput :: "callback option"
  op_userInputCtx :: "callback option"
  op_controlTimeout :: nanos
  op_initTimeout :: nanos
  op_stdinWriteTimeout :: nanos
  op_skipVersionCheck :: bool

definition zero_options :: options where
  "zero_options =
     \<lparr>op_binaryPath = [], op_model = [], op_fallbackModel = [], op_betas = [],
      op_systemPrompt = [], op_systemPromptFile = [], op_appendSystemPrompt = [],
      op_appendSystemPromptFile = [], op_tools = [], op_disallowedTools = [],
      op_builtinTools = [], op_permissionMode = [], op_permissionPromptToolName = [],
      op_jsonSchema = [], op_maxBudget = 0, op_maxTurns = 0, op_sessionID = [],
      op_sessionName = [], op_forkSession = False, op_continueSession = False, op_resume = [],
      op_mcpConfig = [], op_strictMCPConfig = False, op_agent = [], op_agentDef = [],
      op_settings = [], op_settingSources = [], op_pluginDirs = [], op_pluginURLs = [],
      op_timeout = 0, op_addDirs = [], op_workDir = [], op_effort = [], op_thinking = None,
      op_taskBudget = 0, op_env = [], op_includePartialMessages = False, op_extraArgs = [],
      op_stderrCallback = None, op_enableFileCheckpointing = False, op_artifactWatch = False,
      op_bare = False, op_replayUserMessages = False, op_dangerouslySkipPerms = False,
      op_disableSlashCommands = False, op_debugFile = [], op_safeMode = False,
      op_autoCompact = [], op_excludeDynamicSystemPromptSections = False,
      op_includeHookEvents = False, op_forwardSubagentText = False, op_promptSuggestions = False,
      op_canUseTool = None, op_canUseToolReq = None, op_canUseToolReqCtx = None,
      op_userInput = None, op_userInputCtx = None, op_controlTimeout = 0, op_initTimeout = 0,
      op_stdinWriteTimeout = 0, op_skipVersionCheck = False\<rparr>"

type_synonym option_fn = "options \<Rightarrow> options"

definition resolveOptions :: "option_fn list \<Rightarrow> option_fn list \<Rightarrow> options" where
  "resolveOptions defaults overrides =
     fold (\<lambda>f op. f op) overrides (fold (\<lambda>f op. f op) defaults zero_options)"

definition ResolveCanUseTool :: "option_fn list \<Rightarrow> callback option" where
  "ResolveCanUseTool opts = op_canUseTool (fold (\<lambda>f op. f op) opts zero_options)"

section \<open>Tool names\<close>

fun add_names :: "string list \<Rightarrow> string list \<Rightarrow> string list" where
  "add_names [] result = result"
| "add_names (n # ns) result =
     (let n = trim_space n in
      add_names ns (if n \<noteq> [] \<and> n \<notin> set result then result @ [n] else result))"

text \<open>\<^verbatim>\<open>seen\<close> holds exactly the names already in the result.\<close>

definition normalizeTools :: "string list \<Rightarrow> string list" where
  "normalizeTools tools =
     foldl (\<lambda>result t. add_names (split_on CHR '','' t) result) [] tools"

section \<open>Constructors\<close>

definition WithBinaryPath :: "string \<Rightarrow> option_fn" where
  "WithBinaryPath x op = op\<lparr>op_binaryPath := x\<rparr>"

definition WithModel :: "Model \<Rightarrow> option_fn" where
  "WithModel x op = op\<lparr>op_model := x\<rparr>"

definition WithFallbackModel :: "Model \<Rightarrow> option_fn" where
  "WithFallbackModel x op = op\<lparr>op_fallbackModel := x\<rparr>"

definition WithBetas :: "string list \<Rightarrow> option_fn" where
  "WithBetas x op = op\<lparr>op_betas := x\<rparr>"

definition WithSystemPrompt :: "string \<Rightarrow> option_fn" where
  "WithSystemPrompt x op = op\<lparr>op_systemPrompt := x\<rparr>"

definition WithSystemPromptFile :: "string \<Rightarrow> option_fn" where
  "WithSystemPromptFile x op = op\<lparr>op_systemPromptFile := x\<rparr>"

definition WithAppendSystemPrompt :: "string \<Rightarrow> option_fn" where
  "WithAppendSystemPrompt x op = op\<lparr>op_appendSystemPrompt := x\<rparr>"

definition WithAppendSystemPromptFile :: "string \<Rightarrow> option_fn" where
  "WithAppendSystemPromptFile x op = op\<lparr>op_appendSystemPromptFile := x\<rparr>"

definition WithTools :: "string list \<Rightarrow> option_fn" where
  "WithTools x op = op\<lparr>op_tools := normalizeTools x\<rparr>"

definition WithDisallowedTools :: "string list \<Rightarrow> option_fn" where
  "WithDisallowedTools x op = op\<lparr>op_disallowedTools := normalizeTools x\<rparr>"

definition WithBuiltinTools :: "string list \<Rightarrow> option_fn" where
  "WithBuiltinTools x op = op\<lparr>op_builtinTools := x\<rparr>"

definition WithPermissionMode :: "PermissionMode \<Rightarrow> option_fn" where
  "WithPermissionMode x op = op\<lparr>op_permissionMode := x\<rparr>"

definition WithPermissionPromptToolName :: "string \<Rightarrow> option_fn" where
  "WithPermissionPromptToolName x op = op\<lparr>op_permissionPromptToolName := x\<rparr>"

definition WithJSONSchema :: "string \<Rightarrow> option_fn" where
  "WithJSONSchema x op = op\<lparr>op_jsonSchema := x\<rparr>"

definition WithMaxBudget :: "float64 \<Rightarrow> option_fn" where
  "WithMaxBudget x op = op\<lparr>op_maxBudget := x\<rparr>"

definition WithMaxTurns :: "int \<Rightarrow> option_fn" where
  "WithMaxTurns x op = op\<lparr>op_maxTurns := x\<rparr>"

definition WithSessionID :: "string \<Rightarrow> option_fn" where
  "WithSessionID x op = op\<lparr>op_sessionID := x\<rparr>"

definition WithForkSession :: option_fn where
  "WithForkSession op = op\<lparr>op_forkSession := True\<rparr>"

definition WithContinue :: option_fn where
  "WithContinue op = op\<lparr>op_continueSession := True\<rparr>"

definition WithMCPConfig :: "string list \<Rightarrow> option_fn" where
  "WithMCPConfig x op = op\<lparr>op_mcpConfig := x\<rparr>"

definition WithStrictMCPConfig :: option_fn where
  "WithStrictMCPConfig op = op\<lparr>op_strictMCPConfig := True\<rparr>"

definition WithAgent :: "string \<Rightarrow> option_fn" where
  "WithAgent x op = op\<lparr>op_agent := x\<rparr>"

definition WithAgentDef :: "string \<Rightarrow> option_fn" where
  "WithAgentDef x op = op\<lparr>op_agentDef := x\<rparr>"

definition WithAddDirs :: "string list \<Rightarrow> option_fn" where
  "WithAddDirs x op = op\<lparr>op_addDirs := x\<rparr>"

definition WithSettings :: "string \<Rightarrow> option_fn" where
  "WithSettings x op = op\<lparr>op_settings := x\<rparr>"

definition WithSettingSources :: "string list \<Rightarrow> option_fn" where
  "WithSettingSources x op = op\<lparr>op_settingSources := x\<rparr>"

definition WithPluginDirs :: "string list \<Rightarrow> option_fn" where
  "WithPluginDirs x op = op\<lparr>op_pluginDirs := x\<rparr>"

definition WithWorkDir :: "string \<Rightarrow> option_fn" where
  "WithWorkDir x op = op\<lparr>op_workDir := x\<rparr>"

definition WithEffort :: "EffortLevel \<Rightarrow> option_fn" where
  "WithEffort x op = op\<lparr>op_effort := x\<rparr>"

definition WithThinking :: "ThinkingConfig option \<Rightarrow> option_fn" where
  "WithThinking x op = op\<lparr>op_thinking := x\<rparr>"

definition WithTaskBudget :: "int \<Rightarrow> option_fn" where
  "WithTaskBudget x op = op\<lparr>op_taskBudget := x\<rparr>"

definition WithEnv :: "(string \<times> string) list \<Rightarrow> option_fn" where
  "WithEnv x op = op\<lparr>op_env := x\<rparr>"

definition WithResume :: "string \<Rightarrow> option_fn" where
  "WithResume x op = op\<lparr>op_resume := x\<rparr>"

definition WithBare :: option_fn where
  "WithBare op = op\<lparr>op_bare := True\<rparr>"

definition WithReplayUserMessages :: option_fn where
  "WithReplayUserMessages op = op\<lparr>op_replayUserMessages := True\<rparr>"

definition WithDangerouslySkipPermissions :: option_fn where
  "WithDangerouslySkipPermissions op = op\<lparr>op_dangerouslySkipPerms := True\<rparr>"

definition WithSessionName :: "string \<Rightarrow> option_fn" where
  "WithSessionName x op = op\<lparr>op_sessionName := x\<rparr>"

definition WithDebugFile :: "string \<Rightarrow> option_fn" where
  "WithDebugFile x op = op\<lparr>op_debugFile := x\<rparr>"

definition WithDisableSlashCommands :: option_fn where
  "WithDisableSlashCommands op = op\<lparr>op_disableSlashCommands := True\<rparr>"

definition WithSafeMode :: option_fn where
  "WithSafeMode op = op\<lparr>op_safeMode := True\<rparr>"

definition WithAutoCompact :: "string \<Rightarrow> option_fn" where
  "WithAutoCompact x op = op\<lparr>op_autoCompact := x\<rparr>"

definition WithExcludeDynamicSystemPromptSections :: option_fn where
  "WithExcludeDynamicSystemPromptSections op = op\<lparr>op_excludeDynamicSystemPromptSections := True\<rparr>"

definition WithPluginURLs :: "string list \<Rightarrow> option_fn" where
  "WithPluginURLs x op = op\<lparr>op_pluginURLs := x\<rparr>"

definition WithIncludeHookEvents :: option_fn where
  "WithIncludeHookEvents op = op\<lparr>op_includeHookEvents := True\<rparr>"

definition WithForwardSubagentText :: option_fn where
  "WithForwardSubagentText op = op\<lparr>op_forwardSubagentText := True\<rparr>"

definition WithPromptSuggestions :: option_fn where
  "WithPromptSuggestions op = op\<lparr>op_promptSuggestions := True\<rparr>"

definition WithArtifactWatch :: option_fn where
  "WithArtifactWatch op = op\<lparr>op_artifactWatch := True\<rparr>"

definition WithTimeout :: "nanos \<Rightarrow> option_fn" where
  "WithTimeout x op = op\<lparr>op_timeout := x\<rparr>"

definition WithStderrCallback :: "callback option \<Rightarrow> option_fn" where
  "WithStderrCallback x op = op\<lparr>op_stderrCallback := x\<rparr>"

definition WithFileCheckpointing :: option_fn where
  "WithFileCheckpointing op = op\<lparr>op_enableFileCheckpointing := True\<rparr>"

definition WithSkipVersionCheck :: option_fn where
  "WithSkipVersionCheck op = op\<lparr>op_skipVersionCheck := True\<rparr>"

definition WithCanUseTool :: "callback option \<Rightarrow> option_fn" where
  "WithCanUseTool x op = op\<lparr>op_canUseTool := x\<rparr>"

definition WithCanUseToolRequest :: "callback option \<Rightarrow> option_fn" where
  "WithCanUseToolRequest x op = op\<lparr>op_canUseToolReq := x\<rparr>"

definition WithCanUseToolRequestContext :: "callback option \<Rightarrow> option_fn" where
  "WithCanUseToolRequestContext x op = op\<lparr>op_canUseToolReqCtx := x\<rparr>"

definition WithUserInput :: "callback option \<Rightarrow> option_fn" where
  "WithUserInput x op = op\<lparr>op_userInput := x\<rparr>"

definition WithUserInputContext :: "callback option \<Rightarrow> option_fn" where
  "WithUserInputContext x op = op\<lparr>op_userInputCtx := x\<rparr>"

definition WithControlTimeout :: "nanos \<Rightarrow> option_fn" where
  "WithControlTimeout x op = op\<lparr>op_controlTimeout := x\<rparr>"

definition WithInitTimeout :: "nanos \<Rightarrow> option_fn" where
  "WithInitTimeout x op = op\<lparr>op_initTimeout := x\<rparr>"

definition WithStdinWriteTimeout :: "nanos \<Rightarrow> option_fn" where
  "WithStdinWriteTimeout x op = op\<lparr>op_stdinWriteTimeout := x\<rparr>"

definition WithIncludePartialMessages :: option_fn where
  "WithIncludePartialMessages op = op\<lparr>op_includePartialMessages := True\<rparr>"

text \<open>\<^verbatim>\<open>WithUser\<close> is kept for old callers and does nothing.\<close>

definition WithUser :: "string \<Rightarrow> option_fn" where
  "WithUser x op = op"

definition reservedFlags :: "string list" where
  "reservedFlags = [''print'', ''output-format'', ''input-format'', ''verbose'']"

text \<open>\<^verbatim>\<open>WithExtraArgs\<close> panics at the first reserved key it meets: \<open>Inl\<close> is the panic.\<close>

definition WithExtraArgs :: "(string \<times> string) list \<Rightarrow> string + option_fn" where
  "WithExtraArgs args =
     (case find (\<lambda>k. k \<in> set reservedFlags) (map fst args) of
        Some k \<Rightarrow>
          Inl (''claudecli: WithExtraArgs: \"'' @ k @ ''\" is a reserved flag managed by the SDK'')
      | None \<Rightarrow> Inr (\<lambda>op. op\<lparr>op_extraArgs := args\<rparr>))"

text \<open>\<^verbatim>\<open>sessionEnv\<close>: entries of \<^verbatim>\<open>WithEnv\<close> win.\<close>

definition sessionEnv :: "options \<Rightarrow> (string \<times> string) list" where
  "sessionEnv op =
     (if \<not> op_artifactWatch op then op_env op
      else foldl (\<lambda>m (k, v). map_put k v m)
             [(''CLAUDE_CODE_ENTRYPOINT'', ''sdk-ts''), (''CLAUDE_CODE_ARTIFACT'', ''1'')]
             (op_env op))"

section \<open>Arguments\<close>

text \<open>The shapes the builders append: a value unless it is empty, one flag per value, a switch.\<close>

definition str_flag :: "string \<Rightarrow> string \<Rightarrow> string list" where
  "str_flag f v = (if v \<noteq> [] then [f, v] else [])"

definition each_flag :: "string \<Rightarrow> string list \<Rightarrow> string list" where
  "each_flag f vs = concat (map (\<lambda>v. [f, v]) vs)"

definition list_flag :: "string \<Rightarrow> string list \<Rightarrow> string list" where
  "list_flag f vs = (if vs \<noteq> [] then [f, join '','' vs] else [])"

definition switch :: "string \<Rightarrow> bool \<Rightarrow> string list" where
  "switch f b = (if b then [f] else [])"

definition int_flag :: "string \<Rightarrow> int \<Rightarrow> string list" where
  "int_flag f n = (if n > 0 then [f, show_int n] else [])"

text \<open>\<^verbatim>\<open>%.2f\<close> of a positive number: the nearest multiple of 1/100, the even one when two are nearest.\<close>

definition round_half_even :: "rat \<Rightarrow> int" where
  "round_half_even x =
     (let f = \<lfloor>x\<rfloor>; r = x - of_int f in
      if r < 1 / 2 then f else if r > 1 / 2 then f + 1 else if even f then f else f + 1)"

definition show_2f :: "rat \<Rightarrow> string" where
  "show_2f x =
     (let c = nat (round_half_even (x * 100)) in
      show_nat (c div 100) @ ''.'' @ [digit_char (c mod 100 div 10), digit_char (c mod 10)])"

definition DefaultModel :: Model where
  "DefaultModel = ''sonnet''"

definition appendModelArgs :: "options \<Rightarrow> string list \<Rightarrow> string list" where
  "appendModelArgs op args =
     args @ [''--model'', if op_model op = [] then DefaultModel else op_model op]
       @ str_flag ''--fallback-model'' (op_fallbackModel op)
       @ list_flag ''--betas'' (op_betas op)"

definition appendPromptArgs :: "options \<Rightarrow> string list \<Rightarrow> string list" where
  "appendPromptArgs op args =
     args @ str_flag ''--system-prompt'' (op_systemPrompt op)
       @ str_flag ''--system-prompt-file'' (op_systemPromptFile op)
       @ str_flag ''--append-system-prompt'' (op_appendSystemPrompt op)
       @ str_flag ''--append-system-prompt-file'' (op_appendSystemPromptFile op)"

definition appendToolArgs :: "options \<Rightarrow> string list \<Rightarrow> string list" where
  "appendToolArgs op args =
     args @ each_flag ''--allowedTools'' (op_tools op)
       @ each_flag ''--disallowedTools'' (op_disallowedTools op)
       @ each_flag ''--tools'' (op_builtinTools op)
       @ str_flag ''--permission-mode'' (op_permissionMode op)
       @ (if op_dangerouslySkipPerms op
          then [''--allow-dangerously-skip-permissions'', ''--dangerously-skip-permissions'']
          else [])"

definition appendOutputArgs :: "options \<Rightarrow> string list \<Rightarrow> string list" where
  "appendOutputArgs op args =
     args @ str_flag ''--json-schema'' (op_jsonSchema op)
       @ (if op_maxBudget op > 0 then [''--max-budget-usd'', show_2f (op_maxBudget op)] else [])
       @ int_flag ''--max-turns'' (op_maxTurns op)
       @ switch ''--include-partial-messages'' (op_includePartialMessages op)"

definition appendMCPArgs :: "options \<Rightarrow> string list \<Rightarrow> string list" where
  "appendMCPArgs op args =
     args @ each_flag ''--mcp-config'' (op_mcpConfig op)
       @ switch ''--strict-mcp-config'' (op_strictMCPConfig op)"

definition appendAgentArgs :: "options \<Rightarrow> string list \<Rightarrow> string list" where
  "appendAgentArgs op args =
     args @ str_flag ''--agent'' (op_agent op) @ str_flag ''--agents'' (op_agentDef op)"

definition appendSettingsArgs :: "options \<Rightarrow> string list \<Rightarrow> string list" where
  "appendSettingsArgs op args =
     args @ str_flag ''--settings'' (op_settings op)
       @ list_flag ''--setting-sources'' (op_settingSources op)
       @ each_flag ''--plugin-dir'' (op_pluginDirs op)
       @ each_flag ''--plugin-url'' (op_pluginURLs op)"

definition thinking_args :: "ThinkingConfig option \<Rightarrow> string list" where
  "thinking_args t =
     (case t of
        None \<Rightarrow> []
      | Some ThinkingAdaptive \<Rightarrow> [''--thinking'', ''adaptive'']
      | Some (ThinkingEnabled n) \<Rightarrow> [''--max-thinking-tokens'', show_int n]
      | Some ThinkingDisabled \<Rightarrow> [''--thinking'', ''disabled''])"

text \<open>The extra arguments, in the order of their sorted names.\<close>

definition extra_args :: "(string \<times> string) list \<Rightarrow> string list" where
  "extra_args m =
     concat (map (\<lambda>k. (''--'' @ k) #
                       (case map_of m k of Some v \<Rightarrow> if v \<noteq> [] then [v] else [] | None \<Rightarrow> []))
                 (sort (map fst m)))"

definition appendExecArgs :: "options \<Rightarrow> string list \<Rightarrow> string list" where
  "appendExecArgs op args =
     args @ each_flag ''--add-dir'' (op_addDirs op)
       @ str_flag ''--effort'' (op_effort op)
       @ thinking_args (op_thinking op)
       @ int_flag ''--task-budget'' (op_taskBudget op)
       @ switch ''--bare'' (op_bare op)
       @ str_flag ''--debug-file'' (op_debugFile op)
       @ switch ''--disable-slash-commands'' (op_disableSlashCommands op)
       @ switch ''--safe-mode'' (op_safeMode op)
       @ str_flag ''--autocompact'' (op_autoCompact op)
       @ switch ''--exclude-dynamic-system-prompt-sections'' (op_excludeDynamicSystemPromptSections op)
       @ extra_args (op_extraArgs op)"

definition appendStreamOnlyArgs :: "options \<Rightarrow> string list \<Rightarrow> string list" where
  "appendStreamOnlyArgs op args =
     args @ switch ''--include-hook-events'' (op_includeHookEvents op)
       @ switch ''--forward-subagent-text'' (op_forwardSubagentText op)
       @ (if op_promptSuggestions op then [''--prompt-suggestions'', ''true''] else [])"

text \<open>
  The conversation a run continues. One-shot runs that name none keep no transcript; sessions use the
  same choice without that fallback.
\<close>

definition chosen_session :: "options \<Rightarrow> string list" where
  "chosen_session op =
     (if op_sessionID op \<noteq> [] then
        [''--session-id'', op_sessionID op] @ switch ''--fork-session'' (op_forkSession op)
      else if op_resume op \<noteq> [] then
        [''--resume'', op_resume op] @ switch ''--fork-session'' (op_forkSession op)
      else if op_continueSession op then
        [''--continue''] @ switch ''--fork-session'' (op_forkSession op)
      else [])"

definition appendSessionArgs :: "options \<Rightarrow> string list \<Rightarrow> string list" where
  "appendSessionArgs op args =
     args @ str_flag ''--name'' (op_sessionName op)
       @ (if chosen_session op = [] then [''--no-session-persistence''] else chosen_session op)"

definition buildCommonArgs :: "options \<Rightarrow> string list" where
  "buildCommonArgs op =
     appendExecArgs op (appendSettingsArgs op (appendAgentArgs op (appendMCPArgs op
       (appendOutputArgs op (appendToolArgs op (appendPromptArgs op (appendModelArgs op [])))))))"

definition buildArgs :: "options \<Rightarrow> string list" where
  "buildArgs op =
     appendSessionArgs op (appendStreamOnlyArgs op
       ([''--print'', ''--verbose'', ''--output-format'', ''stream-json''] @ buildCommonArgs op))"

definition buildBlockingArgs :: "options \<Rightarrow> string list" where
  "buildBlockingArgs op =
     appendSessionArgs op
       ([''--print'', ''--verbose'', ''--output-format'', ''json''] @ buildCommonArgs op)"

definition permission_prompt_args :: "options \<Rightarrow> string list" where
  "permission_prompt_args op =
     (if op_canUseTool op \<noteq> None \<or> op_canUseToolReq op \<noteq> None \<or> op_canUseToolReqCtx op \<noteq> None
         \<or> op_userInput op \<noteq> None \<or> op_userInputCtx op \<noteq> None
      then [''--permission-prompt-tool'',
            if op_permissionPromptToolName op \<noteq> [] then op_permissionPromptToolName op
            else ''stdio'']
      else [])"

definition buildSessionArgs :: "options \<Rightarrow> string list" where
  "buildSessionArgs op =
     appendStreamOnlyArgs op
       ([''--verbose'', ''--output-format'', ''stream-json'', ''--input-format'', ''stream-json'']
        @ buildCommonArgs op)
     @ str_flag ''--name'' (op_sessionName op) @ chosen_session op
     @ permission_prompt_args op @ [''--replay-user-messages'']"

section \<open>Facts about tool names\<close>

lemma add_names_append: "add_names (xs @ ys) r = add_names ys (add_names xs r)"
  by (induction xs arbitrary: r) (simp_all add: Let_def)

lemma normalizeTools_flat: "normalizeTools ts = add_names (concat (map (split_on CHR '','') ts)) []"
proof -
  have "foldl (\<lambda>r t. add_names (split_on CHR '','' t) r) r ts
      = add_names (concat (map (split_on CHR '','') ts)) r" for r
    by (induction ts arbitrary: r) (simp_all add: add_names_append)
  then show ?thesis by (simp add: normalizeTools_def)
qed

definition tool_name :: "string \<Rightarrow> bool" where
  "tool_name n \<longleftrightarrow> n \<noteq> [] \<and> trim_space n = n \<and> CHR '','' \<notin> set n"

lemma add_names_ok:
  assumes "\<forall>n \<in> set ns. CHR '','' \<notin> set n" "distinct r" "\<forall>n \<in> set r. tool_name n"
  shows "distinct (add_names ns r) \<and> (\<forall>n \<in> set (add_names ns r). tool_name n)"
  using assms
proof (induction ns arbitrary: r)
  case (Cons m ms)
  define r' where "r' = (if trim_space m \<noteq> [] \<and> trim_space m \<notin> set r then r @ [trim_space m] else r)"
  have "CHR '','' \<notin> set (trim_space m)" using Cons.prems(1) set_trim_space [of m] by auto
  then have "distinct r'" "\<forall>n \<in> set r'. tool_name n"
    using Cons.prems by (auto simp: r'_def tool_name_def trim_space_idem)
  with Cons.IH [of r'] Cons.prems(1) show ?case by (simp add: Let_def r'_def)
qed simp

lemma add_names_fresh:
  "\<forall>n \<in> set ns. tool_name n \<Longrightarrow> distinct (r @ ns) \<Longrightarrow> add_names ns r = r @ ns"
  by (induction ns arbitrary: r) (auto simp: Let_def tool_name_def)

lemma normalizeTools_ok: "distinct (normalizeTools ts) \<and> (\<forall>n \<in> set (normalizeTools ts). tool_name n)"
  unfolding normalizeTools_flat
  by (rule add_names_ok) (auto dest: split_on_pieces)

lemma normalizeTools_fixed:
  assumes "\<forall>n \<in> set ns. tool_name n" "distinct ns"
  shows "normalizeTools ns = ns"
proof -
  have "concat (map (split_on CHR '','') ns) = ns"
    using assms(1) by (induction ns) (auto simp: split_on_none tool_name_def)
  with assms show ?thesis by (simp add: normalizeTools_flat add_names_fresh)
qed

text \<open>
  C23: The two spellings of a tool list agree: names given one by one and the same names in one
  comma-separated list set the same option, which holds each name once, trimmed, never empty and
  without a comma, so normalising it again changes nothing.
\<close>

theorem tool_lists_are_normalised:
  assumes "ts \<noteq> []"
  shows "WithTools [join '','' ts] = WithTools ts \<and> WithDisallowedTools [join '','' ts] = WithDisallowedTools ts
    \<and> distinct (normalizeTools ts)
    \<and> (\<forall>n \<in> set (normalizeTools ts). n \<noteq> [] \<and> trim_space n = n \<and> CHR '','' \<notin> set n)
    \<and> normalizeTools (normalizeTools ts) = normalizeTools ts"
proof -
  have "normalizeTools [join '','' ts] = normalizeTools ts"
    using assms by (simp add: normalizeTools_flat split_join)
  moreover have "normalizeTools (normalizeTools ts) = normalizeTools ts"
    using normalizeTools_fixed normalizeTools_ok by blast
  ultimately show ?thesis
    using normalizeTools_ok [of ts] by (auto simp: tool_name_def WithTools_def WithDisallowedTools_def)
qed

theorem tool_lists_are_normalised_witness:
  "WithTools [''Bash,Edit,Bash''] = WithTools [''Bash'', ''Edit'', ''Bash'']
     \<and> normalizeTools [''Bash'', ''Edit'', ''Bash''] = [''Bash'', ''Edit'']"
proof -
  have "normalizeTools [''Bash'', ''Edit'', ''Bash''] = [''Bash'', ''Edit'']" by code_simp
  then show ?thesis
    using tool_lists_are_normalised [of "[''Bash'', ''Edit'', ''Bash'']"] by simp
qed

section \<open>Facts about arguments\<close>

text \<open>
  The reading side: flags in order, with the value of those that take one. \<open>value_flags\<close> and
  \<open>switch_flags\<close> are the flags of the library, those appended together with a value and those
  appended alone; \<open>vf\<close> are the flags a reader takes to have a value.
\<close>

definition value_flags :: "string list" where
  "value_flags =
     [''--output-format'', ''--input-format'', ''--model'', ''--fallback-model'',
      ''--betas'', ''--system-prompt'', ''--system-prompt-file'',
      ''--append-system-prompt'', ''--append-system-prompt-file'', ''--allowedTools'',
      ''--disallowedTools'', ''--tools'', ''--permission-mode'', ''--json-schema'',
      ''--max-budget-usd'', ''--max-turns'', ''--mcp-config'', ''--agent'', ''--agents'',
      ''--settings'', ''--setting-sources'', ''--plugin-dir'', ''--plugin-url'',
      ''--add-dir'', ''--effort'', ''--thinking'', ''--max-thinking-tokens'',
      ''--task-budget'', ''--debug-file'', ''--autocompact'', ''--prompt-suggestions'',
      ''--name'', ''--session-id'', ''--resume'', ''--permission-prompt-tool'']"

definition switch_flags :: "string list" where
  "switch_flags =
     [''--print'', ''--verbose'', ''--allow-dangerously-skip-permissions'',
      ''--dangerously-skip-permissions'', ''--include-partial-messages'',
      ''--strict-mcp-config'', ''--bare'', ''--disable-slash-commands'', ''--safe-mode'',
      ''--exclude-dynamic-system-prompt-sections'', ''--include-hook-events'',
      ''--forward-subagent-text'', ''--fork-session'', ''--continue'',
      ''--no-session-persistence'', ''--replay-user-messages'']"

type_synonym flags = "(string \<times> string option) list"

fun read_args :: "string list \<Rightarrow> string list \<Rightarrow> flags" where
  "read_args vf [] = []"
| "read_args vf [f] = [(f, None)]"
| "read_args vf (f # v # rest) =
     (if f \<in> set vf then (f, Some v) # read_args vf rest
      else (f, None) # read_args vf (v # rest))"

named_theorems arg_simps \<open>reading arguments back\<close>

lemma read_value [arg_simps]:
  "f \<in> set vf \<Longrightarrow> read_args vf (f # v # rest) = (f, Some v) # read_args vf rest"
  by simp

lemma read_bare [arg_simps]: "f \<notin> set vf \<Longrightarrow> read_args vf (f # rest) = (f, None) # read_args vf rest"
  by (cases rest) auto

declare read_args.simps(2,3) [simp del]

text \<open>A reader that knows the flags of the library, whatever others it knows.\<close>

definition kinds :: "string list \<Rightarrow> bool" where
  "kinds vf \<longleftrightarrow> set value_flags \<subseteq> set vf \<and> set switch_flags \<inter> set vf = {}"

lemma kinds_value_flags: "kinds value_flags"
  by (simp add: kinds_def) (simp add: value_flags_def switch_flags_def)

lemma kinds_value: "kinds vf \<Longrightarrow> f \<in> set value_flags \<Longrightarrow> f \<in> set vf"
  by (auto simp: kinds_def)

lemma kinds_switch: "kinds vf \<Longrightarrow> f \<in> set switch_flags \<Longrightarrow> f \<notin> set vf"
  by (auto simp: kinds_def)

lemma flag_lists:
  "''--output-format'' \<in> set value_flags"
  "''--input-format'' \<in> set value_flags"
  "''--model'' \<in> set value_flags"
  "''--fallback-model'' \<in> set value_flags"
  "''--betas'' \<in> set value_flags"
  "''--system-prompt'' \<in> set value_flags"
  "''--system-prompt-file'' \<in> set value_flags"
  "''--append-system-prompt'' \<in> set value_flags"
  "''--append-system-prompt-file'' \<in> set value_flags"
  "''--allowedTools'' \<in> set value_flags"
  "''--disallowedTools'' \<in> set value_flags"
  "''--tools'' \<in> set value_flags"
  "''--permission-mode'' \<in> set value_flags"
  "''--json-schema'' \<in> set value_flags"
  "''--max-budget-usd'' \<in> set value_flags"
  "''--max-turns'' \<in> set value_flags"
  "''--mcp-config'' \<in> set value_flags"
  "''--agent'' \<in> set value_flags"
  "''--agents'' \<in> set value_flags"
  "''--settings'' \<in> set value_flags"
  "''--setting-sources'' \<in> set value_flags"
  "''--plugin-dir'' \<in> set value_flags"
  "''--plugin-url'' \<in> set value_flags"
  "''--add-dir'' \<in> set value_flags"
  "''--effort'' \<in> set value_flags"
  "''--thinking'' \<in> set value_flags"
  "''--max-thinking-tokens'' \<in> set value_flags"
  "''--task-budget'' \<in> set value_flags"
  "''--debug-file'' \<in> set value_flags"
  "''--autocompact'' \<in> set value_flags"
  "''--prompt-suggestions'' \<in> set value_flags"
  "''--name'' \<in> set value_flags"
  "''--session-id'' \<in> set value_flags"
  "''--resume'' \<in> set value_flags"
  "''--permission-prompt-tool'' \<in> set value_flags"
  "''--print'' \<in> set switch_flags"
  "''--verbose'' \<in> set switch_flags"
  "''--allow-dangerously-skip-permissions'' \<in> set switch_flags"
  "''--dangerously-skip-permissions'' \<in> set switch_flags"
  "''--include-partial-messages'' \<in> set switch_flags"
  "''--strict-mcp-config'' \<in> set switch_flags"
  "''--bare'' \<in> set switch_flags"
  "''--disable-slash-commands'' \<in> set switch_flags"
  "''--safe-mode'' \<in> set switch_flags"
  "''--exclude-dynamic-system-prompt-sections'' \<in> set switch_flags"
  "''--include-hook-events'' \<in> set switch_flags"
  "''--forward-subagent-text'' \<in> set switch_flags"
  "''--fork-session'' \<in> set switch_flags"
  "''--continue'' \<in> set switch_flags"
  "''--no-session-persistence'' \<in> set switch_flags"
  "''--replay-user-messages'' \<in> set switch_flags"
  by (simp_all add: value_flags_def switch_flags_def)

lemma flag_kinds:
  assumes "kinds vf"
  shows
    "''--output-format'' \<in> set vf"
    "''--input-format'' \<in> set vf"
    "''--model'' \<in> set vf"
    "''--fallback-model'' \<in> set vf"
    "''--betas'' \<in> set vf"
    "''--system-prompt'' \<in> set vf"
    "''--system-prompt-file'' \<in> set vf"
    "''--append-system-prompt'' \<in> set vf"
    "''--append-system-prompt-file'' \<in> set vf"
    "''--allowedTools'' \<in> set vf"
    "''--disallowedTools'' \<in> set vf"
    "''--tools'' \<in> set vf"
    "''--permission-mode'' \<in> set vf"
    "''--json-schema'' \<in> set vf"
    "''--max-budget-usd'' \<in> set vf"
    "''--max-turns'' \<in> set vf"
    "''--mcp-config'' \<in> set vf"
    "''--agent'' \<in> set vf"
    "''--agents'' \<in> set vf"
    "''--settings'' \<in> set vf"
    "''--setting-sources'' \<in> set vf"
    "''--plugin-dir'' \<in> set vf"
    "''--plugin-url'' \<in> set vf"
    "''--add-dir'' \<in> set vf"
    "''--effort'' \<in> set vf"
    "''--thinking'' \<in> set vf"
    "''--max-thinking-tokens'' \<in> set vf"
    "''--task-budget'' \<in> set vf"
    "''--debug-file'' \<in> set vf"
    "''--autocompact'' \<in> set vf"
    "''--prompt-suggestions'' \<in> set vf"
    "''--name'' \<in> set vf"
    "''--session-id'' \<in> set vf"
    "''--resume'' \<in> set vf"
    "''--permission-prompt-tool'' \<in> set vf"
    "''--print'' \<notin> set vf"
    "''--verbose'' \<notin> set vf"
    "''--allow-dangerously-skip-permissions'' \<notin> set vf"
    "''--dangerously-skip-permissions'' \<notin> set vf"
    "''--include-partial-messages'' \<notin> set vf"
    "''--strict-mcp-config'' \<notin> set vf"
    "''--bare'' \<notin> set vf"
    "''--disable-slash-commands'' \<notin> set vf"
    "''--safe-mode'' \<notin> set vf"
    "''--exclude-dynamic-system-prompt-sections'' \<notin> set vf"
    "''--include-hook-events'' \<notin> set vf"
    "''--forward-subagent-text'' \<notin> set vf"
    "''--fork-session'' \<notin> set vf"
    "''--continue'' \<notin> set vf"
    "''--no-session-persistence'' \<notin> set vf"
    "''--replay-user-messages'' \<notin> set vf"
  by (rule kinds_value [OF assms] kinds_switch [OF assms], rule flag_lists)+

text \<open>\<open>complete_args vf xs\<close>: the arguments \<open>xs\<close> are complete groups, whatever follows them.\<close>

definition complete_args :: "string list \<Rightarrow> string list \<Rightarrow> bool" where
  "complete_args vf xs \<longleftrightarrow> (\<forall>rest. read_args vf (xs @ rest) = read_args vf xs @ read_args vf rest)"

lemma reads_Nil [arg_simps]: "complete_args vf []"
  by (simp add: complete_args_def)

lemma reads_append [arg_simps]: "complete_args vf xs \<Longrightarrow> complete_args vf ys \<Longrightarrow> complete_args vf (xs @ ys)"
  by (simp add: complete_args_def)

lemma reads_value [arg_simps]: "f \<in> set vf \<Longrightarrow> complete_args vf rest \<Longrightarrow> complete_args vf (f # v # rest)"
  by (simp add: complete_args_def read_value)

lemma reads_bare [arg_simps]: "f \<notin> set vf \<Longrightarrow> complete_args vf rest \<Longrightarrow> complete_args vf (f # rest)"
  by (simp add: complete_args_def read_bare)

lemma read_append [arg_simps]: "complete_args vf xs \<Longrightarrow> read_args vf (xs @ ys) = read_args vf xs @ read_args vf ys"
  by (simp add: complete_args_def)

text \<open>
  What an option looks like on the other side: a string is absent when it is empty, the names of a
  list are joined, a number is absent unless it is positive, a switch has no value.
\<close>

definition given :: "string \<Rightarrow> string option list" where
  "given v = (if v = [] then [] else [Some v])"

definition joined :: "string list \<Rightarrow> string option list" where
  "joined vs = (if vs = [] then [] else [Some (join '','' vs)])"

definition positive :: "int \<Rightarrow> string option list" where
  "positive n = (if n > 0 then [Some (show_int n)] else [])"

definition dollars :: "float64 \<Rightarrow> string option list" where
  "dollars x = (if x > 0 then [Some (show_2f x)] else [])"

definition switched :: "bool \<Rightarrow> string option list" where
  "switched b = (if b then [None] else [])"

lemma str_flag_reads [arg_simps]:
  assumes "f \<in> set vf"
  shows "complete_args vf (str_flag f v)" "read_args vf (str_flag f v) = map (Pair f) (given v)"
  using assms by (auto simp: str_flag_def given_def reads_value reads_Nil read_value)

lemma list_flag_reads [arg_simps]:
  assumes "f \<in> set vf"
  shows "complete_args vf (list_flag f vs)" "read_args vf (list_flag f vs) = map (Pair f) (joined vs)"
  using assms by (auto simp: list_flag_def joined_def reads_value reads_Nil read_value)

lemma int_flag_reads [arg_simps]:
  assumes "f \<in> set vf"
  shows "complete_args vf (int_flag f n)" "read_args vf (int_flag f n) = map (Pair f) (positive n)"
  using assms by (auto simp: int_flag_def positive_def reads_value reads_Nil read_value)

lemma each_flag_reads [arg_simps]:
  assumes "f \<in> set vf"
  shows "complete_args vf (each_flag f vs)" "read_args vf (each_flag f vs) = map (Pair f) (map Some vs)"
  using assms by (induction vs) (auto simp: each_flag_def reads_value reads_Nil read_value)

lemma switch_reads [arg_simps]:
  assumes "f \<notin> set vf"
  shows "complete_args vf (switch f b)" "read_args vf (switch f b) = map (Pair f) (switched b)"
  using assms by (auto simp: switch_def switched_def reads_bare reads_Nil read_bare)

lemma if_reads [arg_simps]:
  "complete_args vf xs \<Longrightarrow> complete_args vf ys \<Longrightarrow> complete_args vf (if b then xs else ys)"
  "read_args vf (if b then xs else ys) = (if b then read_args vf xs else read_args vf ys)"
  by simp_all

definition thinking_values :: "ThinkingConfig option \<Rightarrow> string option list" where
  "thinking_values t =
     (case t of
        Some ThinkingAdaptive \<Rightarrow> [Some ''adaptive'']
      | Some ThinkingDisabled \<Rightarrow> [Some ''disabled'']
      | _ \<Rightarrow> [])"

definition thinking_tokens :: "ThinkingConfig option \<Rightarrow> string option list" where
  "thinking_tokens t = (case t of Some (ThinkingEnabled n) \<Rightarrow> [Some (show_int n)] | _ \<Rightarrow> [])"

lemma thinking_reads:
  assumes "kinds vf"
  shows "complete_args vf (thinking_args t)"
    "read_args vf (thinking_args t)
       = map (Pair ''--thinking'') (thinking_values t)
         @ map (Pair ''--max-thinking-tokens'') (thinking_tokens t)"
  by (auto simp: thinking_args_def thinking_values_def thinking_tokens_def flag_kinds [OF assms] arg_simps
      split: option.splits ThinkingConfig.splits)

subsection \<open>Extra arguments\<close>

text \<open>
  What the reader of a run with extra arguments knows: those with a value take one. The keys of a map
  are distinct, and \<open>extras_ok\<close> asks that none of them is a flag of the library itself.
\<close>

definition extras_ok :: "options \<Rightarrow> bool" where
  "extras_ok op \<longleftrightarrow>
     distinct (map fst (op_extraArgs op))
     \<and> (\<forall>k \<in> set (map fst (op_extraArgs op)). ''--'' @ k \<notin> set (value_flags @ switch_flags))"

definition known_flags :: "options \<Rightarrow> string list" where
  "known_flags op =
     value_flags @ map (\<lambda>(k, v). ''--'' @ k) (filter (\<lambda>(k, v). v \<noteq> []) (op_extraArgs op))"

definition reads :: "options \<Rightarrow> string list \<Rightarrow> flags" where
  "reads op args = read_args (known_flags op) args"

definition extra_flags :: "options \<Rightarrow> flags" where
  "extra_flags op =
     map (\<lambda>k. (''--'' @ k, case map_of (op_extraArgs op) k of
                              Some v \<Rightarrow> if v = [] then None else Some v | None \<Rightarrow> None))
       (sort (map fst (op_extraArgs op)))"

lemma known_iff:
  "''--'' @ k \<in> set (known_flags op)
     \<longleftrightarrow> ''--'' @ k \<in> set value_flags \<or> (\<exists>v. (k, v) \<in> set (op_extraArgs op) \<and> v \<noteq> [])"
  unfolding known_flags_def set_append set_map set_filter by (auto simp: image_iff)

lemma extra_not_own:
  assumes "extras_ok op" "(k, v) \<in> set (op_extraArgs op)"
  shows "''--'' @ k \<notin> set value_flags" "''--'' @ k \<notin> set switch_flags"
proof -
  have "k \<in> set (map fst (op_extraArgs op))" using assms(2) by force
  then have "''--'' @ k \<notin> set (value_flags @ switch_flags)"
    using assms(1) unfolding extras_ok_def by blast
  then show "''--'' @ k \<notin> set value_flags" "''--'' @ k \<notin> set switch_flags" by simp_all
qed

lemma kinds_known:
  assumes "extras_ok op"
  shows "kinds (known_flags op)"
proof -
  have "x \<notin> set (known_flags op)" if x: "x \<in> set switch_flags" for x
  proof
    assume "x \<in> set (known_flags op)"
    then consider "x \<in> set value_flags" | k v where "x = ''--'' @ k" "(k, v) \<in> set (op_extraArgs op)"
      unfolding known_flags_def by auto
    then show False
    proof cases
      case 1
      with x kinds_value_flags show False unfolding kinds_def by blast
    next
      case 2
      with x extra_not_own(2) [OF assms 2(2)] show False by simp
    qed
  qed
  then have "set switch_flags \<inter> set (known_flags op) = {}" by blast
  moreover have "set value_flags \<subseteq> set (known_flags op)" unfolding known_flags_def by simp
  ultimately show ?thesis unfolding kinds_def by blast
qed

lemma extra_known:
  assumes "extras_ok op" "map_of (op_extraArgs op) k = Some v"
  shows "''--'' @ k \<in> set (known_flags op) \<longleftrightarrow> v \<noteq> []"
proof -
  have mem: "(k, v) \<in> set (op_extraArgs op)" using assms(2) by (rule map_of_SomeD)
  have "distinct (map fst (op_extraArgs op))" using assms(1) unfolding extras_ok_def by blast
  then have "v' = v" if "(k, v') \<in> set (op_extraArgs op)" for v'
    using assms(2) that by simp
  with mem extra_not_own(1) [OF assms(1) mem] show ?thesis unfolding known_iff by blast
qed

lemma extras_read:
  assumes "extras_ok op"
  shows "complete_args (known_flags op) (extra_args (op_extraArgs op))"
    "read_args (known_flags op) (extra_args (op_extraArgs op)) = extra_flags op"
proof -
  let ?vf = "known_flags op" and ?m = "op_extraArgs op"
  let ?a = "\<lambda>k. (''--'' @ k) # (case map_of ?m k of Some v \<Rightarrow> if v \<noteq> [] then [v] else [] | None \<Rightarrow> [])"
  let ?f = "\<lambda>k. (''--'' @ k, case map_of ?m k of Some v \<Rightarrow> if v = [] then None else Some v | None \<Rightarrow> None)"
  have one: "complete_args ?vf (?a k) \<and> read_args ?vf (?a k) = [?f k]" if k: "k \<in> fst ` set ?m" for k
  proof -
    obtain v where v: "map_of ?m k = Some v"
      using k by (cases "map_of ?m k") (simp_all add: map_of_eq_None_iff)
    define f where "f = ''--'' @ k"
    have kind: "f \<in> set ?vf \<longleftrightarrow> v \<noteq> []" unfolding f_def by (rule extra_known [OF assms v])
    have a: "?a k = f # (if v \<noteq> [] then [v] else [])" "?f k = (f, if v = [] then None else Some v)"
      by (simp_all only: v f_def option.case)
    show ?thesis
    proof (cases "v = []")
      case True
      with kind have n: "f \<notin> set ?vf" by blast
      have "complete_args ?vf [f] \<and> read_args ?vf [f] = [(f, None)]"
        using reads_bare [OF n reads_Nil] by (simp add: read_args.simps(2))
      with True show ?thesis unfolding a by simp
    next
      case False
      with kind have n: "f \<in> set ?vf" by blast
      have "complete_args ?vf [f, v] \<and> read_args ?vf [f, v] = [(f, Some v)]"
        using reads_value [OF n reads_Nil] read_value [OF n, of v "[]"] by simp
      with False show ?thesis unfolding a by simp
    qed
  qed
  have "complete_args ?vf (concat (map ?a ks)) \<and> read_args ?vf (concat (map ?a ks)) = map ?f ks"
    if "set ks \<subseteq> fst ` set ?m" for ks
    using that
  proof (induction ks)
    case (Cons k ks)
    then have k: "complete_args ?vf (?a k)" "read_args ?vf (?a k) = [?f k]" using one by auto
    have "complete_args ?vf (?a k @ concat (map ?a ks))
        \<and> read_args ?vf (?a k @ concat (map ?a ks)) = ?f k # map ?f ks"
      using Cons reads_append [OF k(1)] read_append [OF k(1)] k(2) by simp
    then show ?case by simp
  qed (simp add: reads_Nil)
  from this [of "sort (map fst ?m)"]
  show "complete_args ?vf (extra_args ?m)" "read_args ?vf (extra_args ?m) = extra_flags op"
    by (simp_all add: extra_args_def extra_flags_def)
qed

lemma extra_flag_own:
  assumes "extras_ok op" "g \<in> set (extra_flags op)"
  shows "fst g \<notin> set (value_flags @ switch_flags)"
  using assms by (auto simp: extras_ok_def extra_flags_def)

subsection \<open>The argument lists, read back\<close>

lemmas append_args_defs =
  appendModelArgs_def appendPromptArgs_def appendToolArgs_def appendOutputArgs_def appendMCPArgs_def
  appendAgentArgs_def appendSettingsArgs_def appendExecArgs_def

lemma common_reads: "extras_ok op \<Longrightarrow> complete_args (known_flags op) (buildCommonArgs op)"
  using kinds_known [of op]
  by (simp add: buildCommonArgs_def append_args_defs arg_simps flag_kinds thinking_reads extras_read)

lemma chosen_reads: "kinds vf \<Longrightarrow> complete_args vf (chosen_session op)"
  by (auto simp: chosen_session_def arg_simps flag_kinds)

lemma stream_only_split: "appendStreamOnlyArgs op args = args @ appendStreamOnlyArgs op []"
  by (simp add: appendStreamOnlyArgs_def)

lemma stream_only_reads: "kinds vf \<Longrightarrow> complete_args vf (appendStreamOnlyArgs op [])"
  by (simp add: appendStreamOnlyArgs_def arg_simps flag_kinds)

lemma prompt_tool_reads: "kinds vf \<Longrightarrow> complete_args vf (permission_prompt_args op)"
  by (simp add: permission_prompt_args_def arg_simps flag_kinds)

text \<open>
  What reading back must give: flags with their values, one after the other. \<open>common_values\<close> are the
  options of every run, in the order of the arguments.
\<close>

type_synonym flag_values = "(string \<times> string option list) list"

definition spread :: "flag_values \<Rightarrow> flags" where
  "spread tab = concat (map (\<lambda>(f, vs). map (Pair f) vs) tab)"

definition common_values :: "options \<Rightarrow> flag_values" where
  "common_values op =
     [(''--model'', [Some (if op_model op = [] then DefaultModel else op_model op)]),
      (''--fallback-model'', given (op_fallbackModel op)),
      (''--betas'', joined (op_betas op)),
      (''--system-prompt'', given (op_systemPrompt op)),
      (''--system-prompt-file'', given (op_systemPromptFile op)),
      (''--append-system-prompt'', given (op_appendSystemPrompt op)),
      (''--append-system-prompt-file'', given (op_appendSystemPromptFile op)),
      (''--allowedTools'', map Some (op_tools op)),
      (''--disallowedTools'', map Some (op_disallowedTools op)),
      (''--tools'', map Some (op_builtinTools op)),
      (''--permission-mode'', given (op_permissionMode op)),
      (''--allow-dangerously-skip-permissions'', switched (op_dangerouslySkipPerms op)),
      (''--dangerously-skip-permissions'', switched (op_dangerouslySkipPerms op)),
      (''--json-schema'', given (op_jsonSchema op)),
      (''--max-budget-usd'', dollars (op_maxBudget op)),
      (''--max-turns'', positive (op_maxTurns op)),
      (''--include-partial-messages'', switched (op_includePartialMessages op)),
      (''--mcp-config'', map Some (op_mcpConfig op)),
      (''--strict-mcp-config'', switched (op_strictMCPConfig op)),
      (''--agent'', given (op_agent op)),
      (''--agents'', given (op_agentDef op)),
      (''--settings'', given (op_settings op)),
      (''--setting-sources'', joined (op_settingSources op)),
      (''--plugin-dir'', map Some (op_pluginDirs op)),
      (''--plugin-url'', map Some (op_pluginURLs op)),
      (''--add-dir'', map Some (op_addDirs op)),
      (''--effort'', given (op_effort op)),
      (''--thinking'', thinking_values (op_thinking op)),
      (''--max-thinking-tokens'', thinking_tokens (op_thinking op)),
      (''--task-budget'', positive (op_taskBudget op)),
      (''--bare'', switched (op_bare op)),
      (''--debug-file'', given (op_debugFile op)),
      (''--disable-slash-commands'', switched (op_disableSlashCommands op)),
      (''--safe-mode'', switched (op_safeMode op)),
      (''--autocompact'', given (op_autoCompact op)),
      (''--exclude-dynamic-system-prompt-sections'',
       switched (op_excludeDynamicSystemPromptSections op))]"

definition stream_values :: "options \<Rightarrow> flag_values" where
  "stream_values op =
     [(''--include-hook-events'', switched (op_includeHookEvents op)),
      (''--forward-subagent-text'', switched (op_forwardSubagentText op)),
      (''--prompt-suggestions'', if op_promptSuggestions op then [Some ''true''] else [])]"

definition name_values :: "options \<Rightarrow> flag_values" where
  "name_values op = [(''--name'', given (op_sessionName op))]"

definition permission_prompt_values :: "options \<Rightarrow> flag_values" where
  "permission_prompt_values op =
     [(''--permission-prompt-tool'',
       if op_canUseTool op \<noteq> None \<or> op_canUseToolReq op \<noteq> None \<or> op_canUseToolReqCtx op \<noteq> None
          \<or> op_userInput op \<noteq> None \<or> op_userInputCtx op \<noteq> None
       then [Some (if op_permissionPromptToolName op = [] then ''stdio''
                   else op_permissionPromptToolName op)]
       else [])]"

text \<open>The conversation a run names.\<close>

definition chosen :: "options \<Rightarrow> flags" where
  "chosen op =
     (if op_sessionID op \<noteq> [] then [(''--session-id'', Some (op_sessionID op))]
      else if op_resume op \<noteq> [] then [(''--resume'', Some (op_resume op))]
      else if op_continueSession op then [(''--continue'', None)] else [])"

definition session_flags :: "options \<Rightarrow> flags" where
  "session_flags op =
     chosen op @ (if chosen op = [] then [] else map (Pair ''--fork-session'') (switched (op_forkSession op)))"

definition persistence_flags :: "options \<Rightarrow> flags" where
  "persistence_flags op =
     (if chosen op = [] then [(''--no-session-persistence'', None)] else session_flags op)"

lemma read_common:
  assumes "extras_ok op"
  shows "reads op (buildCommonArgs op) = spread (common_values op) @ extra_flags op"
  using kinds_known [OF assms]
  by (simp add: reads_def buildCommonArgs_def append_args_defs common_values_def spread_def arg_simps
      flag_kinds thinking_reads extras_read [OF assms] dollars_def switched_def [of "op_dangerouslySkipPerms op"])

lemma read_parts:
  assumes "kinds vf"
  shows "read_args vf (appendStreamOnlyArgs op []) = spread (stream_values op)"
    "read_args vf (str_flag ''--name'' (op_sessionName op)) = spread (name_values op)"
    "read_args vf (permission_prompt_args op) = spread (permission_prompt_values op)"
    "read_args vf (chosen_session op) = session_flags op"
    "chosen_session op = [] \<longleftrightarrow> chosen op = []"
  by (simp_all add: appendStreamOnlyArgs_def stream_values_def name_values_def spread_def
      permission_prompt_args_def permission_prompt_values_def chosen_session_def session_flags_def
      chosen_def arg_simps flag_kinds [OF assms])

text \<open>The three argument lists, read back.\<close>

definition one_shot_flags :: "string \<Rightarrow> flags" where
  "one_shot_flags fmt = [(''--print'', None), (''--verbose'', None), (''--output-format'', Some fmt)]"

definition connect_flags :: flags where
  "connect_flags =
     [(''--verbose'', None), (''--output-format'', Some ''stream-json''),
      (''--input-format'', Some ''stream-json'')]"

lemma one_shot_reads:
  "kinds vf \<Longrightarrow> read_args vf (''--print'' # ''--verbose'' # ''--output-format'' # fmt # rest)
     = one_shot_flags fmt @ read_args vf rest"
  by (simp add: one_shot_flags_def arg_simps flag_kinds)

lemma connect_reads:
  "kinds vf \<Longrightarrow>
     read_args vf (''--verbose'' # ''--output-format'' # ''stream-json'' # ''--input-format''
                     # ''stream-json'' # rest) = connect_flags @ read_args vf rest"
  by (simp add: connect_flags_def arg_simps flag_kinds)

lemma name_reads: "kinds vf \<Longrightarrow> complete_args vf (str_flag ''--name'' v)"
  by (simp add: str_flag_reads flag_kinds)

lemma read_buildArgs:
  assumes "extras_ok op"
  shows "reads op (buildArgs op) =
     one_shot_flags ''stream-json'' @ spread (common_values op) @ extra_flags op
     @ spread (stream_values op) @ spread (name_values op) @ persistence_flags op"
proof -
  note k = kinds_known [OF assms]
  have p: "(chosen op = [] \<longrightarrow> read_args (known_flags op) [''--no-session-persistence''] = persistence_flags op)
      \<and> (chosen op \<noteq> [] \<longrightarrow> session_flags op = persistence_flags op)"
    by (simp add: persistence_flags_def read_args.simps(2))
  show ?thesis
    using read_common [OF assms] p
    by (simp add: reads_def buildArgs_def appendSessionArgs_def stream_only_split [of op "_ # _"]
        one_shot_reads [OF k] read_append [OF common_reads [OF assms]]
        read_append [OF stream_only_reads [OF k]] read_append [OF name_reads [OF k]] read_parts [OF k])
qed

lemma read_buildBlockingArgs:
  assumes "extras_ok op"
  shows "reads op (buildBlockingArgs op) =
     one_shot_flags ''json'' @ spread (common_values op) @ extra_flags op
     @ spread (name_values op) @ persistence_flags op"
proof -
  note k = kinds_known [OF assms]
  have p: "(chosen op = [] \<longrightarrow> read_args (known_flags op) [''--no-session-persistence''] = persistence_flags op)
      \<and> (chosen op \<noteq> [] \<longrightarrow> session_flags op = persistence_flags op)"
    by (simp add: persistence_flags_def read_args.simps(2))
  show ?thesis
    using read_common [OF assms] p
    by (simp add: reads_def buildBlockingArgs_def appendSessionArgs_def one_shot_reads [OF k]
        read_append [OF common_reads [OF assms]]
        read_append [OF name_reads [OF k]] read_parts [OF k])
qed

lemma read_buildSessionArgs:
  assumes "extras_ok op"
  shows "reads op (buildSessionArgs op) =
     connect_flags @ spread (common_values op) @ extra_flags op
     @ spread (stream_values op) @ spread (name_values op) @ session_flags op
     @ spread (permission_prompt_values op) @ [(''--replay-user-messages'', None)]"
proof -
  note k = kinds_known [OF assms]
  have r: "read_args (known_flags op) [''--replay-user-messages''] = [(''--replay-user-messages'', None)]"
    by (simp add: read_args.simps(2))
  show ?thesis
    using read_common [OF assms] r
    by (simp add: reads_def buildSessionArgs_def stream_only_split [of op "_ # _"] connect_reads [OF k]
        read_append [OF common_reads [OF assms]] read_append [OF chosen_reads [OF k]]
        read_append [OF prompt_tool_reads [OF k]]
        read_append [OF stream_only_reads [OF k]] read_append [OF name_reads [OF k]] read_parts [OF k])
qed

section \<open>What the CLI receives\<close>

definition values_of :: "string \<Rightarrow> flags \<Rightarrow> string option list" where
  "values_of f gs = map snd (filter (\<lambda>g. fst g = f) gs)"




lemma spread_names: "fst ` set (spread tab) \<subseteq> set (map fst tab)"
  by (force simp: spread_def)



text \<open>The names of the tables.\<close>

definition common_names :: "string list" where
  "common_names =
     [''--model'', ''--fallback-model'', ''--betas'', ''--system-prompt'',
      ''--system-prompt-file'', ''--append-system-prompt'', ''--append-system-prompt-file'',
      ''--allowedTools'', ''--disallowedTools'', ''--tools'', ''--permission-mode'',
      ''--allow-dangerously-skip-permissions'', ''--dangerously-skip-permissions'',
      ''--json-schema'', ''--max-budget-usd'', ''--max-turns'',
      ''--include-partial-messages'', ''--mcp-config'', ''--strict-mcp-config'',
      ''--agent'', ''--agents'', ''--settings'', ''--setting-sources'', ''--plugin-dir'',
      ''--plugin-url'', ''--add-dir'', ''--effort'', ''--thinking'',
      ''--max-thinking-tokens'', ''--task-budget'', ''--bare'', ''--debug-file'',
      ''--disable-slash-commands'', ''--safe-mode'', ''--autocompact'',
      ''--exclude-dynamic-system-prompt-sections'']"

definition mode_flags :: "string list" where
  "mode_flags =
     [''--print'', ''--verbose'', ''--output-format'', ''--input-format'', ''--session-id'',
      ''--resume'', ''--continue'', ''--fork-session'', ''--no-session-persistence'']"

definition part_names :: "string list" where
  "part_names =
     [''--include-hook-events'', ''--forward-subagent-text'', ''--prompt-suggestions'', ''--name'',
      ''--permission-prompt-tool'', ''--replay-user-messages'']"

lemma table_names:
  "map fst (common_values op) = common_names"
  "map fst (stream_values op) = [''--include-hook-events'', ''--forward-subagent-text'', ''--prompt-suggestions'']"
  "map fst (name_values op) = [''--name'']"
  "map fst (permission_prompt_values op) = [''--permission-prompt-tool'']"
  by (simp_all add: common_values_def common_names_def stream_values_def name_values_def
      permission_prompt_values_def)

lemma names_apart:
  "distinct (common_names @ part_names @ mode_flags)"
  "list_all (\<lambda>f. f \<in> set (value_flags @ switch_flags)) (common_names @ part_names @ mode_flags)"
  by code_simp+









lemma own_names:
  "f \<in> set (common_names @ part_names) \<Longrightarrow> f \<notin> set mode_flags \<and> f \<in> set (value_flags @ switch_flags)"
  using names_apart unfolding list_all_iff distinct_append by auto









definition sample_options :: options where
  "sample_options =
     (case WithExtraArgs [(''foo'', ''bar''), (''quiet'', [])] of
        Inr f \<Rightarrow>
          resolveOptions [WithModel ''opus'', WithTools [''Read'']]
            [WithTools [''Bash,Edit''], WithSystemPrompt ''--dangerously-skip-permissions'',
             WithMaxTurns 3, WithAgentDef ''{}'', WithUserInput (Some 1), f]
      | Inl e \<Rightarrow> zero_options)"

lemma sample_extras: "extras_ok sample_options" "extras_ok (WithPromptSuggestions sample_options)"
  by code_simp+


text \<open>The flags that choose the conversation.\<close>

definition persistence_choice :: "string list" where
  "persistence_choice =
     [''--session-id'', ''--resume'', ''--continue'', ''--no-session-persistence'']"

definition choices :: "flags \<Rightarrow> flags" where
  "choices gs = filter (\<lambda>g. fst g \<in> set persistence_choice) gs"

lemma choices_append: "choices (xs @ ys) = choices xs @ choices ys"
  by (simp add: choices_def)

lemma choices_absent: "fst ` set gs \<inter> set persistence_choice = {} \<Longrightarrow> choices gs = []"
  unfolding choices_def filter_empty_conv by blast

lemma choice_flags: "set persistence_choice \<subseteq> set mode_flags"
  by (simp add: persistence_choice_def mode_flags_def)

lemma table_choices:
  assumes "set (map fst tab) \<subseteq> set (common_names @ part_names)"
  shows "choices (spread tab) = []"
  using assms spread_names [of tab] own_names choice_flags by (intro choices_absent) blast

lemma choices_parts:
  "choices (spread (common_values op)) = []" "choices (spread (stream_values op)) = []"
  "choices (spread (name_values op)) = []" "choices (spread (permission_prompt_values op)) = []"
  by (rule table_choices; auto simp: table_names part_names_def)+

lemma choices_modes:
  "choices (one_shot_flags fmt) = []" "choices connect_flags = []"
  "choices [(''--replay-user-messages'', None)] = []"
  "choices (session_flags op) = chosen op"
  "choices (persistence_flags op)
     = (if chosen op = [] then [(''--no-session-persistence'', None)] else chosen op)"
  by (auto simp: choices_def persistence_choice_def one_shot_flags_def connect_flags_def
      session_flags_def persistence_flags_def chosen_def switched_def)

lemma own_flags:
  "set mode_flags \<subseteq> set (value_flags @ switch_flags)"
  using names_apart(2) unfolding list_all_iff by auto

lemma extra_choices: "extras_ok op \<Longrightarrow> choices (extra_flags op) = []"
  using extra_flag_own own_flags choice_flags by (intro choices_absent) blast

text \<open>
  C21: A run belongs to one conversation: whatever combination of session id, resume and continue is
  set, a one-shot run names exactly one choice, with session id before resume before continue and no
  transcript as the last resort; a session names the same choice or none. Extra arguments may be given
  unless they name a flag of the library.
\<close>

theorem one_conversation_is_chosen:
  assumes "extras_ok op"
  shows "choices (reads op (buildArgs op))
        = (if chosen op = [] then [(''--no-session-persistence'', None)] else chosen op)
    \<and> choices (reads op (buildBlockingArgs op)) = choices (reads op (buildArgs op))
    \<and> choices (reads op (buildSessionArgs op)) = chosen op
    \<and> length (choices (reads op (buildArgs op))) = 1"
proof -
  have "length (chosen op) \<le> 1" by (simp add: chosen_def)
  then have "chosen op \<noteq> [] \<Longrightarrow> length (chosen op) = 1" by (cases "chosen op") auto
  then show ?thesis
    unfolding read_buildArgs [OF assms] read_buildBlockingArgs [OF assms] read_buildSessionArgs [OF assms]
    by (simp only: choices_append choices_parts choices_modes extra_choices [OF assms] append_Nil append_Nil2)
      simp
qed

theorem one_conversation_is_chosen_witness:
  "length (choices (reads sample_options (buildArgs sample_options))) = 1"
  using one_conversation_is_chosen [OF sample_extras(1)] by blast

text \<open>The flags the CLI rejects outside stream-json.\<close>

definition stream_only :: "string list" where
  "stream_only = [''--include-hook-events'', ''--forward-subagent-text'', ''--prompt-suggestions'']"

definition in_json :: "flags \<Rightarrow> flags" where
  "in_json gs =
     map (\<lambda>g. if fst g = ''--output-format'' then (''--output-format'', Some ''json'') else g)
       (filter (\<lambda>g. fst g \<notin> set stream_only) gs)"

lemma in_json_append: "in_json (xs @ ys) = in_json xs @ in_json ys"
  by (simp add: in_json_def)

lemma in_json_same:
  assumes "fst ` set gs \<inter> set (''--output-format'' # stream_only) = {}"
  shows "in_json gs = gs"
proof -
  have "filter (\<lambda>g. fst g \<notin> set stream_only) gs = gs" using assms by (auto simp: filter_id_conv)
  then show ?thesis using assms by (force simp: in_json_def intro!: map_idI)
qed

lemma stream_part: "set (''--output-format'' # stream_only) \<subseteq> set (part_names @ mode_flags)"
  by (simp add: stream_only_def part_names_def mode_flags_def)

lemma in_json_common: "in_json (spread (common_values op)) = spread (common_values op)"
proof -
  have "fst ` set (spread (common_values op)) \<subseteq> set common_names"
    using spread_names [of "common_values op"] by (simp add: table_names)
  moreover have "set common_names \<inter> set (part_names @ mode_flags) = {}"
    using names_apart(1) unfolding distinct_append by blast
  ultimately show ?thesis using stream_part by (intro in_json_same) blast
qed

lemma in_json_extra: "extras_ok op \<Longrightarrow> in_json (extra_flags op) = extra_flags op"
proof -
  assume "extras_ok op"
  moreover have "set (part_names @ mode_flags) \<subseteq> set (value_flags @ switch_flags)"
    using names_apart(2) unfolding list_all_iff by auto
  ultimately show ?thesis
    using extra_flag_own [of op] stream_part by (intro in_json_same) blast
qed

lemma in_json_parts:
  "in_json (one_shot_flags fmt) = one_shot_flags ''json''"
  "in_json (spread (name_values op)) = spread (name_values op)"
  "in_json (persistence_flags op) = persistence_flags op"
  "in_json (spread (stream_values op)) = []"
  by (auto simp: in_json_def one_shot_flags_def name_values_def stream_values_def spread_def
      persistence_flags_def session_flags_def chosen_def stream_only_def given_def switched_def)

text \<open>
  C22: A blocking run is the streaming run in another output format: its arguments are those of the
  streaming run, in the same order, with the format replaced and without the flags that only streams
  accept. Extra arguments are among them; they may be any that do not name a flag of the library.
\<close>

theorem blocking_arguments_are_the_streaming_ones:
  assumes "extras_ok op"
  shows "reads op (buildBlockingArgs op)
     = map (\<lambda>g. if fst g = ''--output-format'' then (''--output-format'', Some ''json'') else g)
         (filter (\<lambda>g. fst g \<notin> set stream_only) (reads op (buildArgs op)))"
proof -
  have "in_json (reads op (buildArgs op)) = reads op (buildBlockingArgs op)"
    by (simp only: read_buildArgs [OF assms] read_buildBlockingArgs [OF assms] in_json_append
        in_json_common in_json_extra [OF assms] in_json_parts append_Nil append_Nil2)
  then show ?thesis by (simp add: in_json_def)
qed

theorem blocking_arguments_are_the_streaming_ones_witness:
  "fst ` set (reads (WithPromptSuggestions sample_options)
               (buildBlockingArgs (WithPromptSuggestions sample_options)))
     \<inter> set stream_only = {}
   \<and> (''--foo'', Some ''bar'') \<in> set (reads (WithPromptSuggestions sample_options)
               (buildBlockingArgs (WithPromptSuggestions sample_options)))"
proof -
  let ?op = "WithPromptSuggestions sample_options"
  have "(''--foo'', Some ''bar'') \<in> set (reads ?op (buildArgs ?op))" by code_simp
  with blocking_arguments_are_the_streaming_ones [OF sample_extras(2)] show ?thesis
    by (force simp: stream_only_def split: if_splits)
qed

section \<open>Extra arguments\<close>

text \<open>The arguments do not depend on the order in which a map happens to be walked.\<close>

lemma extra_args_order:
  assumes "distinct (map fst m)" "mset m = mset m'"
  shows "extra_args m = extra_args m'"
proof -
  have k: "mset (map fst m) = mset (map fst m')" using assms(2) by (simp add: mset_map)
  then have "distinct (map fst m')" using assms(1) mset_eq_imp_distinct_iff by blast
  then have "map_of m x = map_of m' x" for x
    using assms mset_eq_setD [OF assms(2)] map_of_eq_Some_iff [of m x] map_of_eq_Some_iff [of m' x]
    by (metis not_None_eq)
  moreover have "sort (map fst m) = sort (map fst m')"
    using k by (intro properties_for_sort) simp_all
  ultimately show ?thesis by (simp add: extra_args_def)
qed

text \<open>
  The rejected keys are exactly the reserved ones. The documentation of \<^verbatim>\<open>WithExtraArgs\<close> counts
  \<^verbatim>\<open>model\<close> among them, but the code accepts it, and \<^verbatim>\<open>--model\<close> is then given twice.
\<close>

lemma rejected_iff_reserved:
  "isl (WithExtraArgs args) \<longleftrightarrow> set (map fst args) \<inter> set reservedFlags \<noteq> {}"
proof (cases "find (\<lambda>k. k \<in> set reservedFlags) (map fst args)")
  case None
  then have "set (map fst args) \<inter> set reservedFlags = {}" by (auto simp: find_None_iff)
  with None show ?thesis by (simp add: WithExtraArgs_def)
next
  case (Some k)
  then have "k \<in> set reservedFlags \<and> k \<in> set (map fst args)"
    by (metis (mono_tags, lifting) find_Some_iff nth_mem)
  with Some show ?thesis by (auto simp: WithExtraArgs_def simp del: set_map)
qed

lemma model_is_not_reserved:
  "\<exists>f. WithExtraArgs [(''model'', ''opus'')] = Inr f
     \<and> values_of ''--model'' (read_args value_flags (buildArgs (f zero_options))) = [Some ''sonnet'', Some ''opus'']"
proof -
  have "buildArgs (zero_options\<lparr>op_extraArgs := [(''model'', ''opus'')]\<rparr>)
      = [''--print'', ''--verbose'', ''--output-format'', ''stream-json'', ''--model'', ''sonnet'',
         ''--model'', ''opus'', ''--no-session-persistence'']"
    by code_simp
  then show ?thesis
    by (simp add: WithExtraArgs_def reservedFlags_def values_of_def read_args.simps(2) arg_simps
        flag_kinds [OF kinds_value_flags])
qed

end
