(* ===== verification/Environment.thy ===== *)
theory Environment
  imports Version Options Errors
begin

text \<open>
  env.go and the spawning side of executor.go and executor\_unix.go: the environment a CLI gets, what
  the library believes it gets, the projects directory, and the preparation of a process up to the
  system call. Paths are unix paths.
\<close>

section \<open>Paths\<close>

text \<open>\<^verbatim>\<open>filepath.Clean\<close> and \<^verbatim>\<open>filepath.Join\<close>; the components so far are in reverse order.\<close>

fun clean_comps :: "bool \<Rightarrow> string list \<Rightarrow> string list \<Rightarrow> string list" where
  "clean_comps rooted acc [] = rev acc"
| "clean_comps rooted acc (c # cs) =
     (if c = [] \<or> c = ''.'' then clean_comps rooted acc cs
      else if c = ''..'' then
        (case acc of
           [] \<Rightarrow> clean_comps rooted (if rooted then [] else [''..'']) cs
         | a # as \<Rightarrow> clean_comps rooted (if a = ''..'' then ''..'' # acc else as) cs)
      else clean_comps rooted (c # acc) cs)"

definition path_clean :: "string \<Rightarrow> string" where
  "path_clean p =
     (let rooted = has_prefix p ''/'';
          body = join ''/'' (clean_comps rooted [] (split_on CHR ''/'' p)) in
      if rooted then ''/'' @ body else if body = [] then ''.'' else body)"

definition path_join :: "string list \<Rightarrow> string" where
  "path_join elems =
     (case filter (\<lambda>e. e \<noteq> []) elems of [] \<Rightarrow> [] | es \<Rightarrow> path_clean (join ''/'' es))"

text \<open>\<^verbatim>\<open>filepath.Dir\<close>: what stands up to the prev slash, cleaned.\<close>

definition path_dir :: "string \<Rightarrow> string" where
  "path_dir p = path_clean (rev (dropWhile (\<lambda>c. c \<noteq> CHR ''/'') (rev p)))"

definition IsAbs :: "string \<Rightarrow> bool" where
  "IsAbs p = has_prefix p ''/''"

section \<open>Environments\<close>

text \<open>
  An environment is its entries \<^verbatim>\<open>key=value\<close>. \<^verbatim>\<open>os.LookupEnv\<close> answers with the first entry of a key; a
  child is given the last one, which \<^verbatim>\<open>os/exec\<close> documents.
\<close>

definition entry_key :: "string \<Rightarrow> string" where
  "entry_key e = fst (cut e ''='')"

definition entry_pair :: "string \<Rightarrow> (string \<times> string) list" where
  "entry_pair e = (case cut e ''='' of (k, v, found) \<Rightarrow> if found then [(k, v)] else [])"

definition pairs_of :: "string list \<Rightarrow> (string \<times> string) list" where
  "pairs_of env = concat (map entry_pair env)"

definition LookupEnv :: "string list \<Rightarrow> string \<Rightarrow> string option" where
  "LookupEnv environ key = map_of (pairs_of environ) key"

definition child_value :: "string list \<Rightarrow> string \<Rightarrow> string option" where
  "child_value env key = map_of (rev (pairs_of env)) key"

type_synonym cliEnv = "(string \<times> string) list"

definition cliEnv_lookup :: "string list \<Rightarrow> cliEnv \<Rightarrow> string \<Rightarrow> string option" where
  "cliEnv_lookup environ e key =
     (case map_of e key of Some v \<Rightarrow> Some v | None \<Rightarrow> LookupEnv environ key)"

definition cliEnv_getenv :: "string list \<Rightarrow> cliEnv \<Rightarrow> string \<Rightarrow> string" where
  "cliEnv_getenv environ e key = (case cliEnv_lookup environ e key of Some v \<Rightarrow> v | None \<Rightarrow> [])"

text \<open>\<^verbatim>\<open>os.UserHomeDir\<close> and the client's version of it.\<close>

definition UserHomeDir :: "bool \<Rightarrow> string list \<Rightarrow> go_error + string" where
  "UserHomeDir windows environ =
     (let key = (if windows then ''USERPROFILE'' else ''HOME'') in
      case LookupEnv environ key of
        Some v \<Rightarrow> if v \<noteq> [] then Inr v
                  else Inl (EExt ((if windows then ''%userprofile%'' else ''$HOME'') @ '' is not defined''))
      | None \<Rightarrow> Inl (EExt ((if windows then ''%userprofile%'' else ''$HOME'') @ '' is not defined'')))"

definition userHomeDir :: "bool \<Rightarrow> string list \<Rightarrow> cliEnv \<Rightarrow> go_error + string" where
  "userHomeDir windows environ e =
     (case map_of e (if windows then ''USERPROFILE'' else ''HOME'') of
        Some v \<Rightarrow> if v \<noteq> [] then Inr v else UserHomeDir windows environ
      | None \<Rightarrow> UserHomeDir windows environ)"

text \<open>The environment of helper processes; \<open>None\<close> inherits the process's own.\<close>

definition entry_text :: "string \<times> string \<Rightarrow> string" where
  "entry_text kv = fst kv @ ''='' @ snd kv"

definition cmdEnv :: "string list \<Rightarrow> cliEnv \<Rightarrow> string list option" where
  "cmdEnv environ e =
     (if e = [] then None
      else Some (filter (\<lambda>kv. map_of e (entry_key kv) = None) environ @ map entry_text e))"

definition ErrConfigDirNotAbsolute :: go_error where
  "ErrConfigDirNotAbsolute = ENew ''claudecli: CLAUDE_CONFIG_DIR is not an absolute path''"

text \<open>\<open>goq\<close> is \<^verbatim>\<open>strconv.Quote\<close>.\<close>

definition projectsDir :: "(string \<Rightarrow> string) \<Rightarrow> string list \<Rightarrow> cliEnv \<Rightarrow> go_error + string" where
  "projectsDir goq environ e =
     (case cliEnv_lookup environ e ''CLAUDE_CONFIG_DIR'' of
        Some d \<Rightarrow>
          if \<not> IsAbs d then Inl (EWrap [] ErrConfigDirNotAbsolute ('': '' @ goq d))
          else Inr (path_join [d, ''projects''])
      | None \<Rightarrow>
          (case userHomeDir False environ e of
             Inl err \<Rightarrow> Inl (EWrap ''claudecli: resolve projects dir: '' err [])
           | Inr home \<Rightarrow> Inr (path_join [home, ''.claude'', ''projects''])))"

text \<open>\<^verbatim>\<open>Client.ProjectsDir\<close>: the entries of the client's default options.\<close>

definition ProjectsDir ::
    "(string \<Rightarrow> string) \<Rightarrow> string list \<Rightarrow> option_fn list \<Rightarrow> go_error + string" where
  "ProjectsDir goq environ defaults =
     projectsDir goq environ (op_env (resolveOptions defaults []))"

definition buildEnv :: "string list \<Rightarrow> string \<Rightarrow> cliEnv \<Rightarrow> string list" where
  "buildEnv environ version overrides =
     filter (\<lambda>e. \<not> (entry_key e = ''CLAUDECODE'' \<or> entry_key e = ''CLAUDE_CODE_ENTRYPOINT'')
                  \<and> map_of overrides (entry_key e) = None) environ
     @ map entry_text overrides
     @ (if map_of overrides ''CLAUDE_CODE_ENTRYPOINT'' = None
        then [''CLAUDE_CODE_ENTRYPOINT=sdk-go''] else [])
     @ [''CLAUDE_AGENT_SDK_VERSION='' @ version]"

section \<open>Starting a process\<close>

record StartConfig =
  sc_Args :: "string list"
  sc_Stdin :: "string option"
  sc_Env :: cliEnv
  sc_WorkDir :: string
  sc_KeepStdinOpen :: bool
  sc_EnableFileCheckpointing :: bool
  sc_SkipVersionCheck :: bool

record LocalExecutor =
  lx_BinaryPath :: string
  lx_versionOnce :: bool
  lx_versionErr :: "VersionError option"

definition NewLocalExecutor :: LocalExecutor where
  "NewLocalExecutor = \<lparr>lx_BinaryPath = [], lx_versionOnce = False, lx_versionErr = None\<rparr>"

text \<open>What the operating system is asked to start, and whether stdin is closed once it is written.\<close>

record spawn =
  sp_Argv :: "string list"
  sp_Env :: "string list"
  sp_Dir :: string
  sp_Stdin :: string
  sp_StdinClosed :: bool

datatype spawn_outcome =
    SpawnOk
  | StdinPipeFails go_error
  | StdoutPipeFails go_error
  | StderrPipeFails go_error
  | SpawnFails go_error

text \<open>The machine: the binaries on the path, what a binary answers to \<^verbatim>\<open>-v\<close>, the environment.\<close>

record machine =
  ma_LookPath :: "string \<Rightarrow> string option"
  ma_version_output :: "string \<Rightarrow> string option"
  ma_linux :: bool
  ma_environ :: "string list"
  ma_sdkVersion :: string

definition buildPlatformCmd :: "machine \<Rightarrow> string \<Rightarrow> string list \<Rightarrow> string list" where
  "buildPlatformCmd m binary args =
     (if ma_linux m then
        (case ma_LookPath m ''stdbuf'' of
           Some stdbuf \<Rightarrow> stdbuf # ''-oL'' # binary # args
         | None \<Rightarrow> binary # args)
      else binary # args)"

definition version_once :: "machine \<Rightarrow> string \<Rightarrow> LocalExecutor \<Rightarrow> LocalExecutor" where
  "version_once m binary e =
     (if lx_versionOnce e then e
      else e\<lparr>lx_versionOnce := True,
             lx_versionErr := CheckCLIVersion (ma_LookPath m) (ma_version_output m) binary\<rparr>)"

definition start_env :: "machine \<Rightarrow> StartConfig \<Rightarrow> string list" where
  "start_env m cfg =
     buildEnv (ma_environ m) (ma_sdkVersion m)
       (if sc_EnableFileCheckpointing cfg
        then map_put ''CLAUDE_CODE_ENABLE_SDK_FILE_CHECKPOINTING'' ''1'' (sc_Env cfg)
        else sc_Env cfg)"

definition spawn_of :: "machine \<Rightarrow> string \<Rightarrow> StartConfig \<Rightarrow> spawn" where
  "spawn_of m resolved cfg =
     \<lparr>sp_Argv = buildPlatformCmd m resolved (sc_Args cfg), sp_Env = start_env m cfg,
      sp_Dir = sc_WorkDir cfg,
      sp_Stdin = (case sc_Stdin cfg of Some t \<Rightarrow> t | None \<Rightarrow> []),
      sp_StdinClosed = (\<not> sc_KeepStdinOpen cfg)\<rparr>"

text \<open>\<open>notFound\<close> is the error of \<^verbatim>\<open>exec.LookPath\<close>.\<close>

definition LocalExecutor_Start ::
    "machine \<Rightarrow> go_error \<Rightarrow> spawn_outcome \<Rightarrow> StartConfig \<Rightarrow> LocalExecutor
      \<Rightarrow> LocalExecutor \<times> (go_error + spawn)" where
  "LocalExecutor_Start m notFound out cfg e =
     (let binary = (if lx_BinaryPath e = [] then ''claude'' else lx_BinaryPath e);
          e = (if sc_SkipVersionCheck cfg then e else version_once m binary e) in
      case (if sc_SkipVersionCheck cfg then None else lx_versionErr e) of
        Some v \<Rightarrow> (e, Inl (ENew (version_error_text v)))
      | None \<Rightarrow>
          (case ma_LookPath m binary of
             None \<Rightarrow> (e, Inl (EWrap ''claude binary not found: '' notFound []))
           | Some resolved \<Rightarrow>
               (case out of
                  SpawnOk \<Rightarrow> (e, Inr (spawn_of m resolved cfg))
                | StdinPipeFails x \<Rightarrow> (e, Inl (EWrap ''stdin pipe: '' x []))
                | StdoutPipeFails x \<Rightarrow> (e, Inl (EWrap ''stdout pipe: '' x []))
                | StderrPipeFails x \<Rightarrow> (e, Inl (EWrap ''stderr pipe: '' x []))
                | SpawnFails x \<Rightarrow> (e, Inl (EWrap ''start: '' x [])))))"

section \<open>Facts\<close>

lemma map_of_rev: "distinct (map fst m) \<Longrightarrow> map_of (rev m) = map_of m"
  by (rule ext, rule option.expand) (auto simp: map_of_eq_None_iff, metis distinct_rev map_of_eq_Some_iff option.distinct(1) option.sel rev_map set_rev)

lemma pairs_append [simp]: "pairs_of (xs @ ys) = pairs_of xs @ pairs_of ys"
  by (simp add: pairs_of_def)

lemma index_of_eq_absent: "CHR ''='' \<notin> set k \<Longrightarrow> index_of (k @ CHR ''='' # v) ''='' = Some (length k)"
  by (induction k) (auto simp: has_prefix_def)

lemma entry_pair_text: "CHR ''='' \<notin> set k \<Longrightarrow> entry_pair (entry_text (k, v)) = [(k, v)]"
  by (simp add: entry_pair_def entry_text_def cut_def index_of_eq_absent)

lemma entry_pair_key: "entry_pair e = [] \<or> (\<exists>v. entry_pair e = [(entry_key e, v)])"
  by (auto simp: entry_pair_def entry_key_def split: prod.split)

lemma pairs_of_texts: "\<forall>k \<in> fst ` set m. CHR ''='' \<notin> set k \<Longrightarrow> pairs_of (map entry_text m) = m"
  by (induction m) (auto simp: pairs_of_def entry_pair_text)

lemma child_append:
  "child_value (xs @ ys) k = (case child_value ys k of Some v \<Rightarrow> Some v | None \<Rightarrow> child_value xs k)"
  by (simp add: child_value_def map_add_def split: option.split)

lemma child_filter: "child_value (filter (\<lambda>e. P (entry_key e)) env) k = (if P k then child_value env k else None)"
proof (induction env rule: rev_induct)
  case Nil
  show ?case by (simp add: child_value_def pairs_of_def)
next
  case (snoc e env)
  then show ?case
    using entry_pair_key [of e] by (auto simp: child_append) (auto simp: child_value_def pairs_of_def)
qed

lemma child_texts:
  assumes "\<forall>k \<in> fst ` set m. CHR ''='' \<notin> set k" "distinct (map fst m)"
  shows "child_value (map entry_text m) k = map_of m k"
  using assms by (simp add: child_value_def pairs_of_texts map_of_rev)

lemma lookup_is_child: "distinct (map fst (pairs_of environ)) \<Longrightarrow> LookupEnv environ k = child_value environ k"
  by (simp add: LookupEnv_def child_value_def map_of_rev)

lemma child_single: "child_value [entry_text (k, v)] k' = (if CHR ''='' \<notin> set k then (if k = k' then Some v else None)
    else child_value [entry_text (k, v)] k')"
  by (simp add: child_value_def pairs_of_def entry_pair_text)

text \<open>The variables the library decides on itself.\<close>

definition own_variables :: "string list" where
  "own_variables = [''CLAUDECODE'', ''CLAUDE_CODE_ENTRYPOINT'', ''CLAUDE_AGENT_SDK_VERSION'']"

lemma child_buildEnv:
  assumes "\<forall>k \<in> fst ` set e. CHR ''='' \<notin> set k" "distinct (map fst e)"
  shows "child_value (buildEnv environ version e) k =
    (if k = ''CLAUDE_AGENT_SDK_VERSION'' then Some version
     else case map_of e k of
       Some v \<Rightarrow> Some v
     | None \<Rightarrow>
         (if k = ''CLAUDE_CODE_ENTRYPOINT'' then Some ''sdk-go''
          else if k = ''CLAUDECODE'' then None else child_value environ k))"
proof -
  have v: "child_value [''CLAUDE_AGENT_SDK_VERSION='' @ version] k
      = (if k = ''CLAUDE_AGENT_SDK_VERSION'' then Some version else None)"
    using child_single [of "''CLAUDE_AGENT_SDK_VERSION''" version k] by (auto simp: entry_text_def)
  have p: "child_value [''CLAUDE_CODE_ENTRYPOINT=sdk-go''] k
      = (if k = ''CLAUDE_CODE_ENTRYPOINT'' then Some ''sdk-go'' else None)"
    using child_single [of "''CLAUDE_CODE_ENTRYPOINT''" "''sdk-go''" k] by (auto simp: entry_text_def)
  have n: "child_value [] k = None" by (simp add: child_value_def pairs_of_def)
  have d: "child_value (if b then [''CLAUDE_CODE_ENTRYPOINT=sdk-go''] else []) k
      = (if b \<and> k = ''CLAUDE_CODE_ENTRYPOINT'' then Some ''sdk-go'' else None)" for b
    using p n by (cases "k = ''CLAUDE_CODE_ENTRYPOINT''") simp_all
  show ?thesis
    unfolding buildEnv_def child_append v d child_texts [OF assms]
      child_filter [of "\<lambda>key. \<not> (key = ''CLAUDECODE'' \<or> key = ''CLAUDE_CODE_ENTRYPOINT'')
          \<and> map_of e key = None"]
    by (cases "k = ''CLAUDE_CODE_ENTRYPOINT''"; cases "map_of e k") simp_all
qed

text \<open>
  C29: A CLI gets the environment that was asked for: every override has its value, every other
  variable of the process is inherited unchanged, the marker of a surrounding CLI is not, the entry
  point defaults to \<^verbatim>\<open>sdk-go\<close> and the library's version is always its own. And what the library looks
  up, apart from those three, is what the CLI sees.
\<close>

theorem child_environment:
  assumes "\<forall>k \<in> fst ` set e. CHR ''='' \<notin> set k" "distinct (map fst e)"
    and "distinct (map fst (pairs_of environ))"
  shows "child_value (buildEnv environ version e) k =
      (if k = ''CLAUDE_AGENT_SDK_VERSION'' then Some version
       else case map_of e k of
         Some v \<Rightarrow> Some v
       | None \<Rightarrow>
           (if k = ''CLAUDE_CODE_ENTRYPOINT'' then Some ''sdk-go''
            else if k = ''CLAUDECODE'' then None else LookupEnv environ k))
    \<and> (k \<notin> set own_variables \<longrightarrow>
         cliEnv_lookup environ e k = child_value (buildEnv environ version e) k)"
  using child_buildEnv [OF assms(1,2)] lookup_is_child [OF assms(3)]
  by (auto simp: cliEnv_lookup_def own_variables_def split: option.split)

definition sample_environ :: "string list" where
  "sample_environ = [''HOME=/root'', ''CLAUDECODE=1'', ''PATH=/bin'']"

theorem child_environment_witness:
  "child_value (buildEnv sample_environ ''1.2.3'' [(''PATH'', ''/opt'')]) ''PATH'' = Some ''/opt''
     \<and> child_value (buildEnv sample_environ ''1.2.3'' [(''PATH'', ''/opt'')]) ''CLAUDECODE'' = None
     \<and> cliEnv_lookup sample_environ [(''PATH'', ''/opt'')] ''HOME'' = Some ''/root''"
proof -
  have d: "distinct (map fst (pairs_of sample_environ))" by code_simp
  have "LookupEnv sample_environ ''HOME'' = Some ''/root''" by code_simp
  then show ?thesis
    using child_environment [of "[(''PATH'', ''/opt'')]" sample_environ "''1.2.3''" "''PATH''", OF _ _ d]
      child_environment [of "[(''PATH'', ''/opt'')]" sample_environ "''1.2.3''" "''CLAUDECODE''", OF _ _ d]
      child_environment [of "[(''PATH'', ''/opt'')]" sample_environ "''1.2.3''" "''HOME''", OF _ _ d]
    by (simp add: own_variables_def)
qed

end
