(* ===== verification/Client_Run.thy ===== *)
theory Client_Run
  imports Stream_Run Session_Read Environment
begin

text \<open>
  client.go: one-shot runs from the options to the text they return. The events of a process are the
  parsed ones of \<open>Parse\<close>, merged with the stderr lines in the order the two goroutines happen to send
  them, followed by what \<^verbatim>\<open>readProcess\<close> adds when the process has exited.
\<close>

section \<open>Reading a process\<close>

record run_reader =
  rp_sawResult :: bool
  rp_accText :: "string list"
  rp_lastStdoutErr :: "go_error option"
  rp_errorResult :: "ResultEvent option"
  rp_unknowns :: "UnknownEvent list"

definition new_run_reader :: run_reader where
  "new_run_reader =
     \<lparr>rp_sawResult = False, rp_accText = [], rp_lastStdoutErr = None, rp_errorResult = None,
      rp_unknowns = []\<rparr>"

definition run_observe :: "event \<Rightarrow> run_reader \<Rightarrow> run_reader" where
  "run_observe ev r =
     (case ev of
        EvResult e \<Rightarrow>
          r\<lparr>rp_sawResult := True,
            rp_errorResult := (if re_IsError e then Some e else rp_errorResult r)\<rparr>
      | EvText e \<Rightarrow> r\<lparr>rp_accText := rp_accText r @ [tx_Content e]\<rparr>
      | EvError e \<Rightarrow> r\<lparr>rp_lastStdoutErr := Some (ee_Err e)\<rparr>
      | EvUnknown e \<Rightarrow> r\<lparr>rp_unknowns := rp_unknowns r @ [e]\<rparr>
      | _ \<Rightarrow> r)"

definition run_observe_all :: "event list \<Rightarrow> run_reader" where
  "run_observe_all evs = fold run_observe evs new_run_reader"

text \<open>The fallbacks for the message of the exit error, in order. \<open>goq\<close> is \<^verbatim>\<open>strconv.Quote\<close>.\<close>

definition run_exit_error ::
    "(string \<Rightarrow> string) \<Rightarrow> run_reader \<Rightarrow> string list \<Rightarrow> go_error \<Rightarrow> go_error" where
  "run_exit_error goq r stdoutLines e =
     (case e of
        ECli code stderr msg evs class \<Rightarrow>
          (case (case rp_lastStdoutErr r of
                   Some x \<Rightarrow>
                     if msg = [] then
                       (error_text x, (case class of None \<Rightarrow> Some x | Some c \<Rightarrow> Some c))
                     else (msg, class)
                 | None \<Rightarrow> (msg, class)) of
             (msg, class) \<Rightarrow>
               (let msg = (case rp_errorResult r of
                             Some ev \<Rightarrow> if msg = [] then exitResultMessage ev else msg
                           | None \<Rightarrow> msg);
                    msg = (if msg = [] \<and> rp_unknowns r \<noteq> [] then
                             ''unrecognized CLI events may contain error details: ''
                               @ join ''; '' (map (unknown_text goq) (rp_unknowns r))
                           else msg) in
                ECli code stderr msg stdoutLines class))
      | _ \<Rightarrow> e)"

definition zero_result :: ResultEvent where
  "zero_result =
     \<lparr>re_Text = [], re_Subtype = [], re_StopReason = [], re_StructuredOutput = [], re_Duration = 0,
      re_CostUSD = 0, re_SessionID = [], re_NumTurns = 0,
      re_Usage = \<lparr>us_InputTokens = 0, us_OutputTokens = 0, us_CacheReadTokens = 0,
                  us_CacheCreateTokens = 0\<rparr>,
      re_ModelUsage = [], re_ContextSnapshot = None, re_Origin = None, re_ResultIndex = None,
      re_IsError = False, re_TerminalReason = [], re_APIErrorStatus = 0, re_Errors = [],
      re_Unsolicited = False\<rparr>"

text \<open>The last ten lines of stdout, however the stream is cut into reads.\<close>

definition stdout_lines :: "string list \<Rightarrow> string list" where
  "stdout_lines chunks = ring_lines (lc_ring (capture_flush (capture_all chunks (newCapture 10))))"

definition readProcess ::
    "(string \<Rightarrow> string) \<Rightarrow> event list \<Rightarrow> event list \<Rightarrow> string list \<Rightarrow> string list
      \<Rightarrow> wait_error option \<Rightarrow> event list" where
  "readProcess goq parsed merged stdoutReads stderrLines waitErr =
     (let r = run_observe_all parsed in
      merged @
      (case waitErr of
         Some w \<Rightarrow>
           [EvError
              \<lparr>ee_Err = run_exit_error goq r (stdout_lines stdoutReads)
                          (processExitError w (join [CHR 0x0A] stderrLines)),
               ee_Fatal = True\<rparr>]
       | None \<Rightarrow>
           (if rp_sawResult r then []
            else [EvResult (zero_result\<lparr>re_Text := concat (rp_accText r)\<rparr>)])))"

section \<open>Runs\<close>

definition run_config :: "options \<Rightarrow> string \<Rightarrow> StartConfig" where
  "run_config op prompt =
     \<lparr>sc_Args = buildArgs op, sc_Stdin = Some prompt, sc_Env = op_env op,
      sc_WorkDir = op_workDir op, sc_KeepStdinOpen = False,
      sc_EnableFileCheckpointing = op_enableFileCheckpointing op,
      sc_SkipVersionCheck = op_skipVersionCheck op\<rparr>"

definition connect_config :: "options \<Rightarrow> StartConfig" where
  "connect_config op =
     \<lparr>sc_Args = buildSessionArgs op, sc_Stdin = None, sc_Env = sessionEnv op,
      sc_WorkDir = op_workDir op, sc_KeepStdinOpen = True,
      sc_EnableFileCheckpointing = op_enableFileCheckpointing op,
      sc_SkipVersionCheck = op_skipVersionCheck op\<rparr>"

text \<open>
  \<^verbatim>\<open>Run\<close>: the start event, then the fatal error of an executor that failed or the events of the
  process it started.
\<close>

definition Run :: "options \<Rightarrow> go_error + event list \<Rightarrow> event list" where
  "Run op started =
     EvStart \<lparr>st_Model = op_model op, st_Args = buildArgs op, st_WorkDir = op_workDir op\<rparr>
     # (case started of
          Inl e \<Rightarrow> [EvError \<lparr>ee_Err = EWrap ''start: '' e [], ee_Fatal = True\<rparr>]
        | Inr evs \<Rightarrow> evs)"

definition ErrEmptyOutput :: go_error where
  "ErrEmptyOutput = ENew ''claudecli: empty output''"

text \<open>\<open>quitAt\<close> tells whether and where the stream's goroutine finds the context done.\<close>

definition RunText ::
    "nat option \<Rightarrow> event list \<Rightarrow> string \<times> ResultEvent option \<times> go_error option" where
  "RunText quitAt evs =
     (case snd (stream_wait (fst (stream_feed quitAt evs newStream))) of
        (result, Some err) \<Rightarrow> ([], result, Some err)
      | (None, None) \<Rightarrow> ([], None, Some ErrEmptyOutput)
      | (Some r, None) \<Rightarrow> (re_Text r, Some r, None))"

text \<open>
  \<^verbatim>\<open>UnmarshalError\<close> and \<^verbatim>\<open>RunJSON\<close>. \<open>um\<close> is \<^verbatim>\<open>json.Unmarshal\<close> into the caller's type: what the value holds
  afterwards and the error.
\<close>

definition unmarshal_error :: "(string \<Rightarrow> string) \<Rightarrow> go_error \<Rightarrow> string \<Rightarrow> go_error" where
  "unmarshal_error goq e rawText =
     EWrap ''unmarshal response: '' e ('' (raw text: '' @ goq rawText @ '')'')"

definition RunJSON ::
    "(string \<Rightarrow> string) \<Rightarrow> (string \<Rightarrow> 'a \<times> go_error option) \<Rightarrow> 'a \<Rightarrow> nat option \<Rightarrow> event list
      \<Rightarrow> 'a \<times> ResultEvent option \<times> go_error option" where
  "RunJSON goq um zero quitAt evs =
     (case RunText quitAt evs of
        (text, result, Some err) \<Rightarrow> (zero, result, Some err)
      | (text, result, None) \<Rightarrow>
          (case um (stripCodeFence text) of
             (v, Some e) \<Rightarrow> (v, result, Some (unmarshal_error goq e text))
           | (v, None) \<Rightarrow> (v, result, None)))"

section \<open>What a run returns\<close>

definition is_result :: "event \<Rightarrow> bool" where
  "is_result ev = (case ev of EvResult _ \<Rightarrow> True | _ \<Rightarrow> False)"

lemma results_of_filter: "results_of (filter is_result evs) = results_of evs"
  by (induction evs) (auto simp: results_of_def is_result_def split: event.splits)

lemma results_of_append: "results_of (xs @ ys) = results_of xs @ results_of ys"
  by (simp add: results_of_def)

lemma results_of_merged:
  assumes "merged \<in> shuffles parsed (map EvStderr lines)"
  shows "results_of merged = results_of parsed"
proof -
  have "filter is_result (map EvStderr lines) = []"
    by (induction lines) (auto simp: is_result_def)
  moreover have "filter is_result merged
      \<in> shuffles (filter is_result parsed) (filter is_result (map EvStderr lines))"
    using assms by (simp add: filter_shuffles [symmetric])
  ultimately have "filter is_result merged = filter is_result parsed" by simp
  then show ?thesis by (metis results_of_filter)
qed

lemma results_of_in: "r \<in> set (results_of evs) \<longleftrightarrow> EvResult r \<in> set evs"
  by (induction evs) (auto simp: results_of_def split: event.splits)

lemma answer_in: "answer_of evs = Some r \<Longrightarrow> r \<in> set (results_of evs)"
proof -
  assume a: "answer_of evs = Some r"
  show "r \<in> set (results_of evs)"
  proof (cases "filter (\<lambda>e. \<not> re_Unsolicited e) (results_of evs) = []")
    case True
    with a show ?thesis by (auto simp: answer_of_def Let_def split: list.splits)
  next
    case False
    then have "last (filter (\<lambda>e. \<not> re_Unsolicited e) (results_of evs)) \<in> set (results_of evs)"
      by (metis filter_is_subset last_in_set subsetD)
    with a False show ?thesis by (simp add: answer_of_def Let_def)
  qed
qed

lemma observed:
  "rp_sawResult (fold run_observe evs r) \<longleftrightarrow> rp_sawResult r \<or> results_of evs \<noteq> []"
  "results_of evs = [] \<Longrightarrow> rp_accText (fold run_observe evs r) = texts_since (rp_accText r) evs"
  by (induction evs arbitrary: r) (auto simp: run_observe_def results_of_def split: event.splits)

lemma failure_of_append: "failure_of (xs @ ys) = (case failure_of xs of None \<Rightarrow> failure_of ys | e \<Rightarrow> e)"
  by (induction xs) (auto split: event.split option.split)

lemma RunText_cases:
  "RunText quitAt evs =
     (case failure_of (tracked_part quitAt evs) of
        Some e \<Rightarrow> ([], answer_of (tracked_part quitAt evs), Some e)
      | None \<Rightarrow>
          (case answer_of (tracked_part quitAt evs) of
             None \<Rightarrow> ([], None, Some ErrEmptyOutput)
           | Some r \<Rightarrow> (re_Text r, Some r, None)))"
  by (simp add: RunText_def stream_wait_is split: option.split)

lemma answer_text:
  assumes "EvResult r \<in> set (ParseEvents it ls err)"
  shows "\<exists>xs ys. ParseEvents it ls err = xs @ EvResult r # ys \<and> re_Text r = concat (texts_since [] xs)"
proof -
  obtain xs ys where p: "ParseEvents it ls err = xs @ EvResult r # ys"
    using assms by (meson split_list)
  moreover have "re_Text r = concat (texts_since [] xs)"
    using ParseEvents_carry [of it ls err] p by (simp add: results_carry_append)
  ultimately show ?thesis by blast
qed

text \<open>The results of a run, and its failure when the process ended badly.\<close>

lemma run_results:
  assumes "merged \<in> shuffles parsed (map EvStderr lines)"
    and "evs = Run op (Inr (readProcess goq parsed merged chunks errLines waitErr))"
  shows "results_of evs =
      (if waitErr = None \<and> results_of parsed = []
       then [zero_result\<lparr>re_Text := concat (texts_since [] parsed)\<rparr>] else results_of parsed)"
    and "failure_of evs = None \<Longrightarrow> waitErr = None"
proof -
  let ?r = "run_observe_all parsed"
  let ?synth = "zero_result\<lparr>re_Text := concat (rp_accText ?r)\<rparr>"
  have saw: "rp_sawResult ?r \<longleftrightarrow> results_of parsed \<noteq> []"
    using observed(1) [of parsed new_run_reader] by (simp add: run_observe_all_def new_run_reader_def)
  have acc: "rp_accText ?r = texts_since [] parsed" if "results_of parsed = []"
    using observed(2) [OF that, of new_run_reader] by (simp add: run_observe_all_def new_run_reader_def)
  have one: "results_of [EvResult r] = [r]" "results_of [EvError x] = []" "results_of [] = []" for r x
    by (simp_all add: results_of_def)
  have front: "results_of (EvStart x # es) = results_of es" for x es by (simp add: results_of_def)
  show "results_of evs =
      (if waitErr = None \<and> results_of parsed = []
       then [zero_result\<lparr>re_Text := concat (texts_since [] parsed)\<rparr>] else results_of parsed)"
    using results_of_merged [OF assms(1)] saw acc
    by (auto simp: assms(2) Run_def readProcess_def Let_def results_of_append one front split: option.split)
  show "failure_of evs = None \<Longrightarrow> waitErr = None"
    by (auto simp: assms(2) Run_def readProcess_def Let_def failure_of_append split: option.splits)
qed

lemma results_of_tracked: "set (results_of (tracked_part quitAt evs)) \<subseteq> set (results_of evs)"
proof (cases quitAt)
  case (Some k)
  have "results_of evs = results_of (take (Suc k) evs) @ results_of (drop (Suc k) evs)"
    by (metis append_take_drop_id results_of_append)
  with Some show ?thesis by (simp add: tracked_part_def)
qed (simp add: tracked_part_def)

text \<open>
  C25: A run that reports no error returns what was said: the text is that of a result the CLI sent,
  and it is the concatenation of the text blocks since the last turn the CLI started itself; or, when
  the CLI exited cleanly without a result, the concatenation of all text blocks. Any other run
  returns no text and an error: the first failure among the events the stream tracked, or
  \<^verbatim>\<open>ErrEmptyOutput\<close>. The latter is returned only when the stream gave up, its context being done,
  before it tracked any result or failure. It is not what its comment says, the error of a run
  without text: such a run, when it is not cancelled, returns the empty text and no error.
\<close>

theorem run_returns_what_was_said:
  assumes "parsed = ParseEvents it ls scanErr" and "merged \<in> shuffles parsed (map EvStderr lines)"
    and "evs = Run op (Inr (readProcess goq parsed merged chunks errLines waitErr))"
    and "seen = tracked_part quitAt evs"
  shows "case RunText quitAt evs of
        (t, Some r, None) \<Rightarrow>
          t = re_Text r \<and> failure_of seen = None \<and> (seen = evs \<longrightarrow> waitErr = None)
          \<and> ((\<exists>xs ys. parsed = xs @ EvResult r # ys \<and> t = concat (texts_since [] xs))
             \<or> waitErr = None \<and> results_of parsed = [] \<and> t = concat (texts_since [] parsed))
      | (t, r, Some e) \<Rightarrow>
          t = [] \<and> (failure_of seen = Some e
             \<or> failure_of seen = None \<and> e = ErrEmptyOutput \<and> r = None \<and> results_of seen = []
               \<and> quitAt \<noteq> None \<and> length seen < length evs)
      | (t, None, None) \<Rightarrow> False"
proof (cases "failure_of seen")
  case (Some e)
  then show ?thesis using assms(4) by (simp add: RunText_cases split: option.split)
next
  case None
  note res = run_results [OF assms(2,3)]
  show ?thesis
  proof (cases "answer_of seen")
    case empty: None
    then have "results_of seen = []" using answer_of_None by blast
    moreover have "seen \<noteq> evs"
    proof
      assume s: "seen = evs"
      with None res(2) have "waitErr = None" by simp
      with res(1) s \<open>results_of seen = []\<close> show False by (auto split: if_splits)
    qed
    moreover from this have "quitAt \<noteq> None \<and> length seen < length evs"
      using assms(4) by (auto simp: tracked_part_def split: option.splits)
    ultimately show ?thesis using None empty assms(4) by (simp add: RunText_cases)
  next
    case (Some r)
    then have mem: "r \<in> set (results_of evs)"
      using answer_in results_of_tracked assms(4) by blast
    have "seen = evs \<Longrightarrow> waitErr = None" using None res(2) by simp
    moreover have "(\<exists>xs ys. parsed = xs @ EvResult r # ys \<and> re_Text r = concat (texts_since [] xs))
        \<or> waitErr = None \<and> results_of parsed = [] \<and> re_Text r = concat (texts_since [] parsed)"
    proof (cases "waitErr = None \<and> results_of parsed = []")
      case True
      with mem res(1) show ?thesis by simp
    next
      case False
      with mem res(1) have "EvResult r \<in> set parsed" by (auto simp: results_of_in)
      then show ?thesis unfolding assms(1) using answer_text by blast
    qed
    ultimately show ?thesis using None Some assms(4) by (simp add: RunText_cases)
  qed
qed

definition sample_run :: "event list" where
  "sample_run =
     Run zero_options
       (Inr (readProcess (\<lambda>s. s) (ParseEvents id sample_scan None)
               (ParseEvents id sample_scan None) [] [] None))"

theorem run_returns_what_was_said_witness:
  "(\<exists>r. RunText None sample_run = (re_Text r, Some r, None)
     \<and> (\<exists>xs ys. ParseEvents id sample_scan None = xs @ EvResult r # ys))
   \<and> RunText (Some 0) sample_run = ([], None, Some ErrEmptyOutput)"
proof -
  have m: "ParseEvents id sample_scan None
      \<in> shuffles (ParseEvents id sample_scan None) (map EvStderr [])" by simp
  have f: "failure_of sample_run = None" "failure_of (take 1 sample_run) = None"
    by (simp_all add: sample_run_def Run_def readProcess_def sample_parse line_error_def non_fatal_def
        run_observe_all_def run_observe_def sample_result_solicited)
      (simp_all add: sample_result_def newResultEvent_def)
  have s: "results_of (take 1 sample_run) = []" by (simp add: sample_run_def Run_def results_of_def)
  have r: "results_of (ParseEvents id sample_scan None) \<noteq> []"
    by (simp add: sample_parse results_of_def)
  note claim = run_returns_what_was_said [OF refl m sample_run_def refl]
  have "\<exists>r. RunText None sample_run = (re_Text r, Some r, None)
     \<and> (\<exists>xs ys. ParseEvents id sample_scan None = xs @ EvResult r # ys)"
    using claim [of None] f r by (auto simp: tracked_part_def split: prod.splits option.splits)
  moreover have "RunText (Some 0) sample_run = ([], None, Some ErrEmptyOutput)"
    using claim [of "Some 0"] f s by (auto simp: tracked_part_def RunText_cases answer_of_None split: option.splits)
  ultimately show ?thesis by blast
qed

text \<open>A CLI that exits cleanly and says nothing: the run succeeds with the empty text.\<close>

lemma silent_run_succeeds:
  "\<exists>r. RunText None (Run op (Inr (readProcess goq [] [] [] errLines None))) = ([], Some r, None)"
  by (simp add: RunText_cases tracked_part_def Run_def readProcess_def Let_def run_observe_all_def
      new_run_reader_def answer_of_def results_of_def zero_result_def)

end
