(* ===== verification/Blocking.thy ===== *)
theory Blocking
  imports Client_Run
begin

text \<open>
  blocking.go: runs whose whole answer is one JSON document, an object or an array of messages. The
  theorem says which message of an array is the answer, and in which order failures are reported.
\<close>

section \<open>The document\<close>

record BlockingResult =
  br_Text :: string
  br_StructuredOutput :: string
  br_Subtype :: string
  br_SessionID :: string
  br_CostUSD :: float64
  br_Duration :: nanos
  br_NumTurns :: int
  br_IsError :: bool
  br_Usage :: Usage
  br_Stderr :: string

record rawBlockingResult =
  rb_Type :: string
  rb_Subtype :: string
  rb_Result :: string
  rb_StructuredOutput :: raw_msg
  rb_SessionID :: string
  rb_CostUSD :: float64
  rb_DurationMS :: float64
  rb_NumTurns :: int
  rb_IsError :: bool
  rb_Usage :: rawUsage
  rb_Origin :: raw_msg

definition zero_rawBlockingResult :: rawBlockingResult where
  "zero_rawBlockingResult =
     \<lparr>rb_Type = [], rb_Subtype = [], rb_Result = [], rb_StructuredOutput = None, rb_SessionID = [],
      rb_CostUSD = 0, rb_DurationMS = 0, rb_NumTurns = 0, rb_IsError = False,
      rb_Usage = zero_rawUsage, rb_Origin = None\<rparr>"

definition d_rawBlockingResult :: "rawBlockingResult dec" where
  [json_eval]: "d_rawBlockingResult =
     d_struct
       [fld ''type'' d_str rb_Type rb_Type_update,
        fld ''subtype'' d_str rb_Subtype rb_Subtype_update,
        fld ''result'' d_str rb_Result rb_Result_update,
        fld ''structured_output'' d_raw rb_StructuredOutput rb_StructuredOutput_update,
        fld ''session_id'' d_str rb_SessionID rb_SessionID_update,
        fld ''total_cost_usd'' d_float rb_CostUSD rb_CostUSD_update,
        fld ''duration_ms'' d_float rb_DurationMS rb_DurationMS_update,
        fld ''num_turns'' d_int rb_NumTurns rb_NumTurns_update,
        fld ''is_error'' d_bool rb_IsError rb_IsError_update,
        fld ''usage'' d_rawUsage rb_Usage rb_Usage_update,
        fld ''origin'' d_raw rb_Origin rb_Origin_update]"

definition rawToBlocking :: "rawBlockingResult \<Rightarrow> BlockingResult" where
  "rawToBlocking raw =
     \<lparr>br_Text = rb_Result raw, br_StructuredOutput = raw_bytes (rb_StructuredOutput raw),
      br_Subtype = rb_Subtype raw, br_SessionID = rb_SessionID raw, br_CostUSD = rb_CostUSD raw,
      br_Duration = wrap64 (float_to_int64 (rb_DurationMS raw) * 1000000),
      br_NumTurns = rb_NumTurns raw, br_IsError = rb_IsError raw,
      br_Usage = toUsage (rb_Usage raw), br_Stderr = []\<rparr>"

text \<open>The two loops from the end of the array: the index they stop at.\<close>

fun loop_down :: "(rawBlockingResult \<Rightarrow> bool) \<Rightarrow> rawBlockingResult list \<Rightarrow> nat \<Rightarrow> nat option" where
  "loop_down P arr 0 = None"
| "loop_down P arr (Suc i) = (if P (arr ! i) then Some i else loop_down P arr i)"

definition answers_prompt :: "rawBlockingResult \<Rightarrow> bool" where
  "answers_prompt r \<longleftrightarrow> rb_Type r = ''result'' \<and> \<not> IsTaskNotification (parseOrigin (rb_Origin r))"

definition is_result_element :: "rawBlockingResult \<Rightarrow> bool" where
  "is_result_element r \<longleftrightarrow> rb_Type r = ''result''"

definition result_index :: "rawBlockingResult list \<Rightarrow> nat" where
  "result_index arr =
     (case loop_down answers_prompt arr (length arr) of
        Some i \<Rightarrow> i
      | None \<Rightarrow>
          (case loop_down is_result_element arr (length arr) of
             Some i \<Rightarrow> i
           | None \<Rightarrow> length arr - 1))"

definition parseBlockingJSON :: "string \<Rightarrow> go_error + BlockingResult" where
  "parseBlockingJSON data =
     (let data = trim_space data in
      if has_prefix data ''['' then
        (case unmarshal (d_list d_rawBlockingResult zero_rawBlockingResult) data [] of
           (arr, ok) \<Rightarrow>
             if \<not> ok then Inl (EWrap ''unmarshal blocking result array: '' json_error [])
             else if arr = [] then Inl (ENew ''empty blocking result array'')
             else Inr (rawToBlocking (arr ! result_index arr)))
      else if data = [] then Inl (ENew ''empty response from CLI (no stdout)'')
      else
        (case unmarshal d_rawBlockingResult data zero_rawBlockingResult of
           (raw, ok) \<Rightarrow>
             if \<not> ok then Inl (EWrap ''unmarshal blocking result: '' json_error [])
             else Inr (rawToBlocking raw)))"

section \<open>Runs\<close>

definition blocking_config :: "options \<Rightarrow> string \<Rightarrow> StartConfig" where
  "blocking_config op prompt =
     \<lparr>sc_Args = buildBlockingArgs op, sc_Stdin = Some prompt, sc_Env = op_env op,
      sc_WorkDir = op_workDir op, sc_KeepStdinOpen = False,
      sc_EnableFileCheckpointing = op_enableFileCheckpointing op,
      sc_SkipVersionCheck = op_skipVersionCheck op\<rparr>"

text \<open>What a started process did: its output, how reading it and waiting for it ended.\<close>

record finished =
  fi_Stdout :: string
  fi_ReadErr :: "go_error option"
  fi_Stderr :: string
  fi_WaitErr :: "wait_error option"

definition stderr_cap :: nat where
  "stderr_cap = 10 * 1024 * 1024"

text \<open>The result, and the lines the stderr callback was given.\<close>

definition RunBlocking ::
    "options \<Rightarrow> go_error + finished \<Rightarrow> (go_error + BlockingResult) \<times> string list" where
  "RunBlocking op started =
     (case started of
        Inl e \<Rightarrow> (Inl (EWrap ''start: '' e []), [])
      | Inr p \<Rightarrow>
          (let stderrStr = trim_space (take stderr_cap (fi_Stderr p)) in
           case fi_WaitErr p of
             Some w \<Rightarrow> (Inl (processExitError w stderrStr), [])
           | None \<Rightarrow>
               (case fi_ReadErr p of
                  Some e \<Rightarrow> (Inl (EWrap ''read stdout: '' e []), [])
                | None \<Rightarrow>
                    (let cb = (if stderrStr \<noteq> [] \<and> op_stderrCallback op \<noteq> None
                               then split_on (CHR 0x0A) stderrStr else []) in
                     (case parseBlockingJSON (fi_Stdout p) of
                        Inl e \<Rightarrow> Inl e
                      | Inr r \<Rightarrow> Inr (r\<lparr>br_Stderr := stderrStr\<rparr>), cb)))))"

definition pickJSONSource :: "BlockingResult \<Rightarrow> string" where
  "pickJSONSource r =
     (if br_StructuredOutput r \<noteq> [] then br_StructuredOutput r else stripCodeFence (br_Text r))"

text \<open>\<open>um\<close> is \<^verbatim>\<open>json.Unmarshal\<close> into the caller's type.\<close>

definition RunBlockingJSON ::
    "(string \<Rightarrow> string) \<Rightarrow> (string \<Rightarrow> 'a \<times> go_error option) \<Rightarrow> 'a
      \<Rightarrow> go_error + BlockingResult \<Rightarrow> 'a \<times> BlockingResult option \<times> go_error option" where
  "RunBlockingJSON goq um zero result =
     (case result of
        Inl e \<Rightarrow> (zero, None, Some e)
      | Inr r \<Rightarrow>
          (case um (pickJSONSource r) of
             (v, Some e) \<Rightarrow> (v, Some r, Some (unmarshal_error goq e (pickJSONSource r)))
           | (v, None) \<Rightarrow> (v, Some r, None)))"

section \<open>The answer\<close>

text \<open>The reference: the last answer to the prompt, else the last result, else the last message.\<close>

definition answer_element :: "rawBlockingResult list \<Rightarrow> rawBlockingResult" where
  "answer_element arr =
     (if filter answers_prompt arr \<noteq> [] then last (filter answers_prompt arr)
      else if filter is_result_element arr \<noteq> [] then last (filter is_result_element arr)
      else last arr)"

lemma loop_down_last:
  "n \<le> length arr \<Longrightarrow>
     (case loop_down P arr n of
        None \<Rightarrow> filter P (take n arr) = []
      | Some i \<Rightarrow> filter P (take n arr) \<noteq> [] \<and> arr ! i = last (filter P (take n arr)))"
proof (induction n)
  case (Suc n)
  then have "take (Suc n) arr = take n arr @ [arr ! n]" by (simp add: take_Suc_conv_app_nth)
  with Suc show ?case by (auto split: option.splits)
qed simp

lemma result_index_answer: "arr \<noteq> [] \<Longrightarrow> arr ! result_index arr = answer_element arr"
  using loop_down_last [of "length arr" arr answers_prompt]
    loop_down_last [of "length arr" arr is_result_element]
  by (auto simp: result_index_def answer_element_def last_conv_nth split: option.splits)

definition reported_stderr :: "finished \<Rightarrow> string" where
  "reported_stderr p = trim_space (take stderr_cap (fi_Stderr p))"

text \<open>
  C30: A blocking run returns the answer to its prompt: of an array of messages the last result that
  is not the CLI's own task notification, the last result if there is no other, else the last
  message; an object is the answer itself. The stderr it reports is trimmed and capped. Failures are
  reported in the order they happen, whatever stands on stdout: a CLI that did not start, then a
  process that failed, then output that could not be read, and only then output that does not decode
  or holds no message. The stderr callback is called only when the process succeeded, line by line.
\<close>

theorem blocking_run_returns_the_answer:
  "(RunBlocking op (Inl e) = (Inl (EWrap ''start: '' e []), []))
    \<and> (fi_WaitErr p = Some w \<longrightarrow>
         RunBlocking op (Inr p) = (Inl (processExitError w (reported_stderr p)), []))
    \<and> (fi_WaitErr p = None \<and> fi_ReadErr p = Some r \<longrightarrow>
         RunBlocking op (Inr p) = (Inl (EWrap ''read stdout: '' r []), []))
    \<and> (fi_WaitErr p = None \<and> fi_ReadErr p = None
         \<and> has_prefix (trim_space (fi_Stdout p)) ''[''
         \<and> unmarshal (d_list d_rawBlockingResult zero_rawBlockingResult) (trim_space (fi_Stdout p)) []
             = (arr, ok) \<longrightarrow>
         fst (RunBlocking op (Inr p)) =
           (if \<not> ok then Inl (EWrap ''unmarshal blocking result array: '' json_error [])
            else if arr = [] then Inl (ENew ''empty blocking result array'')
            else Inr ((rawToBlocking (answer_element arr))\<lparr>br_Stderr := reported_stderr p\<rparr>)))
    \<and> (fi_WaitErr p = None \<and> fi_ReadErr p = None
         \<and> \<not> has_prefix (trim_space (fi_Stdout p)) ''[''
         \<and> unmarshal d_rawBlockingResult (trim_space (fi_Stdout p)) zero_rawBlockingResult
             = (raw, ok) \<longrightarrow>
         fst (RunBlocking op (Inr p)) =
           (if trim_space (fi_Stdout p) = [] then Inl (ENew ''empty response from CLI (no stdout)'')
            else if \<not> ok then Inl (EWrap ''unmarshal blocking result: '' json_error [])
            else Inr ((rawToBlocking raw)\<lparr>br_Stderr := reported_stderr p\<rparr>)))
    \<and> (fi_WaitErr p = None \<and> fi_ReadErr p = None \<longrightarrow>
         snd (RunBlocking op (Inr p)) =
           (if reported_stderr p \<noteq> [] \<and> op_stderrCallback op \<noteq> None
            then split_on (CHR 0x0A) (reported_stderr p) else []))"
  using result_index_answer [of arr]
  by (auto simp: reported_stderr_def RunBlocking_def parseBlockingJSON_def Let_def split: option.split)

definition answer_json :: string where
  "answer_json = quoted ''{~type~:~result~,~result~:~yes~}''"

definition system_json :: string where
  "system_json = quoted ''{~type~:~system~}''"

definition sample_document :: string where
  "sample_document = ''['' @ answer_json @ '','' @ system_json @ '']''"

lemma sample_parsed:
  "parse_json sample_document =
     Some (JArr sample_document
       [JObj answer_json [(''type'', JStr (quoted ''~result~'') ''result''),
                          (''result'', JStr (quoted ''~yes~'') ''yes'')],
        JObj system_json [(''type'', JStr (quoted ''~system~'') ''system'')]])"
  by code_simp

definition sample_elements :: "rawBlockingResult list" where
  "sample_elements =
     [zero_rawBlockingResult\<lparr>rb_Type := ''result'', rb_Result := ''yes''\<rparr>,
      zero_rawBlockingResult\<lparr>rb_Type := ''system''\<rparr>]"

lemma sample_decoded:
  "unmarshal (d_list d_rawBlockingResult zero_rawBlockingResult) sample_document []
     = (sample_elements, True)"
proof -
  have "d_rawBlockingResult (JObj answer_json [(''type'', JStr (quoted ''~result~'') ''result''),
        (''result'', JStr (quoted ''~yes~'') ''yes'')]) zero_rawBlockingResult
      = (zero_rawBlockingResult\<lparr>rb_Type := ''result'', rb_Result := ''yes''\<rparr>, True)"
    unfolding d_rawBlockingResult_def d_struct_def json.case
    by (simp add: fld_skip2)
      (simp add: fld_def get_field_def d_str_def upper_char_def ascii_lower_def)
  moreover have "d_rawBlockingResult (JObj system_json [(''type'', JStr (quoted ''~system~'') ''system'')])
      zero_rawBlockingResult = (zero_rawBlockingResult\<lparr>rb_Type := ''system''\<rparr>, True)"
    unfolding d_rawBlockingResult_def d_struct_def json.case
    by (simp add: fld_skip) (simp add: fld_def get_field_def d_str_def upper_char_def ascii_lower_def)
  ultimately show ?thesis
    by (simp add: unmarshal_def unmarshal_raw_def sample_parsed d_list_def d_elems_def
        sample_elements_def)
qed

lemma sample_trimmed: "trim_space sample_document = sample_document"
  by code_simp

lemma sample_answer: "answer_element sample_elements = hd sample_elements"
  by (simp add: answer_element_def sample_elements_def answers_prompt_def is_result_element_def
      zero_rawBlockingResult_def parseOrigin_def IsTaskNotification_def)

theorem blocking_run_returns_the_answer_witness:
  "fst (RunBlocking zero_options (Inr \<lparr>fi_Stdout = sample_document, fi_ReadErr = None, fi_Stderr = [],
                                      fi_WaitErr = None\<rparr>))
     = Inr (rawToBlocking (hd sample_elements))
   \<and> RunBlocking zero_options (Inr \<lparr>fi_Stdout = ''no JSON'', fi_ReadErr = None, fi_Stderr = ''x'',
                                      fi_WaitErr = Some (OtherError (ENew ''w''))\<rparr>)
     = (Inl (processExitError (OtherError (ENew ''w'')) (trim_space (take stderr_cap ''x''))), [])"
proof -
  have p: "has_prefix sample_document ''[''" by (simp add: sample_document_def has_prefix_def)
  have n: "sample_elements \<noteq> []" by (simp add: sample_elements_def)
  from blocking_run_returns_the_answer
    [of zero_options "ENew []"
        "\<lparr>fi_Stdout = sample_document, fi_ReadErr = None, fi_Stderr = [], fi_WaitErr = None\<rparr>"
        "OtherError (ENew [])" "ENew []" sample_elements True]
    blocking_run_returns_the_answer
    [of zero_options "ENew []"
        "\<lparr>fi_Stdout = ''no JSON'', fi_ReadErr = None, fi_Stderr = ''x'',
          fi_WaitErr = Some (OtherError (ENew ''w''))\<rparr>" "OtherError (ENew ''w'')"]
  show ?thesis
    by (simp add: sample_trimmed sample_decoded p n sample_answer reported_stderr_def)
      (simp add: rawToBlocking_def)
qed

end
