(* ===== verification/Pool.thy ===== *)
theory Pool
  imports Session
begin

text \<open>
  pool.go: a registry of sessions that multiplexes their events into one channel. The operations are
  functions on the pool and its forwarding goroutines; their interleavings are a step relation. The
  theorems say that nothing is ever sent on the closed channel, that the events of a session arrive
  once, in order and under its name, and that closing always comes to an end.
\<close>

section \<open>State\<close>

record SessionMeta =
  sm_Name :: string
  sm_Labels :: "(string \<times> string) list"

record PoolEvent =
  pe_SessionID :: string
  pe_Event :: event

text \<open>A session is known by its number; the context of an entry is that of its forwarder.\<close>

record poolEntry =
  pn_session :: nat
  pn_meta :: SessionMeta
  pn_cancel :: nat

record Pool =
  pl_sessions :: "(string \<times> poolEntry) list"
  pl_events :: "PoolEvent list"
  pl_eventsClosed :: bool
  pl_wg :: nat
  pl_ctxCancelled :: bool
  pl_closed :: bool

text \<open>A forwarder: whom it serves, whether its context was cancelled, the event it has received and
  not sent yet, whether it has returned.\<close>

record forwarder =
  fw_id :: string
  fw_session :: nat
  fw_cancelled :: bool
  fw_held :: "event option"
  fw_done :: bool

definition poolEventsCap :: nat where
  "poolEventsCap = 256"

definition NewPool :: Pool where
  "NewPool =
     \<lparr>pl_sessions = [], pl_events = [], pl_eventsClosed = False, pl_wg = 0, pl_ctxCancelled = False,
      pl_closed = False\<rparr>"

section \<open>Operations\<close>

text \<open>\<open>goq\<close> is \<^verbatim>\<open>strconv.Quote\<close>.\<close>

definition pool_Add ::
    "(string \<Rightarrow> string) \<Rightarrow> nat \<Rightarrow> string \<Rightarrow> SessionMeta \<Rightarrow> Pool \<times> forwarder list
      \<Rightarrow> (Pool \<times> forwarder list) \<times> go_error option" where
  "pool_Add goq i sid meta s =
     (case s of (p, fs) \<Rightarrow>
        if sid = [] then (s, Some (ENew ''session has no ID''))
        else if pl_closed p then (s, Some (ENew ''pool is closed''))
        else if map_of (pl_sessions p) sid \<noteq> None then
          (s, Some (ENew (''session '' @ goq sid @ '' already registered'')))
        else
          ((p\<lparr>pl_sessions :=
                map_put sid \<lparr>pn_session = i, pn_meta = meta, pn_cancel = length fs\<rparr> (pl_sessions p),
              pl_wg := pl_wg p + 1\<rparr>,
            fs @ [\<lparr>fw_id = sid, fw_session = i, fw_cancelled = False, fw_held = None,
                   fw_done = False\<rparr>]), None))"

definition cancel_forwarder :: "nat \<Rightarrow> forwarder list \<Rightarrow> forwarder list" where
  "cancel_forwarder j fs = fs[j := (fs ! j)\<lparr>fw_cancelled := True\<rparr>]"

definition pool_Remove ::
    "(string \<Rightarrow> string) \<Rightarrow> string \<Rightarrow> Pool \<times> forwarder list
      \<Rightarrow> (Pool \<times> forwarder list) \<times> go_error option" where
  "pool_Remove goq sid s =
     (case s of (p, fs) \<Rightarrow>
        case map_of (pl_sessions p) sid of
          None \<Rightarrow> (s, Some (ENew (''session '' @ goq sid @ '' not found'')))
        | Some e \<Rightarrow>
            ((p\<lparr>pl_sessions := map_del sid (pl_sessions p)\<rparr>, cancel_forwarder (pn_cancel e) fs), None))"

definition pool_Get :: "string \<Rightarrow> Pool \<Rightarrow> (nat \<times> SessionMeta) option" where
  "pool_Get sid p =
     (case map_of (pl_sessions p) sid of None \<Rightarrow> None | Some e \<Rightarrow> Some (pn_session e, pn_meta e))"

definition pool_List :: "Pool \<Rightarrow> (nat \<times> SessionMeta) list" where
  "pool_List p = map (\<lambda>(_, e). (pn_session e, pn_meta e)) (pl_sessions p)"

text \<open>
  \<^verbatim>\<open>Close\<close>: mark under the lock (only the first caller goes on), cancel the context, wait for the
  forwarders, close the channel.
\<close>

definition pool_close_mark :: "Pool \<Rightarrow> Pool option" where
  "pool_close_mark p = (if pl_closed p then None else Some (p\<lparr>pl_closed := True\<rparr>))"

definition pool_close_cancel :: "Pool \<Rightarrow> Pool" where
  "pool_close_cancel p = p\<lparr>pl_ctxCancelled := True\<rparr>"

definition pool_close_finish :: "Pool \<Rightarrow> Pool option" where
  "pool_close_finish p = (if pl_wg p = 0 then Some (p\<lparr>pl_eventsClosed := True\<rparr>) else None)"

text \<open>
  \<^verbatim>\<open>CloseAll\<close> closes every registered session and then the pool: the errors \<^verbatim>\<open>errors.Join\<close> joins, in the
  order the map was walked. \<open>close\<close> is \<^verbatim>\<open>Session.Close\<close>.
\<close>

definition closeAll_errors :: "(nat \<Rightarrow> go_error option) \<Rightarrow> Pool \<Rightarrow> go_error list" where
  "closeAll_errors close p =
     List.map_filter close (map (pn_session \<circ> snd) (pl_sessions p))"

definition FormatAgentMessage :: "(string \<Rightarrow> string) \<Rightarrow> string \<Rightarrow> string \<Rightarrow> string" where
  "FormatAgentMessage goq senderName content =
     ''[Message from agent '' @ goq senderName @ '']'' @ [CHR 0x0A] @ content @ [CHR 0x0A]
       @ ''[End of agent message]''"

text \<open>\<^verbatim>\<open>SendAgentMessage\<close>: the session that is sent the message and the message.\<close>

definition SendAgentMessage ::
    "(string \<Rightarrow> string) \<Rightarrow> string \<Rightarrow> string \<Rightarrow> string \<Rightarrow> Pool \<Rightarrow> go_error + nat \<times> Message" where
  "SendAgentMessage goq fromID toID content p =
     (case (map_of (pl_sessions p) fromID, map_of (pl_sessions p) toID) of
        (None, _) \<Rightarrow> Inl (ENew (''sender session '' @ goq fromID @ '' not found''))
      | (Some _, None) \<Rightarrow> Inl (ENew (''target session '' @ goq toID @ '' not found''))
      | (Some from, Some to) \<Rightarrow>
          Inr (pn_session to,
               \<lparr>msg_Text = FormatAgentMessage goq (sm_Name (pn_meta from)) content, msg_Blocks = [],
                msg_FromHuman = False\<rparr>))"

section \<open>Forwarding\<close>

definition ctx_done :: "Pool \<Rightarrow> forwarder \<Rightarrow> bool" where
  "ctx_done p f \<longleftrightarrow> fw_cancelled f \<or> pl_ctxCancelled p"

text \<open>
  The choices of the two \<^verbatim>\<open>select\<close> statements of \<^verbatim>\<open>forward\<close>: receive an event, see the session's channel
  closed, send, see the context done. A send on the closed channel panics: \<open>None\<close>.
\<close>

definition forward_receive :: "event \<Rightarrow> forwarder \<Rightarrow> forwarder" where
  "forward_receive ev f = f\<lparr>fw_held := Some ev\<rparr>"

definition forward_return :: "Pool \<times> forwarder \<Rightarrow> Pool \<times> forwarder" where
  "forward_return s = (case s of (p, f) \<Rightarrow> (p\<lparr>pl_wg := pl_wg p - 1\<rparr>, f\<lparr>fw_done := True\<rparr>))"

definition forward_send :: "event \<Rightarrow> Pool \<times> forwarder \<Rightarrow> (Pool \<times> forwarder) option" where
  "forward_send ev s =
     (case s of (p, f) \<Rightarrow>
        if pl_eventsClosed p then None
        else Some (p\<lparr>pl_events := pl_events p @ [\<lparr>pe_SessionID = fw_id f, pe_Event = ev\<rparr>]\<rparr>,
                   f\<lparr>fw_held := None\<rparr>))"

section \<open>Interleavings\<close>

text \<open>
  The world: the pool, its forwarders, the channels of the sessions with whether they are closed,
  how far \<^verbatim>\<open>Close\<close> has come, and whether some goroutine panicked. For the theorems it also records
  what each session emitted, what each forwarder received, what was sent and what was read.
\<close>

datatype closer = NotClosing | Marked | Cancelled | Closed

record pool_world =
  pw_pool :: Pool
  pw_fwds :: "forwarder list"
  pw_source :: "nat \<Rightarrow> event list"
  pw_sourceClosed :: "nat \<Rightarrow> bool"
  pw_closer :: closer
  pw_panicked :: bool
  pw_emitted :: "nat \<Rightarrow> event list"
  pw_taken :: "nat \<Rightarrow> event list"
  pw_sent :: "(nat \<times> PoolEvent) list"
  pw_read :: "PoolEvent list"

definition init_pool_world :: pool_world where
  "init_pool_world =
     \<lparr>pw_pool = NewPool, pw_fwds = [], pw_source = (\<lambda>_. []), pw_sourceClosed = (\<lambda>_. False),
      pw_closer = NotClosing, pw_panicked = False, pw_emitted = (\<lambda>_. []), pw_taken = (\<lambda>_. []),
      pw_sent = [], pw_read = []\<rparr>"

definition active :: "pool_world \<Rightarrow> nat \<Rightarrow> bool" where
  "active w j \<longleftrightarrow> j < length (pw_fwds w) \<and> \<not> fw_done (pw_fwds w ! j)"

inductive pool_step :: "pool_world \<Rightarrow> pool_world \<Rightarrow> bool" where
  Emit: "\<not> pw_sourceClosed w i \<Longrightarrow>
    pool_step w (w\<lparr>pw_source := (pw_source w)(i := pw_source w i @ [ev]),
                   pw_emitted := (pw_emitted w)(i := pw_emitted w i @ [ev])\<rparr>)"
| SessionEnds: "pool_step w (w\<lparr>pw_sourceClosed := (pw_sourceClosed w)(i := True)\<rparr>)"
| Add: "pool_Add goq i sid meta (pw_pool w, pw_fwds w) = ((p, fs), r) \<Longrightarrow>
    pool_step w (w\<lparr>pw_pool := p, pw_fwds := fs\<rparr>)"
| Remove: "pool_Remove goq sid (pw_pool w, pw_fwds w) = ((p, fs), r) \<Longrightarrow>
    pool_step w (w\<lparr>pw_pool := p, pw_fwds := fs\<rparr>)"
| Receive: "\<lbrakk>active w j; fw_held (pw_fwds w ! j) = None; fw_session (pw_fwds w ! j) = i;
    pw_source w i = ev # rest\<rbrakk> \<Longrightarrow>
    pool_step w (w\<lparr>pw_fwds := (pw_fwds w)[j := forward_receive ev (pw_fwds w ! j)],
                   pw_source := (pw_source w)(i := rest),
                   pw_taken := (pw_taken w)(j := pw_taken w j @ [ev])\<rparr>)"
| SourceClosed: "\<lbrakk>active w j; fw_held (pw_fwds w ! j) = None; fw_session (pw_fwds w ! j) = i;
    pw_source w i = []; pw_sourceClosed w i; forward_return (pw_pool w, pw_fwds w ! j) = (p, f)\<rbrakk> \<Longrightarrow>
    pool_step w (w\<lparr>pw_pool := p, pw_fwds := (pw_fwds w)[j := f]\<rparr>)"
| Send: "\<lbrakk>active w j; fw_held (pw_fwds w ! j) = Some ev; length (pl_events (pw_pool w)) < poolEventsCap;
    forward_send ev (pw_pool w, pw_fwds w ! j) = Some (p, f)\<rbrakk> \<Longrightarrow>
    pool_step w (w\<lparr>pw_pool := p, pw_fwds := (pw_fwds w)[j := f],
                   pw_sent := pw_sent w @ [(j, \<lparr>pe_SessionID = fw_id (pw_fwds w ! j), pe_Event = ev\<rparr>)]\<rparr>)"
| SendPanics: "\<lbrakk>active w j; fw_held (pw_fwds w ! j) = Some ev;
    forward_send ev (pw_pool w, pw_fwds w ! j) = None\<rbrakk> \<Longrightarrow>
    pool_step w (w\<lparr>pw_panicked := True\<rparr>)"
| Quit: "\<lbrakk>active w j; ctx_done (pw_pool w) (pw_fwds w ! j);
    forward_return (pw_pool w, pw_fwds w ! j) = (p, f)\<rbrakk> \<Longrightarrow>
    pool_step w (w\<lparr>pw_pool := p, pw_fwds := (pw_fwds w)[j := f]\<rparr>)"
| Read: "pl_events (pw_pool w) = e # es \<Longrightarrow>
    pool_step w (w\<lparr>pw_pool := (pw_pool w)\<lparr>pl_events := es\<rparr>, pw_read := pw_read w @ [e]\<rparr>)"
| CloseMark: "pool_close_mark (pw_pool w) = Some p \<Longrightarrow>
    pool_step w (w\<lparr>pw_pool := p, pw_closer := Marked\<rparr>)"
| CloseCancel: "pw_closer w = Marked \<Longrightarrow>
    pool_step w (w\<lparr>pw_pool := pool_close_cancel (pw_pool w), pw_closer := Cancelled\<rparr>)"
| CloseFinish: "\<lbrakk>pw_closer w = Cancelled; pool_close_finish (pw_pool w) = Some p\<rbrakk> \<Longrightarrow>
    pool_step w (w\<lparr>pw_pool := p, pw_closer := Closed,
                   pw_panicked := (pw_panicked w \<or> pl_eventsClosed (pw_pool w))\<rparr>)"

inductive pool_reachable :: "pool_world \<Rightarrow> bool" where
  PoolInit: "pool_reachable init_pool_world"
| PoolNext: "pool_reachable w \<Longrightarrow> pool_step w w' \<Longrightarrow> pool_reachable w'"

inductive_cases pool_step_elim: "pool_step w w'"

section \<open>Closing\<close>

definition running :: "forwarder list \<Rightarrow> nat" where
  "running fs = length (filter (\<lambda>f. \<not> fw_done f) fs)"

lemma running_Cons: "running (f # fs) = running fs + (if fw_done f then 0 else 1)"
  by (simp add: running_def)

lemma running_update:
  "j < length fs \<Longrightarrow>
     running (fs[j := f]) + (if fw_done (fs ! j) then 0 else 1)
       = running fs + (if fw_done f then 0 else 1)"
proof (induction fs arbitrary: j)
  case (Cons g gs)
  then show ?case by (cases j) (auto simp: running_Cons split: if_splits)
qed simp

definition closing_ok :: "pool_world \<Rightarrow> bool" where
  "closing_ok w \<longleftrightarrow>
     (pw_closer w = NotClosing \<longleftrightarrow> \<not> pl_closed (pw_pool w))
     \<and> (pl_ctxCancelled (pw_pool w) \<longleftrightarrow> pw_closer w = Cancelled \<or> pw_closer w = Closed)
     \<and> (pl_eventsClosed (pw_pool w) \<longleftrightarrow> pw_closer w = Closed)
     \<and> pl_wg (pw_pool w) = running (pw_fwds w)
     \<and> (pw_closer w = Closed \<longrightarrow> running (pw_fwds w) = 0)
     \<and> \<not> pw_panicked w"

definition entries_ok :: "pool_world \<Rightarrow> bool" where
  "entries_ok w \<longleftrightarrow> (\<forall>e \<in> snd ` set (pl_sessions (pw_pool w)). pn_cancel e < length (pw_fwds w))"

lemma map_put_values: "snd ` set (map_put k v m) \<subseteq> insert v (snd ` set m)"
  by (induction k v m rule: map_put.induct) auto

lemma active_running: "active w j \<Longrightarrow> 0 < running (pw_fwds w)"
  using nth_mem [of j "pw_fwds w"]
  by (auto simp: active_def running_def length_greater_0_conv filter_empty_conv)

lemma running_same:
  assumes "j < length fs" "fw_done f = fw_done (fs ! j)"
  shows "running (fs[j := f]) = running fs"
  using running_update [OF assms(1), of f] assms(2) by (simp split: if_splits)

lemma running_return:
  assumes "active w j" "fw_done f"
  shows "running ((pw_fwds w)[j := f]) = running (pw_fwds w) - 1"
  using assms running_update [of j "pw_fwds w" f] by (simp add: active_def)

definition new_forwarder :: "nat \<Rightarrow> string \<Rightarrow> forwarder" where
  "new_forwarder i sid =
     \<lparr>fw_id = sid, fw_session = i, fw_cancelled = False, fw_held = None, fw_done = False\<rparr>"

lemma pool_Add_elim:
  assumes "pool_Add goq i sid meta (p0, fs0) = ((p, fs), r)"
  obtains (refused) "p = p0" "fs = fs0"
  | (added) "\<not> pl_closed p0" "fs = fs0 @ [new_forwarder i sid]"
      "p = p0\<lparr>pl_sessions :=
                 map_put sid \<lparr>pn_session = i, pn_meta = meta, pn_cancel = length fs0\<rparr> (pl_sessions p0),
               pl_wg := pl_wg p0 + 1\<rparr>"
proof (cases "sid = [] \<or> pl_closed p0 \<or> map_of (pl_sessions p0) sid \<noteq> None")
  case True
  then have "p = p0 \<and> fs = fs0" using assms unfolding pool_Add_def by (auto split: if_split_asm)
  then show thesis using refused by blast
next
  case False
  then show thesis using assms added unfolding pool_Add_def new_forwarder_def by simp
qed

lemma unchanged [simp]: "w\<lparr>pw_pool := pw_pool w, pw_fwds := pw_fwds w\<rparr> = (w :: pool_world)"
  by simp

lemma pool_Remove_elim:
  assumes "pool_Remove goq sid (p0, fs0) = ((p, fs), r)"
  obtains (refused) "p = p0" "fs = fs0"
  | (removed) e where "(sid, e) \<in> set (pl_sessions p0)"
      "p = p0\<lparr>pl_sessions := map_del sid (pl_sessions p0)\<rparr>"
      "fs = fs0[pn_cancel e := (fs0 ! pn_cancel e)\<lparr>fw_cancelled := True\<rparr>]"
proof (cases "map_of (pl_sessions p0) sid")
  case None
  with assms refused show thesis by (simp add: pool_Remove_def)
next
  case (Some e)
  with assms removed [OF map_of_SomeD [OF Some]] show thesis
    by (simp add: pool_Remove_def cancel_forwarder_def)
qed

lemma closing_step:
  assumes "pool_step w w'" "closing_ok w" "entries_ok w"
  shows "closing_ok w' \<and> entries_ok w'"
  using assms
proof (induction rule: pool_step.induct)
  case (Add goq i sid meta w p fs r)
  from Add.hyps show ?case
  proof (cases rule: pool_Add_elim)
    case refused
    with Add.prems show ?thesis by simp
  next
    case added
    have "entries_ok (w\<lparr>pw_pool := p, pw_fwds := fs\<rparr>)"
      using Add.prems(2) added map_put_values
        [of sid "\<lparr>pn_session = i, pn_meta = meta, pn_cancel = length (pw_fwds w)\<rparr>" "pl_sessions (pw_pool w)"]
      unfolding entries_ok_def by (auto simp: less_Suc_eq dest!: subsetD)
    with Add.prems(1) added show ?thesis
      by (simp add: closing_ok_def running_def new_forwarder_def)
  qed
next
  case (Remove goq sid w p fs r)
  from Remove.hyps show ?case
  proof (cases rule: pool_Remove_elim)
    case refused
    with Remove.prems show ?thesis by simp
  next
    case (removed e)
    have "e \<in> snd ` set (pl_sessions (pw_pool w))" using removed(1) by force
    then have "pn_cancel e < length (pw_fwds w)" using Remove.prems(2) unfolding entries_ok_def by blast
    then have run: "running fs = running (pw_fwds w)" by (simp add: removed running_same)
    have len: "length fs = length (pw_fwds w)" by (simp add: removed(3))
    have sub: "snd ` set (pl_sessions p) \<subseteq> snd ` set (pl_sessions (pw_pool w))"
      by (simp add: removed image_mono [OF set_map_del])
    have "pn_cancel x < length fs" if "x \<in> snd ` set (pl_sessions p)" for x
      using subsetD [OF sub that] Remove.prems(2) len unfolding entries_ok_def by auto
    then have "entries_ok (w\<lparr>pw_pool := p, pw_fwds := fs\<rparr>)" by (simp add: entries_ok_def)
    with Remove.prems(1) run show ?thesis by (simp add: closing_ok_def removed(2))
  qed
next
  case (Receive w j i ev rest)
  then show ?case
    using running_same [of j "pw_fwds w" "forward_receive ev (pw_fwds w ! j)"]
    by (simp add: closing_ok_def entries_ok_def active_def forward_receive_def)
next
  case (SourceClosed w j i p f)
  then show ?case
    using running_return [of w j f] active_running [of w j]
    by (auto simp: closing_ok_def entries_ok_def forward_return_def)
next
  case (Send w j ev p f)
  then show ?case
    using running_same [of j "pw_fwds w" f]
    by (auto simp: closing_ok_def entries_ok_def active_def forward_send_def split: if_splits)
next
  case (SendPanics w j ev)
  then show ?case
    using active_running [of w j]
    by (auto simp: closing_ok_def forward_send_def split: if_splits)
next
  case (Quit w j p f)
  then show ?case
    using running_return [of w j f] active_running [of w j]
    by (auto simp: closing_ok_def entries_ok_def forward_return_def)
qed (auto simp: closing_ok_def entries_ok_def pool_close_mark_def pool_close_cancel_def
    pool_close_finish_def split: if_splits)

lemma closing_reachable: "pool_reachable w \<Longrightarrow> closing_ok w \<and> entries_ok w"
proof (induction rule: pool_reachable.induct)
  case PoolInit
  show ?case
    by (simp add: init_pool_world_def NewPool_def closing_ok_def entries_ok_def running_def)
next
  case (PoolNext w w')
  then show ?case using closing_step by blast
qed

section \<open>Flow\<close>

definition sent_by :: "nat \<Rightarrow> pool_world \<Rightarrow> PoolEvent list" where
  "sent_by j w = map snd (filter (\<lambda>e. fst e = j) (pw_sent w))"

definition held_by :: "nat \<Rightarrow> pool_world \<Rightarrow> event list" where
  "held_by j w = (case fw_held (pw_fwds w ! j) of None \<Rightarrow> [] | Some ev \<Rightarrow> [ev])"

definition serving :: "nat \<Rightarrow> forwarder list \<Rightarrow> nat list" where
  "serving i fs = filter (\<lambda>j. fw_session (fs ! j) = i) [0..<length fs]"

definition flow_ok :: "pool_world \<Rightarrow> bool" where
  "flow_ok w \<longleftrightarrow>
     (\<forall>j. if j < length (pw_fwds w)
          then pw_taken w j = map pe_Event (sent_by j w) @ held_by j w
               \<and> list_all (\<lambda>e. pe_SessionID e = fw_id (pw_fwds w ! j)) (sent_by j w)
          else pw_taken w j = [] \<and> sent_by j w = [])
     \<and> map snd (pw_sent w) = pw_read w @ pl_events (pw_pool w)
     \<and> length (pl_events (pw_pool w)) \<le> poolEventsCap"

definition source_ok :: "pool_world \<Rightarrow> bool" where
  "source_ok w \<longleftrightarrow>
     (\<forall>i. (serving i (pw_fwds w) = [] \<longrightarrow> pw_emitted w i = pw_source w i)
        \<and> (\<forall>j. serving i (pw_fwds w) = [j] \<longrightarrow> pw_emitted w i = pw_taken w j @ pw_source w i))"

lemma update_keeps: "h f = h (fs ! j) \<Longrightarrow> h (fs[j := f] ! k) = h (fs ! k)"
  by (cases "j < length fs"; cases "k = j") (auto simp: list_update_beyond)

lemma serving_update: "fw_session f = fw_session (fs ! j) \<Longrightarrow> serving i (fs[j := f]) = serving i fs"
  by (simp add: serving_def update_keeps [of fw_session])

lemma serving_append:
  "serving i (fs @ [f]) = serving i fs @ (if fw_session f = i then [length fs] else [])"
proof -
  have "filter (\<lambda>j. fw_session ((fs @ [f]) ! j) = i) [0..<length fs]
      = filter (\<lambda>j. fw_session (fs ! j) = i) [0..<length fs]"
    by (rule filter_cong) (auto simp: nth_append)
  then show ?thesis by (simp add: serving_def)
qed

lemma serving_sound: "j \<in> set (serving i fs) \<longleftrightarrow> j < length fs \<and> fw_session (fs ! j) = i"
  by (auto simp: serving_def)

text \<open>Steps that change neither what was sent nor what forwarders hold.\<close>

lemma flow_same:
  assumes "flow_ok w" "length fs = length (pw_fwds w)"
    and "\<forall>j < length fs. fw_held (fs ! j) = fw_held (pw_fwds w ! j) \<and> fw_id (fs ! j) = fw_id (pw_fwds w ! j)"
    and "pl_events p = pl_events (pw_pool w)"
  shows "flow_ok (w\<lparr>pw_pool := p, pw_fwds := fs\<rparr>)"
  using assms by (simp add: flow_ok_def sent_by_def held_by_def cong: if_cong)

lemma sent_by_append:
  "sent_by k (w\<lparr>pw_pool := p, pw_fwds := fs, pw_sent := pw_sent w @ [(j, e)]\<rparr>)
     = sent_by k w @ (if j = k then [e] else [])"
  by (simp add: sent_by_def)

lemma sent_by_same [simp]:
  "sent_by j (w\<lparr>pw_pool := p\<rparr>) = sent_by j w" "sent_by j (w\<lparr>pw_fwds := fs\<rparr>) = sent_by j w"
  "sent_by j (w\<lparr>pw_source := q\<rparr>) = sent_by j w" "sent_by j (w\<lparr>pw_taken := t\<rparr>) = sent_by j w"
  by (simp_all add: sent_by_def)

lemma flow_step:
  assumes "pool_step w w'" "flow_ok w"
  shows "flow_ok w'"
  using assms
proof (induction rule: pool_step.induct)
  case (Add goq i sid meta w p fs r)
  from Add.hyps show ?case
  proof (cases rule: pool_Add_elim)
    case refused
    with Add.prems show ?thesis by simp
  next
    case added
    have n: "pw_taken w (length (pw_fwds w)) = []" "sent_by (length (pw_fwds w)) w = []"
      using Add.prems by (auto simp: flow_ok_def dest: spec [of _ "length (pw_fwds w)"])
    show ?thesis
      unfolding flow_ok_def
    proof (intro conjI allI)
      fix j
      show "if j < length (pw_fwds (w\<lparr>pw_pool := p, pw_fwds := fs\<rparr>))
          then pw_taken (w\<lparr>pw_pool := p, pw_fwds := fs\<rparr>) j
               = map pe_Event (sent_by j (w\<lparr>pw_pool := p, pw_fwds := fs\<rparr>))
                 @ held_by j (w\<lparr>pw_pool := p, pw_fwds := fs\<rparr>)
               \<and> list_all (\<lambda>e. pe_SessionID e = fw_id (pw_fwds (w\<lparr>pw_pool := p, pw_fwds := fs\<rparr>) ! j))
                   (sent_by j (w\<lparr>pw_pool := p, pw_fwds := fs\<rparr>))
          else pw_taken (w\<lparr>pw_pool := p, pw_fwds := fs\<rparr>) j = []
               \<and> sent_by j (w\<lparr>pw_pool := p, pw_fwds := fs\<rparr>) = []"
        using Add.prems added n
        by (cases "j = length (pw_fwds w)")
          (auto simp: flow_ok_def sent_by_def held_by_def nth_append new_forwarder_def less_Suc_eq
            dest: spec [of _ j])
    qed (use Add.prems added in \<open>simp_all add: flow_ok_def\<close>)
  qed
next
  case (Remove goq sid w p fs r)
  from Remove.hyps show ?case
  proof (cases rule: pool_Remove_elim)
    case refused
    with Remove.prems show ?thesis by simp
  next
    case (removed e)
    with Remove.prems show ?thesis
      by (intro flow_same) (simp_all add: update_keeps [of fw_held] update_keeps [of fw_id])
  qed
next
  case (Receive w j i ev rest)
  then show ?case
    by (auto simp: flow_ok_def held_by_def active_def forward_receive_def nth_list_update)
next
  case (SourceClosed w j i p f)
  then show ?case
    by (intro flow_same) (auto simp: forward_return_def update_keeps [of fw_held] update_keeps [of fw_id])
next
  case (Send w j ev p f)
  have f: "f = (pw_fwds w ! j)\<lparr>fw_held := None\<rparr>"
    and p: "p = (pw_pool w)\<lparr>pl_events := pl_events (pw_pool w)
               @ [\<lparr>pe_SessionID = fw_id (pw_fwds w ! j), pe_Event = ev\<rparr>]\<rparr>"
    using Send.hyps(4) by (auto simp: forward_send_def split: if_splits)
  show ?case
    unfolding flow_ok_def
  proof (intro conjI allI, goal_cases)
    case (1 k)
    show ?case
      using Send.hyps(1,2) Send.prems f
      by (cases "k = j")
        (auto simp: flow_ok_def sent_by_append held_by_def active_def dest: spec [of _ k])
  qed (use Send.hyps(3) Send.prems p in \<open>simp_all add: flow_ok_def\<close>)
next
  case (Quit w j p f)
  then show ?case
    by (intro flow_same) (auto simp: forward_return_def update_keeps [of fw_held] update_keeps [of fw_id])
qed (auto simp: flow_ok_def sent_by_def held_by_def pool_close_mark_def pool_close_cancel_def
    pool_close_finish_def split: if_splits)

text \<open>A forwarder that changes keeps its session, and what it receives leaves the source.\<close>

lemma source_same:
  assumes "source_ok w" "\<And>i. serving i fs = serving i (pw_fwds w)"
  shows "source_ok (w\<lparr>pw_pool := p, pw_fwds := fs\<rparr>)"
  using assms by (simp add: source_ok_def)

lemma source_step:
  assumes "pool_step w w'" "source_ok w" "flow_ok w"
  shows "source_ok w'"
  using assms
proof (induction rule: pool_step.induct)
  case (Add goq i sid meta w p fs r)
  from Add.hyps show ?case
  proof (cases rule: pool_Add_elim)
    case refused
    with Add.prems show ?thesis by simp
  next
    case added
    have "pw_taken w (length (pw_fwds w)) = []"
      using Add.prems(2) by (auto simp: flow_ok_def dest: spec [of _ "length (pw_fwds w)"])
    with Add.prems(1) added show ?thesis
      by (auto simp: source_ok_def serving_append new_forwarder_def)
  qed
next
  case (Remove goq sid w p fs r)
  from Remove.hyps show ?case
  proof (cases rule: pool_Remove_elim)
    case refused
    with Remove.prems show ?thesis by simp
  next
    case (removed e)
    with Remove.prems show ?thesis by (intro source_same) (simp_all add: serving_update)
  qed
next
  case (Receive w j i ev rest)
  have j: "j \<in> set (serving i (pw_fwds w))"
    using Receive.hyps by (simp add: serving_sound active_def)
  have f: "serving k ((pw_fwds w)[j := forward_receive ev (pw_fwds w ! j)]) = serving k (pw_fwds w)" for k
    by (rule serving_update) (simp add: forward_receive_def)
  have o: "j \<notin> set (serving k (pw_fwds w))" if "k \<noteq> i" for k
    using j that by (simp add: serving_sound)
  show ?case
    unfolding source_ok_def
  proof (intro allI conjI impI, goal_cases)
    case (1 k)
    then show ?case using Receive.prems(1) j f by (auto simp: source_ok_def)
  next
    case (2 k k')
    then have s: "serving k (pw_fwds w) = [k']" by (simp add: f)
    then show ?case
      using Receive.prems(1) Receive.hyps(4) j o [of k]
      by (cases "k = i") (auto simp: source_ok_def)
  qed
next
  case (SourceClosed w j i p f)
  then show ?case
    by (intro source_same) (auto simp: forward_return_def serving_update)
next
  case (Send w j ev p f)
  then have "serving k ((pw_fwds w)[j := f]) = serving k (pw_fwds w)" for k
    by (intro serving_update) (auto simp: forward_send_def split: if_splits)
  with Send.prems(1) show ?case by (simp add: source_ok_def)
next
  case (Quit w j p f)
  then show ?case
    by (intro source_same) (auto simp: forward_return_def serving_update)
qed (auto simp: source_ok_def)

lemma flow_reachable: "pool_reachable w \<Longrightarrow> flow_ok w \<and> source_ok w"
proof (induction rule: pool_reachable.induct)
  case PoolInit
  show ?case
    by (simp add: init_pool_world_def NewPool_def flow_ok_def source_ok_def sent_by_def)
next
  case (PoolNext w w')
  then show ?case using flow_step source_step by blast
qed

section \<open>A sample\<close>

definition sample_meta :: SessionMeta where
  "sample_meta = \<lparr>sm_Name = ''worker'', sm_Labels = []\<rparr>"

definition pooled :: pool_world where
  "pooled =
     init_pool_world\<lparr>pw_pool := NewPool\<lparr>pl_sessions :=
         [(''s1'', \<lparr>pn_session = 0, pn_meta = sample_meta, pn_cancel = 0\<rparr>)], pl_wg := 1\<rparr>,
       pw_fwds := [new_forwarder 0 ''s1'']\<rparr>"

definition emitting :: pool_world where
  "emitting =
     pooled\<lparr>pw_source := (pw_source pooled)(0 := [EvStderr ''x'']),
            pw_emitted := (pw_emitted pooled)(0 := [EvStderr ''x''])\<rparr>"

lemma emitting_reachable: "pool_reachable emitting"
proof -
  have "pool_step init_pool_world pooled"
    using pool_step.Add [of id 0 "''s1''" sample_meta init_pool_world]
    by (simp add: pool_Add_def init_pool_world_def NewPool_def pooled_def new_forwarder_def)
  then have "pool_reachable pooled" using PoolInit PoolNext by blast
  moreover have "pool_step pooled emitting"
    using pool_step.Emit [of pooled 0 "EvStderr ''x''"]
    by (simp add: pooled_def init_pool_world_def emitting_def)
  ultimately show ?thesis by (rule PoolNext)
qed

section \<open>Steps of the pool alone\<close>

text \<open>
  The steps in which nobody helps \<^verbatim>\<open>Close\<close>: the reader takes nothing, no session emits or ends, nothing
  is registered or removed, and something happens.
\<close>

definition unaided :: "pool_world \<Rightarrow> pool_world \<Rightarrow> bool" where
  "unaided w w' \<longleftrightarrow>
     pool_step w w' \<and> w' \<noteq> w \<and> pw_read w' = pw_read w \<and> pw_emitted w' = pw_emitted w
     \<and> pw_sourceClosed w' = pw_sourceClosed w
     \<and> pl_sessions (pw_pool w') = pl_sessions (pw_pool w)"

text \<open>What is left to do: events to receive, events to send, forwarders to return, stages of \<^verbatim>\<open>Close\<close>.\<close>

definition load :: "(nat \<Rightarrow> event list) \<Rightarrow> forwarder \<Rightarrow> nat" where
  "load src f =
     2 * length (src (fw_session f)) + (if fw_held f = None then 0 else 1) + (if fw_done f then 0 else 1)"

definition stage :: "closer \<Rightarrow> nat" where
  "stage c = (case c of NotClosing \<Rightarrow> 3 | Marked \<Rightarrow> 2 | Cancelled \<Rightarrow> 1 | Closed \<Rightarrow> 0)"

definition left_over :: "pool_world \<Rightarrow> nat" where
  "left_over w = sum_list (map (load (pw_source w)) (pw_fwds w)) + stage (pw_closer w)"

lemma load_update:
  fixes g h :: "'a \<Rightarrow> nat"
  assumes "\<And>f. g f \<le> h f" "j < length fs"
  shows "sum_list (map g (fs[j := x])) + h (fs ! j) \<le> sum_list (map h fs) + g x"
  using assms(2)
proof (induction fs arbitrary: j)
  case (Cons f fs)
  have "sum_list (map g fs) \<le> sum_list (map h fs)" by (rule sum_list_mono) (rule assms(1))
  with Cons assms(1) [of f] show ?case by (cases j) (fastforce, fastforce)
qed simp

lemma load_less:
  fixes g h :: "'a \<Rightarrow> nat"
  assumes "j < length fs" "g x < h (fs ! j)" "\<And>f. g f \<le> h f"
  shows "sum_list (map g (fs[j := x])) < sum_list (map h fs)"
  using load_update [of g h j fs x, OF assms(3,1)] assms(2) by linarith

lemma unaided_less:
  assumes u: "unaided w w'" and ok: "closing_ok w" "pl_closed (pw_pool w)"
  shows "left_over w' < left_over w"
proof -
  have s: "pool_step w w'" and ne: "w' \<noteq> w" and same: "pw_read w' = pw_read w" "pw_emitted w' = pw_emitted w"
    "pw_sourceClosed w' = pw_sourceClosed w" "pl_sessions (pw_pool w') = pl_sessions (pw_pool w)"
    using u by (auto simp: unaided_def)
  from s show ?thesis
  proof (cases rule: pool_step.cases)
    case (Emit i ev)
    then have "pw_emitted w' i = pw_emitted w i @ [ev]" by simp
    with same(2) show ?thesis by simp
  next
    case (SessionEnds i)
    with ne same(3) show ?thesis by simp
  next
    case (Add goq i sid meta p fs r)
    from Add(2) ok(2) have "p = pw_pool w" "fs = pw_fwds w" by (cases rule: pool_Add_elim; simp)+
    with Add(1) ne show ?thesis by simp
  next
    case (Remove goq sid p fs r)
    from Remove(2) show ?thesis
    proof (cases rule: pool_Remove_elim)
      case refused
      with Remove(1) ne show ?thesis by simp
    next
      case (removed e)
      then have "map_del sid (pl_sessions (pw_pool w)) = pl_sessions (pw_pool w)"
        using same(4) Remove(1) by simp
      then have "map_of (pl_sessions (pw_pool w)) sid = None"
        by (metis fun_upd_same map_of_del)
      with removed(1) show ?thesis by (metis weak_map_of_SomeI option.distinct(1))
    qed
  next
    case (Receive j i ev rest)
    have "load ((pw_source w)(i := rest)) f \<le> load (pw_source w) f" for f
      using Receive by (simp add: load_def)
    then show ?thesis
      using Receive load_less [of j "pw_fwds w" "load ((pw_source w)(i := rest))"
          "forward_receive ev (pw_fwds w ! j)" "load (pw_source w)"]
      by (simp add: left_over_def active_def load_def forward_receive_def)
  next
    case (SourceClosed j i p f)
    then show ?thesis
      using load_less [of j "pw_fwds w" "load (pw_source w)" f "load (pw_source w)"]
      by (auto simp: left_over_def active_def load_def forward_return_def)
  next
    case (Send j ev p f)
    then show ?thesis
      using load_less [of j "pw_fwds w" "load (pw_source w)" f "load (pw_source w)"]
      by (auto simp: left_over_def active_def load_def forward_send_def split: if_splits)
  next
    case (SendPanics j ev)
    then show ?thesis using ok(1) active_running [of w j]
      by (auto simp: closing_ok_def forward_send_def split: if_splits)
  next
    case (Quit j p f)
    then show ?thesis
      using load_less [of j "pw_fwds w" "load (pw_source w)" f "load (pw_source w)"]
      by (auto simp: left_over_def active_def load_def forward_return_def)
  next
    case (Read e es)
    with same(1) show ?thesis by simp
  next
    case (CloseMark p)
    with ok(2) show ?thesis by (simp add: pool_close_mark_def)
  next
    case CloseCancel
    then show ?thesis by (simp add: left_over_def stage_def)
  next
    case (CloseFinish p)
    then show ?thesis by (simp add: left_over_def stage_def)
  qed
qed

lemma unaided_progress:
  assumes ok: "closing_ok w" "pl_closed (pw_pool w)" and open_: "\<not> pl_eventsClosed (pw_pool w)"
  shows "\<exists>w'. unaided w w'"
proof (cases "pw_closer w")
  case NotClosing
  with ok show ?thesis by (simp add: closing_ok_def)
next
  case Marked
  then show ?thesis
    using pool_step.CloseCancel [OF Marked]
    by (intro exI [of _ "w\<lparr>pw_pool := pool_close_cancel (pw_pool w), pw_closer := Cancelled\<rparr>"])
       (auto simp: unaided_def pool_close_cancel_def dest: arg_cong [where f = pw_closer])
next
  case Closed
  with ok open_ show ?thesis by (simp add: closing_ok_def)
next
  case Cancelled
  show ?thesis
  proof (cases "running (pw_fwds w) = 0")
    case True
    then have "pool_close_finish (pw_pool w) = Some ((pw_pool w)\<lparr>pl_eventsClosed := True\<rparr>)"
      using ok(1) by (simp add: pool_close_finish_def closing_ok_def)
    from pool_step.CloseFinish [OF Cancelled this] Cancelled show ?thesis
      by (intro exI) (auto simp: unaided_def dest: arg_cong [where f = pw_closer])
  next
    case False
    then have "filter (\<lambda>f. \<not> fw_done f) (pw_fwds w) \<noteq> []" by (auto simp: running_def)
    then obtain j where j: "active w j"
      by (auto simp: filter_empty_conv active_def in_set_conv_nth)
    let ?f = "(pw_fwds w ! j)\<lparr>fw_done := True\<rparr>"
    let ?w = "w\<lparr>pw_pool := (pw_pool w)\<lparr>pl_wg := pl_wg (pw_pool w) - 1\<rparr>, pw_fwds := (pw_fwds w)[j := ?f]\<rparr>"
    have s: "pool_step w ?w"
      using pool_step.Quit [OF j] ok Cancelled by (simp add: ctx_done_def closing_ok_def forward_return_def)
    have "fw_done (pw_fwds ?w ! j)" using j by (simp add: active_def)
    then have "?w \<noteq> w" using j unfolding active_def by metis
    with s show ?thesis by (intro exI [of _ ?w]) (simp add: unaided_def)
  qed
qed

lemma closed_step: "pool_step w w' \<Longrightarrow> pl_closed (pw_pool w) \<Longrightarrow> pl_closed (pw_pool w')"
  by (cases rule: pool_step.cases, assumption)
    (auto simp: forward_return_def forward_send_def pool_close_mark_def pool_close_cancel_def
      pool_close_finish_def split: if_splits elim: pool_Add_elim pool_Remove_elim)

lemma unaided_run:
  "(unaided ^^ m) w w' \<Longrightarrow> closing_ok w \<and> entries_ok w \<and> pl_closed (pw_pool w) \<Longrightarrow>
     m + left_over w' \<le> left_over w \<and> closing_ok w' \<and> entries_ok w' \<and> pl_closed (pw_pool w')"
proof (induction m arbitrary: w')
  case (Suc m)
  then obtain v where v: "(unaided ^^ m) w v" "unaided v w'" by auto
  have ok: "m + left_over v \<le> left_over w" "closing_ok v" "entries_ok v" "pl_closed (pw_pool v)"
    using Suc.IH [OF v(1) Suc.prems(2)] by auto
  have s: "pool_step v w'" using v(2) by (simp add: unaided_def)
  show ?case
    using unaided_less [OF v(2) ok(2,4)] ok(1) closing_step [OF s ok(2,3)] closed_step [OF s ok(4)] by simp
qed simp

lemma unaided_closes:
  "closing_ok w \<and> entries_ok w \<and> pl_closed (pw_pool w) \<Longrightarrow>
     \<exists>w'. unaided\<^sup>*\<^sup>* w w' \<and> pl_eventsClosed (pw_pool w')"
proof (induction "left_over w" arbitrary: w rule: less_induct)
  case less
  show ?case
  proof (cases "pl_eventsClosed (pw_pool w)")
    case False
    then obtain v where v: "unaided w v" using unaided_progress less.prems by blast
    then have "(unaided ^^ 1) w v" by auto
    from unaided_run [OF this less.prems] obtain w' where
      "unaided\<^sup>*\<^sup>* v w'" "pl_eventsClosed (pw_pool w')"
      using less.hyps [of v] by auto
    with v show ?thesis by (meson converse_rtranclp_into_rtranclp)
  qed blast
qed

section \<open>Properties\<close>

text \<open>
  C27: Nothing is sent on the closed channel and it is not closed twice: in no reachable interleaving
  of sessions, forwarders, registrations, removals, the reader and \<^verbatim>\<open>Close\<close> does a goroutine panic; the
  channel is closed only after every forwarder has returned, and no session is added after that.
\<close>

theorem pool_never_sends_on_closed_channel:
  assumes "pool_reachable w"
  shows "\<not> pw_panicked w
    \<and> (pl_eventsClosed (pw_pool w) \<longrightarrow>
         (\<forall>f \<in> set (pw_fwds w). fw_done f)
         \<and> snd (pool_Add goq i sid meta (pw_pool w, pw_fwds w)) \<noteq> None)"
proof -
  have c: "closing_ok w" using closing_reachable [OF assms] by blast
  then have "pl_closed (pw_pool w) \<and> running (pw_fwds w) = 0" if "pl_eventsClosed (pw_pool w)"
    using that by (auto simp: closing_ok_def)
  with c show ?thesis
    by (auto simp: closing_ok_def pool_Add_def running_def filter_empty_conv)
qed

theorem pool_never_sends_on_closed_channel_witness: "\<not> pw_panicked emitting"
  using pool_never_sends_on_closed_channel [OF emitting_reachable] by blast

text \<open>
  C26: A pooled session is heard completely, in order and under its name: what it emitted is what was
  sent to the pool's channel under its id, followed by the one event its forwarder may hold and by
  what waits in the session's own channel; the reader of the pool gets what was sent, in order, with
  at most 256 events in between. This holds for every session that was registered once, removed or
  not.
\<close>

theorem pooled_sessions_are_heard_in_order:
  assumes "pool_reachable w" and "serving i (pw_fwds w) = [j]"
  shows "pw_emitted w i = map pe_Event (sent_by j w) @ held_by j w @ pw_source w i
    \<and> (\<forall>e \<in> set (sent_by j w). pe_SessionID e = fw_id (pw_fwds w ! j))
    \<and> map snd (pw_sent w) = pw_read w @ pl_events (pw_pool w)
    \<and> length (held_by j w) \<le> 1 \<and> length (pl_events (pw_pool w)) \<le> 256"
proof -
  have f: "flow_ok w" "source_ok w" using flow_reachable [OF assms(1)] by blast+
  have "j < length (pw_fwds w)" using assms(2) serving_sound [of j i "pw_fwds w"] by simp
  then have "pw_taken w j = map pe_Event (sent_by j w) @ held_by j w"
    and "list_all (\<lambda>e. pe_SessionID e = fw_id (pw_fwds w ! j)) (sent_by j w)"
    using f(1) by (auto simp: flow_ok_def)
  moreover have "pw_emitted w i = pw_taken w j @ pw_source w i"
    using f(2) assms(2) by (simp add: source_ok_def)
  moreover have "length (held_by j w) \<le> 1" by (simp add: held_by_def split: option.split)
  ultimately show ?thesis using f(1) by (simp add: flow_ok_def poolEventsCap_def list_all_iff)
qed

theorem pooled_sessions_are_heard_in_order_witness:
  "pw_emitted emitting 0 = map pe_Event (sent_by 0 emitting) @ held_by 0 emitting @ [EvStderr ''x'']"
proof -
  have "serving 0 (pw_fwds emitting) = [0]"
    by (simp add: emitting_def pooled_def serving_def new_forwarder_def)
  from pooled_sessions_are_heard_in_order [OF emitting_reachable this] show ?thesis
    by (simp add: emitting_def)
qed

text \<open>
  C28: Closing always comes to an end, and nobody has to help: from every reachable state in which
  \<^verbatim>\<open>Close\<close> has begun, whatever the forwarders hold and however full the channel is, the forwarders and
  \<^verbatim>\<open>Close\<close> alone (no reader takes an event, no session emits or ends) can only take a bounded number
  of steps, in whatever order they are scheduled, and whenever they cannot go on the events channel
  is closed.
\<close>

theorem closing_the_pool_ends:
  assumes "pool_reachable w" and "pl_closed (pw_pool w)"
  shows "(\<exists>n. \<forall>m w'. (unaided ^^ m) w w' \<longrightarrow> m \<le> n)
    \<and> (\<forall>w'. unaided\<^sup>*\<^sup>* w w' \<and> (\<nexists>w''. unaided w' w'') \<longrightarrow> pl_eventsClosed (pw_pool w'))
    \<and> (\<exists>w'. unaided\<^sup>*\<^sup>* w w' \<and> pl_eventsClosed (pw_pool w'))"
proof -
  have ok: "closing_ok w \<and> entries_ok w \<and> pl_closed (pw_pool w)"
    using closing_reachable [OF assms(1)] assms(2) by blast
  have "m \<le> left_over w" if "(unaided ^^ m) w w'" for m w'
    using unaided_run [OF that ok] by simp
  moreover have "pl_eventsClosed (pw_pool w')" if "unaided\<^sup>*\<^sup>* w w'" "\<nexists>w''. unaided w' w''" for w'
    using that unaided_run [OF _ ok] unaided_progress rtranclp_imp_relpowp [of unaided w w'] by blast
  ultimately show ?thesis using unaided_closes [OF ok] by blast
qed

theorem closing_the_pool_ends_witness:
  "\<exists>w'. unaided\<^sup>*\<^sup>* (emitting\<lparr>pw_pool := (pw_pool emitting)\<lparr>pl_closed := True\<rparr>, pw_closer := Marked\<rparr>) w'
     \<and> pl_eventsClosed (pw_pool w')"
proof -
  have "pool_step emitting (emitting\<lparr>pw_pool := (pw_pool emitting)\<lparr>pl_closed := True\<rparr>, pw_closer := Marked\<rparr>)"
    by (rule pool_step.CloseMark)
      (simp add: pool_close_mark_def emitting_def pooled_def NewPool_def init_pool_world_def)
  from closing_the_pool_ends [OF PoolNext [OF emitting_reachable this]] show ?thesis by simp
qed

end
