(* ===== verification/Json_Prefix.thy ===== *)
theory Json_Prefix
  imports Json
begin

text \<open>
  Reading a document whose end is not there yet. Once the parser has read a value whose end it has
  seen, more text behind it changes nothing: so no proper prefix of a JSON object is one, except for
  the white space at its end. Readers that look at a file while it is being written rest on this.
\<close>

section \<open>More text\<close>

lemma skip_ws_append: "skip_ws s \<noteq> [] \<Longrightarrow> skip_ws (s @ t) = skip_ws s @ t"
  by (induction s) auto

lemma skip_ws_append_Cons: "skip_ws s = c # cs \<Longrightarrow> skip_ws (s @ t) = c # cs @ t"
  by (simp add: skip_ws_append)

lemma skip_ws_Nil_append: "skip_ws (s @ t) = [] \<Longrightarrow> skip_ws t = []"
  by (induction s) (auto split: if_splits)

lemma skip_ws_Nil_iff: "skip_ws s = [] \<longleftrightarrow> list_all is_ws s"
  by (induction s) auto

lemma consumed_append: "length r \<le> length s \<Longrightarrow> consumed (s @ t) (r @ t) = consumed s r"
  by (simp add: consumed_def)

lemma hex4_append: "hex4 s \<noteq> None \<Longrightarrow> hex4 (s @ t) = hex4 s"
  by (induction s rule: hex4.induct) simp_all

lemma scan_str_append: "scan_str s = Some (w, r) \<Longrightarrow> scan_str (s @ t) = Some (w, r @ t)"
proof (induction s arbitrary: w r rule: scan_str.induct)
  case (2 c)
  then show ?case by (cases t) (auto split: if_splits)
next
  case (3 c d cs)
  then show ?case by (auto simp: hex4_append split: if_splits)
qed simp

lemma parse_str_append: "parse_str s = Some (w, r) \<Longrightarrow> parse_str (s @ t) = Some (w, r @ t)"
  using scan_str_append [of s _ _ t] by (fastforce simp: parse_str_def split: option.splits)

lemma scan_digits_append:
  "scan_digits s = (d, r) \<Longrightarrow> r \<noteq> [] \<Longrightarrow> scan_digits (s @ t) = (d, r @ t)"
  by (induction s arbitrary: d) (auto simp: Let_def split: if_splits prod.splits)

lemma scan_int_part_append:
  "scan_int_part s = Some (d, r) \<Longrightarrow> r \<noteq> [] \<Longrightarrow> scan_int_part (s @ t) = Some (d, r @ t)"
  using scan_digits_append [of s d r t]
  by (auto simp: scan_int_part_def simp del: scan_digits.simps split: list.splits if_splits)

lemma scan_frac_append:
  "scan_frac s = Some (d, r) \<Longrightarrow> r \<noteq> [] \<Longrightarrow> scan_frac (s @ t) = Some (d, r @ t)"
  by (auto simp: scan_frac_def simp del: scan_digits.simps split: list.splits if_splits prod.splits
      dest: scan_digits_append [where t = t])

lemma scan_exp_append:
  assumes e: "scan_exp s = Some (n, d, r)" and r: "r \<noteq> []"
  shows "scan_exp (s @ t) = Some (n, d, r @ t)"
proof (cases s)
  case Nil
  with e r show ?thesis by (simp add: scan_exp_def)
next
  case (Cons c cs)
  show ?thesis
  proof (cases cs)
    case Nil
    with e r Cons show ?thesis by (auto simp: scan_exp_def split: if_splits prod.splits)
  next
    case cs: (Cons x xs)
    from e r Cons cs show ?thesis
      by (auto simp: scan_exp_def simp del: scan_digits.simps split: if_splits prod.splits
          dest: scan_digits_append [where t = t])
  qed
qed

lemma parse_num_append:
  assumes "parse_num s = Some (v, r)" "r \<noteq> []"
  shows "parse_num (s @ t) = Some (v, r @ t)"
proof -
  obtain p where p: "scan_num s = Some (p, r)" and v: "v = JNum (consumed s r)"
    using assms(1) by (auto simp: parse_num_def split: option.splits)
  let ?u = "if s \<noteq> [] \<and> hd s = CHR ''-'' then tl s else s"
  obtain ip t1 fr t2 en ex where i: "scan_int_part ?u = Some (ip, t1)"
    and f: "scan_frac t1 = Some (fr, t2)" and e: "scan_exp t2 = Some (en, ex, r)"
    and np: "p = \<lparr>np_neg = s \<noteq> [] \<and> hd s = CHR ''-'', np_int = ip, np_frac = fr,
                 np_exp_neg = en, np_exp = ex\<rparr>"
    using p by (auto simp: scan_num_def Let_def split: option.splits)
  have ne: "t2 \<noteq> []" "t1 \<noteq> []"
    using scan_exp_length [OF e] scan_frac_length [OF f] assms(2) by auto
  have s: "s \<noteq> []" using i by (auto simp: scan_int_part_def)
  have "(if s @ t \<noteq> [] \<and> hd (s @ t) = CHR ''-'' then tl (s @ t) else s @ t) = ?u @ t"
    using s by simp
  moreover have "scan_int_part (?u @ t) = Some (ip, t1 @ t)" by (rule scan_int_part_append [OF i ne(2)])
  ultimately have "scan_num (s @ t) = Some (p, r @ t)"
    using s scan_frac_append [OF f ne(1)] scan_exp_append [OF e assms(2)]
    by (simp add: scan_num_def Let_def np)
  moreover have "length r \<le> length s" by (rule parse_num_length [OF assms(1)])
  ultimately show ?thesis by (simp add: parse_num_def v consumed_append)
qed

lemma parse_lit_append:
  "parse_lit w v s = Some (x, r) \<Longrightarrow> parse_lit w v (s @ t) = Some (x, r @ t)"
  by (auto simp: parse_lit_def has_prefix_def split: if_splits)
    (metis append_take_drop_id length_append length_take min.absorb_iff1 min.cobounded1 nat_le_linear
      take_all)+


section \<open>Values\<close>

definition ended :: "json \<Rightarrow> string \<Rightarrow> bool" where
  "ended v r \<longleftrightarrow> r \<noteq> [] \<or> (\<forall>l. v \<noteq> JNum l)"

lemma consumed_Cons_append:
  "length r \<le> length cs \<Longrightarrow> consumed (c # cs @ t) (r @ t) = consumed (c # cs) r"
  using consumed_append [of r "c # cs" t] by simp

lemma parse_append:
  "(\<forall>d s v r. parse_value n d s = Some (v, r) \<longrightarrow> ended v r \<longrightarrow>
      parse_value n d (s @ t) = Some (v, r @ t)) \<and>
   (\<forall>d s vs r. parse_elems n d s = Some (vs, r) \<longrightarrow>
      parse_elems n d (s @ t) = Some (vs, r @ t)) \<and>
   (\<forall>d s ms r. parse_members n d s = Some (ms, r) \<longrightarrow>
      parse_members n d (s @ t) = Some (ms, r @ t))"
proof (induction n)
  case 0
  then show ?case by simp
next
  case (Suc n)
  then have V: "parse_value n d s = Some (v, r) \<Longrightarrow> ended v r \<Longrightarrow>
      parse_value n d (s @ t) = Some (v, r @ t)"
    and E: "parse_elems n d s = Some (vs, r) \<Longrightarrow> parse_elems n d (s @ t) = Some (vs, r @ t)"
    and M: "parse_members n d s = Some (ms, r) \<Longrightarrow> parse_members n d (s @ t) = Some (ms, r @ t)"
    for d s v r vs ms by blast+
  then have E': "parse_elems n d s = Some (vs, r) \<Longrightarrow>
      parse_elems n d (s @ t) = Some (vs, r @ t) \<and> length r \<le> length s"
    and M': "parse_members n d s = Some (ms, r) \<Longrightarrow>
      parse_members n d (s @ t) = Some (ms, r @ t) \<and> length r \<le> length s" for d s r vs ms
    using parse_rest_length(2) [of n d s vs r] parse_rest_length(3) [of n d s ms r] by blast+
  have V1: "parse_value n d (s @ t) = Some (v, r @ t)"
    if "parse_value n d s = Some (v, r)" "skip_ws r = x # xs" for d s v r x xs
  proof -
    have "ended v r" using that(2) by (cases r) (simp_all add: ended_def)
    then show ?thesis by (rule V [OF that(1)])
  qed
  have "parse_value (Suc n) d (s @ t) = Some (v, r @ t)"
    if p: "parse_value (Suc n) d s = Some (v, r)" and e: "ended v r" for d s v r
  proof -
    obtain c cs where s: "skip_ws s = c # cs" using p by (auto split: list.splits)
    have st: "skip_ws (s @ t) = c # cs @ t" using s by (rule skip_ws_append_Cons)
    consider "c = CHR ''{''" | "c = CHR ''[''" | "c = CHR 0x22"
      | "c \<notin> {CHR ''{'', CHR ''['', CHR 0x22}" by auto
    then show ?thesis
    proof cases
      case 1
      with p s obtain x xs where x: "\<not> max_depth \<le> d" "skip_ws cs = x # xs"
        by (auto split: if_splits list.splits)
      from p 1 s st x skip_ws_append_Cons [OF x(2), of t] skip_ws_Cons_length [OF x(2)]
      show ?thesis
        by (auto simp: consumed_Cons_append dest: M' split: if_splits)
    next
      case 2
      with p s obtain x xs where x: "\<not> max_depth \<le> d" "skip_ws cs = x # xs"
        by (auto split: if_splits list.splits)
      from p 2 s st x skip_ws_append_Cons [OF x(2), of t] skip_ws_Cons_length [OF x(2)]
      show ?thesis
        by (auto simp: consumed_Cons_append dest: E' split: if_splits)
    next
      case 3
      with p s obtain w where w: "parse_str cs = Some (w, r)" by auto
      with p 3 s st parse_str_append [OF w, of t] parse_str_length [OF w] show ?thesis
        by (auto simp: consumed_Cons_append)
    next
      case 4
      have "parse_num (c # cs @ t) = Some (v, r @ t)" if "parse_num (c # cs) = Some (v, r)"
      proof -
        have "r \<noteq> []" using that e by (auto simp: parse_num_def ended_def split: option.splits)
        from parse_num_append [OF that this] show ?thesis by simp
      qed
      with p 4 s st show ?thesis
        using parse_lit_append [of _ _ "c # cs" _ _ t] by (simp split: if_splits)
    qed
  qed
  moreover have "parse_elems (Suc n) d (s @ t) = Some (vs, r @ t)"
    if p: "parse_elems (Suc n) d s = Some (vs, r)" for d s vs r
  proof -
    obtain v r0 where v: "parse_value n d s = Some (v, r0)" using p by (auto split: option.splits)
    with p obtain x xs where x: "skip_ws r0 = x # xs" by (auto split: list.splits)
    from p v x V1 [OF v x] skip_ws_append_Cons [OF x, of t] show ?thesis
      by (auto dest: E split: if_splits)
  qed
  moreover have "parse_members (Suc n) d (s @ t) = Some (ms, r @ t)"
    if p: "parse_members (Suc n) d s = Some (ms, r)" for d s ms r
  proof -
    obtain qs where q: "skip_ws s = CHR 0x22 # qs" using p by (auto split: list.splits if_splits)
    with p obtain k r0 where k: "parse_str qs = Some (k, r0)" by (auto split: option.splits)
    from p q k obtain xs where x: "skip_ws r0 = CHR '':'' # xs" by (auto split: list.splits if_splits)
    from p q k x obtain v r1 where v: "parse_value n d xs = Some (v, r1)" by (auto split: option.splits)
    from p q k x v obtain y ys where y: "skip_ws r1 = y # ys" by (auto split: list.splits)
    from p q k x v y V1 [OF v y] skip_ws_append_Cons [OF q, of t] parse_str_append [OF k, of t]
      skip_ws_append_Cons [OF x, of t] skip_ws_append_Cons [OF y, of t]
    show ?thesis by (auto dest: M split: if_splits)
  qed
  ultimately show ?case by blast
qed

section \<open>Prefixes of an object\<close>

definition json_Valid :: "string \<Rightarrow> bool" where
  "json_Valid s \<longleftrightarrow> parse_json s \<noteq> None"

definition json_object :: "string \<Rightarrow> bool" where
  "json_object s \<longleftrightarrow> s \<noteq> [] \<and> hd s = CHR ''{'' \<and> json_Valid s"

lemma object_value:
  assumes "parse_value n d (CHR ''{'' # cs) = Some (v, r)"
  shows "ended v r"
proof (cases n)
  case 0
  with assms show ?thesis by simp
next
  case (Suc m)
  with assms show ?thesis by (auto simp: ended_def is_ws_def split: if_splits list.splits)
qed

text \<open>A valid object that goes on as a valid document goes on with white space only.\<close>

lemma object_prefix:
  assumes p: "json_object p" and pq: "json_Valid (p @ q)"
  shows "skip_ws q = []"
proof -
  obtain cs where c: "p = CHR ''{'' # cs" using p by (cases p) (auto simp: json_object_def)
  obtain v r where v: "parse_value (parse_fuel p) 0 p = Some (v, r)"
    using p by (auto simp: json_object_def json_Valid_def parse_json_def split: option.splits)
  have "parse_value (parse_fuel (p @ q)) 0 p = parse_value (parse_fuel p) 0 p"
    by (rule parse_value_fuel) (simp add: parse_fuel_def)
  with v have v': "parse_value (parse_fuel (p @ q)) 0 p = Some (v, r)" by simp
  then have "ended v r" using object_value c by blast
  with parse_append v' have "parse_value (parse_fuel (p @ q)) 0 (p @ q) = Some (v, r @ q)" by blast
  with pq show ?thesis
    by (auto simp: json_Valid_def parse_json_def split: if_splits dest: skip_ws_Nil_append)
qed

end
