(* ===== verification/Workflow_Files.thy ===== *)
theory Workflow_Files
  imports Json_Prefix Parse Environment
begin

text \<open>
  The files of a workflow run, workflow.go and workflow\_live.go: their paths, the manifest with the
  deprecated watcher, and the journal and transcripts that are read while the CLI appends to them.
  What a file holds when it is opened is an argument, and so is the reading of a time.
\<close>

section \<open>Paths\<close>

definition validWorkflowAgentID :: "string \<Rightarrow> bool" where
  "validWorkflowAgentID i \<longleftrightarrow> i \<noteq> [] \<and> list_all (\<lambda>c. ascii_lower c \<or> is_digit c) i"

definition validWorkflowRunID :: "string \<Rightarrow> bool" where
  "validWorkflowRunID i \<longleftrightarrow>
     i \<noteq> [] \<and> i \<noteq> ''.'' \<and> i \<noteq> ''..'' \<and> \<not> contains_any i [CHR ''/'', CHR 0x5C]"

definition ErrInvalidAgentID :: go_error where
  "ErrInvalidAgentID = ENew ''claudecli: invalid workflow agent id''"

definition ErrNoTranscriptDir :: go_error where
  "ErrNoTranscriptDir = ENew ''claudecli: cannot derive workflow transcript dir''"

definition ErrOffsetBeyondEOF :: go_error where
  "ErrOffsetBeyondEOF = ENew ''claudecli: read offset beyond end of file''"

definition ErrNoManifestPath :: go_error where
  "ErrNoManifestPath = ENew ''claudecli: cannot derive workflow manifest path''"

text \<open>The methods accept a nil launch.\<close>

definition ManifestPath :: "WorkflowLaunch option \<Rightarrow> string" where
  "ManifestPath p =
     (case p of
        None \<Rightarrow> []
      | Some l \<Rightarrow>
          if \<not> validWorkflowRunID (wl_RunID l) then []
          else if wl_ScriptPath l \<noteq> [] then
            path_join [path_dir (path_dir (wl_ScriptPath l)), wl_RunID l @ ''.json'']
          else if wl_TranscriptDir l \<noteq> [] then
            path_join [path_dir (path_dir (path_dir (wl_TranscriptDir l))), ''workflows'',
                       wl_RunID l @ ''.json'']
          else [])"

definition transcriptDir :: "WorkflowLaunch option \<Rightarrow> string" where
  "transcriptDir p =
     (case p of
        None \<Rightarrow> []
      | Some l \<Rightarrow>
          if wl_TranscriptDir l \<noteq> [] then wl_TranscriptDir l
          else if wl_ScriptPath l \<noteq> [] \<and> validWorkflowRunID (wl_RunID l) then
            path_join [path_dir (path_dir (path_dir (wl_ScriptPath l))), ''subagents'', ''workflows'',
                       wl_RunID l]
          else [])"

definition JournalPath :: "WorkflowLaunch option \<Rightarrow> string" where
  "JournalPath l = (if transcriptDir l = [] then [] else path_join [transcriptDir l, ''journal.jsonl''])"

definition agentFilePath ::
    "(string \<Rightarrow> string) \<Rightarrow> WorkflowLaunch option \<Rightarrow> string \<Rightarrow> string \<Rightarrow> go_error + string" where
  "agentFilePath goq l agentID suffix =
     (if \<not> validWorkflowAgentID agentID then Inl (EWrap [] ErrInvalidAgentID ('': '' @ goq agentID))
      else if transcriptDir l = [] then Inl ErrNoTranscriptDir
      else Inr (path_join [transcriptDir l, ''agent-'' @ agentID @ suffix]))"

definition AgentTranscriptPath ::
    "(string \<Rightarrow> string) \<Rightarrow> WorkflowLaunch option \<Rightarrow> string \<Rightarrow> go_error + string" where
  "AgentTranscriptPath goq l agentID = agentFilePath goq l agentID ''.jsonl''"

definition AgentMetaPath ::
    "(string \<Rightarrow> string) \<Rightarrow> WorkflowLaunch option \<Rightarrow> string \<Rightarrow> go_error + string" where
  "AgentMetaPath goq l agentID = agentFilePath goq l agentID ''.meta.json''"

section \<open>The manifest\<close>

record WorkflowPhase =
  wph_Title :: string

record WorkflowSnapshot =
  ws_RunID :: string
  ws_TaskID :: string
  ws_WorkflowName :: string
  ws_Status :: string
  ws_Result :: raw_msg
  ws_AgentCount :: int
  ws_DurationMs :: int
  ws_StartTime :: int
  ws_Timestamp :: string
  ws_TotalTokens :: int
  ws_TotalToolCalls :: int
  ws_DefaultModel :: string
  ws_ScriptPath :: string
  ws_Phases :: "WorkflowPhase list"
  ws_Progress :: "WorkflowProgressEntry list"
  ws_Raw :: string

definition d_WorkflowPhase :: "WorkflowPhase dec" where
  [json_eval]: "d_WorkflowPhase = d_struct [fld ''title'' d_str wph_Title wph_Title_update]"

definition zero_WorkflowSnapshot :: WorkflowSnapshot where
  [json_eval]: "zero_WorkflowSnapshot =
     \<lparr>ws_RunID = [], ws_TaskID = [], ws_WorkflowName = [], ws_Status = [], ws_Result = None,
      ws_AgentCount = 0, ws_DurationMs = 0, ws_StartTime = 0, ws_Timestamp = [], ws_TotalTokens = 0,
      ws_TotalToolCalls = 0, ws_DefaultModel = [], ws_ScriptPath = [], ws_Phases = [],
      ws_Progress = [], ws_Raw = []\<rparr>"

definition d_WorkflowSnapshot :: "WorkflowSnapshot dec" where
  [json_eval]: "d_WorkflowSnapshot =
     d_struct
       [fld ''runId'' d_str ws_RunID ws_RunID_update,
        fld ''taskId'' d_str ws_TaskID ws_TaskID_update,
        fld ''workflowName'' d_str ws_WorkflowName ws_WorkflowName_update,
        fld ''status'' d_str ws_Status ws_Status_update,
        fld ''result'' d_raw ws_Result ws_Result_update,
        fld ''agentCount'' d_int ws_AgentCount ws_AgentCount_update,
        fld ''durationMs'' d_int ws_DurationMs ws_DurationMs_update,
        fld ''startTime'' d_int ws_StartTime ws_StartTime_update,
        fld ''timestamp'' d_str ws_Timestamp ws_Timestamp_update,
        fld ''totalTokens'' d_int ws_TotalTokens ws_TotalTokens_update,
        fld ''totalToolCalls'' d_int ws_TotalToolCalls ws_TotalToolCalls_update,
        fld ''defaultModel'' d_str ws_DefaultModel ws_DefaultModel_update,
        fld ''scriptPath'' d_str ws_ScriptPath ws_ScriptPath_update,
        fld ''phases'' (d_list d_WorkflowPhase \<lparr>wph_Title = []\<rparr>) ws_Phases ws_Phases_update,
        fld ''workflowProgress'' (d_list d_WorkflowProgressEntry zero_WorkflowProgressEntry)
          ws_Progress ws_Progress_update]"

definition IsTerminal :: "WorkflowSnapshot \<Rightarrow> bool" where
  "IsTerminal s = workflowStatusTerminal (ws_Status s)"

definition Agents :: "WorkflowSnapshot \<Rightarrow> WorkflowProgressEntry list" where
  "Agents s = filter IsAgent (ws_Progress s)"

definition parseWorkflowSnapshot :: "string \<Rightarrow> go_error + WorkflowSnapshot" where
  "parseWorkflowSnapshot data =
     (case unmarshal d_WorkflowSnapshot data zero_WorkflowSnapshot of
        (s, ok) \<Rightarrow>
          if \<not> ok then Inl (EWrap ''parse workflow manifest: '' json_error [])
          else Inr (s\<lparr>ws_Raw := data\<rparr>))"

text \<open>\<open>readFile\<close> is \<^verbatim>\<open>os.ReadFile\<close>: what it answers for a path.\<close>

definition ReadWorkflowSnapshot ::
    "(string \<Rightarrow> go_error + string) \<Rightarrow> WorkflowLaunch option \<Rightarrow> go_error + WorkflowSnapshot" where
  "ReadWorkflowSnapshot readFile launch =
     (if ManifestPath launch = [] then Inl ErrNoManifestPath
      else case readFile (ManifestPath launch) of
        Inl e \<Rightarrow> Inl (EWrap ''read workflow manifest: '' e [])
      | Inr data \<Rightarrow> parseWorkflowSnapshot data)"

definition defaultWorkflowPollInterval :: nanos where
  "defaultWorkflowPollInterval = 500000000"

definition WithPollInterval :: "nanos \<Rightarrow> nanos \<Rightarrow> nanos" where
  "WithPollInterval d interval = (if 0 < d then d else interval)"

text \<open>
  One poll of the watcher: what reading the manifest gave and whether the context was done before the
  reader took the snapshot; then the bytes remembered, the snapshot sent and whether watching stops.
\<close>

definition watch_poll ::
    "go_error + string \<Rightarrow> bool \<Rightarrow> string \<Rightarrow> string \<times> WorkflowSnapshot option \<times> bool" where
  "watch_poll file ctxDone prev =
     (case file of
        Inl _ \<Rightarrow> (prev, None, False)
      | Inr data \<Rightarrow>
          if data = prev then (prev, None, False)
          else (case parseWorkflowSnapshot data of
                  Inl _ \<Rightarrow> (prev, None, False)
                | Inr snap \<Rightarrow>
                    if ctxDone then (data, None, True) else (data, Some snap, IsTerminal snap)))"

text \<open>The polls of one watcher, from the immediate one to the last tick before the context is done.\<close>

fun watch_loop :: "((go_error + string) \<times> bool) list \<Rightarrow> string \<Rightarrow> WorkflowSnapshot list" where
  "watch_loop [] prev = []"
| "watch_loop ((file, ctxDone) # ticks) prev =
     (case watch_poll file ctxDone prev of
        (prev', snap, stop) \<Rightarrow>
          (case snap of None \<Rightarrow> [] | Some s \<Rightarrow> [s]) @ (if stop then [] else watch_loop ticks prev'))"

definition WatchWorkflow ::
    "WorkflowLaunch option \<Rightarrow> ((go_error + string) \<times> bool) list \<Rightarrow> go_error + WorkflowSnapshot list" where
  "WatchWorkflow launch ticks =
     (if ManifestPath launch = [] then Inl ErrNoManifestPath else Inr (watch_loop ticks []))"

section \<open>Files that are being written\<close>

definition newline :: char where
  "newline = CHR 0x0A"

text \<open>The records so far and the offset behind the last of them.\<close>

function jsonl_loop :: "string \<Rightarrow> string list \<times> int \<Rightarrow> string list \<times> int" where
  "jsonl_loop data (lines, next) =
     (if data = [] then (lines, next)
      else case index_byte newline data of
        None \<Rightarrow>
          (let line = trim_space data in
           if line \<noteq> [] \<and> (hd line \<noteq> CHR ''{'' \<or> \<not> json_Valid line) then (lines, next)
           else (if line = [] \<or> \<not> json_Valid line then lines else lines @ [line],
                 next + int (length data)))
      | Some i \<Rightarrow>
          (let line = trim_space (take i data) in
           jsonl_loop (drop (i + 1) data)
             (if line = [] \<or> \<not> json_Valid line then lines else lines @ [line], next + int i + 1)))"
  by pat_completeness auto
termination
  by (relation "measure (\<lambda>(data, _). length data)") auto

declare jsonl_loop.simps [simp del]

text \<open>
  \<open>file\<close> is the error of opening it, or its size at that time and the outcome of reading it.
\<close>

type_synonym opened = "go_error + int \<times> (go_error + string)"

definition readJSONLFrom ::
    "opened \<Rightarrow> int \<Rightarrow> string list \<times> int \<times> go_error option" where
  "readJSONLFrom file offst =
     (let offset = (if offst < 0 then 0 else offst) in
      case file of
        Inl e \<Rightarrow> ([], offset, Some e)
      | Inr (stat_size, held) \<Rightarrow>
          if stat_size < offset then ([], offset, Some ErrOffsetBeyondEOF)
          else (case held of
                  Inl e \<Rightarrow> ([], offset, Some e)
                | Inr content \<Rightarrow>
                    (case jsonl_loop (drop (nat offset) content) ([], offset) of
                       (lines, next) \<Rightarrow> (lines, next, None))))"

subsection \<open>The journal\<close>

record WorkflowJournalEntry =
  je_Type :: string
  je_Key :: string
  je_AgentID :: string
  je_Label :: string
  je_Phase :: string
  je_Result :: raw_msg
  je_Raw :: string

definition zero_WorkflowJournalEntry :: WorkflowJournalEntry where
  [json_eval]: "zero_WorkflowJournalEntry =
     \<lparr>je_Type = [], je_Key = [], je_AgentID = [], je_Label = [], je_Phase = [], je_Result = None,
      je_Raw = []\<rparr>"

definition d_WorkflowJournalEntry :: "WorkflowJournalEntry dec" where
  [json_eval]: "d_WorkflowJournalEntry =
     d_struct
       [fld ''type'' d_str je_Type je_Type_update,
        fld ''key'' d_str je_Key je_Key_update,
        fld ''agentId'' d_str je_AgentID je_AgentID_update,
        fld ''label'' d_str je_Label je_Label_update,
        fld ''phase'' d_str je_Phase je_Phase_update,
        fld ''result'' d_raw je_Result je_Result_update]"

definition journal_entry :: "string \<Rightarrow> WorkflowJournalEntry list" where
  "journal_entry line =
     (case unmarshal d_WorkflowJournalEntry line zero_WorkflowJournalEntry of
        (e, ok) \<Rightarrow> if \<not> ok \<or> je_Type e = [] then [] else [e\<lparr>je_Raw := line\<rparr>])"

definition journal_from :: "opened \<Rightarrow> int \<Rightarrow> WorkflowJournalEntry list \<times> int \<times> go_error option" where
  "journal_from file offset =
     (case readJSONLFrom file offset of
        (lines, next, Some e) \<Rightarrow> ([], next, Some (EWrap ''read workflow journal: '' e []))
      | (lines, next, None) \<Rightarrow> (concat (map journal_entry lines), next, None))"

definition ReadWorkflowJournal ::
    "(string \<Rightarrow> opened) \<Rightarrow> WorkflowLaunch option \<Rightarrow> int
     \<Rightarrow> WorkflowJournalEntry list \<times> int \<times> go_error option" where
  "ReadWorkflowJournal fs launch offset =
     (if JournalPath launch = [] then ([], offset, Some ErrNoTranscriptDir)
      else journal_from (fs (JournalPath launch)) offset)"

subsection \<open>Agents\<close>

record WorkflowAgentMeta =
  wm_AgentType :: string
  wm_Description :: string
  wm_WorkflowPhase :: string
  wm_Model :: string
  wm_WorktreePath :: string
  wm_SpawnedWithWorktree :: bool
  wm_Raw :: string

definition zero_WorkflowAgentMeta :: WorkflowAgentMeta where
  [json_eval]: "zero_WorkflowAgentMeta =
     \<lparr>wm_AgentType = [], wm_Description = [], wm_WorkflowPhase = [], wm_Model = [],
      wm_WorktreePath = [], wm_SpawnedWithWorktree = False, wm_Raw = []\<rparr>"

definition d_WorkflowAgentMeta :: "WorkflowAgentMeta dec" where
  [json_eval]: "d_WorkflowAgentMeta =
     d_struct
       [fld ''agentType'' d_str wm_AgentType wm_AgentType_update,
        fld ''description'' d_str wm_Description wm_Description_update,
        fld ''workflowPhase'' d_str wm_WorkflowPhase wm_WorkflowPhase_update,
        fld ''model'' d_str wm_Model wm_Model_update,
        fld ''worktreePath'' d_str wm_WorktreePath wm_WorktreePath_update,
        fld ''spawnedWithWorktree'' d_bool wm_SpawnedWithWorktree wm_SpawnedWithWorktree_update]"

definition ReadWorkflowAgentMeta ::
    "(string \<Rightarrow> string) \<Rightarrow> (string \<Rightarrow> go_error + string) \<Rightarrow> WorkflowLaunch option \<Rightarrow> string
     \<Rightarrow> go_error + WorkflowAgentMeta" where
  "ReadWorkflowAgentMeta goq readFile launch agentID =
     (case AgentMetaPath goq launch agentID of
        Inl e \<Rightarrow> Inl e
      | Inr p \<Rightarrow>
          (case readFile p of
             Inl e \<Rightarrow> Inl (EWrap ''read workflow agent meta: '' e [])
           | Inr data \<Rightarrow>
               (case unmarshal d_WorkflowAgentMeta data zero_WorkflowAgentMeta of
                  (m, ok) \<Rightarrow>
                    if \<not> ok then Inl (EWrap ''parse workflow agent meta: '' json_error [])
                    else Inr (m\<lparr>wm_Raw := data\<rparr>))))"

text \<open>The time is nothing when it is absent or cannot be read: Go's zero time.\<close>

record WorkflowTranscriptEvent =
  wt_UUID :: string
  wt_Timestamp :: "nanos option"
  wt_Event :: event

record rawTranscriptLine =
  tl_Type :: string
  tl_UUID :: string
  tl_Timestamp :: string
  tl_SessionID :: string
  tl_IsAPIErrorMessage :: bool
  tl_Message :: "rawMessage option"

definition zero_rawTranscriptLine :: rawTranscriptLine where
  [json_eval]: "zero_rawTranscriptLine =
     \<lparr>tl_Type = [], tl_UUID = [], tl_Timestamp = [], tl_SessionID = [],
      tl_IsAPIErrorMessage = False, tl_Message = None\<rparr>"

definition d_rawTranscriptLine :: "rawTranscriptLine dec" where
  [json_eval]: "d_rawTranscriptLine =
     d_struct
       [fld ''type'' d_str tl_Type tl_Type_update,
        fld ''uuid'' d_str tl_UUID tl_UUID_update,
        fld ''timestamp'' d_str tl_Timestamp tl_Timestamp_update,
        fld ''sessionId'' d_str tl_SessionID tl_SessionID_update,
        fld ''isApiErrorMessage'' d_bool tl_IsAPIErrorMessage tl_IsAPIErrorMessage_update,
        fld ''message'' (d_ptr d_rawMessage zero_rawMessage) tl_Message tl_Message_update]"

definition user_line_events :: "rawTranscriptLine \<Rightarrow> rawContent list \<Rightarrow> event list" where
  "user_line_events raw bs =
     (let texts = map (\<lambda>b. \<lparr>uc_Type = ''text'', uc_Text = rc_Text b, uc_ToolUseID = [],
                           uc_Content = [], uc_IsError = False\<rparr>)
                    (filter (\<lambda>b. rc_Type b = ''text'') bs) in
      map (\<lambda>b. EvToolResult \<lparr>tr_ToolUseID = rc_ToolUseID b, tr_Content = extractContent (rc_Content b),
                             tr_IsError = rc_IsError b, tr_ParentToolUseID = []\<rparr>)
        (filter (\<lambda>b. rc_Type b = ''tool_result'') bs)
      @ (if texts = [] then []
         else [EvUser \<lparr>ue_Content = texts, ue_ParentToolUseID = [], ue_AgentResult = None,
                       ue_WorkflowLaunch = None, ue_SessionID = tl_SessionID raw,
                       ue_UUID = tl_UUID raw, ue_Timestamp = tl_Timestamp raw, ue_IsReplay = False,
                       ue_Origin = None\<rparr>]))"

definition is_unknown :: "event \<Rightarrow> bool" where
  "is_unknown ev = (case ev of EvUnknown _ \<Rightarrow> True | _ \<Rightarrow> False)"

definition transcript_line :: "(string \<Rightarrow> nanos option) \<Rightarrow> string \<Rightarrow> WorkflowTranscriptEvent list" where
  "transcript_line rfc3339 line =
     (case unmarshal d_rawTranscriptLine line zero_rawTranscriptLine of
        (raw, ok) \<Rightarrow>
          if \<not> ok then []
          else (case tl_Message raw of
                  None \<Rightarrow> []
                | Some m \<Rightarrow>
                    map (\<lambda>ev. \<lparr>wt_UUID = tl_UUID raw, wt_Timestamp = rfc3339 (tl_Timestamp raw),
                               wt_Event = ev\<rparr>)
                      (if tl_Type raw = ''assistant'' then
                         filter (\<lambda>ev. \<not> is_unknown ev)
                           (content_events \<lparr>am_ParentToolUseID = [], am_Model = rm_Model m,
                                            am_SubagentType = [], am_TaskDescription = []\<rparr> (rm_Content m))
                       else if tl_Type raw = ''user'' then user_line_events raw (rm_Content m)
                       else [])))"

definition appendTranscriptLine ::
    "(string \<Rightarrow> nanos option) \<Rightarrow> WorkflowTranscriptEvent list \<Rightarrow> string \<Rightarrow> WorkflowTranscriptEvent list" where
  "appendTranscriptLine rfc3339 out line = out @ transcript_line rfc3339 line"

definition transcript_from ::
    "(string \<Rightarrow> nanos option) \<Rightarrow> opened \<Rightarrow> int \<Rightarrow> WorkflowTranscriptEvent list \<times> int \<times> go_error option" where
  "transcript_from rfc3339 file offset =
     (case readJSONLFrom file offset of
        (lines, next, Some e) \<Rightarrow> ([], next, Some (EWrap ''read workflow agent transcript: '' e []))
      | (lines, next, None) \<Rightarrow> (foldl (appendTranscriptLine rfc3339) [] lines, next, None))"

definition ReadWorkflowAgentTranscript ::
    "(string \<Rightarrow> string) \<Rightarrow> (string \<Rightarrow> nanos option) \<Rightarrow> (string \<Rightarrow> opened)
     \<Rightarrow> WorkflowLaunch option \<Rightarrow> string \<Rightarrow> int
     \<Rightarrow> WorkflowTranscriptEvent list \<times> int \<times> go_error option" where
  "ReadWorkflowAgentTranscript goq rfc3339 fs launch agentID offset =
     (case AgentTranscriptPath goq launch agentID of
        Inl e \<Rightarrow> ([], offset, Some e)
      | Inr p \<Rightarrow> transcript_from rfc3339 (fs p) offset)"

section \<open>Lines\<close>

lemma json_Valid_Nil [simp]: "\<not> json_Valid []"
  by (simp add: json_Valid_def parse_json_def parse_fuel_def)

lemma trimmed_last: "trim_space r = r \<Longrightarrow> r \<noteq> [] \<Longrightarrow> \<not> is_ws (last r)"
proof
  assume r: "trim_space r = r" "r \<noteq> []" and w: "is_ws (last r)"
  have "\<forall>p \<in> set (map rev space_seqs). \<not> has_prefix (rev r) p"
    using trimmed_ends(2) [OF r(1)] space_prefix_0_iff [of "map rev space_seqs" "rev r"] space_seqs_no_Nil
    by auto
  moreover have "has_prefix (rev r) [last r]" using r(2) by (cases r rule: rev_cases) (simp_all add: has_prefix_def)
  moreover have "[last r] \<in> set (map rev space_seqs)" using w by (auto simp: space_seqs_def is_ws_def)
  ultimately show False by blast
qed

section \<open>Polling\<close>

text \<open>
  A line the CLI writes: on one line, without blanks around it, and if it starts like an object it is
  one. A file is such lines, each ended by a newline; what a reader sees of it is a prefix.
\<close>

definition whole_line :: "string \<Rightarrow> bool" where
  "whole_line r \<longleftrightarrow>
     newline \<notin> set r \<and> trim_space r = r \<and> (r \<noteq> [] \<and> hd r = CHR ''{'' \<longrightarrow> json_Valid r)"

definition file_of :: "string list \<Rightarrow> string" where
  "file_of rs = concat (map (\<lambda>r. r @ [newline]) rs)"

lemma file_of_simps [simp]: "file_of [] = []" "file_of (r # rs) = r @ newline # file_of rs"
  by (simp_all add: file_of_def)

lemma file_of_Nil_iff [simp]: "file_of rs = [] \<longleftrightarrow> rs = []"
  by (cases rs) simp_all

lemma partial_line:
  assumes r: "whole_line r" and x: "x = take m r" "x \<noteq> []"
    and v: "hd (trim_space x) = CHR ''{''" "json_Valid (trim_space x)"
  shows "x = r \<and> trim_space x = r"
proof -
  have t: "trim_space r = r" using r by (simp add: whole_line_def)
  obtain k where k: "trim_space x = take k x" using trim_prefix_of_trimmed(1) [OF t x] by blast
  have ne: "trim_space x \<noteq> []" by (rule trim_prefix_of_trimmed(2) [OF t x])
  let ?p = "take (min k m) r"
  have p: "trim_space x = ?p" using k x(1) by (simp add: min.commute)
  let ?q = "drop (min k m) r"
  have "hd r = CHR ''{''" "r \<noteq> []" using v(1) ne p by (cases r; cases "min k m"; auto)+
  then have "json_Valid (?p @ ?q)" using r by (simp add: whole_line_def)
  moreover have "json_object ?p" using v ne p by (simp add: json_object_def)
  ultimately have "skip_ws ?q = []" using object_prefix by blast
  then have "list_all is_ws ?q" by (simp add: skip_ws_Nil_iff)
  moreover have "\<not> is_ws (last ?q)" if "?q \<noteq> []"
    using trimmed_last [OF t \<open>r \<noteq> []\<close>] that by (metis append_take_drop_id last_appendR)
  ultimately have "?q = []" by (auto simp: list_all_iff)
  then have "length r \<le> min k m" by simp
  then show ?thesis using p x(1) by simp
qed

lemma read_part:
  assumes "list_all whole_line rs" "k \<le> length (file_of rs)"
  shows "\<exists>j c b. jsonl_loop (take k (file_of rs)) (ls, n) = (ls @ filter json_Valid (take j rs), n + int c)
      \<and> j \<le> length rs \<and> c \<le> k \<and> b \<in> {[], [newline]} \<and> drop c (file_of rs) = b @ file_of (drop j rs)
      \<and> (k = length (file_of rs) \<longrightarrow> j = length rs)"
  using assms
proof (induction rs arbitrary: k ls n)
  case Nil
  then show ?case by (auto simp: jsonl_loop.simps)
next
  case (Cons r rs)
  let ?stay = "jsonl_loop (take k (file_of (r # rs))) (ls, n) = (ls, n)"
  have r: "whole_line r" "newline \<notin> set r" "trim_space r = r" using Cons.prems by (auto simp: whole_line_def)
  show ?case
  proof (cases "length r < k")
    case True
    let ?k = "k - length r - 1"
    have d: "take k (file_of (r # rs)) = r @ newline # take ?k (file_of rs)"
      using True by (cases "k - length r") auto
    have "?k \<le> length (file_of rs)" using Cons.prems True by auto
    then obtain j c b where IH:
      "jsonl_loop (take ?k (file_of rs)) (ls @ filter json_Valid [r], n + int (length r) + 1)
         = ((ls @ filter json_Valid [r]) @ filter json_Valid (take j rs), n + int (length r) + 1 + int c)"
      "j \<le> length rs" "c \<le> ?k" "b \<in> {[], [newline]}" "drop c (file_of rs) = b @ file_of (drop j rs)"
      "?k = length (file_of rs) \<longrightarrow> j = length rs"
      using Cons.IH [of ?k "ls @ filter json_Valid [r]" "n + int (length r) + 1"] Cons.prems(1) by auto
    have "jsonl_loop (take k (file_of (r # rs))) (ls, n)
        = jsonl_loop (take ?k (file_of rs)) (ls @ filter json_Valid [r], n + int (length r) + 1)"
      unfolding d using r by (subst jsonl_loop.simps) (auto simp: index_byte_append Let_def)
    with IH True show ?thesis
      by (intro exI [of _ "Suc j"] exI [of _ "length r + 1 + c"] exI [of _ b]) auto
  next
    case False
    then have d: "take k (file_of (r # rs)) = take k r" by simp
    have full: "k \<noteq> length (file_of (r # rs))" using False by simp
    let ?x = "take k r"
    show ?thesis
    proof (cases "?x = []")
      case True
      then have ?stay using d by (simp add: jsonl_loop.simps)
      with full show ?thesis by (intro exI [of _ 0] exI [of _ "[]"]) auto
    next
      case x: False
      have ne: "trim_space ?x \<noteq> []" by (rule trim_prefix_of_trimmed(2) [OF r(3) refl x])
      have "newline \<notin> set ?x" using r(2) by (meson in_set_takeD)
      then have i: "index_byte newline ?x = None" by (rule index_byte_None)
      show ?thesis
      proof (cases "hd (trim_space ?x) = CHR ''{'' \<and> json_Valid (trim_space ?x)")
        case True
        then have e: "?x = r" "json_Valid r" using partial_line [OF r(1) refl x] by auto
        then have "jsonl_loop (take k (file_of (r # rs))) (ls, n) = (ls @ [r], n + int (length r))"
          using d i x ne True r by (subst jsonl_loop.simps) (simp add: Let_def)
        moreover have "length r \<le> k" using e(1) by (metis length_take min.cobounded2)
        ultimately show ?thesis using e full
          by (intro exI [of _ 1] exI [of _ "length r"] exI [of _ "[newline]"]) auto
      next
        case False
        then have ?stay using d i x ne by (subst jsonl_loop.simps) (auto simp: Let_def)
        with full show ?thesis by (intro exI [of _ 0] exI [of _ "[]"]) auto
      qed
    qed
  qed
qed

text \<open>The same from an offset an earlier read returned.\<close>

lemma read_rest:
  assumes rs: "list_all whole_line rs" and b: "b \<in> {[], [newline]}"
    and k: "k \<le> length (b @ file_of rs)"
  shows "\<exists>j c b'. jsonl_loop (take k (b @ file_of rs)) (ls, n) = (ls @ filter json_Valid (take j rs), n + int c)
      \<and> j \<le> length rs \<and> c \<le> k \<and> b' \<in> {[], [newline]} \<and> drop c (b @ file_of rs) = b' @ file_of (drop j rs)
      \<and> (k = length (b @ file_of rs) \<longrightarrow> j = length rs)"
proof (cases "b = [] \<or> k = 0")
  case True
  then show ?thesis
  proof
    assume "b = []"
    with k read_part [OF rs, of k ls n] show ?thesis by simp
  next
    assume z: "k = 0"
    with b show ?thesis
      by (intro exI [of _ 0] exI [of _ b]) (auto simp: jsonl_loop.simps)
  qed
next
  case False
  with b have B: "b = [newline]" by blast
  from False k B obtain m where m: "k = Suc m" "m \<le> length (file_of rs)" by (cases k) auto
  obtain j c b' where j: "jsonl_loop (take m (file_of rs)) (ls, n + 1)
        = (ls @ filter json_Valid (take j rs), (n + 1) + int c)"
      "j \<le> length rs" "c \<le> m" "b' \<in> {[], [newline]}" "drop c (file_of rs) = b' @ file_of (drop j rs)"
      "m = length (file_of rs) \<longrightarrow> j = length rs"
    using read_part [OF rs m(2), of ls "n + 1"] by auto
  have "jsonl_loop (take k (b @ file_of rs)) (ls, n) = jsonl_loop (take m (file_of rs)) (ls, n + 1)"
    by (subst jsonl_loop.simps) (simp add: B m(1))
  with j m B show ?thesis
    by (intro exI [of _ j] exI [of _ "Suc c"] exI [of _ b']) auto
qed

text \<open>
  A reader of records: what it makes of a line, and that it makes nothing of a line that is no JSON.
  Polling keeps the offset between calls; a poll sees the file twice, when it is opened and when it
  is read, and the file only grows.
\<close>

fun poll :: "(opened \<Rightarrow> int \<Rightarrow> 'e list \<times> int \<times> go_error option) \<Rightarrow> string \<Rightarrow> int
    \<Rightarrow> (nat \<times> nat) list \<Rightarrow> 'e list \<times> go_error list" where
  "poll rd file offset [] = ([], [])"
| "poll rd file offset ((opened, read) # polls) =
     (case rd (Inr (int opened, Inr (take read file))) offset of
        (es, next, err) \<Rightarrow>
          (case poll rd file next polls of
             (es', errs) \<Rightarrow> (es @ es', (case err of None \<Rightarrow> [] | Some e \<Rightarrow> [e]) @ errs)))"

fun growing :: "nat \<Rightarrow> (nat \<times> nat) list \<Rightarrow> bool" where
  "growing n [] = True"
| "growing n ((opened, read) # polls) = (n \<le> opened \<and> opened \<le> read \<and> growing read polls)"

locale record_reader =
  fixes rd :: "opened \<Rightarrow> int \<Rightarrow> 'e list \<times> int \<times> go_error option"
    and rec :: "string \<Rightarrow> 'e list"
  assumes reads: "readJSONLFrom file offset = (lines, next, None) \<Longrightarrow>
      rd file offset = (concat (map rec lines), next, None)"
    and skips: "\<not> json_Valid line \<Longrightarrow> rec line = []"
begin

lemma skipped: "concat (map rec (filter json_Valid rs)) = concat (map rec rs)"
  by (induction rs) (auto simp: skips)

lemma poll_rest:
  assumes "list_all whole_line rs" and "b \<in> {[], [newline]}"
    and "drop c file = b @ file_of rs" and "c \<le> length file"
    and "growing c polls" and "\<forall>p \<in> set polls. snd p \<le> length file"
  shows "\<exists>j \<le> length rs. poll rd file (int c) polls = (concat (map rec (take j rs)), [])
      \<and> ((\<exists>st. (st, length file) \<in> set polls) \<longrightarrow> j = length rs)"
  using assms
proof (induction polls arbitrary: c b rs)
  case Nil
  then show ?case by (auto intro: exI [of _ 0])
next
  case (Cons p polls)
  obtain st k where p: "p = (st, k)" by fastforce
  have ck: "c \<le> st" "st \<le> k" "k \<le> length file" using Cons.prems p by auto
  have "take (k - c) (drop c file) = drop c (take k file)" by (simp add: drop_take)
  moreover have len: "k - c \<le> length (b @ file_of rs)"
    using ck Cons.prems(3) by (metis diff_le_mono length_drop)
  ultimately obtain j m b' where j:
    "jsonl_loop (drop c (take k file)) ([], int c) = (filter json_Valid (take j rs), int (c + m))"
    "j \<le> length rs" "m \<le> k - c" "b' \<in> {[], [newline]}" "drop m (b @ file_of rs) = b' @ file_of (drop j rs)"
    "k - c = length (b @ file_of rs) \<longrightarrow> j = length rs"
    using read_rest [OF Cons.prems(1,2), of "k - c" "[]" "int c"] Cons.prems(3) by auto
  have "readJSONLFrom (Inr (int st, Inr (take k file))) (int c)
      = (filter json_Valid (take j rs), int (c + m), None)"
    using j(1) ck by (simp add: readJSONLFrom_def Let_def)
  then have one: "rd (Inr (int st, Inr (take k file))) (int c)
      = (concat (map rec (take j rs)), int (c + m), None)"
    by (simp add: reads skipped)
  have "drop (c + m) file = b' @ file_of (drop j rs)"
    using Cons.prems(3) j(5) by (metis add.commute drop_drop)
  moreover have "growing (c + m) polls" 
    using Cons.prems(5) p j(3) ck by (cases polls) auto
  moreover have "list_all whole_line (drop j rs)"
    using Cons.prems(1) by (auto simp: list_all_iff dest: in_set_dropD)
  moreover have "c + m \<le> length file" using j(3) ck by simp
  ultimately obtain i where i: "i \<le> length (drop j rs)"
    "poll rd file (int (c + m)) polls = (concat (map rec (take i (drop j rs))), [])"
    "(\<exists>st. (st, length file) \<in> set polls) \<longrightarrow> i = length (drop j rs)"
    using Cons.IH [of "drop j rs" b' "c + m"] j(4) Cons.prems(6) by auto
  have "take j rs @ take i (drop j rs) = take (j + i) rs" by (simp add: take_add)
  then have "poll rd file (int c) (p # polls) = (concat (map rec (take (j + i) rs)), [])"
    using one i(2) p by (simp flip: concat_append map_append)
  moreover have "j + i = length rs" if "\<exists>st. (st, length file) \<in> set (p # polls)"
  proof (cases "k = length file")
    case True
    then have "k - c = length (b @ file_of rs)" using Cons.prems(3) by (metis length_drop)
    with j i(1) show ?thesis by simp
  next
    case False
    with that p have "\<exists>st. (st, length file) \<in> set polls" by auto
    with i j(2) show ?thesis by auto
  qed
  ultimately show ?case using i(1) j(2) by (intro exI [of _ "j + i"]) auto
qed

lemma poll_all:
  assumes "list_all whole_line rs" "growing 0 polls" "\<forall>p \<in> set polls. snd p \<le> length (file_of rs)"
  shows "\<exists>j \<le> length rs. poll rd (file_of rs) 0 polls = (concat (map rec (take j rs)), [])
      \<and> ((\<exists>st. (st, length (file_of rs)) \<in> set polls) \<longrightarrow> j = length rs)"
  using poll_rest [OF assms(1), of "[]" 0 "file_of rs" polls] assms by simp

end

lemma unmarshal_invalid: "\<not> json_Valid line \<Longrightarrow> unmarshal d line z = (z, False)"
  by (simp add: json_Valid_def unmarshal_def unmarshal_raw_def)

lemma foldl_transcript:
  "foldl (appendTranscriptLine rfc) out lines = out @ concat (map (transcript_line rfc) lines)"
  by (induction lines arbitrary: out) (simp_all add: appendTranscriptLine_def)

interpretation journal: record_reader journal_from journal_entry
  by unfold_locales (simp_all add: journal_from_def journal_entry_def unmarshal_invalid)

interpretation transcript: record_reader "transcript_from rfc" "transcript_line rfc" for rfc
  by unfold_locales
    (simp_all add: transcript_from_def transcript_line_def unmarshal_invalid foldl_transcript)

text \<open>A journal of one record, seen with its record cut in the middle and then whole.\<close>

definition sample_record :: string where
  "sample_record = CHR ''{'' # quote_json ''type'' @ CHR '':'' # quote_json ''launched'' @ ''}''"

definition sample_launch :: WorkflowLaunch where
  "sample_launch = zero_WorkflowLaunch\<lparr>wl_TranscriptDir := ''/t''\<rparr>"

lemma sample_record_text:
  "sample_record = [CHR ''{'', CHR 0x22] @ ''type'' @ [CHR 0x22, CHR '':'', CHR 0x22] @ ''launched''
     @ [CHR 0x22, CHR ''}'']"
  by code_simp

lemma sample_record_whole: "list_all whole_line [sample_record]"
  unfolding sample_record_text by code_simp

lemma sample_launch_paths:
  "JournalPath (Some sample_launch) \<noteq> []"
  "AgentTranscriptPath id (Some sample_launch) ''a1'' = Inr ''/t/agent-a1.jsonl''"
  by code_simp+

text \<open>
  C32: Polling a file that the CLI appends to loses nothing, repeats nothing and reports no error: if
  every line of the journal and of a transcript is blank-trimmed and either a JSON object or no
  object at all, then however the polls fall between the CLI's writes - in the middle of a record,
  before its newline, or while the file grows between opening and reading - the entries they return
  together are those of the first lines of the file, once each and in order; and as soon as one poll
  has seen the whole file, they are the entries of all its lines.
\<close>

theorem polling_misses_nothing:
  assumes "list_all whole_line rs" and "growing 0 polls"
    and "\<forall>p \<in> set polls. snd p \<le> length (file_of rs)"
    and "JournalPath launch \<noteq> []" and "AgentTranscriptPath goq launch agent = Inr path"
  shows "\<exists>i \<le> length rs. \<exists>j \<le> length rs.
      poll (\<lambda>f. ReadWorkflowJournal (\<lambda>_. f) launch) (file_of rs) 0 polls
        = (concat (map journal_entry (take i rs)), [])
    \<and> poll (\<lambda>f. ReadWorkflowAgentTranscript goq rfc (\<lambda>_. f) launch agent) (file_of rs) 0 polls
        = (concat (map (transcript_line rfc) (take j rs)), [])
    \<and> ((\<exists>seen. (seen, length (file_of rs)) \<in> set polls) \<longrightarrow> i = length rs \<and> j = length rs)"
proof -
  have "ReadWorkflowJournal (\<lambda>_. f) launch = journal_from f"
    and "ReadWorkflowAgentTranscript goq rfc (\<lambda>_. f) launch agent = transcript_from rfc f" for f
    using assms(4,5) by (auto simp: ReadWorkflowJournal_def ReadWorkflowAgentTranscript_def)
  then show ?thesis
    using journal.poll_all [OF assms(1-3)] transcript.poll_all [OF assms(1-3), of rfc] by fastforce
qed

theorem polling_misses_nothing_witness:
  "fst (poll (\<lambda>f. ReadWorkflowJournal (\<lambda>_. f) (Some sample_launch)) (file_of [sample_record]) 0
        [(0, 5), (7, length (file_of [sample_record]))])
     = journal_entry sample_record"
proof -
  have n: "length (file_of [sample_record]) = 20" by code_simp
  show ?thesis
    using polling_misses_nothing [OF sample_record_whole, of "[(0, 5), (7, 20)]" "Some sample_launch"
        id "''a1''" _ "\<lambda>_. None"] sample_launch_paths n by auto
qed

section \<open>Staying inside\<close>

text \<open>A name that is one element of a path, and the path of that name in a directory.\<close>

definition element :: "string \<Rightarrow> bool" where
  "element name \<longleftrightarrow> CHR ''/'' \<notin> set name \<and> name \<notin> {[], ''.'', ''..''}"

definition child :: "string \<Rightarrow> string \<Rightarrow> string" where
  "child d name = (if d = ''.'' then name else if d = ''/'' then ''/'' @ name else d @ ''/'' @ name)"

lemma clean_comps_snoc:
  "element name \<Longrightarrow> clean_comps rooted acc (cs @ [name]) = clean_comps rooted acc cs @ [name]"
  by (induction rooted acc cs rule: clean_comps.induct) (auto simp: element_def split: list.split)

lemma clean_comps_names:
  "c \<in> set (clean_comps rooted acc cs) \<Longrightarrow> c \<in> set acc \<or> c = ''..'' \<or> c \<in> set cs \<and> c \<noteq> [] \<and> c \<noteq> ''.''"
  by (induction rooted acc cs rule: clean_comps.induct) (auto split: if_splits list.splits)

lemma join_snoc: "cs \<noteq> [] \<Longrightarrow> join sep (cs @ [c]) = join sep cs @ sep @ c"
  by (induction sep cs rule: join.induct) auto

lemma join_dot:
  assumes "\<forall>c \<in> set cs. c \<noteq> [] \<and> c \<noteq> ''.'' \<and> CHR ''/'' \<notin> set c"
  shows "join ''/'' cs \<noteq> ''.''" "join ''/'' cs \<noteq> ''/''" "cs \<noteq> [] \<Longrightarrow> join ''/'' cs \<noteq> []"
  using assms by (cases "(''/'', cs)" rule: join.cases; auto simp: append_eq_Cons_conv)+

text \<open>\<^verbatim>\<open>filepath.Join\<close> of a directory and one element does not leave the directory.\<close>

lemma path_clean_child:
  assumes "d \<noteq> []" "element name"
  shows "path_clean (d @ CHR ''/'' # name) = child (path_clean d) name"
proof -
  have n: "name \<noteq> []" "split_on CHR ''/'' name = [name]"
    using assms(2) by (auto simp: element_def split_on_none)
  let ?cs = "clean_comps (has_prefix d ''/'') [] (split_on CHR ''/'' d)"
  have "has_prefix (d @ CHR ''/'' # name) ''/'' = has_prefix d ''/''"
    using assms(1) by (cases d) (simp_all add: has_prefix_def)
  moreover have "clean_comps (has_prefix d ''/'') [] (split_on CHR ''/'' (d @ CHR ''/'' # name)) = ?cs @ [name]"
    by (simp add: split_on_sep n(2) clean_comps_snoc [OF assms(2)])
  moreover have c: "c \<noteq> [] \<and> c \<noteq> ''.'' \<and> CHR ''/'' \<notin> set c" if "c \<in> set ?cs" for c
    using clean_comps_names [OF that] split_on_pieces by auto
  ultimately show ?thesis
    using n(1) join_dot [of ?cs]
    by (cases "?cs = []") (auto simp: path_clean_def Let_def child_def join_snoc)
qed

lemma path_clean_not_Nil: "path_clean p \<noteq> []"
  by (simp add: path_clean_def Let_def)

lemma path_dir_not_Nil: "path_dir p \<noteq> []"
  by (simp add: path_dir_def path_clean_not_Nil)

lemma path_join_child:
  assumes "d \<noteq> []" "element name"
  shows "path_join [d, name] = child (path_clean d) name"
  using path_clean_child [OF assms] assms by (simp add: path_join_def element_def)

lemma path_join_child2:
  assumes "d \<noteq> []" "element sub" "element name"
  shows "path_join [d, sub, name] = child (child (path_clean d) sub) name"
proof -
  have "path_join [d, sub, name] = path_clean ((d @ CHR ''/'' # sub) @ CHR ''/'' # name)"
    using assms by (auto simp: path_join_def element_def)
  also have "\<dots> = child (child (path_clean d) sub) name"
    using assms by (simp only: path_clean_child append_is_Nil_conv simp_thms)
  finally show ?thesis .
qed

lemma path_join_child3:
  assumes "d \<noteq> []" "element sub" "element sub2" "element name"
  shows "path_join [d, sub, sub2, name] = child (child (child (path_clean d) sub) sub2) name"
proof -
  have "path_join [d, sub, sub2, name]
      = path_clean (((d @ CHR ''/'' # sub) @ CHR ''/'' # sub2) @ CHR ''/'' # name)"
    using assms by (auto simp: path_join_def element_def)
  also have "\<dots> = child (child (child (path_clean d) sub) sub2) name"
    using assms by (simp only: path_clean_child append_is_Nil_conv simp_thms)
  finally show ?thesis .
qed

lemma agent_file_element:
  assumes "validWorkflowAgentID i" "suffix \<in> {''.jsonl'', ''.meta.json''}"
  shows "element (''agent-'' @ i @ suffix)"
  using assms
  by (auto simp: validWorkflowAgentID_def element_def list_all_iff ascii_lower_def is_digit_def)

lemma run_id_element: "validWorkflowRunID i \<Longrightarrow> element i \<and> element (i @ ''.json'')"
  by (auto simp: validWorkflowRunID_def element_def contains_any_def list_ex_iff append_eq_Cons_conv)

text \<open>
  C33: No id an agent or a run carries can lead a reader out of the run's directory: an accepted agent
  id names a file directly inside the transcript directory, every other id is refused before any
  path is built, and the manifest is a file directly inside a directory derived from the launch, so
  is a transcript directory that is derived from the script path.
\<close>

theorem workflow_files_stay_inside:
  assumes "suffix \<in> {''.jsonl'', ''.meta.json''}"
  shows "(agentFilePath goq l i suffix = Inr p \<longrightarrow>
      element (''agent-'' @ i @ suffix) \<and> p = child (path_clean (transcriptDir l)) (''agent-'' @ i @ suffix))
    \<and> (\<not> validWorkflowAgentID i \<longrightarrow>
      agentFilePath goq l i suffix = Inl (EWrap [] ErrInvalidAgentID ('': '' @ goq i)))
    \<and> (ManifestPath (Some w) \<noteq> [] \<longrightarrow>
      element (wl_RunID w @ ''.json'')
      \<and> ManifestPath (Some w) =
          child (if wl_ScriptPath w \<noteq> [] then path_clean (path_dir (path_dir (wl_ScriptPath w)))
                 else child (path_clean (path_dir (path_dir (path_dir (wl_TranscriptDir w))))) ''workflows'')
            (wl_RunID w @ ''.json''))
    \<and> (wl_TranscriptDir w = [] \<and> transcriptDir (Some w) \<noteq> [] \<longrightarrow>
      element (wl_RunID w)
      \<and> transcriptDir (Some w) =
          child (child (child (path_clean (path_dir (path_dir (path_dir (wl_ScriptPath w))))) ''subagents'')
            ''workflows'') (wl_RunID w))"
proof -
  have e: "element ''workflows''" "element ''subagents''" by (simp_all add: element_def)
  show ?thesis
    using agent_file_element [OF _ assms] run_id_element e
    by (auto simp: agentFilePath_def ManifestPath_def transcriptDir_def path_dir_not_Nil
        path_join_child path_join_child2 path_join_child3 split: if_splits)
qed

theorem workflow_files_stay_inside_witness:
  "''/t/agent-a1.jsonl'' = child (path_clean (transcriptDir (Some sample_launch))) ''agent-a1.jsonl''"
  using workflow_files_stay_inside [of "''.jsonl''" id "Some sample_launch" "''a1''" "''/t/agent-a1.jsonl''"]
    sample_launch_paths(2) by (simp add: AgentTranscriptPath_def)

end
