(* ===== verification/Workflow_Watch.thy ===== *)
theory Workflow_Watch
  imports Workflow_Files Parse
begin

text \<open>
  WatchWorkflow of workflow.go: its polling loop ends with the manifest of a run that ended.
\<close>

text \<open>What a poll reads when the run has ended.\<close>

definition run_ended :: "go_error + string \<Rightarrow> bool" where
  "run_ended file =
     (case file of Inl _ \<Rightarrow> False
      | Inr data \<Rightarrow> (case parseWorkflowSnapshot data of Inl _ \<Rightarrow> False | Inr s \<Rightarrow> IsTerminal s))"

text \<open>The bytes remembered between polls: those of no ended run.\<close>

definition going_on :: "string \<Rightarrow> bool" where
  "going_on prev \<longleftrightarrow> \<not> run_ended (Inr prev)"

lemma snapshot_raw: "parseWorkflowSnapshot data = Inr s \<Longrightarrow> ws_Raw s = data"
  by (auto simp: parseWorkflowSnapshot_def split: prod.splits if_splits)

lemma poll_keeps_going:
  assumes "watch_poll file ctxDone prev = (prev', snap, False)" "going_on prev"
  shows "going_on prev' \<and> (snap = None \<longrightarrow> prev' = prev)
    \<and> (\<forall>s. snap = Some s \<longrightarrow> ws_Raw s = prev' \<and> prev' \<noteq> prev \<and> \<not> IsTerminal s)"
  using assms snapshot_raw
  by (auto simp: watch_poll_def going_on_def run_ended_def split: sum.splits if_splits)

lemma poll_stops:
  assumes "watch_poll file ctxDone prev = (prev', snap, True)"
  shows "(snap = None \<and> ctxDone) \<or> (\<exists>s. snap = Some s \<and> IsTerminal s \<and> ws_Raw s \<noteq> prev)"
  using assms snapshot_raw by (auto simp: watch_poll_def split: sum.splits if_splits)

lemma poll_of_ended_run:
  assumes "run_ended file" "going_on prev"
  shows "snd (snd (watch_poll file ctxDone prev))"
  using assms by (auto simp: watch_poll_def going_on_def run_ended_def split: sum.splits)

lemma watch_until_end:
  assumes "run_ended (fst t)" "going_on prev"
  shows "watch_loop (pre @ t # post) prev = watch_loop (pre @ [t]) prev
    \<and> distinct_adj (prev # map ws_Raw (watch_loop (pre @ [t]) prev))
    \<and> (\<forall>s \<in> set (butlast (watch_loop (pre @ [t]) prev)). \<not> IsTerminal s)
    \<and> ((\<forall>u \<in> set (pre @ [t]). \<not> snd u) \<longrightarrow>
         watch_loop (pre @ [t]) prev \<noteq> [] \<and> IsTerminal (last (watch_loop (pre @ [t]) prev)))"
  using assms(2)
proof (induction pre arbitrary: prev)
  case Nil
  obtain f cd where t: "t = (f, cd)" by (cases t)
  obtain prev' snap stop where w: "watch_poll f cd prev = (prev', snap, stop)" by (metis prod_cases3)
  with poll_of_ended_run [of f prev cd] assms(1) Nil t have stop by simp
  with w poll_stops [of f cd prev] show ?case unfolding t by auto
next
  case (Cons u pre)
  obtain f cd where u: "u = (f, cd)" by (cases u)
  obtain prev' snap stop where w: "watch_poll f cd prev = (prev', snap, stop)" by (metis prod_cases3)
  show ?case
  proof (cases stop)
    case True
    with w poll_stops [of f cd prev] show ?thesis unfolding u by auto
  next
    case False
    with w have k: "going_on prev' \<and> (snap = None \<longrightarrow> prev' = prev)
        \<and> (\<forall>s. snap = Some s \<longrightarrow> ws_Raw s = prev' \<and> prev' \<noteq> prev \<and> \<not> IsTerminal s)"
      using poll_keeps_going [of f cd prev prev' snap] Cons.prems by simp
    with Cons.IH [of prev'] w False show ?thesis
      unfolding u by (cases snap) auto
  qed
qed

text \<open>
  C40: Watching a workflow ends: whatever the polls before it read, the first poll that reads the
  manifest of a run that ended is the last one, so that nothing after it changes what was sent; each
  snapshot that was sent differs from the one before it, none but the last is of an ended run, and,
  unless the context ended first, the last one is.
\<close>

theorem watching_ends:
  assumes "run_ended (fst t)" "ManifestPath launch \<noteq> []"
  shows "\<exists>snaps. (\<forall>post. WatchWorkflow launch (pre @ t # post) = Inr snaps)
    \<and> distinct_adj (map ws_Raw snaps) \<and> (\<forall>s \<in> set (butlast snaps). \<not> IsTerminal s)
    \<and> ((\<forall>u \<in> set (pre @ [t]). \<not> snd u) \<longrightarrow> snaps \<noteq> [] \<and> IsTerminal (last snaps))"
proof -
  have "parseWorkflowSnapshot [] = Inl (EWrap ''parse workflow manifest: '' json_error [])"
    by (simp add: parseWorkflowSnapshot_def unmarshal_def unmarshal_raw_def parse_json_def parse_fuel_def)
  then have g: "going_on []" by (simp add: going_on_def run_ended_def)
  from watch_until_end [OF assms(1) g] assms(2) show ?thesis
    by (intro exI [of _ "watch_loop (pre @ [t]) []"]) (auto simp: WatchWorkflow_def dest: distinct_adj_ConsD)
qed

definition ended_manifest :: string where
  "ended_manifest = CHR ''{'' # quote_json ''status'' @ CHR '':'' # quote_json ''completed'' @ ''}''"

lemma ended_manifest_ends: "run_ended (Inr ended_manifest)"
proof -
  let ?j = "JObj ended_manifest [(''status'', JStr (quote_json ''completed'') ''completed'')]"
  have p: "parse_json ended_manifest = Some ?j" by code_simp
  have "d_WorkflowSnapshot ?j zero_WorkflowSnapshot
      = (zero_WorkflowSnapshot\<lparr>ws_Status := ''completed''\<rparr>, True)"
    unfolding d_WorkflowSnapshot_def d_struct_def json.case
    by (simp add: fld_skip)
       (simp add: fld_def get_field_def d_str_def upper_char_def ascii_lower_def)
  then show ?thesis
    by (simp add: run_ended_def parseWorkflowSnapshot_def unmarshal_def unmarshal_raw_def p
        IsTerminal_def workflowStatusTerminal_def)
qed

definition watched_launch :: WorkflowLaunch where
  "watched_launch = zero_WorkflowLaunch\<lparr>wl_TranscriptDir := ''/r/subagents/workflows/wf_1'', wl_RunID := ''wf_1''\<rparr>"

theorem watching_ends_witness:
  "\<exists>snaps. WatchWorkflow (Some watched_launch) [(Inl (ENew ''absent''), False), (Inr ended_manifest, False), (Inr [], True)]
      = Inr snaps \<and> snaps \<noteq> []"
proof -
  have "ManifestPath (Some watched_launch) \<noteq> []" by code_simp
  with watching_ends [of "(Inr ended_manifest, False)" "Some watched_launch" "[(Inl (ENew ''absent''), False)]"]
    ended_manifest_ends
  show ?thesis by auto
qed

end
