(* ===== verification/Install.thy ===== *)
theory Install
  imports Json_Codec Environment
begin

text \<open>
  install.go, pathentries.go and autoupdate.go: how the CLI that runs was installed, by which command
  it is updated, which other copies stand on PATH, and whether it updates itself. The file system, the
  search along PATH and the version probe are an argument, as they are in the code.
\<close>

section \<open>Strings and paths\<close>

fun take_word :: "string \<Rightarrow> string" where
  "take_word [] = []"
| "take_word (c # cs) = (if space_prefix space_seqs (c # cs) \<noteq> 0 then [] else c # take_word cs)"

text \<open>The first of \<^verbatim>\<open>strings.Fields\<close>; nothing when there is none.\<close>

definition first_field :: "string \<Rightarrow> string" where
  "first_field s = take_word (trim_left_space s)"

definition equal_fold :: "string \<Rightarrow> string \<Rightarrow> bool" where
  "equal_fold s t \<longleftrightarrow> fold_name s = fold_name t"

text \<open>\<^verbatim>\<open>filepath.Base\<close> and \<^verbatim>\<open>path.Ext\<close>.\<close>

definition base_of :: "string \<Rightarrow> string" where
  "base_of p =
     (if p = [] then ''.''
      else let q = rev (dropWhile (\<lambda>c. c = CHR ''/'') (rev p));
               b = rev (takeWhile (\<lambda>c. c \<noteq> CHR ''/'') (rev q)) in
           if b = [] then ''/'' else b)"

definition ext_of :: "string \<Rightarrow> string" where
  "ext_of p =
     (let b = rev (takeWhile (\<lambda>c. c \<noteq> CHR ''/'') (rev p)) in
      if CHR ''.'' \<in> set b then CHR ''.'' # rev (takeWhile (\<lambda>c. c \<noteq> CHR ''.'') (rev b)) else [])"

text \<open>\<^verbatim>\<open>filepath.SplitList\<close>.\<close>

definition SplitList :: "string \<Rightarrow> string list" where
  "SplitList p = (if p = [] then [] else split_on CHR '':'' p)"

section \<open>The environment of a detection\<close>

record installEnv =
  ie_lookPath :: "string \<Rightarrow> go_error + string"
  ie_evalSymlink :: "string \<Rightarrow> go_error + string"
  ie_readFile :: "string \<Rightarrow> go_error + string"
  ie_readHeader :: "string \<Rightarrow> go_error + string"
  ie_runVersion :: "string \<Rightarrow> go_error + string"
  ie_pathDirs :: "string list option"
  ie_getenv :: "string \<Rightarrow> string"
  ie_configDir :: string
  ie_configFile :: string
  ie_dataDir :: string

definition xdgDataDir :: "string list \<Rightarrow> cliEnv \<Rightarrow> string" where
  "xdgDataDir environ e =
     (let d = cliEnv_getenv environ e ''XDG_DATA_HOME'' in
      if d \<noteq> [] then d
      else case userHomeDir False environ e of
        Inl _ \<Rightarrow> []
      | Inr home \<Rightarrow> path_join [home, ''.local'', ''share''])"

definition claudeConfigPaths :: "string list \<Rightarrow> cliEnv \<Rightarrow> string \<times> string" where
  "claudeConfigPaths environ e =
     (let d = cliEnv_getenv environ e ''CLAUDE_CONFIG_DIR'' in
      if d \<noteq> [] then (d, path_join [d, ''.claude.json''])
      else case userHomeDir False environ e of
        Inl _ \<Rightarrow> ([], [])
      | Inr home \<Rightarrow> (path_join [home, ''.claude''], path_join [home, ''.claude.json'']))"

definition osPathDirs :: "string list \<Rightarrow> string list" where
  "osPathDirs environ =
     map (\<lambda>d. if d = [] then ''.'' else d)
       (SplitList (case LookupEnv environ ''PATH'' of Some v \<Rightarrow> v | None \<Rightarrow> []))"

definition parseVersionOutput :: "string \<Rightarrow> string" where
  "parseVersionOutput out =
     (let v = trim_prefix (first_field out) ''v'' in
      if v = [] \<or> \<not> is_digit (hd v) then [] else v)"

text \<open>What the process gives: the search for binaries, the files, and \<^verbatim>\<open>claude -v\<close> run with the
  variables given (\<open>None\<close> inherits).\<close>

record host =
  ho_lookPath :: "string \<Rightarrow> go_error + string"
  ho_evalSymlink :: "string \<Rightarrow> go_error + string"
  ho_readSmallFile :: "string \<Rightarrow> go_error + string"
  ho_readFileHeader :: "string \<Rightarrow> go_error + string"
  ho_versionOutput :: "string list option \<Rightarrow> string \<Rightarrow> go_error + string"
  ho_environ :: "string list"

definition newInstallEnv :: "host \<Rightarrow> cliEnv \<Rightarrow> installEnv" where
  "newInstallEnv h e =
     \<lparr>ie_lookPath = ho_lookPath h,
      ie_evalSymlink = ho_evalSymlink h,
      ie_readFile = ho_readSmallFile h,
      ie_readHeader = ho_readFileHeader h,
      ie_runVersion =
        (\<lambda>b. case ho_versionOutput h (cmdEnv (ho_environ h) e) b of
               Inl err \<Rightarrow> Inl err
             | Inr out \<Rightarrow> Inr (parseVersionOutput out)),
      ie_pathDirs = Some (osPathDirs (ho_environ h)),
      ie_getenv = cliEnv_getenv (ho_environ h) e,
      ie_configDir = fst (claudeConfigPaths (ho_environ h) e),
      ie_configFile = snd (claudeConfigPaths (ho_environ h) e),
      ie_dataDir = xdgDataDir (ho_environ h) e\<rparr>"

section \<open>Classification\<close>

definition CLIPackageName :: string where
  "CLIPackageName = ''@anthropic-ai/claude-code''"

datatype InstallMethod =
    InstallNPMGlobal | InstallNPMLocal | InstallVersionManager | InstallPackageManager
  | InstallNative | InstallUnknown

fun method_text :: "InstallMethod \<Rightarrow> string" where
  "method_text InstallNPMGlobal = ''npm-global''"
| "method_text InstallNPMLocal = ''npm-local''"
| "method_text InstallVersionManager = ''version-manager''"
| "method_text InstallPackageManager = ''package-manager''"
| "method_text InstallNative = ''native''"
| "method_text InstallUnknown = ''unknown''"

datatype InstallSource =
  InstallSourcePackageMetadata | InstallSourcePathLayout | InstallSourceConfig | InstallSourceNone

record classification =
  cl_method :: InstallMethod
  cl_versionManager :: string
  cl_packageManager :: string
  cl_packageName :: string
  cl_source :: InstallSource

definition normalizeInstallPath :: "string \<Rightarrow> string" where
  "normalizeInstallPath p = replace_char CHR 0x5C ''/'' p"

definition isNPMLocal :: "string \<Rightarrow> string \<Rightarrow> bool" where
  "isNPMLocal p configDir \<longleftrightarrow>
     contains p ''/.claude/local/''
     \<or> configDir \<noteq> []
       \<and> has_prefix p (trim_suffix (normalizeInstallPath configDir) ''/'' @ ''/local/'')"

definition d_package_name :: "string dec" where
  [json_eval]: "d_package_name = d_struct [fld ''name'' d_str (\<lambda>s. s) (\<lambda>f s. f s)]"

definition isCLIPackageJSON :: "string \<Rightarrow> installEnv \<Rightarrow> bool" where
  "isCLIPackageJSON file env =
     (case ie_readFile env file of
        Inl _ \<Rightarrow> False
      | Inr b \<Rightarrow> (case unmarshal d_package_name b [] of (name, ok) \<Rightarrow> ok \<and> name = CLIPackageName))"

definition isWindowsShim :: "string \<Rightarrow> bool" where
  "isWindowsShim p \<longleftrightarrow> to_lower (ext_of p) \<in> {''.cmd'', ''.bat'', ''.ps1''}"

text \<open>The walk up from the binary, at most six directories.\<close>

fun package_above :: "nat \<Rightarrow> string \<Rightarrow> installEnv \<Rightarrow> bool" where
  "package_above 0 dir env = False"
| "package_above (Suc n) dir env =
     (if isCLIPackageJSON (path_join [dir, ''package.json'']) env then True
      else if path_dir dir = dir then False
      else package_above n (path_dir dir) env)"

definition npmEvidence :: "string \<Rightarrow> installEnv \<Rightarrow> InstallSource option" where
  "npmEvidence p env =
     (if package_above 6 (path_dir p) env then Some InstallSourcePackageMetadata
      else if isWindowsShim p then
        (if list_ex (\<lambda>rel. isCLIPackageJSON (path_join [path_dir p, rel]) env)
              [path_join [''node_modules'', CLIPackageName, ''package.json''],
               path_join [''..'', ''lib'', ''node_modules'', CLIPackageName, ''package.json'']]
         then Some InstallSourcePackageMetadata else None)
      else if contains p (''/node_modules/'' @ CLIPackageName @ ''/'')
              \<or> contains p ''/node_modules/@anthropic-ai/''
      then Some InstallSourcePathLayout else None)"

definition versionManagerSegments :: "(string \<times> string) list" where
  "versionManagerSegments =
     [(''.nvm'', ''nvm''), (''nvm'', ''nvm''), (''.fnm'', ''fnm''), (''fnm'', ''fnm''),
      (''.volta'', ''volta''), (''volta'', ''volta''), (''.asdf'', ''asdf''), (''asdf'', ''asdf''),
      (''.mise'', ''mise''), (''mise'', ''mise'')]"

fun detectVersionManager :: "string list \<Rightarrow> string" where
  "detectVersionManager [] = []"
| "detectVersionManager (s # ss) =
     (case map_of versionManagerSegments s of Some name \<Rightarrow> name | None \<Rightarrow> detectVersionManager ss)"

fun homebrew_cask :: "string list \<Rightarrow> string option" where
  "homebrew_cask [] = None"
| "homebrew_cask (s # ss) =
     (if equal_fold s ''Caskroom'' then
        Some (case ss of [] \<Rightarrow> ''claude-code'' | c # _ \<Rightarrow> if c \<noteq> [] then c else ''claude-code'')
      else homebrew_cask ss)"

definition detectOSPackageManager :: "string \<Rightarrow> string list \<Rightarrow> (string \<times> string) option" where
  "detectOSPackageManager p segs =
     (case homebrew_cask segs of
        Some cask \<Rightarrow> Some (''homebrew'', cask)
      | None \<Rightarrow>
          (let lower = to_lower p in
           if contains lower ''/microsoft/winget/packages/'' \<or> contains lower ''/microsoft/winget/links/''
           then Some (''winget'', ''Anthropic.ClaudeCode'')
           else map_option (\<lambda>m. (m, ''claude''))
             (find (\<lambda>m. contains lower (''/'' @ m @ ''/installs/'') \<or> contains lower (''/.'' @ m @ ''/installs/''))
               [''mise'', ''asdf''])))"

fun isNativeVersionsLayout :: "string list \<Rightarrow> bool" where
  "isNativeVersionsLayout (a # b # ss) =
     (if a = ''claude'' \<and> b = ''versions'' then True else isNativeVersionsLayout (b # ss))"
| "isNativeVersionsLayout _ = False"

definition executable_magic :: "string list" where
  "executable_magic =
     [CHR 0x7F # ''ELF'',
      [CHR 0xCF, CHR 0xFA, CHR 0xED, CHR 0xFE],
      [CHR 0xCE, CHR 0xFA, CHR 0xED, CHR 0xFE],
      [CHR 0xCA, CHR 0xFE, CHR 0xBA, CHR 0xBE],
      [CHR 0xBE, CHR 0xBA, CHR 0xFE, CHR 0xCA],
      ''MZ'']"

definition isNativeExecutable :: "string \<Rightarrow> installEnv \<Rightarrow> bool" where
  "isNativeExecutable p env =
     (case ie_readHeader env p of
        Inl _ \<Rightarrow> False
      | Inr hdr \<Rightarrow> list_ex (has_prefix hdr) executable_magic)"

definition classifyInstall :: "string \<Rightarrow> installEnv \<Rightarrow> classification" where
  "classifyInstall realPath env =
     (let p = normalizeInstallPath realPath;
          segs = split_on CHR ''/'' p;
          vm = detectVersionManager segs in
      if isNPMLocal p (ie_configDir env) then
        \<lparr>cl_method = InstallNPMLocal, cl_versionManager = vm, cl_packageManager = [],
         cl_packageName = [], cl_source = InstallSourcePathLayout\<rparr>
      else case npmEvidence p env of
        Some src \<Rightarrow>
          \<lparr>cl_method = InstallNPMGlobal, cl_versionManager = vm, cl_packageManager = [],
           cl_packageName = [], cl_source = src\<rparr>
      | None \<Rightarrow>
          (case detectOSPackageManager p segs of
             Some (pm, name) \<Rightarrow>
               \<lparr>cl_method = InstallPackageManager, cl_versionManager = vm, cl_packageManager = pm,
                cl_packageName = name, cl_source = InstallSourcePathLayout\<rparr>
           | None \<Rightarrow>
               if vm \<noteq> [] then
                 \<lparr>cl_method = InstallVersionManager, cl_versionManager = vm, cl_packageManager = [],
                  cl_packageName = [], cl_source = InstallSourcePathLayout\<rparr>
               else if isNativeVersionsLayout segs \<or> isNativeExecutable p env then
                 \<lparr>cl_method = InstallNative, cl_versionManager = [], cl_packageManager = [],
                  cl_packageName = [], cl_source = InstallSourcePathLayout\<rparr>
               else
                 \<lparr>cl_method = InstallUnknown, cl_versionManager = vm, cl_packageManager = [],
                  cl_packageName = [], cl_source = InstallSourceNone\<rparr>))"

section \<open>The CLI's config file\<close>

record claudeConfig =
  cc_InstallMethod :: string
  cc_AutoUpdates :: "bool option"

definition d_claudeConfig :: "claudeConfig dec" where
  [json_eval]: "d_claudeConfig =
     d_struct
       [fld ''installMethod'' d_str cc_InstallMethod cc_InstallMethod_update,
        fld ''autoUpdates'' (d_ptr d_bool False) cc_AutoUpdates cc_AutoUpdates_update]"

definition zero_claudeConfig :: claudeConfig where
  [json_eval]: "zero_claudeConfig = \<lparr>cc_InstallMethod = [], cc_AutoUpdates = None\<rparr>"

definition readClaudeConfig :: "installEnv \<Rightarrow> claudeConfig" where
  "readClaudeConfig env =
     (if ie_configFile env = [] then zero_claudeConfig
      else case ie_readFile env (ie_configFile env) of
        Inl _ \<Rightarrow> zero_claudeConfig
      | Inr b \<Rightarrow>
          (case unmarshal d_claudeConfig b zero_claudeConfig of
             (cfg, ok) \<Rightarrow> if ok then cfg else zero_claudeConfig))"

definition methodFromConfig :: "string \<Rightarrow> InstallMethod" where
  "methodFromConfig v =
     (if v = ''native'' then InstallNative
      else if v = ''global'' then InstallNPMGlobal
      else if v = ''local'' then InstallNPMLocal
      else InstallUnknown)"

definition configMethodComparable :: "InstallMethod \<Rightarrow> bool" where
  "configMethodComparable m \<longleftrightarrow> m \<in> {InstallNative, InstallNPMGlobal, InstallNPMLocal}"

definition updateCommand :: "InstallMethod \<Rightarrow> string \<Rightarrow> string \<Rightarrow> string" where
  "updateCommand m packageManager packageName =
     (case m of
        InstallNative \<Rightarrow> ''claude update''
      | InstallNPMLocal \<Rightarrow> ''claude update''
      | InstallNPMGlobal \<Rightarrow> ''npm install -g '' @ CLIPackageName @ ''@latest''
      | InstallPackageManager \<Rightarrow>
          if packageManager = ''homebrew'' then
            ''brew upgrade '' @ (if packageName = [] then ''claude-code'' else packageName)
          else if packageManager = ''winget'' then ''winget upgrade Anthropic.ClaudeCode''
          else if packageManager = ''mise'' then ''mise upgrade claude''
          else []
      | _ \<Rightarrow> [])"

section \<open>The background updater\<close>

definition ChannelLatest :: string where
  "ChannelLatest = ''latest''"

definition ChannelStable :: string where
  "ChannelStable = ''stable''"

definition ChannelRC :: string where
  "ChannelRC = ''rc''"

definition validChannel :: "string \<Rightarrow> bool" where
  "validChannel c \<longleftrightarrow> c = ChannelLatest \<or> c = ChannelStable \<or> c = ChannelRC"

record UpdateAttempt =
  ua_Time :: "nanos option"
  ua_Outcome :: string
  ua_From :: string
  ua_To :: string
  ua_ErrorCode :: string
  ua_InstallPath :: string

definition Succeeded :: "UpdateAttempt option \<Rightarrow> bool" where
  "Succeeded p = (case p of None \<Rightarrow> False | Some a \<Rightarrow> ua_Outcome a = ''success'')"

record AutoUpdateState =
  au_Enabled :: bool
  au_DisabledBy :: string
  au_Channel :: string
  au_ChannelSource :: string
  au_LastAttempt :: "UpdateAttempt option"

record InstallPathEntry =
  ip_Path :: string
  ip_RealPath :: string
  ip_Method :: InstallMethod
  ip_Active :: bool

record InstallInfo =
  ii_Path :: string
  ii_RealPath :: string
  ii_Version :: string
  ii_Method :: InstallMethod
  ii_UpdateCmd :: string
  ii_VersionManager :: string
  ii_PackageManager :: string
  ii_PackageName :: string
  ii_ConfigMethod :: string
  ii_ConfigMismatch :: bool
  ii_PathEntries :: "InstallPathEntry list"
  ii_Source :: InstallSource
  ii_AutoUpdate :: "AutoUpdateState option"

definition d_settings_channel :: "string dec" where
  [json_eval]: "d_settings_channel = d_struct [fld ''autoUpdatesChannel'' d_str (\<lambda>s. s) (\<lambda>f s. f s)]"

definition readSettingsChannel :: "installEnv \<Rightarrow> string" where
  "readSettingsChannel env =
     (if ie_configDir env = [] then []
      else case ie_readFile env (path_join [ie_configDir env, ''settings.json'']) of
        Inl _ \<Rightarrow> []
      | Inr b \<Rightarrow> (case unmarshal d_settings_channel b [] of (c, ok) \<Rightarrow> if ok then trim_space c else []))"

definition resolveChannel :: "installEnv \<Rightarrow> InstallInfo \<Rightarrow> string \<times> string" where
  "resolveChannel env info =
     (if ii_PackageManager info = ''homebrew'' \<and> ii_PackageName info = ''claude-code''
      then (ChannelStable, ''homebrew-cask'')
      else if ii_PackageManager info = ''homebrew'' \<and> ii_PackageName info = ''claude-code@latest''
      then (ChannelLatest, ''homebrew-cask'')
      else let c = readSettingsChannel env in
           if c = [] then (ChannelLatest, ''default'')
           else if validChannel c then (c, ''settings'')
           else ([], ''unknown''))"

record update_record =
  ur_Timestamp :: string
  ur_Path :: string
  ur_Outcome :: string
  ur_VersionFrom :: string
  ur_VersionTo :: string
  ur_ErrorCode :: string

definition d_update_record :: "update_record dec" where
  [json_eval]: "d_update_record =
     d_struct
       [fld ''timestamp'' d_str ur_Timestamp ur_Timestamp_update,
        fld ''path'' d_str ur_Path ur_Path_update,
        fld ''outcome'' d_str ur_Outcome ur_Outcome_update,
        fld ''version_from'' d_str ur_VersionFrom ur_VersionFrom_update,
        fld ''version_to'' d_str ur_VersionTo ur_VersionTo_update,
        fld ''error_code'' d_str ur_ErrorCode ur_ErrorCode_update]"

definition zero_update_record :: update_record where
  [json_eval]: "zero_update_record =
     \<lparr>ur_Timestamp = [], ur_Path = [], ur_Outcome = [], ur_VersionFrom = [], ur_VersionTo = [],
      ur_ErrorCode = []\<rparr>"

text \<open>\<open>rfc3339\<close> is \<^verbatim>\<open>time.Parse\<close> of that layout; nothing stands for an error and for the zero time.\<close>

definition readLastUpdateAttempt :: "(string \<Rightarrow> nanos option) \<Rightarrow> installEnv \<Rightarrow> UpdateAttempt option" where
  "readLastUpdateAttempt rfc3339 env =
     (if ie_configDir env = [] then None
      else case ie_readFile env (path_join [ie_configDir env, ''.last-update-result.json'']) of
        Inl _ \<Rightarrow> None
      | Inr b \<Rightarrow>
          (case unmarshal d_update_record b zero_update_record of
             (r, ok) \<Rightarrow>
               if \<not> ok \<or> (ur_Outcome r = [] \<and> ur_Timestamp r = []) then None
               else Some \<lparr>ua_Time = rfc3339 (ur_Timestamp r), ua_Outcome = ur_Outcome r,
                          ua_From = ur_VersionFrom r, ua_To = ur_VersionTo r,
                          ua_ErrorCode = ur_ErrorCode r, ua_InstallPath = ur_Path r\<rparr>))"

definition updates_disabled_by :: "installEnv \<Rightarrow> InstallInfo \<Rightarrow> claudeConfig \<Rightarrow> string" where
  "updates_disabled_by env info cfg =
     (if ii_Method info = InstallPackageManager then ''package-manager''
      else if ie_getenv env ''DISABLE_UPDATES'' \<noteq> [] then ''DISABLE_UPDATES''
      else if ie_getenv env ''DISABLE_AUTOUPDATER'' \<noteq> [] then ''DISABLE_AUTOUPDATER''
      else if cc_AutoUpdates cfg = Some False then ''config''
      else [])"

definition readAutoUpdateState ::
    "(string \<Rightarrow> nanos option) \<Rightarrow> installEnv \<Rightarrow> InstallInfo \<Rightarrow> claudeConfig \<Rightarrow> AutoUpdateState" where
  "readAutoUpdateState rfc3339 env info cfg =
     (let by = updates_disabled_by env info cfg in
      \<lparr>au_Enabled = (by = []), au_DisabledBy = by,
       au_Channel = fst (resolveChannel env info), au_ChannelSource = snd (resolveChannel env info),
       au_LastAttempt = readLastUpdateAttempt rfc3339 env\<rparr>)"

section \<open>The copies on PATH\<close>

text \<open>A path with its symlinks resolved, or as it is when that fails.\<close>

definition real_path :: "installEnv \<Rightarrow> string \<Rightarrow> string" where
  "real_path env found =
     (case ie_evalSymlink env found of Inl _ \<Rightarrow> found | Inr r \<Rightarrow> if r \<noteq> [] then r else found)"

text \<open>The entry of a copy, unless its real path was seen before.\<close>

definition entry_for ::
    "installEnv \<Rightarrow> string \<Rightarrow> string \<Rightarrow> string list \<Rightarrow> InstallPathEntry option \<times> string list" where
  "entry_for env activeReal found seen =
     (let real = real_path env found in
      if real \<in> set seen then (None, seen)
      else (Some \<lparr>ip_Path = found, ip_RealPath = real,
                  ip_Method = cl_method (classifyInstall real env), ip_Active = (real = activeReal)\<rparr>,
            real # seen))"

fun walk_path ::
    "installEnv \<Rightarrow> string \<Rightarrow> string \<Rightarrow> string list \<Rightarrow> string list \<Rightarrow> InstallPathEntry list \<times> string list" where
  "walk_path env activeReal name [] seen = ([], seen)"
| "walk_path env activeReal name (dir # dirs) seen =
     (case ie_lookPath env (path_join [dir, name]) of
        Inl _ \<Rightarrow> walk_path env activeReal name dirs seen
      | Inr found \<Rightarrow>
          (case entry_for env activeReal found seen of
             (e, seen') \<Rightarrow>
               (case walk_path env activeReal name dirs seen' of
                  (es, seen'') \<Rightarrow> ((case e of None \<Rightarrow> [] | Some x \<Rightarrow> [x]) @ es, seen''))))"

definition hasActive :: "InstallPathEntry list \<Rightarrow> bool" where
  "hasActive es = list_ex ip_Active es"

definition findPathEntries :: "string \<Rightarrow> string \<Rightarrow> string \<Rightarrow> installEnv \<Rightarrow> InstallPathEntry list" where
  "findPathEntries binary active activeReal env =
     (case (case ie_pathDirs env of
              None \<Rightarrow> ([], [])
            | Some dirs \<Rightarrow> walk_path env activeReal (base_of binary) dirs []) of
        (entries, seen) \<Rightarrow>
          if hasActive entries then entries
          else (case entry_for env activeReal active seen of
                  (None, _) \<Rightarrow> entries
                | (Some e, _) \<Rightarrow> e\<lparr>ip_Active := True\<rparr> # entries))"

definition Shadowed :: "InstallInfo \<Rightarrow> InstallPathEntry list" where
  "Shadowed i = filter (\<lambda>e. \<not> ip_Active e) (ii_PathEntries i)"

section \<open>Detection\<close>

text \<open>The binary that was looked up, and the error of the search.\<close>

datatype CLINotFoundError = CLINotFound string go_error

definition cli_not_found_text :: "(string \<Rightarrow> string) \<Rightarrow> CLINotFoundError \<Rightarrow> string" where
  "cli_not_found_text goq e = (case e of CLINotFound b _ \<Rightarrow> ''claudecli: '' @ goq b @ '' not found on PATH'')"

definition with_config_method :: "InstallInfo \<Rightarrow> InstallInfo" where
  "with_config_method info =
     (let cm = methodFromConfig (ii_ConfigMethod info) in
      if cm = InstallUnknown then info
      else if ii_Method info = InstallUnknown then
        info\<lparr>ii_Method := cm, ii_Source := InstallSourceConfig\<rparr>
      else if ii_Method info \<noteq> cm \<and> configMethodComparable (ii_Method info) then
        info\<lparr>ii_ConfigMismatch := True\<rparr>
      else info)"

definition detectInstall ::
    "(string \<Rightarrow> nanos option) \<Rightarrow> string \<Rightarrow> installEnv \<Rightarrow> CLINotFoundError + InstallInfo" where
  "detectInstall rfc3339 binary0 env =
     (let binary = (if binary0 = [] then ''claude'' else binary0) in
      case ie_lookPath env binary of
        Inl e \<Rightarrow> Inl (CLINotFound binary e)
      | Inr found \<Rightarrow>
          (let real = real_path env found;
               cls = classifyInstall real env;
               cfg = readClaudeConfig env;
               info = with_config_method
                 \<lparr>ii_Path = found, ii_RealPath = real, ii_Version = [], ii_Method = cl_method cls,
                  ii_UpdateCmd = [], ii_VersionManager = cl_versionManager cls,
                  ii_PackageManager = cl_packageManager cls, ii_PackageName = cl_packageName cls,
                  ii_ConfigMethod = cc_InstallMethod cfg, ii_ConfigMismatch = False,
                  ii_PathEntries = [], ii_Source = cl_source cls, ii_AutoUpdate = None\<rparr> in
           Inr (info\<lparr>ii_UpdateCmd :=
                       updateCommand (ii_Method info) (ii_PackageManager info) (ii_PackageName info),
                     ii_AutoUpdate := Some (readAutoUpdateState rfc3339 env info cfg),
                     ii_PathEntries := findPathEntries binary found real env,
                     ii_Version := (case ie_runVersion env found of Inl _ \<Rightarrow> [] | Inr v \<Rightarrow> v)\<rparr>)))"

text \<open>The client: its local executor, or nothing for any other executor, and its default options.\<close>

record Client =
  cn_executor :: "LocalExecutor option"
  cn_defaults :: "option_fn list"

definition NewClient :: "(Client \<Rightarrow> Client) list \<Rightarrow> option_fn list \<Rightarrow> Client" where
  "NewClient clientOpts defaults =
     (let b = op_binaryPath (resolveOptions defaults []) in
      fold (\<lambda>f c. f c) clientOpts
        \<lparr>cn_executor =
           Some (if b \<noteq> [] then NewLocalExecutor\<lparr>lx_BinaryPath := b\<rparr> else NewLocalExecutor),
         cn_defaults = defaults\<rparr>)"

definition NewWithExecutor :: "LocalExecutor option \<Rightarrow> option_fn list \<Rightarrow> Client" where
  "NewWithExecutor executor defaults = \<lparr>cn_executor = executor, cn_defaults = defaults\<rparr>"

definition binaryPath :: "Client \<Rightarrow> string" where
  "binaryPath c =
     (case cn_executor c of
        Some le \<Rightarrow> if lx_BinaryPath le \<noteq> [] then lx_BinaryPath le else ''claude''
      | None \<Rightarrow> ''claude'')"

definition client_cliEnv :: "Client \<Rightarrow> cliEnv" where
  "client_cliEnv c = op_env (resolveOptions (cn_defaults c) [])"

definition DetectInstall ::
    "(string \<Rightarrow> nanos option) \<Rightarrow> host \<Rightarrow> Client \<Rightarrow> CLINotFoundError + InstallInfo" where
  "DetectInstall rfc3339 h c =
     detectInstall rfc3339 (binaryPath c) (newInstallEnv h (client_cliEnv c))"

section \<open>The copies, once each\<close>

definition path_entry :: "installEnv \<Rightarrow> string \<Rightarrow> string \<Rightarrow> InstallPathEntry" where
  "path_entry env activeReal found =
     \<lparr>ip_Path = found, ip_RealPath = real_path env found,
      ip_Method = cl_method (classifyInstall (real_path env found) env),
      ip_Active = (real_path env found = activeReal)\<rparr>"

text \<open>What the search finds in the directories, and the first of each copy.\<close>

definition found_on_path :: "installEnv \<Rightarrow> string \<Rightarrow> string list \<Rightarrow> string list" where
  "found_on_path env name dirs =
     concat (map (\<lambda>d. case ie_lookPath env (path_join [d, name]) of Inl _ \<Rightarrow> [] | Inr f \<Rightarrow> [f]) dirs)"

fun first_copies :: "('a \<Rightarrow> 'b) \<Rightarrow> 'a list \<Rightarrow> 'a list" where
  "first_copies f [] = []"
| "first_copies f (x # xs) = x # first_copies f (filter (\<lambda>y. f y \<noteq> f x) xs)"

lemma set_first_copies: "f ` set (first_copies f xs) = f ` set xs" "set (first_copies f xs) \<subseteq> set xs"
  by (induction f xs rule: first_copies.induct) auto

lemma distinct_first_copies: "distinct (map f (first_copies f xs))"
proof (induction f xs rule: first_copies.induct)
  case (2 f x xs)
  then show ?case using set_first_copies(2) [of f "filter (\<lambda>y. f y \<noteq> f x) xs"] by auto
qed simp

lemma found_on_path_simps [simp]:
  "found_on_path env name [] = []"
  "found_on_path env name (d # dirs)
     = (case ie_lookPath env (path_join [d, name]) of Inl _ \<Rightarrow> [] | Inr f \<Rightarrow> [f]) @ found_on_path env name dirs"
  by (simp_all add: found_on_path_def)

lemma entry_for_entry:
  "entry_for env ar f seen =
     (if real_path env f \<in> set seen then (None, seen)
      else (Some (path_entry env ar f), real_path env f # seen))"
  by (simp add: entry_for_def path_entry_def Let_def)

lemma walk_path_copies:
  "walk_path env ar name dirs seen =
     (map (path_entry env ar)
        (first_copies (real_path env) (filter (\<lambda>x. real_path env x \<notin> set seen) (found_on_path env name dirs))),
      snd (walk_path env ar name dirs seen))
   \<and> set (snd (walk_path env ar name dirs seen))
       = set seen \<union> real_path env ` set (found_on_path env name dirs)"
proof (induction dirs arbitrary: seen)
  case Nil
  then show ?case by simp
next
  case (Cons d dirs)
  show ?case
  proof (cases "ie_lookPath env (path_join [d, name])")
    case (Inl e)
    with Cons.IH [of seen] show ?thesis by simp
  next
    case (Inr f)
    let ?r = "real_path env f"
    show ?thesis
    proof (cases "?r \<in> set seen")
      case True
      with Inr Cons.IH [of seen] show ?thesis
        by (auto simp: entry_for_entry split: prod.splits)
    next
      case False
      have "filter (\<lambda>x. real_path env x \<notin> set (?r # seen)) xs
          = filter (\<lambda>y. real_path env y \<noteq> ?r) (filter (\<lambda>x. real_path env x \<notin> set seen) xs)" for xs
        by (induction xs) auto
      with False Inr Cons.IH [of "?r # seen"] show ?thesis
        by (auto simp: entry_for_entry split: prod.splits)
    qed
  qed
qed

lemma one_active:
  assumes "distinct (map ip_RealPath es)" "e \<in> set es" "\<forall>x \<in> set es. ip_Active x = (ip_RealPath x = r)"
    and "ip_RealPath e = r"
  shows "filter ip_Active es = [e]"
  using assms
proof (induction es)
  case (Cons x es)
  show ?case
  proof (cases "x = e")
    case True
    have "ip_RealPath y \<noteq> r" if "y \<in> set es" for y
      using that Cons.prems True by (metis distinct.simps(2) image_eqI list.set_map list.simps(9))
    with Cons.prems have "filter ip_Active es = []" by (simp add: filter_empty_conv)
    with True Cons.prems show ?thesis by simp
  next
    case False
    with Cons show ?thesis by (auto simp: image_iff)
  qed
qed simp

lemma findPathEntries_copies:
  fixes active binary :: string
  assumes "ie_pathDirs env = Some dirs"
  defines "copies \<equiv> map (path_entry env (real_path env active))
      (first_copies (real_path env) (found_on_path env (base_of binary) dirs))"
  shows "findPathEntries binary active (real_path env active) env
      = (if real_path env active \<in> set (map ip_RealPath copies) then copies
         else path_entry env (real_path env active) active # copies)"
proof -
  let ?ar = "real_path env active"
  obtain seen where w: "walk_path env ?ar (base_of binary) dirs [] = (copies, seen)"
    and seen: "set seen = real_path env ` set (found_on_path env (base_of binary) dirs)"
    using walk_path_copies [of env ?ar "base_of binary" dirs "[]"] by (auto simp: copies_def)
  have h: "hasActive copies \<longleftrightarrow> ?ar \<in> set (map ip_RealPath copies)"
    by (auto simp: hasActive_def list_ex_iff copies_def path_entry_def; metis image_eqI)
  have "set (map ip_RealPath copies) = set seen"
    using set_first_copies(1) [of "real_path env"]
    by (auto simp: copies_def path_entry_def seen image_image)
  then show ?thesis
    using assms(1) w h by (simp add: findPathEntries_def entry_for_def Let_def path_entry_def)
qed

text \<open>Three directories, two copies: the third name is a link to the first copy.\<close>

definition sample_install :: installEnv where
  "sample_install =
     \<lparr>ie_lookPath = (\<lambda>p. if p = ''claude'' then Inr ''/a/claude'' else Inr p),
      ie_evalSymlink = (\<lambda>p. if p = ''/b/claude'' then Inr ''/u/claude'' else Inr ''/v/claude''),
      ie_readFile = (\<lambda>_. Inl (ENew ''none'')), ie_readHeader = (\<lambda>_. Inl (ENew ''none'')),
      ie_runVersion = (\<lambda>_. Inr ''2.1.0''), ie_pathDirs = Some [''/a'', ''/b'', ''/c''],
      ie_getenv = (\<lambda>_. []), ie_configDir = [], ie_configFile = [], ie_dataDir = []\<rparr>"

lemma sample_install_found:
  "found_on_path sample_install (base_of ''claude'') [''/a'', ''/b'', ''/c'']
     = [''/a/claude'', ''/b/claude'', ''/c/claude'']"
  "first_copies (real_path sample_install) [''/a/claude'', ''/b/claude'', ''/c/claude'']
     = [''/a/claude'', ''/b/claude'']"
  by code_simp+

lemma sample_install_detected: "\<exists>info. detectInstall (\<lambda>_. None) [] sample_install = Inr info
    \<and> ii_RealPath info = ''/v/claude''"
  by (simp add: detectInstall_def Let_def sample_install_def real_path_def with_config_method_def)

text \<open>
  C34: Every copy of the CLI on PATH is reported exactly once, in the order of PATH and by the first
  name it is found under, with the copy that runs put in front when no directory of PATH leads to
  it; exactly one entry is active, and it is the copy that detection describes; the shadowed entries
  are all the others.
\<close>

theorem exactly_one_copy_runs:
  assumes "detectInstall rfc3339 binary env = Inr info" and "ie_pathDirs env = Some dirs"
  shows "(\<exists>e. filter ip_Active (ii_PathEntries info) = [e] \<and> ip_RealPath e = ii_RealPath info
            \<and> Shadowed info = filter (\<lambda>x. ip_RealPath x \<noteq> ii_RealPath info) (ii_PathEntries info))
    \<and> distinct (map ip_RealPath (ii_PathEntries info))
    \<and> (let copies = map (path_entry env (ii_RealPath info)) (first_copies (real_path env)
             (found_on_path env (base_of (if binary = [] then ''claude'' else binary)) dirs)) in
        ii_PathEntries info =
          (if ii_RealPath info \<in> set (map ip_RealPath copies) then copies
           else path_entry env (ii_RealPath info) (ii_Path info) # copies))"
proof -
  let ?b = "if binary = [] then ''claude'' else binary"
  let ?ar = "ii_RealPath info"
  let ?cs = "first_copies (real_path env) (found_on_path env (base_of ?b) dirs)"
  let ?es = "map (path_entry env ?ar) ?cs"
  obtain found where f: "ie_lookPath env ?b = Inr found"
    using assms(1) by (auto simp: detectInstall_def Let_def split: sum.splits)
  with assms(1) have i: "ii_Path info = found" "?ar = real_path env found"
    "ii_PathEntries info = findPathEntries ?b found ?ar env"
    by (auto simp: detectInstall_def with_config_method_def Let_def)
  have E: "ii_PathEntries info = (if ?ar \<in> set (map ip_RealPath ?es) then ?es
      else path_entry env ?ar found # ?es)"
    using findPathEntries_copies [OF assms(2), where active = found and binary = ?b] i by simp
  have act: "\<forall>x \<in> set (ii_PathEntries info). ip_Active x = (ip_RealPath x = ?ar)"
    by (auto simp: E path_entry_def)
  have d: "distinct (map ip_RealPath (ii_PathEntries info))"
    using distinct_first_copies [of "real_path env"] i(2) by (auto simp: E path_entry_def comp_def)
  have "?ar \<in> set (map ip_RealPath (ii_PathEntries info))"
  proof (cases "?ar \<in> set (map ip_RealPath ?es)")
    case True
    with E show ?thesis by (simp only: if_True)
  next
    case False
    with E i(2) show ?thesis by (simp only: if_False) (simp add: path_entry_def)
  qed
  then obtain e where "e \<in> set (ii_PathEntries info)" "ip_RealPath e = ?ar" by auto
  with one_active [OF d _ act] have "filter ip_Active (ii_PathEntries info) = [e]" by blast
  moreover have "Shadowed info = filter (\<lambda>x. ip_RealPath x \<noteq> ?ar) (ii_PathEntries info)"
    using act by (auto simp: Shadowed_def intro: filter_cong)
  ultimately show ?thesis using d E i(1) \<open>ip_RealPath e = ?ar\<close> by (auto simp: Let_def)
qed

theorem exactly_one_copy_runs_witness:
  "\<exists>info e. detectInstall (\<lambda>_. None) [] sample_install = Inr info
     \<and> filter ip_Active (ii_PathEntries info) = [e] \<and> ip_RealPath e = ''/v/claude''
     \<and> map ip_Path (ii_PathEntries info) = [''/a/claude'', ''/b/claude'']"
proof -
  obtain info where d: "detectInstall (\<lambda>_. None) [] sample_install = Inr info"
    and r: "ii_RealPath info = ''/v/claude''"
    using sample_install_detected by blast
  have p: "ie_pathDirs sample_install = Some [''/a'', ''/b'', ''/c'']" by (simp add: sample_install_def)
  have v: "real_path sample_install ''/a/claude'' = ''/v/claude''" by (simp add: sample_install_def real_path_def)
  note claim = exactly_one_copy_runs [OF d p]
  obtain e where e: "filter ip_Active (ii_PathEntries info) = [e]" "ip_RealPath e = ''/v/claude''"
    using claim r by auto
  have "map ip_Path (ii_PathEntries info) = [''/a/claude'', ''/b/claude'']"
    using claim v by (simp add: r sample_install_found path_entry_def Let_def
        del: found_on_path_simps first_copies.simps)
  with d e show ?thesis by (intro exI conjI)
qed

end
