(* ===== verification/Update.thy ===== *)
theory Update
  imports Install Internals
begin

text \<open>
  update.go: running the CLI's own updater. The detection decides whether it is run at all, a probe
  whether its target can be written, and the version read again afterwards what it did. The process,
  the probe and the second reading of the version are arguments.
\<close>

section \<open>Lines of the updater\<close>

definition line_break :: "char \<Rightarrow> bool" where
  "line_break c \<longleftrightarrow> c = CHR 0x0A \<or> c = CHR 0x0D"

definition trim_right_blanks :: "string \<Rightarrow> string" where
  "trim_right_blanks s = rev (dropWhile (\<lambda>c. c = CHR 0x20 \<or> c = CHR 0x09) (rev s))"

text \<open>What \<^verbatim>\<open>emit\<close> hands on: nothing for a blank line.\<close>

definition emit_line :: "string \<Rightarrow> string list" where
  "emit_line line = (let l = trim_right_blanks line in if l = [] then [] else [l])"

text \<open>\<^verbatim>\<open>Write\<close>: the lines handed on, and the text kept for the next call.\<close>

function drain_lines :: "string \<Rightarrow> string list \<times> string" where
  "drain_lines buf =
     (if list_ex line_break buf then
        (case drain_lines (tl (dropWhile (\<lambda>c. \<not> line_break c) buf)) of
           (ls, rest) \<Rightarrow> (emit_line (takeWhile (\<lambda>c. \<not> line_break c) buf) @ ls, rest))
      else ([], buf))"
  by pat_completeness auto
termination
proof (relation "measure length")
  fix buf :: string
  assume "list_ex line_break buf"
  then have "dropWhile (\<lambda>c. \<not> line_break c) buf \<noteq> []" by (auto simp: list_ex_iff dropWhile_eq_Nil_conv)
  moreover have "length (dropWhile (\<lambda>c. \<not> line_break c) buf) \<le> length buf" by (rule length_dropWhile_le)
  ultimately show "(tl (dropWhile (\<lambda>c. \<not> line_break c) buf), buf) \<in> measure length"
    by (cases "dropWhile (\<lambda>c. \<not> line_break c) buf") auto
qed simp

declare drain_lines.simps [simp del]

definition lineWriter_Write :: "string \<Rightarrow> string \<Rightarrow> string list \<times> string" where
  "lineWriter_Write p buf = drain_lines (buf @ p)"

definition lineWriter_flush :: "string \<Rightarrow> string list" where
  "lineWriter_flush buf = (if buf \<noteq> [] then emit_line buf else [])"

text \<open>The lines of a process that wrote the chunks, from its start to the flush.\<close>

fun written_lines :: "string list \<Rightarrow> string \<Rightarrow> string list" where
  "written_lines [] buf = lineWriter_flush buf"
| "written_lines (p # ps) buf =
     (case lineWriter_Write p buf of (ls, rest) \<Rightarrow> ls @ written_lines ps rest)"

fun last_line_of :: "string list \<Rightarrow> string" where
  "last_line_of [] = []"
| "last_line_of (l # ls) = (if trim_space l \<noteq> [] then trim_space l else last_line_of ls)"

definition lastLine :: "string \<Rightarrow> string" where
  "lastLine s = last_line_of (rev (split_on CHR 0x0A s))"

section \<open>Results and errors\<close>

record UpdateResult =
  up_Method :: InstallMethod
  up_Path :: string
  up_VersionBefore :: string
  up_VersionAfter :: string
  up_Changed :: bool
  up_ExitCode :: int
  up_Output :: string
  up_Duration :: nanos

record UpdateFailedError =
  uf_Path :: string
  uf_ExitCode :: int
  uf_Output :: string
  uf_Err :: go_error

text \<open>A failed run is joined with the error of the second version probe, when that failed too.\<close>

datatype update_error =
    UpdateDetect CLINotFoundError
  | ManualUpdate InstallMethod string
  | UpdateNotWritable InstallMethod string go_error
  | UpdateFailed UpdateFailedError "go_error option"
  | UpdateUnconfirmed go_error

definition manual_update_text :: "(string \<Rightarrow> string) \<Rightarrow> InstallMethod \<Rightarrow> string \<Rightarrow> string" where
  "manual_update_text goq m cmd =
     (if cmd = [] then
        ''claudecli: '' @ method_text m @ '' install must be updated manually; no update command is known to be correct''
      else ''claudecli: '' @ method_text m @ '' install must be updated manually with '' @ goq cmd)"

definition update_failed_text :: "UpdateFailedError \<Rightarrow> string" where
  "update_failed_text e =
     ''claudecli: '' @ uf_Path e @ '' update exited '' @ show_int (uf_ExitCode e)
     @ (let tail = lastLine (uf_Output e) in if tail \<noteq> [] then '': '' @ tail else [])"

definition maxUpdateOutputLines :: nat where
  "maxUpdateOutputLines = 200"

definition defaultUpdateTimeout :: nanos where
  "defaultUpdateTimeout = 600000000000"

record updateOptions =
  uo_output :: bool
  uo_progress :: bool
  uo_timeout :: nanos

definition WithUpdateOutput :: "updateOptions \<Rightarrow> updateOptions" where
  "WithUpdateOutput o' = o'\<lparr>uo_output := True\<rparr>"

definition WithUpdateProgress :: "updateOptions \<Rightarrow> updateOptions" where
  "WithUpdateProgress o' = o'\<lparr>uo_progress := True\<rparr>"

definition WithUpdateTimeout :: "nanos \<Rightarrow> updateOptions \<Rightarrow> updateOptions" where
  "WithUpdateTimeout d o' = o'\<lparr>uo_timeout := d\<rparr>"

text \<open>The bound of the run: none of its own when the caller's context has a deadline.\<close>

definition update_bound :: "bool \<Rightarrow> updateOptions \<Rightarrow> nanos option" where
  "update_bound hasDeadline o' =
     (if hasDeadline then None
      else Some (if uo_timeout o' \<le> 0 then defaultUpdateTimeout else uo_timeout o'))"

section \<open>Where the updater writes\<close>

definition nativeVersionsDir :: "string \<Rightarrow> string \<Rightarrow> string" where
  "nativeVersionsDir realPath dataDir =
     (let dir = path_dir realPath; segs = split_on CHR ''/'' (normalizeInstallPath dir) in
      if 2 \<le> length segs \<and> segs ! (length segs - 2) = ''claude'' \<and> segs ! (length segs - 1) = ''versions''
      then dir
      else if dataDir = [] then []
      else path_join [dataDir, ''claude'', ''versions''])"

definition npmLocalRoot :: "string \<Rightarrow> string \<Rightarrow> string" where
  "npmLocalRoot realPath configDir =
     (let p = normalizeInstallPath realPath in
      case index_of p ''/.claude/local/'' of
        Some i \<Rightarrow> take (i + length ''/.claude/local/'' - 1) p
      | None \<Rightarrow>
          if configDir \<noteq> [] then trim_suffix (normalizeInstallPath configDir) ''/'' @ ''/local''
          else [])"

definition updateTarget :: "InstallInfo \<Rightarrow> installEnv \<Rightarrow> string" where
  "updateTarget info env =
     (case ii_Method info of
        InstallNative \<Rightarrow> nativeVersionsDir (ii_RealPath info) (ie_dataDir env)
      | InstallNPMLocal \<Rightarrow> npmLocalRoot (ii_RealPath info) (ie_configDir env)
      | _ \<Rightarrow> [])"

text \<open>
  \<^verbatim>\<open>checkWritable\<close>: creating the probe file, closing it and removing it; the errors of the last two
  are joined.
\<close>

definition checkWritable ::
    "(string \<Rightarrow> go_error option) \<Rightarrow> (string \<Rightarrow> go_error option \<times> go_error option) \<Rightarrow> string \<Rightarrow> go_error option" where
  "checkWritable create cleanup dir =
     (if dir = [] then Some (ENew ''no update target directory could be determined'')
      else case create dir of
        Some e \<Rightarrow> Some e
      | None \<Rightarrow>
          (case cleanup dir of
             (None, None) \<Rightarrow> None
           | (Some e, None) \<Rightarrow> Some e
           | (None, Some e) \<Rightarrow> Some e
           | (Some e, Some f) \<Rightarrow> Some (EWrap2 e f)))"

section \<open>The run\<close>

text \<open>The process: the chunks it wrote and how it ended; an exit error carries the status.\<close>

datatype process_end = Exited | ExitedWith int go_error | Broke go_error

record update_process =
  pr_chunks :: "string list"
  pr_end :: process_end

definition execUpdate :: "update_process \<Rightarrow> string list \<times> int \<times> go_error option" where
  "execUpdate p =
     (written_lines (pr_chunks p) [],
      (case pr_end p of
         Exited \<Rightarrow> (0, None)
       | ExitedWith code e \<Rightarrow> (code, Some e)
       | Broke e \<Rightarrow> (-1, Some e)))"

record updateEnv =
  ue_install :: installEnv
  ue_writable :: "string \<Rightarrow> go_error option"
  ue_run :: "string list \<Rightarrow> update_process"
  ue_versionAfter :: "string \<Rightarrow> go_error + string"
  ue_elapsed :: nanos

definition selfManaged :: "InstallMethod \<Rightarrow> bool" where
  "selfManaged m \<longleftrightarrow> m = InstallNative \<or> m = InstallNPMLocal"

text \<open>What the call did besides its answer: the command it ran, and the lines each callback got.\<close>

record update_trace =
  ut_ran :: "string list option"
  ut_progress :: "string list"
  ut_output :: "string list"

definition no_update :: update_trace where
  "no_update = \<lparr>ut_ran = None, ut_progress = [], ut_output = []\<rparr>"

definition update_result :: "updateEnv \<Rightarrow> InstallInfo \<Rightarrow> string list \<Rightarrow> int \<Rightarrow> UpdateResult" where
  "update_result env info lines code =
     (let after = (case ue_versionAfter env (ii_Path info) of Inl _ \<Rightarrow> [] | Inr v \<Rightarrow> v) in
      \<lparr>up_Method = ii_Method info, up_Path = ii_Path info, up_VersionBefore = ii_Version info,
       up_VersionAfter = after,
       up_Changed = (ii_Version info \<noteq> [] \<and> after \<noteq> [] \<and> ii_Version info \<noteq> after),
       up_ExitCode = code,
       up_Output = join [CHR 0x0A]
         (ring_lines (fold ring_add lines (newStderrRing maxUpdateOutputLines))),
       up_Duration = ue_elapsed env\<rparr>)"

definition runUpdate ::
    "(string \<Rightarrow> nanos option) \<Rightarrow> string \<Rightarrow> updateEnv \<Rightarrow> (updateOptions \<Rightarrow> updateOptions) list
     \<Rightarrow> update_trace \<times> UpdateResult option \<times> update_error option" where
  "runUpdate rfc3339 binary env opts =
     (let o' = fold (\<lambda>f x. f x) opts \<lparr>uo_output = False, uo_progress = False, uo_timeout = 0\<rparr> in
      case detectInstall rfc3339 binary (ue_install env) of
        Inl e \<Rightarrow> (no_update, None, Some (UpdateDetect e))
      | Inr info \<Rightarrow>
          if \<not> selfManaged (ii_Method info) then
            (no_update, None, Some (ManualUpdate (ii_Method info) (ii_UpdateCmd info)))
          else (let target = updateTarget info (ue_install env) in
            case ue_writable env target of
              Some e \<Rightarrow> (no_update, None, Some (UpdateNotWritable (ii_Method info) target e))
            | None \<Rightarrow>
                (case execUpdate (ue_run env [ii_Path info, ''update'']) of
                   (lines, exitCode, runErr) \<Rightarrow>
                     (let result = update_result env info lines exitCode;
                          probeErr = (case ue_versionAfter env (ii_Path info) of
                                        Inl e \<Rightarrow> Some e | Inr _ \<Rightarrow> None) in
                      (\<lparr>ut_ran = Some [ii_Path info, ''update''],
                        ut_progress = (if uo_progress o' then lines else []),
                        ut_output = (if uo_output o' then map (\<lambda>l. l @ [CHR 0x0A]) lines else [])\<rparr>,
                       Some result,
                       (case runErr of
                          Some e \<Rightarrow>
                            Some (UpdateFailed \<lparr>uf_Path = ii_Path info, uf_ExitCode = exitCode,
                                                uf_Output = up_Output result, uf_Err = e\<rparr> probeErr)
                        | None \<Rightarrow> map_option UpdateUnconfirmed probeErr))))))"

text \<open>
  The operations of a client: creating, closing and removing a probe file, and running a command with
  the variables given; \<open>after\<close> is what \<^verbatim>\<open>claude -v\<close> prints when the updater has ended.
\<close>

definition newUpdateEnv ::
    "host \<Rightarrow> (string \<Rightarrow> go_error option) \<Rightarrow> (string \<Rightarrow> go_error option \<times> go_error option)
     \<Rightarrow> (string list option \<Rightarrow> string list \<Rightarrow> update_process)
     \<Rightarrow> (string list option \<Rightarrow> string \<Rightarrow> go_error + string) \<Rightarrow> nanos \<Rightarrow> cliEnv \<Rightarrow> updateEnv" where
  "newUpdateEnv h create cleanup command after elapsed e =
     (let vars = cmdEnv (ho_environ h) e in
      \<lparr>ue_install = newInstallEnv h e, ue_writable = checkWritable create cleanup,
       ue_run = command vars,
       ue_versionAfter =
         (\<lambda>b. case after vars b of Inl err \<Rightarrow> Inl err | Inr out \<Rightarrow> Inr (parseVersionOutput out)),
       ue_elapsed = elapsed\<rparr>)"

definition client_Update ::
    "(string \<Rightarrow> nanos option) \<Rightarrow> (cliEnv \<Rightarrow> updateEnv) \<Rightarrow> Client \<Rightarrow> (updateOptions \<Rightarrow> updateOptions) list
     \<Rightarrow> update_trace \<times> UpdateResult option \<times> update_error option" where
  "client_Update rfc3339 envOf c opts = runUpdate rfc3339 (binaryPath c) (envOf (client_cliEnv c)) opts"

section \<open>The output, however it is cut\<close>

lemma drain_no_break: "\<not> list_ex line_break buf \<Longrightarrow> drain_lines buf = ([], buf)"
  by (simp add: drain_lines.simps)

lemma drain_rest: "\<not> list_ex line_break (snd (drain_lines buf))"
proof (induction buf rule: drain_lines.induct)
  case (1 buf)
  then show ?case by (subst drain_lines.simps) (auto split: prod.splits)
qed

lemma drain_append:
  "drain_lines (a @ b) =
     (fst (drain_lines a) @ fst (drain_lines (snd (drain_lines a) @ b)),
      snd (drain_lines (snd (drain_lines a) @ b)))"
proof (induction a rule: drain_lines.induct)
  case (1 a)
  show ?case
  proof (cases "list_ex line_break a")
    case False
    then show ?thesis by (simp add: drain_no_break)
  next
    case True
    let ?h = "takeWhile (\<lambda>c. \<not> line_break c)" and ?t = "dropWhile (\<lambda>c. \<not> line_break c)"
    have ne: "?t a \<noteq> []" using True by (auto simp: list_ex_iff dropWhile_eq_Nil_conv)
    obtain x where x: "x \<in> set a" "line_break x" using True by (auto simp: list_ex_iff)
    have h: "?h (a @ b) = ?h a" and t: "?t (a @ b) = ?t a @ b"
      using x by (auto simp: takeWhile_append1 dropWhile_append1)
    have "drain_lines (a @ b) = (emit_line (?h a) @ fst (drain_lines (tl (?t a) @ b)),
        snd (drain_lines (tl (?t a) @ b)))"
      using True ne by (subst drain_lines.simps) (auto simp: h t split: prod.splits)
    moreover have "drain_lines a = (emit_line (?h a) @ fst (drain_lines (tl (?t a))),
        snd (drain_lines (tl (?t a))))"
      using True by (subst drain_lines.simps) (auto split: prod.splits)
    ultimately show ?thesis using "1.IH" [OF True] by simp
  qed
qed

text \<open>The lines of a text: cut at both kinds of line break, without trailing blanks, none empty.\<close>

definition output_lines :: "string \<Rightarrow> string list" where
  "output_lines t = fst (drain_lines t) @ lineWriter_flush (snd (drain_lines t))"

lemma written_lines_rest:
  "written_lines ps (snd (drain_lines t)) = fst (drain_lines (snd (drain_lines t) @ concat ps))
     @ lineWriter_flush (snd (drain_lines (t @ concat ps)))"
proof (induction ps arbitrary: t)
  case Nil
  show ?case using drain_rest [of t] by (simp add: drain_no_break)
next
  case (Cons p ps)
  let ?r = "snd (drain_lines t)"
  have "snd (drain_lines (t @ p)) = snd (drain_lines (?r @ p))" by (simp add: drain_append [of t p])
  moreover obtain l r where "drain_lines (?r @ p) = (l, r)" by fastforce
  ultimately show ?case
    using Cons.IH [of "t @ p"] drain_append [of "?r @ p" "concat ps"]
    by (simp add: lineWriter_Write_def)
qed

lemma written_lines_text: "written_lines ps [] = output_lines (concat ps)"
  using written_lines_rest [of ps "[]"] by (simp add: output_lines_def drain_no_break)

lemma kept_output:
  "ring_lines (fold ring_add ls (newStderrRing maxUpdateOutputLines)) = last_n 200 ls"
proof -
  have "ring_inv 200 (newStderrRing 200)" by (simp add: ring_inv_new)
  from stderr_ring.add_all_items [OF this, of ls] show ?thesis
    by (simp add: stderr_ring.add_all_def maxUpdateOutputLines_def foldl_conv_fold)
qed

section \<open>Whose install it is\<close>

lemma updateCommand_self: "updateCommand m pm n = ''claude update'' \<longleftrightarrow> selfManaged m"
  by (cases m) (simp_all add: updateCommand_def selfManaged_def)

lemma detected_command:
  "detectInstall rfc binary env = Inr info \<Longrightarrow>
     ii_UpdateCmd info = updateCommand (ii_Method info) (ii_PackageManager info) (ii_PackageName info)"
  by (auto simp: detectInstall_def Let_def split: sum.splits)

text \<open>A native install that is updated from 2.1.0, and one whose second probe prints no version.\<close>

definition sample_update :: "string \<Rightarrow> updateEnv" where
  "sample_update printed =
     \<lparr>ue_install = sample_install\<lparr>ie_readHeader := \<lambda>_. Inr (CHR 0x7F # ''ELF''), ie_pathDirs := None\<rparr>,
      ue_writable = (\<lambda>d. if d = [] then Some (ENew ''none'') else None),
      ue_run = (\<lambda>_. \<lparr>pr_chunks = [''Checking'', CHR 0x0D # ''done '', [CHR 0x0A]], pr_end = Exited\<rparr>),
      ue_versionAfter = (\<lambda>_. Inr (parseVersionOutput printed)), ue_elapsed = 1\<rparr>"

definition sample_update_env :: "string \<Rightarrow> updateEnv" where
  "sample_update_env printed = (sample_update printed)
     \<lparr>ue_install := (ue_install (sample_update printed))\<lparr>ie_dataDir := ''/d''\<rparr>\<rparr>"

lemma sample_update_run:
  "case runUpdate (\<lambda>_. None) [] (sample_update_env ''v2.1.9 (Claude Code)'') [] of
     (tr, res, err) \<Rightarrow> ut_ran tr = Some [''/a/claude'', ''update''] \<and> err = None"
  by code_simp

text \<open>A probe that prints no version is not an error: then nothing says that the update was applied.\<close>

lemma empty_version_without_error:
  "case runUpdate (\<lambda>_. None) [] (sample_update_env ''unknown'') [] of
     (tr, res, err) \<Rightarrow> map_option up_VersionAfter res = Some [] \<and> err = None"
  by code_simp

text \<open>
  C35: The CLI's own updater is run only on an install it owns: when a command was run, it is the
  detected binary itself with the argument update, on an install whose suggested command is claude
  update and whose target could be written; every other install is refused without running anything,
  with a command that is not claude update. A call without an error ran the updater to a clean exit
  and read the version again, and it reports a change exactly when both versions are known and
  differ; its output is the last 200 lines of what the updater wrote, however that was cut.
\<close>

theorem updater_runs_only_where_it_owns:
  assumes "runUpdate rfc binary env opts = (trace, res, err)"
  shows "(\<forall>argv. ut_ran trace = Some argv \<longrightarrow>
      (\<exists>info. detectInstall rfc binary (ue_install env) = Inr info
        \<and> argv = [ii_Path info, ''update''] \<and> ii_UpdateCmd info = ''claude update''
        \<and> ue_writable env (updateTarget info (ue_install env)) = None
        \<and> (\<exists>r. res = Some r \<and> up_Path r = ii_Path info \<and> up_VersionBefore r = ii_Version info
             \<and> up_Output r = join [CHR 0x0A] (last_n 200 (output_lines (concat (pr_chunks (ue_run env argv))))))))
    \<and> (ut_ran trace = None \<longrightarrow> trace = no_update \<and> res = None \<and>
        ((\<exists>e. err = Some (UpdateDetect e))
         \<or> (\<exists>m cmd. err = Some (ManualUpdate m cmd) \<and> cmd \<noteq> ''claude update'')
         \<or> (\<exists>m d e. err = Some (UpdateNotWritable m d e) \<and> ue_writable env d = Some e)))
    \<and> (err = None \<longrightarrow> (\<exists>r v argv. res = Some r \<and> ut_ran trace = Some argv
        \<and> pr_end (ue_run env argv) = Exited \<and> up_ExitCode r = 0
        \<and> ue_versionAfter env (up_Path r) = Inr v \<and> up_VersionAfter r = v
        \<and> up_Changed r = (up_VersionBefore r \<noteq> [] \<and> v \<noteq> [] \<and> up_VersionBefore r \<noteq> v)))"
proof (cases "detectInstall rfc binary (ue_install env)")
  case (Inl e)
  with assms show ?thesis by (auto simp: runUpdate_def Let_def no_update_def)
next
  case (Inr info)
  let ?t = "updateTarget info (ue_install env)" and ?a = "[ii_Path info, ''update'']"
  have cmd: "ii_UpdateCmd info = ''claude update'' \<longleftrightarrow> selfManaged (ii_Method info)"
    using detected_command [OF Inr] updateCommand_self by simp
  consider "\<not> selfManaged (ii_Method info)"
    | e where "selfManaged (ii_Method info)" "ue_writable env ?t = Some e"
    | "selfManaged (ii_Method info)" "ue_writable env ?t = None" by (cases "ue_writable env ?t") auto
  then show ?thesis
  proof cases
    case 1
    with assms Inr cmd show ?thesis by (auto simp: runUpdate_def Let_def no_update_def)
  next
    case 2
    with assms Inr show ?thesis by (auto simp: runUpdate_def Let_def no_update_def)
  next
    case 3
    obtain code runErr where x: "execUpdate (ue_run env ?a)
        = (output_lines (concat (pr_chunks (ue_run env ?a))), code, runErr)"
      and ok: "runErr = None \<longrightarrow> code = 0 \<and> pr_end (ue_run env ?a) = Exited"
      by (cases "pr_end (ue_run env ?a)") (simp_all add: execUpdate_def written_lines_text)
    from assms Inr 3 x have t: "ut_ran trace = Some ?a"
      and r: "res = Some (update_result env info (output_lines (concat (pr_chunks (ue_run env ?a)))) code)"
      and n: "err = None \<longrightarrow> runErr = None \<and> (\<exists>v. ue_versionAfter env (ii_Path info) = Inr v)"
      by (auto simp: runUpdate_def Let_def split: option.splits sum.splits)
    show ?thesis
      using t r n ok Inr cmd 3 by (auto simp: update_result_def Let_def kept_output)
  qed
qed

theorem updater_runs_only_where_it_owns_witness:
  "\<exists>r. fst (snd (runUpdate (\<lambda>_. None) [] (sample_update_env ''v2.1.9 (Claude Code)'') [])) = Some r
     \<and> up_Output r = join [CHR 0x0A] (last_n 200 (output_lines (concat [''Checking'', CHR 0x0D # ''done '', [CHR 0x0A]])))"
proof -
  obtain tr res err where u: "runUpdate (\<lambda>_. None) [] (sample_update_env ''v2.1.9 (Claude Code)'') [] = (tr, res, err)"
    by (metis prod_cases3)
  have "ut_ran tr = Some [''/a/claude'', ''update'']" using sample_update_run u by simp
  with updater_runs_only_where_it_owns [OF u] obtain r where "res = Some r"
    "up_Output r = join [CHR 0x0A] (last_n 200 (output_lines (concat
        (pr_chunks (ue_run (sample_update_env ''v2.1.9 (Claude Code)'') [''/a/claude'', ''update''])))))"
    by auto
  with u show ?thesis by (simp add: sample_update_env_def sample_update_def)
qed

end
