(* ===== verification/Published.thy ===== *)
theory Published
  imports Install Decode
begin

text \<open>
  published.go: which version is published for an install, asked of the one service that answers for
  it. The network is an argument: what a GET of a URL answers, status and body, or its error.
\<close>

section \<open>Services\<close>

definition nativeReleaseChannelURL :: string where
  "nativeReleaseChannelURL = ''https://downloads.claude.ai/claude-code-releases''"

definition npmRegistryURL :: string where
  "npmRegistryURL = ''https://registry.npmjs.org''"

definition homebrewCaskAPIURL :: string where
  "homebrewCaskAPIURL = ''https://formulae.brew.sh/api/cask''"

text \<open>\<^verbatim>\<open>url.PathEscape\<close>: what may stand in a path segment stays, every other byte becomes \<^verbatim>\<open>%XX\<close>.\<close>

definition path_safe :: "char \<Rightarrow> bool" where
  "path_safe c \<longleftrightarrow> ascii_lower c \<or> ascii_upper c \<or> is_digit c \<or> c \<in> set ''-_.~$&+:=@''"

definition upper_hex :: "nat \<Rightarrow> char" where
  "upper_hex n = (if n < 10 then char_of (48 + n) else char_of (55 + n))"

definition PathEscape :: "string \<Rightarrow> string" where
  "PathEscape s =
     concat (map (\<lambda>c. if path_safe c then [c]
                      else [CHR ''%'', upper_hex (of_char c div 16), upper_hex (of_char c mod 16)]) s)"

definition npmDistTagsURL :: string where
  "npmDistTagsURL = npmRegistryURL @ ''/-/package/'' @ PathEscape CLIPackageName @ ''/dist-tags''"

datatype PublishedSource =
    PublishedSourceNPMRegistry | PublishedSourceReleaseChannel | PublishedSourceHomebrewCask
  | PublishedSourceNone

record Published =
  pb_Version :: string
  pb_Installed :: string
  pb_Comparable :: bool
  pb_UpdateAvailable :: bool
  pb_Channel :: string
  pb_Source :: PublishedSource
  pb_URL :: string
  pb_Method :: InstallMethod
  pb_AutoUpdate :: "AutoUpdateState option"

datatype published_error =
    PublishedDetect CLINotFoundError
  | PublishedUnknown InstallMethod string
  | PublishedFailed go_error

definition published_unknown_text :: "InstallMethod \<Rightarrow> string \<Rightarrow> string" where
  "published_unknown_text m reason =
     ''claudecli: cannot determine the published version for a '' @ method_text m @ '' install: '' @ reason"

text \<open>The options: the HTTP client only chooses the network, which is an argument.\<close>

record publishedOptions =
  po_channel :: string
  po_timeout :: nanos

definition WithPublishedChannel :: "string \<Rightarrow> publishedOptions \<Rightarrow> publishedOptions" where
  "WithPublishedChannel c p = p\<lparr>po_channel := c\<rparr>"

definition WithPublishedTimeout :: "nanos \<Rightarrow> publishedOptions \<Rightarrow> publishedOptions" where
  "WithPublishedTimeout d p = p\<lparr>po_timeout := d\<rparr>"

definition defaultPublishedTimeout :: nanos where
  "defaultPublishedTimeout = 10000000000"

definition published_bound :: "bool \<Rightarrow> publishedOptions \<Rightarrow> nanos option" where
  "published_bound hasDeadline p =
     (if hasDeadline then None
      else Some (if po_timeout p \<le> 0 then defaultPublishedTimeout else po_timeout p))"

section \<open>Lookups\<close>

definition maxPublishedResponse :: nat where
  "maxPublishedResponse = 1048576"

text \<open>
  The answer to a GET: no request, no response, or a response with its status code and text and its
  body, the reading of which may fail.
\<close>

datatype http_answer =
    NoRequest go_error
  | NoResponse go_error
  | Response int string "go_error + string"

definition fetchPublished :: "(string \<Rightarrow> http_answer) \<Rightarrow> string \<Rightarrow> go_error + string" where
  "fetchPublished net endpoint =
     (case net endpoint of
        NoRequest e \<Rightarrow> Inl (EWrap (''claudecli: build request for '' @ endpoint @ '': '') e [])
      | NoResponse e \<Rightarrow> Inl (EWrap (''claudecli: fetch '' @ endpoint @ '': '') e [])
      | Response code status body \<Rightarrow>
          if code \<noteq> 200 then
            Inl (ENew (''claudecli: fetch '' @ endpoint @ '': unexpected status '' @ status))
          else (case body of
                  Inl e \<Rightarrow> Inl (EWrap (''claudecli: read '' @ endpoint @ '': '') e [])
                | Inr b \<Rightarrow> Inr (take maxPublishedResponse b)))"

definition fetchNPMDistTag ::
    "(string \<Rightarrow> string) \<Rightarrow> (string \<Rightarrow> http_answer) \<Rightarrow> string \<Rightarrow> string \<Rightarrow> go_error + string" where
  "fetchNPMDistTag goq net endpoint channel =
     (case fetchPublished net endpoint of
        Inl e \<Rightarrow> Inl e
      | Inr body \<Rightarrow>
          (case unmarshal (d_map d_str []) body None of
             (tags, ok) \<Rightarrow>
               if \<not> ok then Inl (EWrap ''claudecli: decode npm dist-tags: '' json_error [])
               else let version = (case map_of (case tags of None \<Rightarrow> [] | Some m \<Rightarrow> m) channel of
                                     None \<Rightarrow> [] | Some v \<Rightarrow> v) in
                    if version = [] then
                      Inl (ENew (''claudecli: npm publishes no '' @ goq channel @ '' dist-tag for '' @ CLIPackageName))
                    else Inr version))"

definition fetchReleaseChannel :: "(string \<Rightarrow> http_answer) \<Rightarrow> string \<Rightarrow> go_error + string" where
  "fetchReleaseChannel net endpoint =
     (case fetchPublished net endpoint of
        Inl e \<Rightarrow> Inl e
      | Inr body \<Rightarrow>
          (let version = parseVersionOutput (trim_space body) in
           if version = [] then
             Inl (ENew (''claudecli: release channel '' @ endpoint @ '' did not answer with a version''))
           else Inr version))"

definition d_cask_version :: "string dec" where
  [json_eval]: "d_cask_version = d_struct [fld ''version'' d_str (\<lambda>s. s) (\<lambda>f s. f s)]"

definition fetchHomebrewCask :: "(string \<Rightarrow> http_answer) \<Rightarrow> string \<Rightarrow> go_error + string" where
  "fetchHomebrewCask net endpoint =
     (case fetchPublished net endpoint of
        Inl e \<Rightarrow> Inl e
      | Inr body \<Rightarrow>
          (case unmarshal d_cask_version body [] of
             (version, ok) \<Rightarrow>
               if \<not> ok then Inl (EWrap ''claudecli: decode homebrew cask: '' json_error [])
               else if version = [] then
                 Inl (ENew (''claudecli: homebrew cask '' @ endpoint @ '' reports no version''))
               else Inr version))"

definition parsesAsVersion :: "string \<Rightarrow> bool" where
  "parsesAsVersion s = (if s = [] then False else (case parseSemver s of (_, _, _, ok) \<Rightarrow> ok))"

definition isChannelBased :: "InstallMethod \<Rightarrow> bool" where
  "isChannelBased m \<longleftrightarrow> m = InstallNPMGlobal \<or> m = InstallNPMLocal \<or> m = InstallNative"

definition homebrewCask :: "InstallInfo \<Rightarrow> string option" where
  "homebrewCask info =
     (if ii_PackageManager info \<noteq> ''homebrew'' then None
      else if ii_PackageName info = ''claude-code'' \<or> ii_PackageName info = ''claude-code@latest''
      then Some (ii_PackageName info) else None)"

definition unknownPackageManagerReason :: "(string \<Rightarrow> string) \<Rightarrow> InstallInfo \<Rightarrow> string" where
  "unknownPackageManagerReason goq info =
     (if ii_PackageManager info = ''homebrew'' then
        ''cask '' @ goq (ii_PackageName info) @ '' is not one of the published Claude Code casks''
      else ii_PackageManager info @ '' publishes no version feed this package can trust'')"

section \<open>The published version\<close>

definition tracked_channel :: "InstallInfo \<Rightarrow> string" where
  "tracked_channel info = (case ii_AutoUpdate info of None \<Rightarrow> [] | Some a \<Rightarrow> au_Channel a)"

text \<open>The verdict on a version that was found.\<close>

definition with_verdict :: "InstallInfo \<Rightarrow> Published \<Rightarrow> Published" where
  "with_verdict info pub =
     (let cmp = (pb_Channel pub = tracked_channel info \<and> parsesAsVersion (pb_Installed pub)
                 \<and> parsesAsVersion (pb_Version pub)) in
      pub\<lparr>pb_Comparable := cmp,
          pb_UpdateAvailable := (cmp \<and> compareSemver (pb_Installed pub) (pb_Version pub) < 0)\<rparr>)"

definition answered ::
    "InstallInfo \<Rightarrow> Published \<Rightarrow> go_error + string \<Rightarrow> published_error + Published" where
  "answered info pub version =
     (case version of
        Inl e \<Rightarrow> Inl (PublishedFailed e)
      | Inr v \<Rightarrow> Inr (with_verdict info (pub\<lparr>pb_Version := v\<rparr>)))"

definition look_up ::
    "(string \<Rightarrow> string) \<Rightarrow> (string \<Rightarrow> http_answer) \<Rightarrow> InstallInfo \<Rightarrow> string \<Rightarrow> Published
     \<Rightarrow> published_error + Published" where
  "look_up goq net info channel pub =
     (case ii_Method info of
        InstallNative \<Rightarrow>
          (let url = nativeReleaseChannelURL @ ''/'' @ channel in
           answered info (pub\<lparr>pb_Source := PublishedSourceReleaseChannel, pb_URL := url\<rparr>)
             (fetchReleaseChannel net url))
      | InstallPackageManager \<Rightarrow>
          (case homebrewCask info of
             None \<Rightarrow> Inl (PublishedUnknown (ii_Method info) (unknownPackageManagerReason goq info))
           | Some cask \<Rightarrow>
               (let url = homebrewCaskAPIURL @ ''/'' @ cask @ ''.json'' in
                answered info
                  (pub\<lparr>pb_Source := PublishedSourceHomebrewCask, pb_URL := url,
                       pb_Channel := tracked_channel info\<rparr>)
                  (fetchHomebrewCask net url)))
      | _ \<Rightarrow>
          if ii_Method info = InstallNPMGlobal \<or> ii_Method info = InstallNPMLocal then
            answered info (pub\<lparr>pb_Source := PublishedSourceNPMRegistry, pb_URL := npmDistTagsURL\<rparr>)
              (fetchNPMDistTag goq net npmDistTagsURL channel)
          else Inl (PublishedUnknown (ii_Method info)
                 ''nothing records which release stream this install tracks''))"

definition latestPublished ::
    "(string \<Rightarrow> string) \<Rightarrow> (string \<Rightarrow> nanos option) \<Rightarrow> (string \<Rightarrow> http_answer) \<Rightarrow> string \<Rightarrow> installEnv
     \<Rightarrow> (publishedOptions \<Rightarrow> publishedOptions) list \<Rightarrow> published_error + Published" where
  "latestPublished goq rfc3339 net binary env opts =
     (let p = fold (\<lambda>f x. f x) opts \<lparr>po_channel = [], po_timeout = 0\<rparr> in
      if po_channel p \<noteq> [] \<and> \<not> validChannel (po_channel p) then
        Inl (PublishedFailed (ENew (''claudecli: '' @ goq (po_channel p) @ '' is not a Claude CLI release channel'')))
      else case detectInstall rfc3339 binary env of
        Inl e \<Rightarrow> Inl (PublishedDetect e)
      | Inr info \<Rightarrow>
          if ie_getenv env ''CLAUDE_CODE_DISABLE_NONESSENTIAL_TRAFFIC'' \<noteq> [] then
            Inl (PublishedUnknown (ii_Method info)
              ''network lookups are disabled by CLAUDE_CODE_DISABLE_NONESSENTIAL_TRAFFIC'')
          else (let channel = (if po_channel p = [] then tracked_channel info else po_channel p) in
            if isChannelBased (ii_Method info) \<and> \<not> validChannel channel then
              Inl (PublishedUnknown (ii_Method info)
                ''the configured auto-update channel is not one the CLI publishes'')
            else look_up goq net info channel
              \<lparr>pb_Version = [], pb_Installed = ii_Version info, pb_Comparable = False,
               pb_UpdateAvailable = False, pb_Channel = channel, pb_Source = PublishedSourceNone,
               pb_URL = [], pb_Method = ii_Method info, pb_AutoUpdate = ii_AutoUpdate info\<rparr>))"

definition LatestPublished ::
    "(string \<Rightarrow> string) \<Rightarrow> (string \<Rightarrow> nanos option) \<Rightarrow> (string \<Rightarrow> http_answer) \<Rightarrow> host \<Rightarrow> Client
     \<Rightarrow> (publishedOptions \<Rightarrow> publishedOptions) list \<Rightarrow> published_error + Published" where
  "LatestPublished goq rfc3339 net h c opts =
     latestPublished goq rfc3339 net (binaryPath c) (newInstallEnv h (client_cliEnv c)) opts"

section \<open>Only what is known\<close>

text \<open>The URLs a lookup may ask.\<close>

definition published_urls :: "string list" where
  "published_urls =
     [''https://registry.npmjs.org/-/package/@anthropic-ai%2Fclaude-code/dist-tags'',
      ''https://downloads.claude.ai/claude-code-releases/latest'',
      ''https://downloads.claude.ai/claude-code-releases/stable'',
      ''https://downloads.claude.ai/claude-code-releases/rc'',
      ''https://formulae.brew.sh/api/cask/claude-code.json'',
      ''https://formulae.brew.sh/api/cask/claude-code@latest.json'']"

lemma fetch_cong:
  assumes "net url = net' url"
  shows "fetchPublished net url = fetchPublished net' url"
    "fetchNPMDistTag goq net url c = fetchNPMDistTag goq net' url c"
    "fetchReleaseChannel net url = fetchReleaseChannel net' url"
    "fetchHomebrewCask net url = fetchHomebrewCask net' url"
  using assms
  by (simp_all add: fetchPublished_def fetchNPMDistTag_def fetchReleaseChannel_def fetchHomebrewCask_def)

text \<open>
  The reference: the one service that answers for an install, with the channel it is asked about. npm
  installs are answered by the registry's tags, native ones by the release channel, Homebrew ones by
  the cask they were installed from; every other install has no service.
\<close>

definition service_of :: "InstallInfo \<Rightarrow> string \<Rightarrow> (PublishedSource \<times> string \<times> string) option" where
  "service_of info channel =
     (if ii_Method info = InstallNPMGlobal \<or> ii_Method info = InstallNPMLocal then
        Some (PublishedSourceNPMRegistry,
              ''https://registry.npmjs.org/-/package/@anthropic-ai%2Fclaude-code/dist-tags'', channel)
      else if ii_Method info = InstallNative then
        Some (PublishedSourceReleaseChannel,
              ''https://downloads.claude.ai/claude-code-releases/'' @ channel, channel)
      else if ii_Method info = InstallPackageManager \<and> ii_PackageManager info = ''homebrew''
              \<and> ii_PackageName info \<in> {''claude-code'', ''claude-code@latest''} then
        Some (PublishedSourceHomebrewCask,
              ''https://formulae.brew.sh/api/cask/'' @ ii_PackageName info @ ''.json'',
              tracked_channel info)
      else None)"

text \<open>What a version in the body of an answer is, for each service.\<close>

definition version_in :: "PublishedSource \<Rightarrow> string \<Rightarrow> string \<Rightarrow> string \<Rightarrow> bool" where
  "version_in src channel body v \<longleftrightarrow>
     v \<noteq> []
     \<and> (case src of
          PublishedSourceNPMRegistry \<Rightarrow>
            (\<exists>tags. unmarshal (d_map d_str []) body None = (Some tags, True) \<and> map_of tags channel = Some v)
        | PublishedSourceReleaseChannel \<Rightarrow> v = parseVersionOutput (trim_space body)
        | PublishedSourceHomebrewCask \<Rightarrow> unmarshal d_cask_version body [] = (v, True)
        | PublishedSourceNone \<Rightarrow> False)"

definition answers_with :: "(string \<Rightarrow> http_answer) \<Rightarrow> PublishedSource \<Rightarrow> string \<Rightarrow> string \<Rightarrow> string \<Rightarrow> bool" where
  "answers_with net src url channel v \<longleftrightarrow>
     (\<exists>status body. net url = Response 200 status (Inr body)
        \<and> version_in src channel (take maxPublishedResponse body) v)"

lemma npmDistTagsURL_is:
  "npmDistTagsURL = ''https://registry.npmjs.org/-/package/@anthropic-ai%2Fclaude-code/dist-tags''"
  by code_simp

lemma channel_url: "validChannel c \<Longrightarrow> nativeReleaseChannelURL @ ''/'' @ c \<in> set published_urls"
  by (auto simp: validChannel_def ChannelLatest_def ChannelStable_def ChannelRC_def
      nativeReleaseChannelURL_def published_urls_def)

lemma cask_url:
  "n \<in> {''claude-code'', ''claude-code@latest''} \<Longrightarrow>
     homebrewCaskAPIURL @ ''/'' @ n @ ''.json'' \<in> set published_urls"
  by (auto simp: homebrewCaskAPIURL_def published_urls_def)

lemma npm_url: "npmDistTagsURL \<in> set published_urls"
  by code_simp

lemma service_of_is:
  "service_of info channel =
     (if ii_Method info = InstallNPMGlobal \<or> ii_Method info = InstallNPMLocal then
        Some (PublishedSourceNPMRegistry, npmDistTagsURL, channel)
      else if ii_Method info = InstallNative then
        Some (PublishedSourceReleaseChannel, nativeReleaseChannelURL @ ''/'' @ channel, channel)
      else if ii_Method info = InstallPackageManager \<and> ii_PackageManager info = ''homebrew''
              \<and> ii_PackageName info \<in> {''claude-code'', ''claude-code@latest''} then
        Some (PublishedSourceHomebrewCask, homebrewCaskAPIURL @ ''/'' @ ii_PackageName info @ ''.json'',
              tracked_channel info)
      else None)"
  unfolding service_of_def npmDistTagsURL_is by (simp add: nativeReleaseChannelURL_def homebrewCaskAPIURL_def)

lemma service_known:
  assumes "service_of info c = Some (src, url, ch)" "isChannelBased (ii_Method info) \<longrightarrow> validChannel c"
  shows "url \<in> set published_urls"
  using assms npm_url channel_url [of c] cask_url [of "ii_PackageName info"]
  unfolding service_of_is isChannelBased_def
  by (simp only: prod.inject option.inject option.distinct simp_thms split: if_split_asm) blast+

lemma fetchPublished_Inr:
  "fetchPublished net url = Inr b \<longleftrightarrow>
     (\<exists>status body. net url = Response 200 status (Inr body) \<and> b = take maxPublishedResponse body)"
  by (auto simp: fetchPublished_def split: http_answer.split sum.split)

lemma fetched_answers:
  "fetchNPMDistTag goq net url c = Inr v \<Longrightarrow> answers_with net PublishedSourceNPMRegistry url c v"
  "fetchReleaseChannel net url = Inr v \<Longrightarrow> answers_with net PublishedSourceReleaseChannel url c v"
  "fetchHomebrewCask net url = Inr v \<Longrightarrow> answers_with net PublishedSourceHomebrewCask url c v"
  by (fastforce simp: fetchNPMDistTag_def fetchReleaseChannel_def fetchHomebrewCask_def answers_with_def
      version_in_def fetchPublished_Inr Let_def split: sum.splits prod.splits if_splits option.splits)+

text \<open>A lookup asks the service of its install only, and an answer carries the verdict on its version.\<close>

lemma look_up_service:
  "look_up goq net info c pub =
     (case service_of info c of
        Some (src, url, ch) \<Rightarrow>
          answered info (pub\<lparr>pb_Source := src, pb_URL := url,
              pb_Channel := (if src = PublishedSourceHomebrewCask then ch else pb_Channel pub)\<rparr>)
            (case src of
               PublishedSourceNPMRegistry \<Rightarrow> fetchNPMDistTag goq net url c
             | PublishedSourceHomebrewCask \<Rightarrow> fetchHomebrewCask net url
             | _ \<Rightarrow> fetchReleaseChannel net url)
      | None \<Rightarrow> look_up goq (\<lambda>_. NoResponse (ENew [])) info c pub)"
  by (cases "ii_Method info")
    (auto simp: look_up_def service_of_is homebrewCask_def Let_def)

lemma look_up_cong:
  "(\<And>src url ch. service_of info c = Some (src, url, ch) \<Longrightarrow> net url = net' url) \<Longrightarrow>
     look_up goq net info c pub = look_up goq net' info c pub"
  using fetch_cong [of net _ net']
  unfolding look_up_service [of goq net] look_up_service [of goq net']
  by (auto split: option.split PublishedSource.split)

lemma look_up_unserved:
  "service_of info c = None \<Longrightarrow> \<exists>e. \<forall>net. look_up goq net info c pub = Inl e"
  by (cases "ii_Method info")
    (auto simp: look_up_def service_of_is homebrewCask_def split: if_splits)

lemma answered_Inr:
  "answered info q x = Inr r \<longleftrightarrow> (\<exists>v. x = Inr v \<and> r = with_verdict info (q\<lparr>pb_Version := v\<rparr>))"
  by (auto simp: answered_def split: sum.split)

lemma with_verdict_fields:
  "pb_Source (with_verdict info q) = pb_Source q" "pb_URL (with_verdict info q) = pb_URL q"
  "pb_Channel (with_verdict info q) = pb_Channel q" "pb_Version (with_verdict info q) = pb_Version q"
  "pb_Installed (with_verdict info q) = pb_Installed q" "pb_Method (with_verdict info q) = pb_Method q"
  "pb_Comparable (with_verdict info q) = (pb_Channel q = tracked_channel info
      \<and> parsesAsVersion (pb_Installed q) \<and> parsesAsVersion (pb_Version q))"
  "pb_UpdateAvailable (with_verdict info q) = (pb_Comparable (with_verdict info q)
      \<and> compareSemver (pb_Installed q) (pb_Version q) < 0)"
  by (simp_all add: with_verdict_def Let_def)

definition fetch_from ::
    "(string \<Rightarrow> string) \<Rightarrow> (string \<Rightarrow> http_answer) \<Rightarrow> PublishedSource \<Rightarrow> string \<Rightarrow> string \<Rightarrow> go_error + string" where
  "fetch_from goq net src url c =
     (case src of
        PublishedSourceNPMRegistry \<Rightarrow> fetchNPMDistTag goq net url c
      | PublishedSourceHomebrewCask \<Rightarrow> fetchHomebrewCask net url
      | _ \<Rightarrow> fetchReleaseChannel net url)"

lemma fetch_from_answers:
  "fetch_from goq net src url c = Inr v \<Longrightarrow> src \<noteq> PublishedSourceNone \<Longrightarrow>
     src = PublishedSourceHomebrewCask \<or> ch = c \<Longrightarrow> answers_with net src url ch v"
  by (cases src) (auto simp: fetch_from_def intro: fetched_answers)

lemma service_source:
  "service_of info c = Some (src, url, ch) \<Longrightarrow>
     src \<noteq> PublishedSourceNone \<and> (src = PublishedSourceHomebrewCask \<or> ch = c)"
  unfolding service_of_is by (simp only: prod.inject option.inject option.distinct split: if_split_asm) auto

lemma look_up_answer:
  assumes "look_up goq net info c pub = Inr r" "pb_Channel pub = c"
    and s: "service_of info c = Some (src, url, ch)"
  shows "pb_URL r = url \<and> pb_Source r = src \<and> pb_Channel r = ch
      \<and> answers_with net src url ch (pb_Version r) \<and> pb_Installed r = pb_Installed pub
      \<and> pb_Comparable r = (ch = tracked_channel info
          \<and> parsesAsVersion (pb_Installed r) \<and> parsesAsVersion (pb_Version r))
      \<and> pb_UpdateAvailable r = (pb_Comparable r \<and> compareSemver (pb_Installed r) (pb_Version r) < 0)"
proof -
  let ?q = "pub\<lparr>pb_Source := src, pb_URL := url,
      pb_Channel := (if src = PublishedSourceHomebrewCask then ch else pb_Channel pub)\<rparr>"
  note src = service_source [OF s]
  have "answered info ?q (fetch_from goq net src url c) = Inr r"
    using assms(1) unfolding look_up_service [of goq net] s option.case prod.case fetch_from_def .
  then obtain v where v: "fetch_from goq net src url c = Inr v" "r = with_verdict info (?q\<lparr>pb_Version := v\<rparr>)"
    unfolding answered_Inr by blast
  have "answers_with net src url ch v" using fetch_from_answers [OF v(1)] src by blast
  moreover have "pb_Channel ?q = ch" using src assms(2) by auto
  ultimately show ?thesis unfolding v(2) with_verdict_fields by simp
qed

definition sample_published_net :: "string \<Rightarrow> http_answer" where
  "sample_published_net url =
     (if url = ''https://downloads.claude.ai/claude-code-releases/latest''
      then Response 200 ''200 OK'' (Inr ''2.1.9'') else NoResponse (ENew ''offline''))"

definition sample_published_env :: installEnv where
  "sample_published_env = sample_install\<lparr>ie_readHeader := \<lambda>_. Inr (CHR 0x7F # ''ELF''), ie_pathDirs := None\<rparr>"

lemma sample_published_detected:
  "case detectInstall (\<lambda>_. None) [] sample_published_env of
     Inr i \<Rightarrow> ii_Method i = InstallNative \<and> ii_Version i = ''2.1.0'' \<and> tracked_channel i = ''latest''
   | Inl _ \<Rightarrow> False"
  by code_simp

lemma sample_published_fetched:
  "fetchReleaseChannel sample_published_net (nativeReleaseChannelURL @ ''/latest'') = Inr ''2.1.9''"
proof -
  have "parseVersionOutput (trim_space ''2.1.9'') = ''2.1.9''" by code_simp
  then show ?thesis
    by (simp add: fetchReleaseChannel_def fetchPublished_def sample_published_net_def
        nativeReleaseChannelURL_def maxPublishedResponse_def Let_def)
qed

lemma sample_published_found:
  "\<exists>p. latestPublished id (\<lambda>_. None) sample_published_net [] sample_published_env [] = Inr p
     \<and> pb_Installed p = ''2.1.0'' \<and> pb_Version p = ''2.1.9''"
proof -
  obtain i where i: "detectInstall (\<lambda>_. None) [] sample_published_env = Inr i"
    "ii_Method i = InstallNative" "ii_Version i = ''2.1.0''" "tracked_channel i = ''latest''"
    using sample_published_detected by (auto split: sum.splits)
  then show ?thesis
    using sample_published_fetched
    by (simp add: latestPublished_def look_up_def answered_def with_verdict_def Let_def
        validChannel_def ChannelLatest_def sample_published_env_def sample_install_def)
qed

text \<open>
  C36: A published version is never a number from the wrong place. For the channel that is asked
  about, the one given or else the one the install tracks, the version comes from the answer of the
  one service that answers for that install: the registry tag of the channel for npm installs, the
  release channel for native ones, the cask it was installed from for Homebrew ones. No other URL is
  asked, the URL is one of six whatever the settings hold, and an install without a service gets no
  number. With non-essential traffic disabled nothing is asked. An update is reported as available
  exactly when the channel is the one the install tracks, both versions can be read, and the
  installed one is older in the order of versions.
\<close>

theorem published_version_is_the_right_one:
  assumes "detectInstall rfc binary env = Inr info"
    and "asked = po_channel (fold (\<lambda>f x. f x) opts \<lparr>po_channel = [], po_timeout = 0\<rparr>)"
    and "channel = (if asked = [] then tracked_channel info else asked)"
  shows "(case service_of info channel of
        None \<Rightarrow> \<exists>e. \<forall>net. latestPublished goq rfc net binary env opts = Inl e
      | Some (src, url, ch) \<Rightarrow>
          (net url = net' url \<longrightarrow>
             latestPublished goq rfc net binary env opts = latestPublished goq rfc net' binary env opts)
          \<and> (latestPublished goq rfc net binary env opts = Inr p \<longrightarrow>
               url \<in> set published_urls \<and> pb_URL p = url \<and> pb_Source p = src \<and> pb_Channel p = ch
               \<and> answers_with net src url ch (pb_Version p) \<and> pb_Installed p = ii_Version info
               \<and> pb_Comparable p = (ch = tracked_channel info
                   \<and> parsesAsVersion (pb_Installed p) \<and> parsesAsVersion (pb_Version p))
               \<and> pb_UpdateAvailable p
                   = (pb_Comparable p \<and> version_of (pb_Installed p) < version_of (pb_Version p))))
    \<and> (ie_getenv env ''CLAUDE_CODE_DISABLE_NONESSENTIAL_TRAFFIC'' \<noteq> [] \<longrightarrow>
         (\<exists>e. \<forall>net. latestPublished goq rfc net binary env opts = Inl e))"
proof -
  define z where "z = \<lparr>pb_Version = [], pb_Installed = ii_Version info, pb_Comparable = False,
      pb_UpdateAvailable = False, pb_Channel = channel, pb_Source = PublishedSourceNone,
      pb_URL = [], pb_Method = ii_Method info, pb_AutoUpdate = ii_AutoUpdate info\<rparr>"
  let ?quiet = "ie_getenv env ''CLAUDE_CODE_DISABLE_NONESSENTIAL_TRAFFIC'' \<noteq> []"
  let ?refused = "asked \<noteq> [] \<and> \<not> validChannel asked \<or> ?quiet
      \<or> isChannelBased (ii_Method info) \<and> \<not> validChannel channel"
  show ?thesis
  proof (cases ?refused)
    case True
    then consider "asked \<noteq> [] \<and> \<not> validChannel asked"
      | "\<not> (asked \<noteq> [] \<and> \<not> validChannel asked)" "?quiet"
      | "\<not> (asked \<noteq> [] \<and> \<not> validChannel asked)" "\<not> ?quiet"
        "isChannelBased (ii_Method info) \<and> \<not> validChannel channel"
      by blast
    then have "\<exists>e. \<forall>net. latestPublished goq rfc net binary env opts = Inl e"
    proof cases
      case 3
      then show ?thesis
        unfolding latestPublished_def Let_def assms(1) sum.case assms(2) [symmetric] assms(3) [symmetric]
        by simp
    qed (unfold latestPublished_def Let_def assms(1) assms(2) [symmetric], simp_all)
    then obtain e where "latestPublished goq rfc n binary env opts = Inl e" for n by blast
    then show ?thesis by (simp split: option.split)
  next
    case False
    then have l: "latestPublished goq rfc n binary env opts = look_up goq n info channel z" for n
      using assms by (auto simp: latestPublished_def Let_def z_def)
    have z: "pb_Channel z = channel" "pb_Installed z = ii_Version info" by (simp_all add: z_def)
    show ?thesis
    proof (cases "service_of info channel")
      case None
      with look_up_unserved [OF None] False show ?thesis by (simp add: l)
    next
      case (Some s)
      then obtain src url ch where s: "service_of info channel = Some (src, url, ch)" by (cases s) auto
      have known: "url \<in> set published_urls" using service_known [OF s] False by blast
      have same: "net url = net' url \<Longrightarrow> look_up goq net info channel z = look_up goq net' info channel z"
        by (rule look_up_cong) (simp add: s)
      have found: "pb_URL p = url \<and> pb_Source p = src \<and> pb_Channel p = ch
          \<and> answers_with net src url ch (pb_Version p) \<and> pb_Installed p = ii_Version info
          \<and> pb_Comparable p = (ch = tracked_channel info
              \<and> parsesAsVersion (pb_Installed p) \<and> parsesAsVersion (pb_Version p))
          \<and> pb_UpdateAvailable p
              = (pb_Comparable p \<and> version_of (pb_Installed p) < version_of (pb_Version p))"
        if "look_up goq net info channel z = Inr p"
        using look_up_answer [OF that z(1) s] unfolding z(2) older_iff .
      have loud: "\<not> ?quiet" using False by blast
      show ?thesis unfolding s l option.case prod.case using known same found loud by blast
    qed
  qed
qed

theorem published_version_is_the_right_one_witness:
  "\<exists>p. latestPublished id (\<lambda>_. None) sample_published_net [] sample_published_env [] = Inr p
     \<and> pb_URL p = ''https://downloads.claude.ai/claude-code-releases/latest''
     \<and> pb_Source p = PublishedSourceReleaseChannel
     \<and> pb_UpdateAvailable p = (pb_Comparable p \<and> version_of ''2.1.0'' < version_of ''2.1.9'')"
proof -
  obtain p where p: "latestPublished id (\<lambda>_. None) sample_published_net [] sample_published_env [] = Inr p"
    "pb_Installed p = ''2.1.0''" "pb_Version p = ''2.1.9''"
    using sample_published_found by blast
  obtain i where i: "detectInstall (\<lambda>_. None) [] sample_published_env = Inr i"
    "ii_Method i = InstallNative" "tracked_channel i = ''latest''"
    using sample_published_detected by (auto split: sum.splits)
  from published_version_is_the_right_one [OF i(1), of "[]" "[]" "''latest''" id sample_published_net
      sample_published_net p] i p
  show ?thesis by (auto simp: service_of_def)
qed

end
