(* ===== verification/Urls.thy ===== *)
theory Urls
  imports Published
begin

text \<open>
  \<^verbatim>\<open>net/url\<close> as auth.go and auth\_submit.go use it, in the version of go.mod: splitting a URL into
  host, path and query, its port, the first value of a query parameter, and escaping a value. What
  is no part of an answer there (scheme, user, fragment) is only checked.
\<close>

section \<open>Escapes\<close>

datatype url_mode = EncodePath | EncodeHost | EncodeZone | EncodeUser | EncodeQuery | EncodeFragment

definition unreserved :: "char \<Rightarrow> bool" where
  "unreserved c \<longleftrightarrow> ascii_lower c \<or> ascii_upper c \<or> is_digit c \<or> c \<in> set ''-_.~''"

text \<open>What \<^verbatim>\<open>shouldEscape\<close> lets stand in a host.\<close>

definition host_safe :: "char \<Rightarrow> bool" where
  "host_safe c \<longleftrightarrow> unreserved c \<or> c \<in> set (''!$&()*+,;=:[]<>'' @ [CHR 0x27, CHR 0x22])"

text \<open>Whether \<^verbatim>\<open>%XX\<close> with these two digits may stand there.\<close>

definition escape_ok :: "url_mode \<Rightarrow> nat \<Rightarrow> nat \<Rightarrow> bool" where
  "escape_ok m x y =
     (case m of
        EncodeHost \<Rightarrow> 8 \<le> x \<or> (x = 2 \<and> y = 5)
      | EncodeZone \<Rightarrow> (x = 2 \<and> y = 5) \<or> (x = 2 \<and> y = 0) \<or> host_safe (char_of (16 * x + y))
      | _ \<Rightarrow> True)"

definition plain_ok :: "url_mode \<Rightarrow> char \<Rightarrow> bool" where
  "plain_ok m c = (if (m = EncodeHost \<or> m = EncodeZone) \<and> of_char c < (128 :: nat) then host_safe c else True)"

fun unescape :: "url_mode \<Rightarrow> string \<Rightarrow> string option" where
  "unescape m [] = Some []"
| "unescape m (c # cs) =
     (if c = CHR ''%'' then
        (case cs of
           a # b # rest \<Rightarrow>
             (case (hex_val a, hex_val b) of
                (Some x, Some y) \<Rightarrow>
                  if escape_ok m x y then map_option (\<lambda>r. char_of (16 * x + y) # r) (unescape m rest) else None
              | _ \<Rightarrow> None)
         | _ \<Rightarrow> None)
      else if c = CHR ''+'' then
        map_option (\<lambda>r. (if m = EncodeQuery then CHR 0x20 else c) # r) (unescape m cs)
      else if plain_ok m c then map_option (\<lambda>r. c # r) (unescape m cs)
      else None)"

definition QueryEscape :: "string \<Rightarrow> string" where
  "QueryEscape s =
     concat (map (\<lambda>c. if unreserved c then [c]
                      else if c = CHR 0x20 then ''+''
                      else [CHR ''%'', upper_hex (of_char c div 16), upper_hex (of_char c mod 16)]) s)"

section \<open>Queries\<close>

text \<open>\<^verbatim>\<open>ParseQuery\<close>, its error dropped: pairs that are malformed are left out.\<close>

definition query_pair :: "string \<Rightarrow> (string \<times> string) option" where
  "query_pair p =
     (if CHR '';'' \<in> set p \<or> p = [] then None
      else case cut p ''='' of
        (k, v, _) \<Rightarrow>
          (case (unescape EncodeQuery k, unescape EncodeQuery v) of
             (Some k', Some v') \<Rightarrow> Some (k', v') | _ \<Rightarrow> None))"

definition ParseQuery :: "string \<Rightarrow> (string \<times> string) list" where
  "ParseQuery q = List.map_filter query_pair (split_on CHR ''&'' q)"

definition query_get :: "string \<Rightarrow> string \<Rightarrow> string" where
  "query_get q k = (case map_of (ParseQuery q) k of None \<Rightarrow> [] | Some v \<Rightarrow> v)"

section \<open>URLs\<close>

record URL =
  url_Host :: string
  url_Path :: string
  url_RawQuery :: string

definition letter :: "char \<Rightarrow> bool" where
  "letter c \<longleftrightarrow> ascii_lower c \<or> ascii_upper c"

definition get_scheme :: "string \<Rightarrow> (string \<times> string) option" where
  "get_scheme raw =
     (case raw of
        [] \<Rightarrow> Some ([], raw)
      | c # _ \<Rightarrow>
          if c = CHR '':'' then None
          else if \<not> letter c then Some ([], raw)
          else (let n = length (takeWhile (\<lambda>x. letter x \<or> is_digit x \<or> x \<in> set ''+-.'') raw) in
                if n < length raw \<and> raw ! n = CHR '':'' then Some (take n raw, drop (n + 1) raw)
                else Some ([], raw)))"

definition last_index_byte :: "char \<Rightarrow> string \<Rightarrow> nat option" where
  "last_index_byte c s = map_option (\<lambda>i. length s - 1 - i) (index_byte c (rev s))"

definition validOptionalPort :: "string \<Rightarrow> bool" where
  "validOptionalPort p \<longleftrightarrow> p = [] \<or> (hd p = CHR '':'' \<and> list_all is_digit (tl p))"

definition parseHost :: "string \<Rightarrow> string option" where
  "parseHost h =
     (if has_prefix h ''['' then
        (case last_index_byte CHR '']'' h of
           None \<Rightarrow> None
         | Some i \<Rightarrow>
             if \<not> validOptionalPort (drop (i + 1) h) then None
             else case index_of (take i h) ''%25'' of
               None \<Rightarrow> unescape EncodeHost h
             | Some z \<Rightarrow>
                 (case (unescape EncodeHost (take z h), unescape EncodeZone (drop z (take i h)),
                        unescape EncodeHost (drop i h)) of
                    (Some a, Some b, Some c) \<Rightarrow> Some (a @ b @ c)
                  | _ \<Rightarrow> None))
      else case last_index_byte CHR '':'' h of
        Some i \<Rightarrow> if validOptionalPort (drop i h) then unescape EncodeHost h else None
      | None \<Rightarrow> unescape EncodeHost h)"

definition valid_userinfo :: "string \<Rightarrow> bool" where
  "valid_userinfo u =
     list_all (\<lambda>c. letter c \<or> is_digit c \<or> c \<in> set (''-._:~!$&()*+,;=%@'' @ [CHR 0x27])) u"

definition parseAuthority :: "string \<Rightarrow> string option" where
  "parseAuthority a =
     (case last_index_byte CHR ''@'' a of
        None \<Rightarrow> parseHost a
      | Some i \<Rightarrow>
          (let user = take i a in
           if \<not> valid_userinfo user then None
           else case cut user '':'' of
             (name, password, _) \<Rightarrow>
               if unescape EncodeUser name = None \<or> unescape EncodeUser password = None then None
               else parseHost (drop (i + 1) a)))"

definition url_of :: "string option \<Rightarrow> string \<Rightarrow> string \<Rightarrow> URL option" where
  "url_of host path query =
     (case (host, unescape EncodePath path) of
        (Some h, Some p) \<Rightarrow> Some \<lparr>url_Host = h, url_Path = p, url_RawQuery = query\<rparr>
      | _ \<Rightarrow> None)"

definition parse_without_fragment :: "string \<Rightarrow> URL option" where
  "parse_without_fragment raw =
     (if list_ex (\<lambda>c. of_char c < (0x20 :: nat) \<or> c = CHR 0x7F) raw then None
      else if raw = ''*'' then Some \<lparr>url_Host = [], url_Path = ''*'', url_RawQuery = []\<rparr>
      else case get_scheme raw of
        None \<Rightarrow> None
      | Some (scheme, after) \<Rightarrow>
          (case cut after ''?'' of
             (rest, query, _) \<Rightarrow>
               if \<not> has_prefix rest ''/'' \<and> scheme \<noteq> [] then
                 Some \<lparr>url_Host = [], url_Path = [], url_RawQuery = query\<rparr>
               else if \<not> has_prefix rest ''/'' \<and> CHR '':'' \<in> set (takeWhile (\<lambda>c. c \<noteq> CHR ''/'') rest) then None
               else if (scheme \<noteq> [] \<or> \<not> has_prefix rest ''///'') \<and> has_prefix rest ''//'' then
                 url_of (parseAuthority (takeWhile (\<lambda>c. c \<noteq> CHR ''/'') (drop 2 rest)))
                   (dropWhile (\<lambda>c. c \<noteq> CHR ''/'') (drop 2 rest)) query
               else url_of (Some []) rest query))"

definition url_Parse :: "string \<Rightarrow> URL option" where
  "url_Parse raw =
     (case cut raw ''#'' of
        (u, frag, _) \<Rightarrow>
          (case parse_without_fragment u of
             None \<Rightarrow> None
           | Some r \<Rightarrow> if unescape EncodeFragment frag = None then None else Some r))"

definition url_Port :: "URL \<Rightarrow> string" where
  "url_Port u =
     (case last_index_byte CHR '':'' (url_Host u) of
        Some i \<Rightarrow> if validOptionalPort (drop i (url_Host u)) then drop (i + 1) (url_Host u) else []
      | None \<Rightarrow> [])"

section \<open>Escaping and reading back\<close>

lemma hex_upper_hex: "n < 16 \<Longrightarrow> hex_val (upper_hex n) = Some n"
  by (simp add: upper_hex_def hex_val_def Let_def)

lemma char_code_less: "of_char c < (256 :: nat)"
  by (metis mod_less_divisor of_char_mod_256 zero_less_numeral)

lemma char_halves: "char_of (16 * (of_char c div 16) + of_char c mod 16 :: nat) = (c :: char)"
  by (simp only: mult_div_mod_eq char_of_char)

lemma QueryEscape_Cons: "QueryEscape (c # s) = QueryEscape [c] @ QueryEscape s"
  by (simp add: QueryEscape_def)

lemma unescape_escaped_char:
  "unescape EncodeQuery (QueryEscape [c] @ t) = map_option (\<lambda>r. c # r) (unescape EncodeQuery t)"
proof -
  consider "unreserved c" | "c = CHR 0x20" | "\<not> unreserved c" "c \<noteq> CHR 0x20" by blast
  then show ?thesis
  proof cases
    case 1
    then have "c \<noteq> CHR ''%''" "c \<noteq> CHR ''+''" by (auto simp: unreserved_def ascii_lower_def ascii_upper_def is_digit_def)
    with 1 show ?thesis by (simp add: QueryEscape_def plain_ok_def)
  next
    case 2
    have "\<not> unreserved (CHR 0x20)" by code_simp
    with 2 show ?thesis by (simp add: QueryEscape_def)
  next
    case 3
      have "of_char c div 16 < (16 :: nat)" using char_code_less [of c] by (intro less_mult_imp_div_less) simp
    then have "hex_val (upper_hex (of_char c div 16)) = Some (of_char c div 16)"
      "hex_val (upper_hex (of_char c mod 16)) = Some (of_char c mod 16)" by (simp_all add: hex_upper_hex)
    with 3 show ?thesis by (simp add: QueryEscape_def escape_ok_def char_halves)
  qed
qed

lemma unescape_QueryEscape: "unescape EncodeQuery (QueryEscape s) = Some s"
proof (induction s)
  case Nil
  then show ?case by (simp add: QueryEscape_def)
next
  case (Cons c s)
  then show ?case by (subst QueryEscape_Cons) (simp add: unescape_escaped_char)
qed

text \<open>An escaped value holds none of the characters that separate the parts of a query or a URL.\<close>

definition escaped :: "char \<Rightarrow> bool" where
  "escaped c \<longleftrightarrow> unreserved c \<or> c = CHR ''+'' \<or> c = CHR ''%''"

lemma upper_hex_unreserved: "n < 16 \<Longrightarrow> unreserved (upper_hex n)"
  by (simp add: upper_hex_def unreserved_def ascii_upper_def is_digit_def)

lemma QueryEscape_escaped: "list_all escaped (QueryEscape s)"
proof (induction s)
  case Nil
  then show ?case by (simp add: QueryEscape_def)
next
  case (Cons c s)
  have "of_char c div 16 < (16 :: nat)"
    using char_code_less [of c] by (intro less_mult_imp_div_less) simp
  then have "list_all escaped (QueryEscape [c])"
    by (simp add: QueryEscape_def escaped_def upper_hex_unreserved)
  with Cons show ?case by (subst QueryEscape_Cons) simp
qed

lemma escaped_set: "list_all escaped s \<Longrightarrow> c \<in> set s \<Longrightarrow> escaped c"
  by (simp add: list_all_iff)

lemma not_escaped:
  "\<not> escaped (CHR ''&'')" "\<not> escaped (CHR '';'')" "\<not> escaped (CHR ''='')" "\<not> escaped (CHR ''#'')"
  "\<not> escaped (CHR ''?'')" "\<not> escaped (CHR 0x7F)"
  by code_simp+

lemma escaped_visible: "escaped c \<Longrightarrow> 32 < (of_char c :: nat)"
  by (auto simp: escaped_def unreserved_def ascii_lower_def ascii_upper_def is_digit_def)

lemma cut_char: "c \<notin> set a \<Longrightarrow> cut (a @ c # b) [c] = (a, b, True)"
proof -
  assume "c \<notin> set a"
  then have "index_of (a @ c # b) [c] = Some (length a)" by (induction a) (auto simp: has_prefix_def)
  then show ?thesis by (simp add: cut_def)
qed

lemma cut_char_none: "c \<notin> set a \<Longrightarrow> cut a [c] = (a, [], False)"
proof -
  assume "c \<notin> set a"
  then have "index_of a [c] = None" by (induction a) (auto simp: has_prefix_def)
  then show ?thesis by (simp add: cut_def)
qed

text \<open>A query of a code and a state, as the CLI's callback and the code page carry them.\<close>

definition code_query :: "string \<Rightarrow> string \<Rightarrow> string" where
  "code_query code state = ''code='' @ QueryEscape code @ ''&state='' @ QueryEscape state"

lemma query_pair_escaped:
  assumes "list_all escaped k" "k \<noteq> []" "unescape EncodeQuery k = Some k"
  shows "query_pair (k @ CHR ''='' # QueryEscape v) = Some (k, v)"
proof -
  have "CHR '';'' \<notin> set (k @ CHR ''='' # QueryEscape v)"
    using escaped_set [OF assms(1)] escaped_set [OF QueryEscape_escaped] not_escaped by auto
  moreover have "cut (k @ CHR ''='' # QueryEscape v) ''='' = (k, QueryEscape v, True)"
    using escaped_set [OF assms(1)] not_escaped(3) by (intro cut_char) blast
  ultimately show ?thesis using assms by (simp add: query_pair_def unescape_QueryEscape)
qed

lemma split_two: "c \<notin> set a \<Longrightarrow> c \<notin> set b \<Longrightarrow> split_on c (a @ c # b) = [a, b]"
  by (simp add: split_on_sep split_on_none)

lemma code_query_pairs: "ParseQuery (code_query code state) = [(''code'', code), (''state'', state)]"
proof -
  let ?a = "''code'' @ CHR ''='' # QueryEscape code" and ?b = "''state'' @ CHR ''='' # QueryEscape state"
  have q: "code_query code state = ?a @ CHR ''&'' # ?b" by (simp add: code_query_def)
  have "CHR ''&'' \<notin> set ?a" "CHR ''&'' \<notin> set ?b"
    using escaped_set [OF QueryEscape_escaped] not_escaped(1) by auto
  then have "split_on CHR ''&'' (code_query code state) = [?a, ?b]" unfolding q by (rule split_two)
  moreover have "query_pair ?a = Some (''code'', code)" "query_pair ?b = Some (''state'', state)"
    by (rule query_pair_escaped; code_simp)+
  ultimately show ?thesis unfolding ParseQuery_def by (simp only: List.map_filter_simps option.case)
qed

lemma code_query_get:
  "query_get (code_query code state) ''code'' = code"
  "query_get (code_query code state) ''state'' = state"
  by (simp_all add: query_get_def code_query_pairs)

lemma code_query_chars:
  assumes "c \<in> set (code_query code state)"
  shows "escaped c \<or> c = CHR ''='' \<or> c = CHR ''&''"
proof -
  have "list_all escaped ''code''" "list_all escaped ''state''" by code_simp+
  then show ?thesis
    using assms escaped_set [OF QueryEscape_escaped] by (auto simp: code_query_def list_all_iff)
qed

lemma code_query_plain:
  assumes "c \<in> set (code_query code state)"
  shows "32 < (of_char c :: nat) \<and> c \<noteq> CHR ''#'' \<and> c \<noteq> CHR 0x7F"
  using code_query_chars [OF assms]
proof (elim disjE)
  assume "escaped c"
  then show ?thesis using escaped_visible not_escaped by blast
qed simp_all

lemma unescape_plain:
  "list_all (\<lambda>c. c \<noteq> CHR ''%'' \<and> c \<noteq> CHR ''+'' \<and> plain_ok m c) s \<Longrightarrow> unescape m s = Some s"
  by (induction s) auto

lemma unescape_visible_path:
  "unescape EncodePath ''/callback'' = Some ''/callback''"
  "unescape EncodePath ''/oauth/code/callback'' = Some ''/oauth/code/callback''"
  by code_simp+

text \<open>A URL with a scheme, an authority of plain characters, a path and a query of a code.\<close>

lemma scheme_of_http:
  "get_scheme (''http:'' @ s) = Some (''http'', s)"
  "get_scheme (''https:'' @ s) = Some (''https'', s)"
  by (simp_all add: get_scheme_def letter_def ascii_lower_def ascii_upper_def is_digit_def Let_def)

definition plain_part :: "string \<Rightarrow> bool" where
  "plain_part s = list_all (\<lambda>c. 32 < (of_char c :: nat) \<and> c \<notin> {CHR ''#'', CHR ''?'', CHR 0x7F}) s"

lemma while_not:
  "c \<notin> set a \<Longrightarrow> takeWhile (\<lambda>x. x \<noteq> c) (a @ c # b) = a"
  "c \<notin> set a \<Longrightarrow> dropWhile (\<lambda>x. x \<noteq> c) (a @ c # b) = c # b"
  by (induction a) auto

lemma no_control_bytes:
  assumes "plain_part a" and q: "\<And>c. c \<in> set q \<Longrightarrow> 32 < (of_char c :: nat) \<and> c \<noteq> CHR ''#'' \<and> c \<noteq> CHR 0x7F"
  shows "\<not> list_ex (\<lambda>c. of_char c < (0x20 :: nat) \<or> c = CHR 0x7F) (a @ CHR ''?'' # q)"
proof -
  have "32 < (of_char c :: nat) \<and> c \<noteq> CHR 0x7F" if "c \<in> set a" for c
    using assms(1) that by (simp add: plain_part_def list_all_iff)
  moreover have "32 < (of_char (CHR ''?'') :: nat) \<and> CHR ''?'' \<noteq> CHR 0x7F" by simp
  ultimately have "\<forall>c \<in> set (a @ CHR ''?'' # q). 32 < (of_char c :: nat) \<and> c \<noteq> CHR 0x7F"
    using q by auto
  then show ?thesis unfolding list_ex_iff by (meson less_asym)
qed

lemma parse_code_url:
  assumes scheme: "scheme = ''http'' \<or> scheme = ''https''"
    and auth: "plain_part auth" "CHR ''/'' \<notin> set auth" "parseAuthority auth = Some host"
    and path: "path = ''/callback'' \<or> path = ''/oauth/code/callback''"
  shows "url_Parse (scheme @ ''://'' @ auth @ path @ ''?'' @ code_query code state)
           = Some \<lparr>url_Host = host, url_Path = path, url_RawQuery = code_query code state\<rparr>"
proof -
  let ?q = "code_query code state"
  let ?front = "''//'' @ auth @ path"
  let ?raw = "(scheme @ '':'' @ ?front) @ CHR ''?'' # ?q"
  have raw: "scheme @ ''://'' @ auth @ path @ ''?'' @ ?q = ?raw" by simp
  have parts: "plain_part scheme" "plain_part path" "plain_part '':''" "plain_part ''//''"
    using scheme path by (elim disjE; simp add: plain_part_def)+
  have plain: "plain_part (scheme @ '':'' @ ?front)"
    using parts auth(1) by (simp only: plain_part_def list_all_append)
  have q: "c \<in> set ?q \<Longrightarrow> 32 < (of_char c :: nat) \<and> c \<noteq> CHR ''#'' \<and> c \<noteq> CHR 0x7F" for c
    by (rule code_query_plain)
  have no_frag: "cut ?raw ''#'' = (?raw, [], False)"
    using plain q by (intro cut_char_none) (auto simp: plain_part_def list_all_iff)
  have ctl: "\<not> list_ex (\<lambda>c. of_char c < (0x20 :: nat) \<or> c = CHR 0x7F) ?raw"
    using plain q by (rule no_control_bytes)
  have sch: "get_scheme ?raw = Some (scheme, ?front @ CHR ''?'' # ?q)"
    using scheme scheme_of_http [of "?front @ CHR ''?'' # ?q"] by auto
  have "CHR ''?'' \<notin> set ?front" using plain by (auto simp: plain_part_def list_all_iff)
  then have quest: "cut (?front @ CHR ''?'' # ?q) ''?'' = (?front, ?q, True)" by (rule cut_char)
  obtain p where p: "path = CHR ''/'' # p" using path by auto
  have tw: "takeWhile (\<lambda>c. c \<noteq> CHR ''/'') (auth @ path) = auth" "dropWhile (\<lambda>c. c \<noteq> CHR ''/'') (auth @ path) = path"
    unfolding p using while_not [OF auth(2)] by simp_all
  have pre: "has_prefix ?front ''/''" "has_prefix ?front ''//''" by (simp_all add: has_prefix_def)
  have "scheme \<noteq> []" "?raw \<noteq> ''*''" using scheme by auto
  with ctl sch quest pre tw have "parse_without_fragment ?raw = url_of (parseAuthority auth) path ?q"
    unfolding parse_without_fragment_def by (simp del: append.simps append_assoc add: has_prefix_def append_Nil)
  also have "\<dots> = Some \<lparr>url_Host = host, url_Path = path, url_RawQuery = ?q\<rparr>"
    using auth(3) path unescape_visible_path by (auto simp: url_of_def)
  finally show ?thesis unfolding url_Parse_def raw no_frag by simp
qed

end
