(* ===== verification/Auth.thy ===== *)
theory Auth
  imports Urls
begin

text \<open>
  auth.go, auth\_submit.go and auth\_unix.go: the account of a CLI. Its status is read from what the
  CLI prints; a login is a process whose output is watched for URLs and a verdict while codes are
  submitted to it. The process, the network, the parsing of a URL up to its query, and quoting are
  arguments; queries are decoded here.
\<close>

section \<open>Status\<close>

datatype AuthState = AuthStateAuthenticated | AuthStateUnauthenticated | AuthStateUnknown

record AuthStatusResult =
  as_Status :: AuthState
  as_Message :: string
  as_LoggedIn :: bool
  as_AuthMethod :: string
  as_APIProvider :: string
  as_Email :: string
  as_OrgID :: string
  as_OrgName :: string
  as_SubscriptionType :: string

text \<open>Decoding into \<^verbatim>\<open>any\<close> fails on a number that is no \<^verbatim>\<open>float64\<close>, and on nothing else.\<close>

fun any_ok :: "json \<Rightarrow> bool" and anys_ok :: "json list \<Rightarrow> bool"
  and members_ok :: "(string \<times> json) list \<Rightarrow> bool" where
  "any_ok (JNum l) = snd (d_float (JNum l) 0)"
| "any_ok (JArr r js) = anys_ok js"
| "any_ok (JObj r ms) = members_ok ms"
| "any_ok _ = True"
| "anys_ok [] = True"
| "anys_ok (j # js) = (any_ok j \<and> anys_ok js)"
| "members_ok [] = True"
| "members_ok ((k, j) # ms) = (any_ok j \<and> members_ok ms)"

text \<open>\<^verbatim>\<open>json.Unmarshal\<close> into a \<^verbatim>\<open>map[string]any\<close>: the members, the last of a key counting.\<close>

definition unmarshal_any_map :: "string \<Rightarrow> (string \<times> json) list option" where
  "unmarshal_any_map s =
     (case parse_json s of
        Some JNull \<Rightarrow> Some []
      | Some (JObj r ms) \<Rightarrow> if members_ok ms then Some (rev ms) else None
      | _ \<Rightarrow> None)"

fun extractJSONBool :: "(string \<times> json) list \<Rightarrow> string list \<Rightarrow> bool option" where
  "extractJSONBool m [] = None"
| "extractJSONBool m (k # ks) =
     (case map_of m k of Some (JBool b) \<Rightarrow> Some b | _ \<Rightarrow> extractJSONBool m ks)"

fun extractJSONString :: "(string \<times> json) list \<Rightarrow> string list \<Rightarrow> string" where
  "extractJSONString m [] = []"
| "extractJSONString m (k # ks) =
     (case map_of m k of
        Some (JStr r s) \<Rightarrow> if s \<noteq> [] then s else extractJSONString m ks
      | _ \<Rightarrow> extractJSONString m ks)"

definition status_only :: "AuthState \<Rightarrow> string \<Rightarrow> AuthStatusResult" where
  "status_only st msg =
     \<lparr>as_Status = st, as_Message = msg, as_LoggedIn = False, as_AuthMethod = [], as_APIProvider = [],
      as_Email = [], as_OrgID = [], as_OrgName = [], as_SubscriptionType = []\<rparr>"

definition unsupported_texts :: "string list" where
  "unsupported_texts = [''unknown command'', ''unrecognized command'', ''unexpected argument'']"

definition logged_out_texts :: "string list" where
  "logged_out_texts =
     [''not logged in'', ''login required'', ''authentication required'',
      ''run '' @ [CHR 0x60] @ ''claude login'' @ [CHR 0x60], ''run claude login'']"

definition auth_markers :: "string list" where
  "auth_markers = [''loggedIn'', ''isLoggedIn'', ''authenticated'', ''isAuthenticated'']"

definition json_status :: "(string \<times> json) list \<Rightarrow> AuthStatusResult" where
  "json_status m =
     (case extractJSONBool m auth_markers of
        Some True \<Rightarrow> (status_only AuthStateAuthenticated [])\<lparr>as_LoggedIn := True\<rparr>
      | Some False \<Rightarrow> status_only AuthStateUnauthenticated ''not logged in''
      | None \<Rightarrow> status_only AuthStateUnknown ''auth status JSON missing auth marker'')
     \<lparr>as_AuthMethod := extractJSONString m [''authMethod'', ''auth_method''],
      as_APIProvider := extractJSONString m [''apiProvider'', ''api_provider''],
      as_Email := extractJSONString m [''email''],
      as_OrgID := extractJSONString m [''orgId'', ''org_id''],
      as_OrgName := extractJSONString m [''orgName'', ''org_name''],
      as_SubscriptionType :=
        extractJSONString m [''subscriptionType'', ''subscription_type'', ''plan'', ''tier'']\<rparr>"

text \<open>\<open>cmdErr\<close> is the text of the error of the command, if it failed.\<close>

definition parseAuthStatus :: "string \<Rightarrow> string option \<Rightarrow> AuthStatusResult" where
  "parseAuthStatus output cmdErr =
     (let lower = to_lower output; trimmed = trim_space output in
      if list_ex (contains lower) unsupported_texts then
        status_only AuthStateUnknown ''auth status command not supported by this CLI version''
      else if list_ex (contains lower) logged_out_texts then
        status_only AuthStateUnauthenticated ''not logged in''
      else case (if trimmed \<noteq> [] \<and> (hd trimmed = CHR ''{'' \<or> hd trimmed = CHR ''['')
                 then unmarshal_any_map trimmed else None) of
        Some m \<Rightarrow> json_status m
      | None \<Rightarrow>
          (case cmdErr of
             None \<Rightarrow> status_only AuthStateUnknown ''exit 0, non-JSON output''
           | Some e \<Rightarrow> status_only AuthStateUnknown (''auth status failed: '' @ e)))"

text \<open>The command: the arguments and variables it gets, its combined output and its error.\<close>

definition AuthStatus ::
    "host \<Rightarrow> (string list \<Rightarrow> string list option \<Rightarrow> string \<times> string option) \<Rightarrow> Client
     \<Rightarrow> go_error + AuthStatusResult" where
  "AuthStatus h command c =
     (case ho_lookPath h (binaryPath c) of
        Inl e \<Rightarrow> Inl (EWrap ''claude binary not found: '' e [])
      | Inr binary \<Rightarrow>
          (case command [binary, ''auth'', ''status'', ''--json''] (cmdEnv (ho_environ h) (client_cliEnv c)) of
             (out, err) \<Rightarrow> Inr (parseAuthStatus out err)))"

definition AuthLogout ::
    "host \<Rightarrow> (string list \<Rightarrow> string list option \<Rightarrow> string \<times> go_error option) \<Rightarrow> Client \<Rightarrow> go_error option" where
  "AuthLogout h command c =
     (case ho_lookPath h (binaryPath c) of
        Inl e \<Rightarrow> Some (EWrap ''claude binary not found: '' e [])
      | Inr binary \<Rightarrow>
          (case command [binary, ''auth'', ''logout''] (cmdEnv (ho_environ h) (client_cliEnv c)) of
             (out, None) \<Rightarrow> None
           | (out, Some e) \<Rightarrow> Some (EWrap (''auth logout: '' @ trim_space out @ '': '') e [])))"

section \<open>Starting a login\<close>

type_synonym AuthMethod = string

definition AuthMethodClaudeAI :: AuthMethod where
  "AuthMethodClaudeAI = ''claudeai''"

definition AuthMethodConsole :: AuthMethod where
  "AuthMethodConsole = ''console''"

record authLoginConfig =
  lc_method :: AuthMethod
  lc_sso :: bool
  lc_email :: string
  lc_noBrowser :: bool

definition WithAuthMethod :: "AuthMethod \<Rightarrow> authLoginConfig \<Rightarrow> authLoginConfig" where
  "WithAuthMethod m c = c\<lparr>lc_method := m\<rparr>"

definition WithSSO :: "authLoginConfig \<Rightarrow> authLoginConfig" where
  "WithSSO c = c\<lparr>lc_sso := True\<rparr>"

definition WithLoginEmail :: "string \<Rightarrow> authLoginConfig \<Rightarrow> authLoginConfig" where
  "WithLoginEmail email c = c\<lparr>lc_email := email\<rparr>"

definition WithNoBrowser :: "authLoginConfig \<Rightarrow> authLoginConfig" where
  "WithNoBrowser c = c\<lparr>lc_noBrowser := True\<rparr>"

definition login_args :: "authLoginConfig \<Rightarrow> string list" where
  "login_args cfg =
     [''auth'', ''login'']
     @ (if lc_method cfg = AuthMethodConsole then [''--console'']
        else if lc_method cfg = AuthMethodClaudeAI then [''--claudeai''] else [])
     @ (if lc_sso cfg then [''--sso''] else [])
     @ (if lc_email cfg \<noteq> [] then [''--email'', lc_email cfg] else [])"

text \<open>The capture script: its path, the file it writes the URL to, and its text.\<close>

definition browserCaptureScript :: "string \<Rightarrow> string \<times> string \<times> string" where
  "browserCaptureScript dir =
     (let urlFile = path_join [dir, ''browser_url''] in
      (path_join [dir, ''browser.sh''], urlFile,
       ''#!/bin/sh'' @ [CHR 0x0A] @ ''printf '' @ [CHR 0x27] @ ''%s'' @ [CHR 0x27, CHR 0x20, CHR 0x22]
       @ ''$1'' @ [CHR 0x22] @ '' > '' @ urlFile @ [CHR 0x0A]))"

definition login_env :: "string list \<Rightarrow> cliEnv \<Rightarrow> string option \<Rightarrow> string list option" where
  "login_env environ e script =
     (case script of
        None \<Rightarrow> cmdEnv environ e
      | Some s \<Rightarrow>
          Some ((case cmdEnv environ e of None \<Rightarrow> environ | Some env \<Rightarrow> env) @ [''BROWSER='' @ s]))"

section \<open>What the CLI prints\<close>

text \<open>The length of a CSI or OSC escape sequence at the head, if there is one.\<close>

definition csi_length :: "string \<Rightarrow> nat option" where
  "csi_length s =
     (if take 2 s = [CHR 0x1B, CHR ''['']
      then let ps = takeWhile (\<lambda>c. is_digit c \<or> c = CHR '';'' \<or> c = CHR ''?'') (drop 2 s);
               is = takeWhile (byte_in 32 47) (drop (2 + length ps) s);
               n = 2 + length ps + length is in
           if n < length s \<and> byte_in 64 126 (s ! n) then Some (n + 1) else None
      else None)"

definition osc_length :: "string \<Rightarrow> nat option" where
  "osc_length s =
     (if take 2 s = [CHR 0x1B, CHR '']'']
      then let n = 2 + length (takeWhile (\<lambda>c. c \<noteq> CHR 0x07 \<and> c \<noteq> CHR 0x1B) (drop 2 s)) in
           if take 1 (drop n s) = [CHR 0x07] then Some (n + 1)
           else if take 2 (drop n s) = [CHR 0x1B, CHR 0x5C] then Some (n + 2)
           else None
      else None)"

definition escape_length :: "string \<Rightarrow> nat" where
  "escape_length s =
     (case csi_length s of Some n \<Rightarrow> n | None \<Rightarrow> (case osc_length s of Some n \<Rightarrow> n | None \<Rightarrow> 0))"

function strip_escapes :: "string \<Rightarrow> string" where
  "strip_escapes [] = []"
| "strip_escapes (c # cs) =
     (if escape_length (c # cs) = 0 then c # strip_escapes cs
      else strip_escapes (drop (escape_length (c # cs)) (c # cs)))"
  by pat_completeness auto
termination by (relation "measure length") auto

definition stripANSI :: "string \<Rightarrow> string" where
  "stripANSI s = rev (dropWhile (\<lambda>c. c = CHR 0x0D) (rev (strip_escapes s)))"

definition url_blank :: "char \<Rightarrow> bool" where
  "url_blank c \<longleftrightarrow> c = CHR 0x20 \<or> c = CHR 0x09 \<or> c = CHR 0x0D \<or> c = CHR 0x0A"

definition extractFirstHTTPS :: "string \<Rightarrow> string" where
  "extractFirstHTTPS line =
     (case index_of line ''https://'' of
        None \<Rightarrow> []
      | Some i \<Rightarrow> takeWhile (\<lambda>c. \<not> url_blank c) (drop i line))"

text \<open>\<^verbatim>\<open>oauthURLRe\<close>: the first run of non-blanks from an \<^verbatim>\<open>https://\<close> that goes on, at least one byte
  later, with the path of the authorization page.\<close>

fun oauthURL :: "string \<Rightarrow> string" where
  "oauthURL [] = []"
| "oauthURL (c # cs) =
     (let run = takeWhile (\<lambda>x. \<not> (url_blank x \<or> x = CHR 0x0C)) (c # cs) in
      if has_prefix run ''https://'' \<and> contains (drop 9 run) ''/oauth/authorize'' then run
      else oauthURL cs)"

definition visit_prefix :: string where
  "visit_prefix = ''If the browser didn'' @ [CHR 0x27] @ ''t open, visit: ''"

definition extractLoginURL :: "string \<Rightarrow> string" where
  "extractLoginURL line =
     (case cut line visit_prefix of
        (_, after, True) \<Rightarrow> trim_space after
      | _ \<Rightarrow>
          (let lower = to_lower line in
           if (contains lower ''visit'' \<or> contains lower ''open'') \<and> extractFirstHTTPS line \<noteq> []
           then extractFirstHTTPS line
           else oauthURL line))"

section \<open>Nobody is logged in by accident\<close>

lemma first_bool:
  "extractJSONBool m ks = Some b \<longleftrightarrow>
     (\<exists>as k bs. ks = as @ k # bs \<and> map_of m k = Some (JBool b)
        \<and> (\<forall>a \<in> set as. \<forall>c. map_of m a \<noteq> Some (JBool c)))"
proof (induction ks)
  case Nil
  then show ?case by simp
next
  case (Cons x ks)
  show ?case
  proof (cases "\<exists>c. map_of m x = Some (JBool c)")
    case True
    then show ?thesis by (auto simp: Cons_eq_append_conv intro: exI [of _ "[]"])
  next
    case False
    then have "extractJSONBool m (x # ks) = extractJSONBool m ks"
      by (auto split: option.splits json.splits)
    with Cons False show ?thesis by (auto simp: Cons_eq_append_conv) (metis list.set_intros(1) set_ConsD)+
  qed
qed

lemma blank_head: "is_ws c \<Longrightarrow> space_prefix space_seqs (c # cs) \<noteq> 0"
  by (subst space_prefix_0_iff [OF space_seqs_no_Nil]) (auto simp: is_ws_def space_seqs_def has_prefix_def)

lemma parsed_object_head:
  assumes "parse_json (trim_space s) = Some (JObj r ms)"
  shows "trim_space s \<noteq> [] \<and> hd (trim_space s) = CHR ''{''"
proof -
  obtain v rest where v: "parse_value (parse_fuel (trim_space s)) 0 (trim_space s) = Some (JObj r ms, rest)"
    using assms by (auto simp: parse_json_def split: option.splits if_splits)
  then obtain c cs where c: "trim_space s = c # cs"
    by (cases "trim_space s") (auto simp: parse_fuel_def)
  have "\<not> is_ws c" using trimmed_ends(1) [OF trim_space_idem [of s]] blank_head c by metis
  then have "skip_ws (c # cs) = c # cs" by simp
  then have "c = CHR ''{''"
    using v unfolding c
    by (auto simp: parse_fuel_def parse_lit_def parse_num_def split: if_splits option.splits list.splits)
  then show ?thesis using c by simp
qed

lemma no_bool: "extractJSONBool [] ks = None"
  by (induction ks) simp_all

lemma status_from_text:
  "as_Status (parseAuthStatus out err) = AuthStateAuthenticated \<longleftrightarrow>
     \<not> list_ex (contains (to_lower out)) (unsupported_texts @ logged_out_texts)
     \<and> (\<exists>r ms. parse_json (trim_space out) = Some (JObj r ms) \<and> members_ok ms
          \<and> extractJSONBool (rev ms) auth_markers = Some True)"
proof (cases "list_ex (contains (to_lower out)) (unsupported_texts @ logged_out_texts)")
  case True
  then show ?thesis by (auto simp: parseAuthStatus_def Let_def status_only_def)
next
  case False
  let ?t = "trim_space out"
  define m where "m = (if ?t \<noteq> [] \<and> (hd ?t = CHR ''{'' \<or> hd ?t = CHR ''['') then unmarshal_any_map ?t else None)"
  have f: "parseAuthStatus out err = (case m of Some m \<Rightarrow> json_status m
      | None \<Rightarrow> (case err of None \<Rightarrow> status_only AuthStateUnknown ''exit 0, non-JSON output''
           | Some e \<Rightarrow> status_only AuthStateUnknown (''auth status failed: '' @ e)))"
    using False by (auto simp: parseAuthStatus_def Let_def m_def)
  have "as_Status (json_status x) = AuthStateAuthenticated \<longleftrightarrow> extractJSONBool x auth_markers = Some True" for x
    by (simp add: json_status_def status_only_def split: option.splits bool.splits)
  moreover have "as_Status (parseAuthStatus out err) = AuthStateAuthenticated
      \<longleftrightarrow> (\<exists>x. m = Some x \<and> as_Status (json_status x) = AuthStateAuthenticated)"
    unfolding f by (auto simp: status_only_def split: option.splits)
  moreover have "m = Some x \<and> extractJSONBool x auth_markers = Some True \<longleftrightarrow>
      (\<exists>r ms. parse_json ?t = Some (JObj r ms) \<and> members_ok ms \<and> x = rev ms)
      \<and> extractJSONBool x auth_markers = Some True" for x
  proof (cases "parse_json ?t")
    case None
    then show ?thesis by (simp add: m_def unmarshal_any_map_def)
  next
    case (Some v)
    with parsed_object_head [of out] no_bool [of auth_markers] show ?thesis
      by (cases v) (auto simp: m_def unmarshal_any_map_def)
  qed
  ultimately show ?thesis using False by auto
qed

text \<open>
  C37: A CLI counts as logged in only when it says so: the state is authenticated exactly when its
  output holds none of the known error texts in any capitalisation and, blanks apart, is a JSON object
  whose first boolean among the known markers, in their order and the last of a repeated key counting,
  is true. However the command ended, that never makes it authenticated; and the flag and the message
  of a result agree with its state.
\<close>

theorem authenticated_only_if_said:
  "(as_Status (parseAuthStatus out err) = AuthStateAuthenticated \<longleftrightarrow>
     (\<forall>t \<in> set (unsupported_texts @ logged_out_texts). \<not> contains (to_lower out) t)
     \<and> (\<exists>r ms as k bs. parse_json (trim_space out) = Some (JObj r ms) \<and> members_ok ms
          \<and> auth_markers = as @ k # bs \<and> map_of (rev ms) k = Some (JBool True)
          \<and> (\<forall>a \<in> set as. \<forall>c. map_of (rev ms) a \<noteq> Some (JBool c))))
   \<and> as_LoggedIn (parseAuthStatus out err) = (as_Status (parseAuthStatus out err) = AuthStateAuthenticated)
   \<and> (as_Message (parseAuthStatus out err) = []) = (as_Status (parseAuthStatus out err) = AuthStateAuthenticated)"
proof (intro conjI)
  show "as_Status (parseAuthStatus out err) = AuthStateAuthenticated \<longleftrightarrow>
     (\<forall>t \<in> set (unsupported_texts @ logged_out_texts). \<not> contains (to_lower out) t)
     \<and> (\<exists>r ms as k bs. parse_json (trim_space out) = Some (JObj r ms) \<and> members_ok ms
          \<and> auth_markers = as @ k # bs \<and> map_of (rev ms) k = Some (JBool True)
          \<and> (\<forall>a \<in> set as. \<forall>c. map_of (rev ms) a \<noteq> Some (JBool c)))"
    unfolding status_from_text first_bool list_ex_iff by blast
qed (auto simp: parseAuthStatus_def Let_def status_only_def json_status_def
       split: option.splits bool.splits if_splits)

theorem authenticated_only_if_said_witness:
  "as_Status (parseAuthStatus (''{'' @ [CHR 0x22] @ ''authenticated'' @ [CHR 0x22] @ '':true}'') None) = AuthStateAuthenticated
   \<and> as_LoggedIn (parseAuthStatus (''{'' @ [CHR 0x22] @ ''authenticated'' @ [CHR 0x22] @ '':true}'') None)"
proof -
  have "as_Status (parseAuthStatus (''{'' @ [CHR 0x22] @ ''authenticated'' @ [CHR 0x22] @ '':true}'') None)
      = AuthStateAuthenticated"
    by code_simp
  with authenticated_only_if_said [of "''{'' @ [CHR 0x22] @ ''authenticated'' @ [CHR 0x22] @ '':true}''" None]
  show ?thesis by blast
qed

end
