(* ===== verification/Login.thy ===== *)
theory Login
  imports Auth
begin

text \<open>
  auth.go and auth\_submit.go: a login in progress. The output of the CLI is read line by line into
  the URLs and the outcome; codes are submitted to its prompt or to its callback server and wait for
  the verdict. What the person pastes, what the CLI prints, the order of reports and wake-ups, and
  the answers of the callback server are arguments.
\<close>

section \<open>The outcome\<close>

text \<open>\<open>LoginError\<close> is the verdict on a code (its message, and whether another code may follow),
  \<open>LoginFinished\<close> the refusal of a submission after the verdict it carries.\<close>

datatype login_error =
    LoginError string bool
  | LoginOther go_error
  | LoginFinished "login_error option"

definition errLoginCancelled :: login_error where
  "errLoginCancelled = LoginOther (ENew ''auth login: cancelled'')"

record loginOutcome =
  lo_invalid :: nat
  lo_invalidMsg :: string
  lo_finished :: bool
  lo_err :: "login_error option"

definition newLoginOutcome :: loginOutcome where
  "newLoginOutcome = \<lparr>lo_invalid = 0, lo_invalidMsg = [], lo_finished = False, lo_err = None\<rparr>"

definition finish_outcome :: "login_error option \<Rightarrow> loginOutcome \<Rightarrow> loginOutcome" where
  "finish_outcome err out =
     (if lo_finished out then out else out\<lparr>lo_finished := True, lo_err := err\<rparr>)"

definition exit_verdict :: "go_error option \<Rightarrow> login_error option" where
  "exit_verdict err =
     map_option (\<lambda>e. LoginOther (EWrap ''auth login: CLI exited without reporting an outcome: '' e [])) err"

definition exit_outcome :: "go_error option \<Rightarrow> loginOutcome \<Rightarrow> loginOutcome" where
  "exit_outcome err out = finish_outcome (exit_verdict err) out"

definition failed_message :: "string \<Rightarrow> string" where
  "failed_message line =
     (case cut line ''Login failed'' of
        (_, msg, _) \<Rightarrow> trim_space (dropWhile (\<lambda>c. c = CHR '':'' \<or> c = CHR ''.'') msg))"

definition invalid_message :: "string \<Rightarrow> string" where
  "invalid_message line =
     trim_space (drop (case index_of line ''Invalid code'' of None \<Rightarrow> 0 | Some i \<Rightarrow> i) line)"

definition observe_line :: "string \<Rightarrow> loginOutcome \<Rightarrow> loginOutcome" where
  "observe_line line out =
     (if contains line ''Login successful'' then finish_outcome None out
      else if contains line ''Login failed'' then
        finish_outcome (Some (LoginError (failed_message line) False)) out
      else if contains line ''Invalid code'' then
        out\<lparr>lo_invalid := lo_invalid out + 1, lo_invalidMsg := invalid_message line\<rparr>
      else out)"

text \<open>The point a submission's verdict is counted from.\<close>

definition begin_submission :: "loginOutcome \<Rightarrow> login_error + nat" where
  "begin_submission out =
     (if lo_finished out then Inl (LoginFinished (lo_err out)) else Inr (lo_invalid out))"

text \<open>One look at the outcome under its lock: nothing when there is no verdict yet.\<close>

definition verdict_since :: "nat \<Rightarrow> loginOutcome \<Rightarrow> login_error option option" where
  "verdict_since seen out =
     (if lo_finished out then Some (lo_err out)
      else if seen < lo_invalid out then Some (Some (LoginError (lo_invalidMsg out) True))
      else None)"

text \<open>What happens while a submission waits: reports of the reader and the canceller, wake-ups of
  the waiter by a report, and the end of its context.\<close>

datatype report = Observed string | ExitReport "go_error option" | Cancelled

fun apply_report :: "report \<Rightarrow> loginOutcome \<Rightarrow> loginOutcome" where
  "apply_report (Observed line) out = observe_line line out"
| "apply_report (ExitReport err) out = exit_outcome err out"
| "apply_report Cancelled out = finish_outcome (Some errLoginCancelled) out"

datatype wait_step = Report report | Wake | CtxDone go_error

text \<open>The wait after its first look, \<open>None\<close> when the steps end before it does.\<close>

fun await_steps :: "nat \<Rightarrow> loginOutcome \<Rightarrow> wait_step list \<Rightarrow> login_error option option" where
  "await_steps seen out [] = None"
| "await_steps seen out (Report r # ss) = await_steps seen (apply_report r out) ss"
| "await_steps seen out (Wake # ss) =
     (case verdict_since seen out of Some v \<Rightarrow> Some v | None \<Rightarrow> await_steps seen out ss)"
| "await_steps seen out (CtxDone e # ss) = Some (Some (LoginOther e))"

definition await :: "nat \<Rightarrow> loginOutcome \<Rightarrow> wait_step list \<Rightarrow> login_error option option" where
  "await seen out ss = (case verdict_since seen out of Some v \<Rightarrow> Some v | None \<Rightarrow> await_steps seen out ss)"

section \<open>Submitting\<close>

text \<open>\<open>lp_stdin\<close> writes to the prompt; it and the outcome are missing in a process that was not
  started by AuthLogin.\<close>

record LoginProcess =
  lp_URL :: string
  lp_AutoOpenURL :: string
  lp_callbackPort :: int
  lp_stdin :: "(string \<Rightarrow> go_error option) option"
  lp_outcome :: "loginOutcome option"

definition isLocalhostURL :: "string \<Rightarrow> bool" where
  "isLocalhostURL s \<longleftrightarrow> has_prefix s ''http://localhost'' \<or> has_prefix s ''https://localhost''"

definition manualCodeFromURL :: "string \<Rightarrow> string option" where
  "manualCodeFromURL s =
     (if \<not> has_prefix s ''https://'' then None
      else case url_Parse s of
        None \<Rightarrow> None
      | Some u \<Rightarrow>
          if \<not> has_suffix (url_Path u) ''/oauth/code/callback'' then None
          else (let code = query_get (url_RawQuery u) ''code''; state = query_get (url_RawQuery u) ''state'' in
                if code = [] \<or> state = [] then None else Some (code @ ''#'' @ state)))"

definition validateManualCode :: "string \<Rightarrow> login_error option" where
  "validateManualCode code =
     (case cut code ''#'' of
        (c, s, ok) \<Rightarrow>
          if \<not> ok \<or> c = [] \<or> s = [] \<or> contains_any code [CHR 0x20, CHR 0x09, CHR 0x0D, CHR 0x0A] then
            Some (LoginError (''invalid code: expected CODE#STATE as shown on Claude'' @ [CHR 0x27] @ ''s page'') True)
          else None)"

text \<open>The code and the state in what was pasted; an unparsable URL is refused with an error of
  \<^verbatim>\<open>net/url\<close>, whose text is left open.\<close>

definition pasted_code :: "string \<Rightarrow> go_error + string \<times> string" where
  "pasted_code code =
     (if isLocalhostURL code then
        (case url_Parse code of
           None \<Rightarrow> Inl (EWrap ''parse redirect URL: '' (EExt ''url error'') [])
         | Some u \<Rightarrow> Inr (query_get (url_RawQuery u) ''code'', query_get (url_RawQuery u) ''state''))
      else case cut code ''#'' of
        (c, s, True) \<Rightarrow> Inr (c, s)
      | _ \<Rightarrow> Inl (ENew ''expected redirect URL (http://localhost:...) or CODE#STATE format''))"

definition callback_url :: "int \<Rightarrow> string \<Rightarrow> string \<Rightarrow> string" where
  "callback_url port code state =
     ''http://localhost:'' @ show_int port @ ''/callback?code='' @ QueryEscape code
     @ ''&state='' @ QueryEscape state"

text \<open>The URL that was asked, if any, and the error. A body that cannot be read counts as far as it
  was read; here as nothing.\<close>

definition submitCallback ::
    "(string \<Rightarrow> http_answer) \<Rightarrow> LoginProcess \<Rightarrow> string \<Rightarrow> string option \<times> go_error option" where
  "submitCallback net p code =
     (if lp_callbackPort p = 0 then
        (None, Some (ENew ''callback port not available (requires WithNoBrowser)''))
      else case pasted_code code of
        Inl e \<Rightarrow> (None, Some e)
      | Inr (authCode, state) \<Rightarrow>
          if authCode = [] then (None, Some (ENew ''no authorization code found in input''))
          else if state = [] then (None, Some (ENew ''no state parameter found in input''))
          else (let u = callback_url (lp_callbackPort p) authCode state in
            (Some u,
             (case net u of
                NoRequest e \<Rightarrow> Some (EWrap ''callback request: '' e [])
              | NoResponse e \<Rightarrow> Some (EWrap ''callback request: '' e [])
              | Response status _ body \<Rightarrow>
                  if status \<noteq> 200 then
                    Some (ENew (''callback returned '' @ show_int status @ '': ''
                      @ (case body of Inl _ \<Rightarrow> [] | Inr b \<Rightarrow> b)))
                  else None))))"

definition SubmitCode :: "(string \<Rightarrow> http_answer) \<Rightarrow> LoginProcess \<Rightarrow> string \<Rightarrow> string option \<times> go_error option" where
  "SubmitCode net p code = submitCallback net p code"

text \<open>What reached the CLI, and the answer of the call: \<open>None\<close> while it waits.\<close>

datatype delivery = ToPrompt string | ToCallback string

type_synonym submission = "delivery list \<times> login_error option option"

definition refused :: "login_error \<Rightarrow> submission" where
  "refused e = ([], Some (Some e))"

text \<open>\<open>pre\<close> are the reports between the begin of the submission and its first look at the outcome.\<close>

definition SubmitManualCode ::
    "LoginProcess \<Rightarrow> report list \<Rightarrow> wait_step list \<Rightarrow> string \<Rightarrow> submission" where
  "SubmitManualCode p pre steps code0 =
     (let code = trim_space code0 in
      case validateManualCode code of
        Some e \<Rightarrow> refused e
      | None \<Rightarrow>
          (case (lp_stdin p, lp_outcome p) of
             (Some write, Some out) \<Rightarrow>
               (case begin_submission out of
                  Inl e \<Rightarrow> refused e
                | Inr seen \<Rightarrow>
                    (let text = code @ [CHR 0x0A] in
                     case write text of
                       Some e \<Rightarrow> ([ToPrompt text], Some (Some (LoginOther (EWrap ''auth login: write code: '' e []))))
                     | None \<Rightarrow> ([ToPrompt text], await seen (fold apply_report pre out) steps)))
           | _ \<Rightarrow> refused (LoginOther (ENew ''auth login: no CLI prompt to submit to''))))"

definition Submit ::
    "(string \<Rightarrow> http_answer) \<Rightarrow> LoginProcess \<Rightarrow> report list \<Rightarrow> wait_step list \<Rightarrow> string \<Rightarrow> submission" where
  "Submit net p pre steps input0 =
     (let input = trim_space input0 in
      if \<not> isLocalhostURL input then
        SubmitManualCode p pre steps
          (case manualCodeFromURL input of Some code \<Rightarrow> code | None \<Rightarrow> input)
      else case lp_outcome p of
        None \<Rightarrow> refused (LoginOther (ENew ''auth login: no CLI to submit to''))
      | Some out \<Rightarrow>
          (case begin_submission out of
             Inl e \<Rightarrow> refused e
           | Inr seen \<Rightarrow>
               (case submitCallback net p input of
                  (asked, Some e) \<Rightarrow>
                    ((case asked of None \<Rightarrow> [] | Some u \<Rightarrow> [ToCallback u]), Some (Some (LoginOther e)))
                | (asked, None) \<Rightarrow>
                    ((case asked of None \<Rightarrow> [] | Some u \<Rightarrow> [ToCallback u]),
                     await seen (fold apply_report pre out) steps))))"

text \<open>\<^verbatim>\<open>Cancel\<close> records its verdict; then it ends the process tree, whose error it returns.\<close>

definition login_Cancel :: "go_error option \<Rightarrow> LoginProcess \<Rightarrow> LoginProcess \<times> go_error option" where
  "login_Cancel killed p =
     (p\<lparr>lp_outcome := map_option (finish_outcome (Some errLoginCancelled)) (lp_outcome p)\<rparr>, killed)"

section \<open>The start of a login\<close>

text \<open>The port in the redirect of a URL; the texts of the errors are only logged.\<close>

definition extractCallbackPort :: "string \<Rightarrow> int option" where
  "extractCallbackPort autoURL =
     (case url_Parse autoURL of
        None \<Rightarrow> None
      | Some u \<Rightarrow>
          (let redirectURI = query_get (url_RawQuery u) ''redirect_uri'' in
           if redirectURI = [] then None
           else case url_Parse redirectURI of
             None \<Rightarrow> None
           | Some ru \<Rightarrow>
               (let port = url_Port ru in
                if port = [] \<or> \<not> int64_range (int (read_nat 0 port)) then None
                else Some (int (read_nat 0 port)))))"

text \<open>The polls of the capture file before the deadline, what each of them reads.\<close>

fun waitForAutoURL :: "(go_error + string) list \<Rightarrow> string option" where
  "waitForAutoURL [] = None"
| "waitForAutoURL (Inl _ # polls) = waitForAutoURL polls"
| "waitForAutoURL (Inr data # polls) = (if data \<noteq> [] then Some data else waitForAutoURL polls)"

text \<open>The reader: both URL channels hold one value, so the first one stays.\<close>

record login_reader =
  lr_url :: "string option"
  lr_localhost :: "string option"
  lr_outcome :: loginOutcome

definition offer :: "string \<Rightarrow> string option \<Rightarrow> string option" where
  "offer u ch = (if u = [] then ch else case ch of None \<Rightarrow> Some u | Some v \<Rightarrow> Some v)"

definition login_line :: "string \<Rightarrow> login_reader \<Rightarrow> login_reader" where
  "login_line raw r =
     (let line = stripANSI raw in
      \<lparr>lr_url = offer (extractLoginURL line) (lr_url r),
       lr_localhost = (if contains line ''localhost'' then offer (extractFirstHTTPS line) (lr_localhost r)
                       else lr_localhost r),
       lr_outcome = observe_line line (lr_outcome r)\<rparr>)"

definition login_read :: "string list \<Rightarrow> login_reader" where
  "login_read lines =
     fold login_line lines \<lparr>lr_url = None, lr_localhost = None, lr_outcome = newLoginOutcome\<rparr>"

text \<open>The URL a browser would have opened, and the port of the callback server.\<close>

definition callback_target :: "string option \<Rightarrow> string option \<Rightarrow> string \<times> int" where
  "callback_target captured localhost =
     (let auto = (case captured of None \<Rightarrow> [] | Some u \<Rightarrow> u);
          port = (case captured of None \<Rightarrow> 0
                  | Some u \<Rightarrow> (case extractCallbackPort u of None \<Rightarrow> 0 | Some q \<Rightarrow> q)) in
      if port = 0 then
        (case localhost of
           None \<Rightarrow> (auto, port)
         | Some u \<Rightarrow>
             ((if auto = [] then u else auto),
              (case extractCallbackPort u of None \<Rightarrow> port | Some q \<Rightarrow> q)))
      else (auto, port))"

text \<open>What the operating system answers on the way to a running CLI, and how the wait for its URL
  ends: with the first URL among the lines read until the capture was polled; with its exit; or with
  the context of the caller. Without a URL among the lines the first end is impossible.\<close>

record login_os =
  los_tempDir :: "go_error + string"
  los_script :: "go_error option"
  los_outPipe :: "go_error option"
  los_stdinPipe :: "go_error option"
  los_start :: "string list \<Rightarrow> string list option \<Rightarrow> go_error option"

datatype login_wait =
    GotURL "(go_error + string) list" "string list"
  | LoginExited "go_error option"
  | LoginCtxDone go_error

definition login_result ::
    "(string \<Rightarrow> go_error option) \<Rightarrow> bool \<Rightarrow> login_wait \<Rightarrow> go_error + LoginProcess option" where
  "login_result write capturing w =
     (case w of
        GotURL polls lines \<Rightarrow>
          (let r = login_read lines;
               (auto, port) = callback_target (if capturing then waitForAutoURL polls else None) (lr_localhost r) in
           Inr (map_option (\<lambda>u. \<lparr>lp_URL = u, lp_AutoOpenURL = auto, lp_callbackPort = port,
                                  lp_stdin = Some write, lp_outcome = Some (lr_outcome r)\<rparr>) (lr_url r)))
      | LoginExited (Some e) \<Rightarrow> Inl (EWrap ''auth login: '' e [])
      | LoginExited None \<Rightarrow> Inr None
      | LoginCtxDone e \<Rightarrow> Inl e)"

definition AuthLogin ::
    "host \<Rightarrow> login_os \<Rightarrow> (string \<Rightarrow> go_error option) \<Rightarrow> login_wait \<Rightarrow> Client
     \<Rightarrow> (authLoginConfig \<Rightarrow> authLoginConfig) list \<Rightarrow> go_error + LoginProcess option" where
  "AuthLogin h os write w c opts =
     (let cfg = fold (\<lambda>f x. f x) opts
            \<lparr>lc_method = [], lc_sso = False, lc_email = [], lc_noBrowser = False\<rparr> in
      case ho_lookPath h (binaryPath c) of
        Inl e \<Rightarrow> Inl (EWrap ''claude binary not found: '' e [])
      | Inr binary \<Rightarrow>
          (case (if lc_noBrowser cfg then
                   (case los_tempDir os of
                      Inl e \<Rightarrow> Inl (EWrap ''auth login: create temp dir: '' e [])
                    | Inr dir \<Rightarrow>
                        (case los_script os of
                           Some e \<Rightarrow>
                             Inl (EWrap ''auth login: '' (EWrap ''write browser capture script: '' e []) [])
                         | None \<Rightarrow> Inr (Some (fst (browserCaptureScript dir)))))
                 else Inr None) of
             Inl e \<Rightarrow> Inl e
           | Inr script \<Rightarrow>
               (case (los_outPipe os, los_stdinPipe os,
                      los_start os (binary # login_args cfg)
                        (login_env (ho_environ h) (client_cliEnv c) script)) of
                  (Some e, _, _) \<Rightarrow> Inl (EWrap ''auth login: output pipe: '' e [])
                | (None, Some e, _) \<Rightarrow> Inl (EWrap ''auth login: stdin pipe: '' e [])
                | (None, None, Some e) \<Rightarrow> Inl (EWrap ''auth login: start: '' e [])
                | (None, None, None) \<Rightarrow> login_result write (lc_noBrowser cfg) w)))"

section \<open>The first verdict\<close>

text \<open>A report that ends the login, and the text of one that does not: an invalid code.\<close>

fun final_verdict :: "report \<Rightarrow> login_error option option" where
  "final_verdict (Observed line) =
     (if contains line ''Login successful'' then Some None
      else if contains line ''Login failed'' then Some (Some (LoginError (failed_message line) False))
      else None)"
| "final_verdict (ExitReport err) = Some (exit_verdict err)"
| "final_verdict Cancelled = Some (Some errLoginCancelled)"

fun invalid_text :: "report \<Rightarrow> string option" where
  "invalid_text (Observed line) =
     (if final_verdict (Observed line) = None \<and> contains line ''Invalid code''
      then Some (invalid_message line) else None)"
| "invalid_text _ = None"

definition first_final :: "report list \<Rightarrow> login_error option option" where
  "first_final rs = (case List.map_filter final_verdict rs of [] \<Rightarrow> None | v # _ \<Rightarrow> Some v)"

definition invalid_texts :: "report list \<Rightarrow> string list" where
  "invalid_texts rs = List.map_filter invalid_text rs"

definition outcome_after :: "report list \<Rightarrow> loginOutcome" where
  "outcome_after rs = fold apply_report rs newLoginOutcome"

lemma first_final_simps [simp]:
  "first_final [] = None"
  "first_final (rs @ [r]) = (case first_final rs of None \<Rightarrow> final_verdict r | Some v \<Rightarrow> Some v)"
  by (auto simp: first_final_def List.map_filter_def split: option.splits list.splits)

lemma first_final_append:
  "first_final (rs @ qs) = (case first_final rs of None \<Rightarrow> first_final qs | Some v \<Rightarrow> Some v)"
  by (auto simp: first_final_def List.map_filter_def split: option.splits list.splits)

lemma invalid_texts_simps [simp]:
  "invalid_texts [] = []"
  "invalid_texts (rs @ qs) = invalid_texts rs @ invalid_texts qs"
  by (simp_all add: invalid_texts_def List.map_filter_def)

text \<open>What the outcome holds after any reports.\<close>

lemma report_effect:
  "apply_report r out = (case final_verdict r of Some v \<Rightarrow> finish_outcome v out
     | None \<Rightarrow> (case invalid_text r of
                 Some t \<Rightarrow> out\<lparr>lo_invalid := lo_invalid out + 1, lo_invalidMsg := t\<rparr> | None \<Rightarrow> out))"
  by (cases r) (simp_all add: observe_line_def exit_outcome_def)

lemma final_is_not_invalid: "final_verdict r = Some v \<Longrightarrow> invalid_text r = None"
  by (cases r) simp_all

lemma outcome_holds:
  "lo_finished (outcome_after rs) = (first_final rs \<noteq> None)
   \<and> (first_final rs \<noteq> None \<longrightarrow> lo_err (outcome_after rs) = the (first_final rs))
   \<and> lo_invalid (outcome_after rs) = length (invalid_texts rs)
   \<and> (invalid_texts rs \<noteq> [] \<longrightarrow> lo_invalidMsg (outcome_after rs) = last (invalid_texts rs))"
proof (induction rs rule: rev_induct)
  case Nil
  then show ?case by (simp add: outcome_after_def newLoginOutcome_def)
next
  case (snoc r rs)
  have step: "outcome_after (rs @ [r]) = apply_report r (outcome_after rs)" by (simp add: outcome_after_def)
  have one: "invalid_texts [r] = (case invalid_text r of None \<Rightarrow> [] | Some t \<Rightarrow> [t])"
    by (simp add: invalid_texts_def List.map_filter_def split: option.split)
  show ?case
  proof (cases "final_verdict r")
    case None
    with snoc show ?thesis
      by (cases "invalid_text r"; cases "first_final rs") (simp_all add: step one report_effect)
  next
    case (Some v)
    with snoc final_is_not_invalid [OF Some] show ?thesis
      by (cases "first_final rs") (simp_all add: step one report_effect finish_outcome_def)
  qed
qed

lemma verdict_after:
  assumes "first_final rs = None"
  shows "verdict_since (length (invalid_texts rs)) (outcome_after (rs @ qs)) =
     (case first_final qs of Some v \<Rightarrow> Some v
      | None \<Rightarrow> if invalid_texts qs = [] then None
               else Some (Some (LoginError (last (invalid_texts qs)) True)))"
proof (cases "first_final qs")
  case None
  then have f: "first_final (rs @ qs) = None" using assms by (simp add: first_final_append)
  show ?thesis using outcome_holds [of "rs @ qs"] f None by (simp add: verdict_since_def)
next
  case (Some v)
  then have f: "first_final (rs @ qs) = Some v" using assms by (simp add: first_final_append)
  show ?thesis using outcome_holds [of "rs @ qs"] f Some by (simp add: verdict_since_def)
qed

text \<open>The reports among the steps of a wait.\<close>

definition reports_of :: "wait_step list \<Rightarrow> report list" where
  "reports_of ss = List.map_filter (\<lambda>s. case s of Report r \<Rightarrow> Some r | _ \<Rightarrow> None) ss"

lemma reports_of_simps [simp]:
  "reports_of [] = []" "reports_of (Report r # ss) = r # reports_of ss"
  "reports_of (Wake # ss) = reports_of ss" "reports_of (CtxDone e # ss) = reports_of ss"
  by (simp_all add: reports_of_def List.map_filter_def)

definition verdict_of :: "report list \<Rightarrow> login_error option option" where
  "verdict_of qs =
     (case first_final qs of Some v \<Rightarrow> Some v
      | None \<Rightarrow> if invalid_texts qs = [] then None
               else Some (Some (LoginError (last (invalid_texts qs)) True)))"

lemma await_steps_result:
  assumes "first_final rs = None"
    and "await_steps (length (invalid_texts rs)) (outcome_after (rs @ qs)) ss = Some res"
  shows "(\<exists>n. verdict_of (qs @ reports_of (take n ss)) = Some res)
     \<or> (\<exists>e. CtxDone e \<in> set ss \<and> res = Some (LoginOther e))"
  using assms(2)
proof (induction ss arbitrary: qs)
  case Nil
  then show ?case by simp
next
  case (Cons s ss)
  show ?case
  proof (cases s)
    case (Report r)
    have "outcome_after (rs @ (qs @ [r])) = apply_report r (outcome_after (rs @ qs))"
      by (simp add: outcome_after_def)
    with Cons.prems Report have "await_steps (length (invalid_texts rs)) (outcome_after (rs @ (qs @ [r]))) ss = Some res"
      by simp
    from Cons.IH [OF this] show ?thesis
    proof (elim disjE exE)
      fix n assume "verdict_of ((qs @ [r]) @ reports_of (take n ss)) = Some res"
      then have "verdict_of (qs @ reports_of (take (Suc n) (s # ss))) = Some res" using Report by simp
      then show ?thesis by blast
    qed auto
  next
    case Wake
    then show ?thesis
    proof (cases "verdict_of qs")
      case None
      with Cons.prems Wake have "await_steps (length (invalid_texts rs)) (outcome_after (rs @ qs)) ss = Some res"
        by (simp add: verdict_after [OF assms(1)] verdict_of_def [symmetric])
      from Cons.IH [OF this] show ?thesis
      proof (elim disjE exE)
        fix n assume "verdict_of (qs @ reports_of (take n ss)) = Some res"
        then have "verdict_of (qs @ reports_of (take (Suc n) (s # ss))) = Some res" using Wake by simp
        then show ?thesis by blast
      qed auto
    next
      case (Some v)
      with Cons.prems Wake have "verdict_of (qs @ reports_of (take 0 (s # ss))) = Some res"
        by (simp add: verdict_after [OF assms(1)] verdict_of_def [symmetric])
      then show ?thesis by blast
    qed
  next
    case (CtxDone e)
    with Cons.prems show ?thesis by auto
  qed
qed

lemma await_steps_returns:
  assumes "first_final rs = None" and "verdict_of (qs @ reports_of ss) \<noteq> None"
  shows "await_steps (length (invalid_texts rs)) (outcome_after (rs @ qs)) (ss @ [Wake]) \<noteq> None"
  using assms(2)
proof (induction ss arbitrary: qs)
  case Nil
  then show ?case by (auto simp: verdict_after [OF assms(1)] verdict_of_def [symmetric])
next
  case (Cons s ss)
  show ?case
  proof (cases s)
    case (Report r)
    have "outcome_after (rs @ (qs @ [r])) = apply_report r (outcome_after (rs @ qs))"
      by (simp add: outcome_after_def)
    with Cons.IH [of "qs @ [r]"] Cons.prems Report show ?thesis by simp
  next
    case Wake
    with Cons show ?thesis by (auto split: option.splits)
  qed simp
qed

text \<open>
  C38: A submission is answered by what the CLI reports after it began, and by the first verdict: it is
  accepted only while nothing has ended the login, an answer it gets is the first report since then
  that ended the login (success, failure, exit or cancellation), or, while there is none, the latest
  invalid code since then as a retryable error, or the end of its own context; an invalid code
  reported before it began never answers it. Whatever the order of reports and wake-ups, a wake-up
  after such a report ends the wait.
\<close>

theorem login_verdict_is_the_first:
  assumes "begin_submission (outcome_after before) = Inr seen"
  shows "first_final before = None
    \<and> (\<forall>pre steps res. await seen (outcome_after (before @ pre)) steps = Some res \<longrightarrow>
        (\<exists>n. let since = pre @ reports_of (take n steps) in
           first_final since = Some res
           \<or> (first_final since = None \<and> invalid_texts since \<noteq> []
              \<and> res = Some (LoginError (last (invalid_texts since)) True)))
        \<or> (\<exists>e. CtxDone e \<in> set steps \<and> res = Some (LoginOther e)))
    \<and> (\<forall>pre steps. first_final (pre @ reports_of steps) \<noteq> None \<or> invalid_texts (pre @ reports_of steps) \<noteq> [] \<longrightarrow>
        await seen (outcome_after (before @ pre)) (steps @ [Wake]) \<noteq> None)"
proof -
  have f: "first_final before = None" and seen: "seen = length (invalid_texts before)"
    using assms outcome_holds [of before] by (auto simp: begin_submission_def split: if_splits)
  have v: "verdict_of qs = Some res \<longleftrightarrow> first_final qs = Some res
      \<or> (first_final qs = None \<and> invalid_texts qs \<noteq> [] \<and> res = Some (LoginError (last (invalid_texts qs)) True))"
    for qs res by (auto simp: verdict_of_def split: option.splits)
  have look: "verdict_since seen (outcome_after (before @ pre)) = verdict_of pre" for pre
    using verdict_after [OF f] by (simp add: seen verdict_of_def)
  have "(\<exists>n. verdict_of (pre @ reports_of (take n steps)) = Some res)
      \<or> (\<exists>e. CtxDone e \<in> set steps \<and> res = Some (LoginOther e))"
    if "await seen (outcome_after (before @ pre)) steps = Some res" for pre steps res
  proof (cases "verdict_of pre")
    case None
    with that look show ?thesis
      using await_steps_result [OF f, of pre steps res] by (simp add: await_def seen)
  next
    case (Some w)
    with that look have "verdict_of (pre @ reports_of (take 0 steps)) = Some res" by (simp add: await_def)
    then show ?thesis by blast
  qed
  moreover have "await seen (outcome_after (before @ pre)) (steps @ [Wake]) \<noteq> None"
    if "verdict_of (pre @ reports_of steps) \<noteq> None" for pre steps
    using await_steps_returns [OF f that] look [of pre] by (auto simp: await_def seen split: option.splits)
  moreover have "verdict_of qs \<noteq> None \<longleftrightarrow> first_final qs \<noteq> None \<or> invalid_texts qs \<noteq> []" for qs
    by (auto simp: verdict_of_def split: option.splits)
  ultimately show ?thesis using f unfolding Let_def v [symmetric] by simp
qed

theorem login_verdict_is_the_first_witness:
  "await 1 (outcome_after [Observed ''Invalid code, try again'']) [Report (Observed ''Login successful.''), Wake] = Some None
   \<and> first_final [Observed ''Invalid code, try again''] = None"
proof -
  have b: "begin_submission (outcome_after [Observed ''Invalid code, try again'']) = Inr 1" by code_simp
  have "await 1 (outcome_after [Observed ''Invalid code, try again'']) [Report (Observed ''Login successful.''), Wake]
      = Some None"
    by code_simp
  with login_verdict_is_the_first [OF b] show ?thesis by blast
qed

text \<open>A CLI that ends with status 0 and says nothing counts as signed in.\<close>

lemma silent_exit_is_success:
  "await 0 newLoginOutcome [Report (ExitReport None), Wake] = Some None"
  by (simp add: await_def verdict_since_def newLoginOutcome_def exit_outcome_def finish_outcome_def exit_verdict_def)

section \<open>Codes that were pasted\<close>

text \<open>Bytes of visible ASCII: what a code, a state and the URLs made of them consist of.\<close>

definition visible :: "string \<Rightarrow> bool" where
  "visible s = list_all (\<lambda>c. 32 < (of_char c :: nat) \<and> (of_char c :: nat) < 127) s"

lemma space_heads: "p \<in> set (space_seqs @ map rev space_seqs) \<Longrightarrow>
    (of_char (hd p) :: nat) \<le> 32 \<or> 127 \<le> (of_char (hd p) :: nat)"
proof -
  have "\<forall>p \<in> set (space_seqs @ map rev space_seqs). (of_char (hd p) :: nat) \<le> 32 \<or> 127 \<le> (of_char (hd p) :: nat)"
    by code_simp
  then show "p \<in> set (space_seqs @ map rev space_seqs) \<Longrightarrow>
    (of_char (hd p) :: nat) \<le> 32 \<or> 127 \<le> (of_char (hd p) :: nat)" by blast
qed

lemma visible_no_space:
  assumes "visible s" "seqs = space_seqs \<or> seqs = map rev space_seqs"
  shows "trim_seqs seqs s = s"
proof (rule trim_seqs_fixed)
  have n: "[] \<notin> set seqs" using assms(2) space_seqs_no_Nil by auto
  have "\<not> has_prefix s p" if p: "p \<in> set seqs" for p
  proof
    assume h: "has_prefix s p"
    have "p \<noteq> []" using p n by blast
    with h have "s \<noteq> []" "hd p = hd s" by (cases s; cases p; auto simp: has_prefix_def)+
    then have "32 < (of_char (hd p) :: nat) \<and> (of_char (hd p) :: nat) < 127"
      using assms(1) by (cases s) (simp_all add: visible_def)
    with space_heads [of p] p assms(2) show False by auto
  qed
  then show "space_prefix seqs s = 0" using space_prefix_0_iff [OF n] by blast
qed

lemma visible_rev [simp]: "visible (rev s) = visible s"
  by (simp add: visible_def)

lemma visible_trim: "visible s \<Longrightarrow> trim_space s = s"
  by (simp add: trim_space_def trim_left_space_def trim_right_space_def visible_no_space)

lemma visible_append [simp]: "visible (a @ b) = (visible a \<and> visible b)"
  by (simp add: visible_def)

lemma visible_no_blank: "visible s \<Longrightarrow> \<not> contains_any s [CHR 0x20, CHR 0x09, CHR 0x0D, CHR 0x0A]"
  by (induction s) (auto simp: visible_def contains_any_def)

lemma visible_digits: "list_all is_digit s \<Longrightarrow> visible s"
  by (auto simp: visible_def list_all_iff is_digit_def)

lemma visible_code_query: "visible (code_query code state)"
proof -
  have "32 < (of_char c :: nat) \<and> (of_char c :: nat) < 127" if "escaped c" for c
    using that by (auto simp: escaped_def unreserved_def ascii_lower_def ascii_upper_def is_digit_def)
  then show ?thesis unfolding visible_def list_all_iff using code_query_chars by fastforce
qed

lemma callback_url_split:
  "callback_url port code state
     = ''http'' @ ''://'' @ (''localhost:'' @ show_int port) @ ''/callback'' @ ''?'' @ code_query code state"
  by (simp add: callback_url_def code_query_def)

lemma last_port: "list_all is_digit ds \<Longrightarrow> last_index_byte CHR '':'' (h @ CHR '':'' # ds) = Some (length h)"
proof -
  assume "list_all is_digit ds"
  then have "CHR '':'' \<notin> set (rev ds)" by (auto simp: list_all_iff is_digit_def)
  then have "index_byte CHR '':'' (rev ds @ CHR '':'' # rev h) = Some (length (rev ds))"
    by (rule index_byte_append)
  then show ?thesis by (simp add: last_index_byte_def)
qed

lemma digit_codes: "list_all is_digit ds \<Longrightarrow> c \<in> set ds \<Longrightarrow> 48 \<le> (of_char c :: nat) \<and> (of_char c :: nat) \<le> 57"
  by (simp add: list_all_iff is_digit_def)

definition host_part :: "string \<Rightarrow> bool" where
  "host_part h = list_all (\<lambda>c. c \<notin> {CHR ''%'', CHR ''+'', CHR ''@'', CHR ''['', CHR ''/''} \<and> plain_ok EncodeHost c) h"

lemma digits_host_part: "list_all is_digit ds \<Longrightarrow> host_part ds"
  using digit_codes by (fastforce simp: host_part_def list_all_iff plain_ok_def host_safe_def unreserved_def is_digit_def)

lemma host_with_port:
  assumes ds: "list_all is_digit ds" and h: "host_part (h @ '':'')"
  shows "parseAuthority (h @ CHR '':'' # ds) = Some (h @ CHR '':'' # ds)"
proof -
  let ?a = "h @ CHR '':'' # ds"
  have p: "host_part ?a" using h digits_host_part [OF ds] by (simp add: host_part_def)
  then have "CHR ''@'' \<notin> set (rev ?a)" by (auto simp: host_part_def list_all_iff)
  from index_byte_None [OF this] have no_user: "last_index_byte CHR ''@'' ?a = None"
    by (simp only: last_index_byte_def option.map)
  have "\<not> has_prefix ?a ''[''" using p by (cases ?a) (simp_all add: has_prefix_def host_part_def)
  moreover have "unescape EncodeHost ?a = Some ?a"
    using p by (intro unescape_plain) (simp add: host_part_def list_all_iff)
  moreover have "validOptionalPort (drop (length h) ?a)" using ds by (simp add: validOptionalPort_def)
  ultimately show ?thesis using last_port [OF ds, of h] by (simp add: parseAuthority_def no_user parseHost_def)
qed

lemma localhost_authority:
  assumes "list_all is_digit ds"
  shows "parseAuthority (''localhost:'' @ ds) = Some (''localhost:'' @ ds)"
    "plain_part (''localhost:'' @ ds)" "CHR ''/'' \<notin> set (''localhost:'' @ ds)"
proof -
  have "host_part (''localhost'' @ '':'')" by code_simp
  from host_with_port [OF assms this]
  show "parseAuthority (''localhost:'' @ ds) = Some (''localhost:'' @ ds)" by simp
  show "plain_part (''localhost:'' @ ds)"
    using digit_codes [OF assms] by (fastforce simp: plain_part_def list_all_iff)
  show "CHR ''/'' \<notin> set (''localhost:'' @ ds)"
    using digits_host_part [OF assms] by (auto simp: host_part_def list_all_iff)
qed

lemma parse_callback_url:
  assumes "0 \<le> port"
  shows "url_Parse (callback_url port code state)
     = Some \<lparr>url_Host = ''localhost:'' @ show_int port, url_Path = ''/callback'',
             url_RawQuery = code_query code state\<rparr>"
proof -
  have ds: "list_all is_digit (show_int port)" using assms show_nat_digits by (simp add: show_int_def)
  show ?thesis unfolding callback_url_split using localhost_authority [OF ds]
    by (intro parse_code_url) simp_all
qed

lemma pasted_callback:
  assumes "0 \<le> port"
  shows "isLocalhostURL (callback_url port code state)"
    "pasted_code (callback_url port code state) = Inr (code, state)"
    "visible (callback_url port code state)"
proof -
  show l: "isLocalhostURL (callback_url port code state)"
    by (simp add: isLocalhostURL_def has_prefix_def callback_url_def)
  show "pasted_code (callback_url port code state) = Inr (code, state)"
    by (simp add: pasted_code_def l parse_callback_url [OF assms] code_query_get)
  have "visible ''http''" "visible ''://''" "visible ''localhost:''" "visible ''/callback''" "visible ''?''"
    by code_simp+
  moreover have "visible (show_int port)"
    using assms show_nat_digits by (simp add: show_int_def visible_digits)
  ultimately show "visible (callback_url port code state)"
    unfolding callback_url_split by (simp only: visible_append visible_code_query simp_thms)
qed

text \<open>The address of the code page.\<close>

definition code_page :: "string \<Rightarrow> string \<Rightarrow> string" where
  "code_page code state =
     ''https'' @ ''://'' @ ''platform.claude.com'' @ ''/oauth/code/callback'' @ ''?'' @ code_query code state"

lemma manual_code_page:
  assumes "code \<noteq> []" "state \<noteq> []"
  shows "manualCodeFromURL (code_page code state) = Some (code @ ''#'' @ state)"
proof -
  have "plain_part ''platform.claude.com''" "CHR ''/'' \<notin> set ''platform.claude.com''"
    "parseAuthority ''platform.claude.com'' = Some ''platform.claude.com''" by code_simp+
  then have "url_Parse (code_page code state) = Some \<lparr>url_Host = ''platform.claude.com'',
      url_Path = ''/oauth/code/callback'', url_RawQuery = code_query code state\<rparr>"
    unfolding code_page_def by (intro parse_code_url) simp_all
  moreover have "has_prefix (code_page code state) ''https://''" by (simp add: code_page_def has_prefix_def)
  moreover have "has_suffix ''/oauth/code/callback'' ''/oauth/code/callback''" by code_simp
  ultimately show ?thesis using assms by (simp add: manualCodeFromURL_def code_query_get Let_def)
qed

lemma page_is_not_localhost: "\<not> isLocalhostURL (code_page code state)"
  by (simp add: isLocalhostURL_def has_prefix_def code_page_def)

lemma visible_page: "visible (code_page code state)"
proof -
  have "visible ''https''" "visible ''://''" "visible ''platform.claude.com''" "visible ''/oauth/code/callback''"
    "visible ''?''"
    by code_simp+
  then show ?thesis unfolding code_page_def by (simp only: visible_append visible_code_query simp_thms)
qed

text \<open>A code that may be submitted: both parts are there, and it is one visible word.\<close>

definition good_code :: "string \<Rightarrow> string \<Rightarrow> bool" where
  "good_code code state \<longleftrightarrow>
     code \<noteq> [] \<and> state \<noteq> [] \<and> visible code \<and> visible state \<and> CHR ''#'' \<notin> set code"

lemma good_code_submitted:
  assumes "good_code code state" and p: "lp_outcome p = Some out" "lp_stdin p = Some write"
    and b: "begin_submission out = Inr seen"
  shows "fst (SubmitManualCode p pre steps (code @ ''#'' @ state)) = [ToPrompt (code @ ''#'' @ state @ [CHR 0x0A])]"
proof -
  let ?c = "code @ ''#'' @ state"
  have "visible ?c" using assms(1) by (simp add: good_code_def visible_def)
  then have t: "trim_space ?c = ?c" by (rule visible_trim)
  have "cut ?c ''#'' = (code, state, True)" using assms(1) cut_char [of _ code state] by (simp add: good_code_def)
  moreover have "\<not> contains_any ?c [CHR 0x20, CHR 0x09, CHR 0x0D, CHR 0x0A]"
    using \<open>visible ?c\<close> by (rule visible_no_blank)
  ultimately have "validateManualCode ?c = None"
    using assms(1) by (simp add: validateManualCode_def good_code_def)
  then show ?thesis unfolding SubmitManualCode_def Let_def t using p b by (auto split: option.splits)
qed

lemma callback_submitted:
  assumes "0 \<le> q" "code \<noteq> []" "state \<noteq> []" "lp_callbackPort p \<noteq> 0"
  shows "fst (submitCallback net p (callback_url q code state))
           = Some (callback_url (lp_callbackPort p) code state)"
  using assms by (simp add: submitCallback_def pasted_callback Let_def)

text \<open>
  C39: A code reaches the CLI as it was issued. While a login runs, pasting the address of the failed
  localhost page asks the callback server of that CLI, and nothing else, for the same code and state:
  the URL asked has its port, and its query decodes to exactly that code and state, whatever bytes
  they hold. Pasting the address of the code page writes exactly one line to the prompt, the code and
  the state around a hash.
\<close>

theorem pasted_codes_reach_the_cli:
  assumes p: "lp_outcome p = Some out" "lp_stdin p = Some write" "begin_submission out = Inr seen"
    and port: "0 < lp_callbackPort p" "0 \<le> q" and code: "code \<noteq> []" "state \<noteq> []"
  shows "fst (Submit net p pre steps (callback_url q code state))
           = [ToCallback (callback_url (lp_callbackPort p) code state)]
     \<and> (\<exists>u. url_Parse (callback_url (lp_callbackPort p) code state) = Some u
          \<and> url_Port u = show_int (lp_callbackPort p)
          \<and> query_get (url_RawQuery u) ''code'' = code \<and> query_get (url_RawQuery u) ''state'' = state)
     \<and> (good_code code state \<longrightarrow>
          fst (Submit net p pre steps (code_page code state)) = [ToPrompt (code @ ''#'' @ state @ [CHR 0x0A])])"
proof (intro conjI impI)
  let ?c = "callback_url q code state" and ?p = "callback_url (lp_callbackPort p) code state"
  have t: "trim_space ?c = ?c" using pasted_callback(3) [OF port(2)] by (rule visible_trim)
  obtain err where "submitCallback net p ?c = (Some ?p, err)"
    using callback_submitted [OF port(2) code, of p net] port(1)
    by (cases "submitCallback net p ?c") auto
  then show "fst (Submit net p pre steps ?c) = [ToCallback ?p]"
    unfolding Submit_def Let_def t using p(1,3) pasted_callback(1) [OF port(2)]
    by (simp split: option.splits)
  have ds: "list_all is_digit (show_int (lp_callbackPort p))" using port(1) show_nat_digits by (simp add: show_int_def)
  show "\<exists>u. url_Parse ?p = Some u \<and> url_Port u = show_int (lp_callbackPort p)
      \<and> query_get (url_RawQuery u) ''code'' = code \<and> query_get (url_RawQuery u) ''state'' = state"
    using parse_callback_url [of "lp_callbackPort p" code state] port(1) last_port [OF ds, of "''localhost''"] ds
    by (simp add: url_Port_def validOptionalPort_def code_query_get)
next
  assume g: "good_code code state"
  have t: "trim_space (code_page code state) = code_page code state" using visible_page by (rule visible_trim)
  show "fst (Submit net p pre steps (code_page code state)) = [ToPrompt (code @ ''#'' @ state @ [CHR 0x0A])]"
    unfolding Submit_def Let_def t using page_is_not_localhost manual_code_page [OF code]
      good_code_submitted [OF g p] by simp
qed

definition sample_login :: LoginProcess where
  "sample_login = \<lparr>lp_URL = [], lp_AutoOpenURL = [], lp_callbackPort = 54545,
     lp_stdin = Some (\<lambda>_. None), lp_outcome = Some newLoginOutcome\<rparr>"

theorem pasted_codes_reach_the_cli_witness:
  "fst (Submit (\<lambda>_. Response 200 [] (Inr [])) sample_login [] [] (code_page ''aB3'' ''x=1''))
     = [ToPrompt (''aB3#x=1'' @ [CHR 0x0A])]"
proof -
  have "good_code ''aB3'' ''x=1''" by code_simp
  with pasted_codes_reach_the_cli [of sample_login newLoginOutcome "\<lambda>_. None" 0 1 "''aB3''" "''x=1''"
      "\<lambda>_. Response 200 [] (Inr [])" "[]" "[]"]
  show ?thesis by (simp add: sample_login_def begin_submission_def newLoginOutcome_def)
qed

end
