(* ===== verification/Json_Roundtrip.thy ===== *)
theory Json_Roundtrip
  imports Json_Codec
begin

text \<open>
  What \<^verbatim>\<open>json.Marshal\<close> writes is read back: a string as itself with invalid UTF-8 replaced, and an
  object as its members. A marshalled text holds no byte below a blank, so it is one line.
\<close>

section \<open>Strings\<close>

text \<open>A string with every invalid byte replaced by U+FFFD.\<close>

fun sanitize :: "string \<Rightarrow> string" where
  "sanitize [] = []"
| "sanitize (c # cs) =
     (let w = utf8_width (c # cs) in
      (if w = 0 then replacement else take w (c # cs)) @ sanitize (drop (w - 1) cs))"

definition plain_char :: "char \<Rightarrow> bool" where
  "plain_char c \<longleftrightarrow> 32 \<le> (of_char c :: nat) \<and> c \<noteq> CHR 0x22 \<and> c \<noteq> CHR 0x5C"

lemma scan_plain: "plain_char c \<Longrightarrow> x \<noteq> [] \<Longrightarrow> scan_str (c # x) = map_option (\<lambda>(t, r). (c # t, r)) (scan_str x)"
  by (cases x) (simp_all add: plain_char_def)

lemma scan_plains:
  "list_all plain_char p \<Longrightarrow> x \<noteq> [] \<Longrightarrow> scan_str (p @ x) = map_option (\<lambda>(t, r). (p @ t, r)) (scan_str x)"
proof (induction p)
  case Nil
  then show ?case by (simp add: option.map_ident_strong split_beta)
next
  case (Cons c p)
  then show ?case by (simp add: scan_plain option.map_comp comp_def split_beta)
qed

lemma scan_escape:
  "escape_char d \<noteq> None \<Longrightarrow> x \<noteq> [] \<Longrightarrow>
     scan_str (CHR 0x5C # d # x) = map_option (\<lambda>(t, r). (CHR 0x5C # d # t, r)) (scan_str x)"
  by (cases "d = CHR ''u''") (auto simp: escape_char_def split: if_splits)

lemma hex_digit_facts:
  assumes "n < 16"
  shows "hex_val (hex_digit n) = Some n" "plain_char (hex_digit n)"
proof -
  show "hex_val (hex_digit n) = Some n" using assms by (simp add: hex_digit_def hex_val_def Let_def)
  have "48 \<le> (of_char (hex_digit n) :: nat) \<and> (of_char (hex_digit n) :: nat) \<noteq> 92"
    using assms by (auto simp: hex_digit_def)
  then show "plain_char (hex_digit n)" by (auto simp: plain_char_def)
qed

lemma scan_u:
  assumes "hex_val a = Some w" "hex_val b = Some x" "hex_val c = Some y" "hex_val d = Some z"
    and "list_all plain_char [a, b, c, d]" "X \<noteq> []"
  shows "scan_str (CHR 0x5C # CHR ''u'' # a # b # c # d # X)
           = map_option (\<lambda>(t, r). (CHR 0x5C # CHR ''u'' # a # b # c # d # t, r)) (scan_str X)"
proof -
  have "scan_str ([a, b, c, d] @ X) = map_option (\<lambda>(t, r). ([a, b, c, d] @ t, r)) (scan_str X)"
    using assms by (intro scan_plains)
  then have s: "scan_str (a # b # c # d # X) = map_option (\<lambda>(t, r). (a # b # c # d # t, r)) (scan_str X)"
    by simp
  have h: "hex4 (a # b # c # d # X) \<noteq> None" using assms by simp
  have "scan_str (CHR 0x5C # CHR ''u'' # a # b # c # d # X)
      = map_option (\<lambda>(t, r). (CHR 0x5C # CHR ''u'' # t, r)) (scan_str (a # b # c # d # X))"
    using h by (simp del: hex4.simps)
  then show ?thesis by (cases "scan_str X") (auto simp del: scan_str.simps hex4.simps simp: s)
qed

lemma unquote_u:
  assumes "hex_val a = Some w" "hex_val b = Some x" "hex_val c = Some y" "hex_val d = Some z"
    and "\<not> is_surrogate (((w * 16 + x) * 16 + y) * 16 + z)"
  shows "unquote (CHR 0x5C # CHR ''u'' # a # b # c # d # X)
           = utf8_encode (((w * 16 + x) * 16 + y) * 16 + z) @ unquote X"
  using assms by simp

lemma code_less_256: "of_char c < (256 :: nat)"
  by (metis mod_less_divisor of_char_mod_256 zero_less_numeral)

lemma width_ascii: "(of_char c :: nat) < 128 \<Longrightarrow> utf8_width (c # x) = 1"
  by (simp add: utf8_width_def byte_at_def byte_in_def)

text \<open>One ASCII byte, escaped.\<close>

lemma ascii_cases:
  assumes "(of_char c :: nat) < 128"
  obtains (plain) "escape_ascii c = [c]" "plain_char c"
  | (short) e where "escape_ascii c = [CHR 0x5C, e]" "escape_char e = Some c" "e \<noteq> CHR ''u''" "plain_char e \<or> e = c"
  | (unicode) "escape_ascii c = [CHR 0x5C, CHR ''u'', CHR ''0'', CHR ''0'',
         hex_digit (of_char c div 16), hex_digit (of_char c mod 16)]"
proof -
  consider "c = CHR 0x22" | "c = CHR 0x5C" | "c = CHR 0x08" | "c = CHR 0x0C" | "c = CHR 0x0A" | "c = CHR 0x0D"
    | "c = CHR 0x09"
    | "c \<notin> {CHR 0x22, CHR 0x5C, CHR 0x08, CHR 0x0C, CHR 0x0A, CHR 0x0D, CHR 0x09}" by auto
  then show thesis
  proof cases
    case 1 then show ?thesis by (intro short [of c]) (simp_all add: escape_ascii_def escape_char_def)
  next
    case 2 then show ?thesis by (intro short [of c]) (simp_all add: escape_ascii_def escape_char_def)
  next
    case 3 then show ?thesis by (intro short [of "CHR ''b''"]) (simp_all add: escape_ascii_def escape_char_def plain_char_def)
  next
    case 4 then show ?thesis by (intro short [of "CHR ''f''"]) (simp_all add: escape_ascii_def escape_char_def plain_char_def)
  next
    case 5 then show ?thesis by (intro short [of "CHR ''n''"]) (simp_all add: escape_ascii_def escape_char_def plain_char_def)
  next
    case 6 then show ?thesis by (intro short [of "CHR ''r''"]) (simp_all add: escape_ascii_def escape_char_def plain_char_def)
  next
    case 7 then show ?thesis by (intro short [of "CHR ''t''"]) (simp_all add: escape_ascii_def escape_char_def plain_char_def)
  next
    case 8
    show ?thesis
    proof (cases "(of_char c :: nat) < 32 \<or> c = CHR ''<'' \<or> c = CHR ''>'' \<or> c = CHR ''&''")
      case True
      with 8 show ?thesis by (intro unicode) (simp add: escape_ascii_def)
    next
      case False
      with 8 show ?thesis by (intro plain) (simp_all add: escape_ascii_def plain_char_def)
    qed
  qed
qed

lemma zero_digit: "hex_val (CHR ''0'') = Some 0" "plain_char (CHR ''0'')"
  by (simp_all add: hex_val_def plain_char_def)

lemma ascii_scan:
  assumes c: "(of_char c :: nat) < 128" and x: "x \<noteq> []"
  shows "scan_str (escape_ascii c @ x) = map_option (\<lambda>(t, r). (escape_ascii c @ t, r)) (scan_str x)"
  using c
proof (cases rule: ascii_cases)
  case plain
  with x show ?thesis using scan_plains [of "[c]" x] by simp
next
  case (short e)
  with x show ?thesis using scan_escape [of e x] by simp
next
  case unicode
  have "of_char c div 16 < (16 :: nat)" using c by (intro less_mult_imp_div_less) simp
  with x show ?thesis unfolding unicode
    using scan_u [OF zero_digit(1) zero_digit(1) hex_digit_facts(1) hex_digit_facts(1)] zero_digit hex_digit_facts
    by simp
qed

lemma ascii_unquote:
  assumes c: "(of_char c :: nat) < 128"
  shows "unquote (escape_ascii c @ x) = c # unquote x"
  using c
proof (cases rule: ascii_cases)
  case plain
  then show ?thesis using width_ascii [OF c] by (simp add: plain_char_def)
next
  case (short e)
  then show ?thesis by simp
next
  case unicode
  have d: "of_char c div 16 < (16 :: nat)" using c by (intro less_mult_imp_div_less) simp
  have v: "((0 * 16 + 0) * 16 + of_char c div 16) * 16 + of_char c mod 16 = (of_char c :: nat)" by simp
  have "\<not> is_surrogate (of_char c)" using c by (simp add: is_surrogate_def)
  with d show ?thesis unfolding unicode
    using unquote_u [OF zero_digit(1) zero_digit(1) hex_digit_facts(1) hex_digit_facts(1), of "of_char c div 16" "of_char c mod 16" x]
      c by (simp add: v utf8_encode_def)
qed

text \<open>A rune of several bytes.\<close>

lemma rune_bytes:
  assumes "utf8_width s = w" "1 < w"
  shows "w = 2 \<and> byte_at 0 194 223 s \<and> byte_at 1 128 191 s
    \<or> w = 3 \<and> byte_at 0 224 239 s \<and> byte_at 1 128 191 s \<and> byte_at 2 128 191 s
    \<or> w = 4 \<and> byte_at 0 240 244 s \<and> byte_at 1 128 191 s \<and> byte_at 2 128 191 s \<and> byte_at 3 128 191 s"
  using assms by (auto simp: utf8_width_def byte_at_def byte_in_def split: if_splits)

lemma rune_tail:
  assumes "utf8_width s = w" "1 < w" "i < w"
  shows "128 \<le> (of_char (s ! i) :: nat)" "0 < i \<Longrightarrow> s ! i \<noteq> CHR 0xE2"
proof -
  have "(of_char (s ! 0) :: nat) \<ge> 194" using rune_bytes [OF assms(1,2)] by (auto simp: byte_at_def byte_in_def)
  moreover have t: "128 \<le> (of_char (s ! i) :: nat) \<and> (of_char (s ! i) :: nat) \<le> 191" if "0 < i"
  proof -
    have "w = 2 \<or> w = 3 \<or> w = 4" using rune_bytes [OF assms(1,2)] by blast
    then have "i = 1 \<or> i = 2 \<and> w \<noteq> 2 \<or> i = 3 \<and> w = 4" using that assms(3) by arith
    then show ?thesis
      using rune_bytes [OF assms(1,2)] by (elim disjE) (auto simp: byte_at_def byte_in_def)
  qed
  ultimately show "128 \<le> (of_char (s ! i) :: nat)" by (cases "i = 0") auto
  show "s ! i \<noteq> CHR 0xE2" if "0 < i" using t [OF that] by auto
qed

lemma width_prefix:
  assumes "utf8_width s = w" "w \<noteq> 0"
  shows "w \<le> length s" "utf8_width (take w s @ x) = w"
    "\<forall>i < w. 1 < w \<longrightarrow> 128 \<le> (of_char (s ! i) :: nat)"
proof -
  have r: "byte_at i lo hi (take w s @ x) = byte_at i lo hi s" if "i < w" "w \<le> length s" for i lo hi
    using that by (simp add: byte_at_def nth_append)
  show len: "w \<le> length s"
    using assms by (auto simp: utf8_width_def byte_at_def Suc_le_eq split: if_splits)
  define n where "n = (of_char (s ! 0) :: nat)"
  have z: "byte_at 0 lo hi s = (lo \<le> n \<and> n \<le> hi)" for lo hi
    using len assms(2) by (auto simp: byte_at_def byte_in_def n_def)
  have "w = 1 \<and> n \<le> 127
      \<or> w = 2 \<and> 194 \<le> n \<and> n \<le> 223 \<and> byte_at 1 128 191 s
      \<or> w = 3 \<and> byte_at 2 128 191 s \<and> (n = 224 \<and> byte_at 1 160 191 s
           \<or> (225 \<le> n \<and> n \<le> 236 \<or> 238 \<le> n \<and> n \<le> 239) \<and> byte_at 1 128 191 s
           \<or> n = 237 \<and> byte_at 1 128 159 s)
      \<or> w = 4 \<and> byte_at 2 128 191 s \<and> byte_at 3 128 191 s \<and> (n = 240 \<and> byte_at 1 144 191 s
           \<or> 241 \<le> n \<and> n \<le> 243 \<and> byte_at 1 128 191 s \<or> n = 244 \<and> byte_at 1 128 143 s)"
    using assms by (simp add: utf8_width_def z split: if_splits)
  then show "utf8_width (take w s @ x) = w"
    using len r [of 0] r [of 1] r [of 2] r [of 3] by (elim disjE conjE) (simp_all add: utf8_width_def z)
  show "\<forall>i < w. 1 < w \<longrightarrow> 128 \<le> (of_char (s ! i) :: nat)"
    using rune_tail(1) [OF assms(1)] by blast
qed

text \<open>A piece of a string that the scanner and \<^verbatim>\<open>unquote\<close> take whole.\<close>

lemma rune_pieces:
  assumes w: "utf8_width s = w" "1 < w" and x: "x \<noteq> []"
  shows "scan_str (take w s @ x) = map_option (\<lambda>(t, r). (take w s @ t, r)) (scan_str x)"
    "unquote (take w s @ y) = take w s @ unquote y"
proof -
  have len: "w \<le> length s" and hi: "\<forall>i < w. 128 \<le> (of_char (s ! i) :: nat)"
    using width_prefix [OF w(1)] w(2) by auto
  have "list_all plain_char (take w s)"
    using len hi by (fastforce simp: list_all_length plain_char_def)
  then show "scan_str (take w s @ x) = map_option (\<lambda>(t, r). (take w s @ t, r)) (scan_str x)"
    using x by (rule scan_plains)
  obtain c cs where c: "s = c # cs" using len w(2) by (cases s) auto
  have "c \<noteq> CHR 0x5C" using hi w(2) c by fastforce
  moreover have "utf8_width (take w s @ y) = w" using width_prefix(2) [OF w(1)] w(2) by simp
  ultimately show "unquote (take w s @ y) = take w s @ unquote y"
    using w(2) len by (cases w) (simp_all add: c)
qed

lemma char_codes:
  "char_of (239 :: nat) = CHR 0xEF" "char_of (191 :: nat) = CHR 0xBF" "char_of (189 :: nat) = CHR 0xBD"
  "char_of (226 :: nat) = CHR 0xE2" "char_of (128 :: nat) = CHR 0x80" "char_of (168 :: nat) = CHR 0xA8"
  "char_of (169 :: nat) = CHR 0xA9"
  by code_simp+

lemma u_pieces:
  "x \<noteq> [] \<Longrightarrow> scan_str (CHR 0x5C # ''ufffd'' @ x) = map_option (\<lambda>(t, r). (CHR 0x5C # ''ufffd'' @ t, r)) (scan_str x)"
  "x \<noteq> [] \<Longrightarrow> scan_str (CHR 0x5C # ''u2028'' @ x) = map_option (\<lambda>(t, r). (CHR 0x5C # ''u2028'' @ t, r)) (scan_str x)"
  "x \<noteq> [] \<Longrightarrow> scan_str (CHR 0x5C # ''u2029'' @ x) = map_option (\<lambda>(t, r). (CHR 0x5C # ''u2029'' @ t, r)) (scan_str x)"
  "unquote (CHR 0x5C # ''ufffd'' @ y) = replacement @ unquote y"
  "unquote (CHR 0x5C # ''u2028'' @ y) = [CHR 0xE2, CHR 0x80, CHR 0xA8] @ unquote y"
  "unquote (CHR 0x5C # ''u2029'' @ y) = [CHR 0xE2, CHR 0x80, CHR 0xA9] @ unquote y"
proof -
  have h: "hex_val (CHR ''f'') = Some 15" "hex_val (CHR ''d'') = Some 13" "hex_val (CHR ''2'') = Some 2"
    "hex_val (CHR ''0'') = Some 0" "hex_val (CHR ''8'') = Some 8" "hex_val (CHR ''9'') = Some 9"
    "list_all plain_char ''fffd''" "list_all plain_char ''2028''" "list_all plain_char ''2029''"
    by code_simp+
  show "x \<noteq> [] \<Longrightarrow> scan_str (CHR 0x5C # ''ufffd'' @ x) = map_option (\<lambda>(t, r). (CHR 0x5C # ''ufffd'' @ t, r)) (scan_str x)"
    using scan_u [OF h(1) h(1) h(1) h(2) h(7)] by simp
  show "x \<noteq> [] \<Longrightarrow> scan_str (CHR 0x5C # ''u2028'' @ x) = map_option (\<lambda>(t, r). (CHR 0x5C # ''u2028'' @ t, r)) (scan_str x)"
    using scan_u [OF h(3) h(4) h(3) h(5) h(8)] by simp
  show "x \<noteq> [] \<Longrightarrow> scan_str (CHR 0x5C # ''u2029'' @ x) = map_option (\<lambda>(t, r). (CHR 0x5C # ''u2029'' @ t, r)) (scan_str x)"
    using scan_u [OF h(3) h(4) h(3) h(6) h(9)] by simp
  show "unquote (CHR 0x5C # ''ufffd'' @ y) = replacement @ unquote y"
    using unquote_u [OF h(1) h(1) h(1) h(2), of y] by (simp del: unquote.simps hex4.simps add: is_surrogate_def utf8_encode_def replacement_def char_codes)
  show "unquote (CHR 0x5C # ''u2028'' @ y) = [CHR 0xE2, CHR 0x80, CHR 0xA8] @ unquote y"
    using unquote_u [OF h(3) h(4) h(3) h(5), of y] by (simp del: unquote.simps hex4.simps add: is_surrogate_def utf8_encode_def char_codes)
  show "unquote (CHR 0x5C # ''u2029'' @ y) = [CHR 0xE2, CHR 0x80, CHR 0xA9] @ unquote y"
    using unquote_u [OF h(3) h(4) h(3) h(6), of y] by (simp del: unquote.simps hex4.simps add: is_surrogate_def utf8_encode_def char_codes)
qed

lemma width_ascii_only: "utf8_width (c # cs) = 1 \<Longrightarrow> (of_char c :: nat) < 128"
  by (auto simp: utf8_width_def byte_at_def byte_in_def split: if_splits)

lemma width_line_sep:
  assumes "take 3 s = [CHR 0xE2, CHR 0x80, CHR 0xA8] \<or> take 3 s = [CHR 0xE2, CHR 0x80, CHR 0xA9]"
  shows "utf8_width s = 3"
proof -
  obtain c where "take 3 s = [CHR 0xE2, CHR 0x80, c]" "c = CHR 0xA8 \<or> c = CHR 0xA9" using assms by blast
  then have "s = CHR 0xE2 # CHR 0x80 # c # drop 3 s" by (metis append_Cons append_Nil append_take_drop_id)
  then obtain r where "s = CHR 0xE2 # CHR 0x80 # c # r" by blast
  with \<open>c = CHR 0xA8 \<or> c = CHR 0xA9\<close> show ?thesis
    by (auto simp: utf8_width_def byte_at_def byte_in_def)
qed

text \<open>How the marshaller cuts a string into pieces.\<close>

lemma escape_str_cases:
  obtains (ascii) "(of_char c :: nat) < 128" "escape_str (c # cs) = escape_ascii c @ escape_str cs"
      "sanitize (c # cs) = c # sanitize cs"
  | (invalid) "escape_str (c # cs) = (CHR 0x5C # ''ufffd'') @ escape_str cs"
      "sanitize (c # cs) = replacement @ sanitize cs"
  | (sep) e where "e = ''u2028'' \<and> take 3 (c # cs) = [CHR 0xE2, CHR 0x80, CHR 0xA8]
        \<or> e = ''u2029'' \<and> take 3 (c # cs) = [CHR 0xE2, CHR 0x80, CHR 0xA9]"
      "escape_str (c # cs) = (CHR 0x5C # e) @ escape_str (drop 2 cs)"
      "sanitize (c # cs) = take 3 (c # cs) @ sanitize (drop 2 cs)"
  | (rune) w where "utf8_width (c # cs) = w" "1 < w"
      "escape_str (c # cs) = take w (c # cs) @ escape_str (drop (w - 1) cs)"
      "sanitize (c # cs) = take w (c # cs) @ sanitize (drop (w - 1) cs)" "line_sep (c # cs) = None"
proof -
  consider "(of_char c :: nat) < 128" | "\<not> (of_char c :: nat) < 128" "utf8_width (c # cs) = 0"
    | e where "\<not> (of_char c :: nat) < 128" "utf8_width (c # cs) \<noteq> 0" "line_sep (c # cs) = Some e"
    | "\<not> (of_char c :: nat) < 128" "utf8_width (c # cs) \<noteq> 0" "line_sep (c # cs) = None" by (cases "line_sep (c # cs)") blast+
  then show thesis
  proof cases
    case 1
    then show ?thesis using width_ascii [OF 1, of cs] by (intro ascii) (simp_all add: Let_def)
  next
    case 2
    then show ?thesis by (intro invalid) (simp_all add: Let_def)
  next
    case (3 e)
    then have w: "utf8_width (c # cs) = 3"
      using width_line_sep [of "c # cs"] by (auto simp: line_sep_def split: if_splits)
    from 3 show ?thesis
      by (intro sep [of "tl e"]) (auto simp: line_sep_def w Let_def numeral_eq_Suc split: if_splits)
  next
    case 4
    then have "utf8_width (c # cs) \<noteq> 1" using width_ascii_only by blast
    with 4 show ?thesis by (intro rune [of "utf8_width (c # cs)"]) (auto simp: Let_def)
  qed
qed

lemma escape_scan: "scan_str (escape_str s @ CHR 0x22 # t) = Some (escape_str s, t)"
proof (induction "length s" arbitrary: s rule: less_induct)
  case less
  show ?case
  proof (cases s)
    case Nil
    then show ?thesis by (cases t) simp_all
  next
    case (Cons c cs)
    have ne: "escape_str u @ CHR 0x22 # t \<noteq> []" for u by simp
    have "scan_str (escape_str (c # cs) @ CHR 0x22 # t) = Some (escape_str (c # cs), t)"
    proof (cases c cs rule: escape_str_cases)
      case ascii
      then show ?thesis using ascii_scan [OF ascii(1) ne] less [of cs] Cons
        by (simp del: escape_str.simps scan_str.simps add: ascii(2))
    next
      case invalid
      then show ?thesis using u_pieces(1) [OF ne, of cs] less [of cs] Cons
        by (simp del: escape_str.simps scan_str.simps add: invalid(1))
    next
      case (sep e)
      have "scan_str ((CHR 0x5C # e) @ escape_str (drop 2 cs) @ CHR 0x22 # t)
          = map_option (\<lambda>(u, r). ((CHR 0x5C # e) @ u, r)) (scan_str (escape_str (drop 2 cs) @ CHR 0x22 # t))"
        using sep(1) u_pieces(2,3) [OF ne, of "drop 2 cs"] by (elim disjE) simp_all
      moreover have "scan_str (escape_str (drop 2 cs) @ CHR 0x22 # t) = Some (escape_str (drop 2 cs), t)"
        using less [of "drop 2 cs"] Cons by simp
      ultimately show ?thesis by (simp del: escape_str.simps scan_str.simps add: sep(2))
    next
      case (rune w)
      have "scan_str (escape_str (drop (w - 1) cs) @ CHR 0x22 # t) = Some (escape_str (drop (w - 1) cs), t)"
        using less [of "drop (w - 1) cs"] Cons by simp
      then show ?thesis using rune_pieces(1) [OF rune(1,2) ne, of "drop (w - 1) cs"] by (simp del: escape_str.simps scan_str.simps add: rune(3))
    qed
    then show ?thesis by (simp only: Cons)
  qed
qed

lemma escape_unquote: "unquote (escape_str s) = sanitize s"
proof (induction "length s" arbitrary: s rule: less_induct)
  case less
  show ?case
  proof (cases s)
    case Nil
    then show ?thesis by simp
  next
    case (Cons c cs)
    have "unquote (escape_str (c # cs)) = sanitize (c # cs)"
    proof (cases c cs rule: escape_str_cases)
      case ascii
      then show ?thesis using ascii_unquote [OF ascii(1)] less [of cs] Cons
        by (simp del: escape_str.simps sanitize.simps unquote.simps)
    next
      case invalid
      then show ?thesis using u_pieces(4) [of "escape_str cs"] less [of cs] Cons
        by (simp del: escape_str.simps sanitize.simps unquote.simps)
    next
      case (sep e)
      have "unquote ((CHR 0x5C # e) @ escape_str (drop 2 cs)) = take 3 (c # cs) @ unquote (escape_str (drop 2 cs))"
        using sep(1) u_pieces(5,6) [of "escape_str (drop 2 cs)"] by (elim disjE conjE) (simp_all only: append_Cons append_Nil)
      then show ?thesis using less [of "drop 2 cs"] Cons by (simp del: escape_str.simps sanitize.simps unquote.simps add: sep(2,3))
    next
      case (rune w)
      then show ?thesis
        using rune_pieces(2) [OF rune(1,2), of "''x''" "escape_str (drop (w - 1) cs)"] less [of "drop (w - 1) cs"] Cons
        by (simp only: rune(3,4)) simp
    qed
    then show ?thesis by (simp only: Cons)
  qed
qed

lemma parse_str_escape: "parse_str (escape_str s @ CHR 0x22 # t) = Some (sanitize s, t)"
  by (simp add: parse_str_def escape_scan escape_unquote)

section \<open>Values\<close>

text \<open>
  A text that reads as a value of at most so many levels wherever it ends an input or stands before a
  comma or a closing bracket.
\<close>

definition delimited :: "string \<Rightarrow> bool" where
  "delimited t \<longleftrightarrow> t = [] \<or> hd t \<in> {CHR '','', CHR ''}'', CHR '']''}"

definition json_text :: "nat \<Rightarrow> string \<Rightarrow> json \<Rightarrow> bool" where
  "json_text k v j \<longleftrightarrow>
     (\<forall>d t. d + k \<le> max_depth \<longrightarrow> delimited t \<longrightarrow> (\<exists>N. \<forall>n \<ge> N. parse_value n d (v @ t) = Some (j, t)))"

lemma json_textD:
  "json_text k v j \<Longrightarrow> d + k \<le> max_depth \<Longrightarrow> delimited t \<Longrightarrow>
     \<exists>N. \<forall>n \<ge> N. parse_value n d (v @ t) = Some (j, t)"
  by (simp add: json_text_def)

lemma text_string: "json_text k (quote_json s) (JStr (quote_json s) (sanitize s))"
proof -
  have "parse_value n d (quote_json s @ t) = Some (JStr (quote_json s) (sanitize s), t)" if "1 \<le> n" for n d t
    using that by (cases n) (simp_all add: quote_json_def is_ws_def parse_str_escape consumed_def)
  then show ?thesis unfolding json_text_def by blast
qed

lemma text_literal:
  "json_text k ''null'' JNull" "json_text k ''true'' (JBool True)" "json_text k ''false'' (JBool False)"
proof -
  have "parse_value n d (''null'' @ t) = Some (JNull, t)" "parse_value n d (''true'' @ t) = Some (JBool True, t)"
    "parse_value n d (''false'' @ t) = Some (JBool False, t)" if "1 \<le> n" for n d t
    using that by (cases n; simp add: is_ws_def parse_lit_def has_prefix_def)+
  then show "json_text k ''null'' JNull" "json_text k ''true'' (JBool True)" "json_text k ''false'' (JBool False)"
    unfolding json_text_def by blast+
qed

lemma text_mono: "json_text k v j \<Longrightarrow> k \<le> l \<Longrightarrow> json_text l v j"
  by (auto simp: json_text_def)

text \<open>A member of an object, and the members of an object up to its end.\<close>

definition member_text :: "string \<times> string \<Rightarrow> string" where
  "member_text m = quote_json (fst m) @ '':'' @ snd m"

lemma obj_json_text: "obj_json ms = ''{'' @ join '','' (map member_text ms) @ ''}''"
proof -
  have "(\<lambda>(k, v). quote_json k @ '':'' @ v) = member_text" by (auto simp: member_text_def fun_eq_iff)
  then show ?thesis by (simp only: obj_json_def)
qed

lemma parse_member:
  assumes "parse_value n d (v @ y # t) = Some (j, y # t)" "\<not> is_ws y"
  shows "parse_members (Suc n) d (member_text (k, v) @ y # t) =
     (if y = CHR '','' then map_option (\<lambda>(ms, r). ((sanitize k, j) # ms, r)) (parse_members n d t)
      else if y = CHR ''}'' then Some ([(sanitize k, j)], t) else None)"
proof -
  have "parse_str (escape_str k @ CHR 0x22 # CHR '':'' # v @ y # t) = Some (sanitize k, CHR '':'' # v @ y # t)"
    by (rule parse_str_escape)
  then show ?thesis using assms by (simp add: member_text_def quote_json_def is_ws_def)
qed

lemma parse_all_members:
  assumes "list_all2 (\<lambda>m j. json_text k (snd m) j) ms js" "ms \<noteq> []" "d + k \<le> max_depth"
  shows "\<exists>N. \<forall>n \<ge> N. parse_members n d (join '','' (map member_text ms) @ CHR ''}'' # t)
           = Some (zip (map (sanitize \<circ> fst) ms) js, t)"
  using assms
proof (induction ms arbitrary: js)
  case Nil
  then show ?case by simp
next
  case (Cons m ms)
  then obtain j js' where js: "js = j # js'" "json_text k (snd m) j"
      "list_all2 (\<lambda>m j. json_text k (snd m) j) ms js'"
    by (cases js) auto
  obtain key v where m: "m = (key, v)" by (cases m)
  show ?case
  proof (cases "ms = []")
    case True
    have "delimited (CHR ''}'' # t)" by (simp add: delimited_def)
    then obtain N where N: "\<forall>n \<ge> N. parse_value n d (v @ CHR ''}'' # t) = Some (j, CHR ''}'' # t)"
      using json_textD [of k v j d] js(2) Cons.prems(3) m by auto
    have "parse_members n d (member_text m @ CHR ''}'' # t) = Some ([(sanitize key, j)], t)" if "Suc N \<le> n" for n
      using that N parse_member [of "n - 1" d v "CHR ''}''" t j key] m by (cases n) (auto simp: is_ws_def)
    then show ?thesis using True js(1,3) m by auto
  next
    case False
    let ?rest = "join '','' (map member_text ms) @ CHR ''}'' # t"
    have "delimited (CHR '','' # ?rest)" by (simp add: delimited_def)
    then obtain N where N: "\<forall>n \<ge> N. parse_value n d (v @ CHR '','' # ?rest) = Some (j, CHR '','' # ?rest)"
      using json_textD [of k v j d] js(2) Cons.prems(3) m by (metis snd_conv)
    obtain M where M: "\<forall>n \<ge> M. parse_members n d ?rest = Some (zip (map (sanitize \<circ> fst) ms) js', t)"
      using Cons.IH [OF js(3) False Cons.prems(3)] by blast
    have j: "join '','' (map member_text (m # ms)) @ CHR ''}'' # t = member_text m @ CHR '','' # ?rest"
      using False by (cases ms) simp_all
    have "parse_members n d (join '','' (map member_text (m # ms)) @ CHR ''}'' # t)
        = Some (zip (map (sanitize \<circ> fst) (m # ms)) js, t)" if n: "Suc (max N M) \<le> n" for n
    proof -
      obtain n' where n': "n = Suc n'" "N \<le> n'" "M \<le> n'" using n by (cases n) auto
      have "parse_members (Suc n') d (member_text (key, v) @ CHR '','' # ?rest)
          = map_option (\<lambda>(ms, r). ((sanitize key, j) # ms, r)) (parse_members n' d ?rest)"
        using parse_member [of n' d v "CHR '',''" ?rest j key] N n'(2) by (simp add: is_ws_def)
      then show ?thesis using M n'(3) unfolding j unfolding n'(1) m js(1) by (simp del: parse_members.simps)
    qed
    then show ?thesis by blast
  qed
qed

lemma text_object:
  assumes "list_all2 (\<lambda>m j. json_text k (snd m) j) ms js"
  shows "json_text (Suc k) (obj_json ms) (JObj (obj_json ms) (zip (map (sanitize \<circ> fst) ms) js))"
  unfolding json_text_def
proof (intro allI impI)
  fix d t
  assume d: "d + Suc k \<le> max_depth" and "delimited t"
  let ?body = "join '','' (map member_text ms)"
  have raw: "consumed (CHR ''{'' # ?body @ CHR ''}'' # t) t = obj_json ms"
    by (simp add: consumed_def obj_json_text)
  show "\<exists>N. \<forall>n \<ge> N. parse_value n d (obj_json ms @ t) = Some (JObj (obj_json ms) (zip (map (sanitize \<circ> fst) ms) js), t)"
  proof (cases "ms = []")
    case True
    then have "parse_value (Suc n) d (obj_json ms @ t) = Some (JObj (obj_json ms) [], t)" for n
      using d by (simp add: obj_json_def is_ws_def consumed_def)
    then have "\<forall>n \<ge> 1. parse_value n d (obj_json ms @ t) = Some (JObj (obj_json ms) [], t)"
      by (metis Suc_le_D One_nat_def)
    with True show ?thesis by auto
  next
    case False
    obtain N where N: "\<forall>n \<ge> N. parse_members n (Suc d) (?body @ CHR ''}'' # t) = Some (zip (map (sanitize \<circ> fst) ms) js, t)"
      using parse_all_members [OF assms False, of "Suc d" t] d by auto
    obtain x where x: "?body @ CHR ''}'' # t = CHR 0x22 # x"
      using False by (cases ms; cases "tl ms") (auto simp: member_text_def quote_json_def)
    have "parse_value (Suc n) d (obj_json ms @ t)
        = Some (JObj (obj_json ms) (zip (map (sanitize \<circ> fst) ms) js), t)" if "N \<le> n" for n
    proof -
      have "obj_json ms @ t = CHR ''{'' # ?body @ CHR ''}'' # t" by (simp add: obj_json_text)
      moreover have "skip_ws (?body @ CHR ''}'' # t) = CHR 0x22 # x" unfolding x by (simp add: is_ws_def)
      ultimately show ?thesis using d N that raw by (simp add: is_ws_def)
    qed
    then have "\<forall>n \<ge> Suc N. parse_value n d (obj_json ms @ t)
        = Some (JObj (obj_json ms) (zip (map (sanitize \<circ> fst) ms) js), t)"
      by (metis Suc_le_D Suc_le_mono)
    then show ?thesis by blast
  qed
qed

lemma text_document: "json_text k v j \<Longrightarrow> k \<le> max_depth \<Longrightarrow> parse_json v = Some j"
proof -
  assume "json_text k v j" "k \<le> max_depth"
  then obtain N where "\<forall>n \<ge> N. parse_value n 0 (v @ []) = Some (j, [])"
    unfolding json_text_def delimited_def by (metis add_0)
  then have "parse_value (max N (parse_fuel v)) 0 v = Some (j, [])" by simp
  then have "parse_value (parse_fuel v) 0 v = Some (j, [])" using parse_value_fuel by (metis max.cobounded2)
  then show ?thesis by (simp add: parse_json_def)
qed

section \<open>Arrays\<close>

lemma parse_value_head:
  assumes "parse_value n d s = Some r"
  obtains c cs where "skip_ws s = c # cs" "c \<noteq> CHR '']''"
proof -
  obtain m where m: "n = Suc m" using assms by (cases n) auto
  have "skip_ws s \<noteq> []" using assms m by auto
  moreover have "hd (skip_ws s) \<noteq> CHR '']''"
  proof
    assume "hd (skip_ws s) = CHR '']''"
    with \<open>skip_ws s \<noteq> []\<close> obtain cs where "skip_ws s = CHR '']'' # cs" by (cases "skip_ws s") auto
    then show False using assms m by (simp add: parse_num_def scan_num_def scan_int_part_def is_digit_def)
  qed
  ultimately show thesis using that by (cases "skip_ws s") auto
qed

lemma parse_elem:
  assumes "parse_value n d (v @ y # t) = Some (j, y # t)" "\<not> is_ws y"
  shows "parse_elems (Suc n) d (v @ y # t) =
     (if y = CHR '','' then map_option (\<lambda>(vs, r). (j # vs, r)) (parse_elems n d t)
      else if y = CHR '']'' then Some ([j], t) else None)"
  using assms by simp

lemma parse_all_elems:
  assumes "list_all2 (json_text k) es js" "es \<noteq> []" "d + k \<le> max_depth"
  shows "\<exists>N. \<forall>n \<ge> N. parse_elems n d (join '','' es @ CHR '']'' # t) = Some (js, t)"
  using assms
proof (induction es arbitrary: js)
  case Nil
  then show ?case by simp
next
  case (Cons v es)
  then obtain j js' where js: "js = j # js'" "json_text k v j" "list_all2 (json_text k) es js'"
    by (cases js) auto
  show ?case
  proof (cases "es = []")
    case True
    obtain N where N: "\<forall>n \<ge> N. parse_value n d (v @ CHR '']'' # t) = Some (j, CHR '']'' # t)"
      using json_textD [OF js(2) Cons.prems(3), of "CHR '']'' # t"] by (auto simp: delimited_def)
    have "parse_elems n d (v @ CHR '']'' # t) = Some ([j], t)" if "Suc N \<le> n" for n
      using that N parse_elem [of "n - 1" d v "CHR '']''" t j] by (cases n) (auto simp: is_ws_def)
    then show ?thesis using True js(1,3) by auto
  next
    case False
    let ?rest = "join '','' es @ CHR '']'' # t"
    obtain N where N: "\<forall>n \<ge> N. parse_value n d (v @ CHR '','' # ?rest) = Some (j, CHR '','' # ?rest)"
      using json_textD [OF js(2) Cons.prems(3), of "CHR '','' # ?rest"] by (auto simp: delimited_def)
    obtain M where M: "\<forall>n \<ge> M. parse_elems n d ?rest = Some (js', t)"
      using Cons.IH [OF js(3) False Cons.prems(3)] by blast
    have j: "join '','' (v # es) @ CHR '']'' # t = v @ CHR '','' # ?rest" using False by (cases es) simp_all
    have "parse_elems n d (join '','' (v # es) @ CHR '']'' # t) = Some (js, t)" if n: "Suc (max N M) \<le> n" for n
    proof -
      obtain n' where n': "n = Suc n'" "N \<le> n'" "M \<le> n'" using n by (cases n) auto
      have "parse_elems (Suc n') d (v @ CHR '','' # ?rest)
          = map_option (\<lambda>(vs, r). (j # vs, r)) (parse_elems n' d ?rest)"
        using parse_elem [of n' d v "CHR '',''" ?rest j] N n'(2) by (simp add: is_ws_def del: parse_elems.simps)
      then show ?thesis using M n'(3) unfolding j unfolding n'(1) js(1) by (simp del: parse_elems.simps)
    qed
    then show ?thesis by blast
  qed
qed

lemma text_array:
  assumes "list_all2 (json_text k) es js" "es \<noteq> []"
  shows "json_text (Suc k) (''['' @ join '','' es @ '']'') (JArr (''['' @ join '','' es @ '']'') js)"
  unfolding json_text_def
proof (intro allI impI)
  fix d t
  assume d: "d + Suc k \<le> max_depth" and "delimited t"
  let ?s = "join '','' es @ CHR '']'' # t"
  have raw: "consumed (CHR ''['' # ?s) t = ''['' @ join '','' es @ '']''"
    by (simp add: consumed_def)
  obtain N where N: "\<forall>n \<ge> N. parse_elems n (Suc d) ?s = Some (js, t)"
    using parse_all_elems [OF assms, of "Suc d" t] d by auto
  have "parse_elems (Suc N) (Suc d) ?s = Some (js, t)" using N by (simp del: parse_elems.simps)
  then obtain r where "parse_value N (Suc d) ?s = Some r"
    by (cases "parse_value N (Suc d) ?s") auto
  then obtain c cs where c: "skip_ws ?s = c # cs" "c \<noteq> CHR '']''" by (rule parse_value_head)
  have "parse_value (Suc n) d (CHR ''['' # ?s) = Some (JArr (''['' @ join '','' es @ '']'') js, t)" if "N \<le> n" for n
    using d N that raw c by (simp add: is_ws_def)
  then have "\<forall>n \<ge> Suc N. parse_value n d ((''['' @ join '','' es @ '']'') @ t)
      = Some (JArr (''['' @ join '','' es @ '']'') js, t)"
    by (metis (no_types, lifting) Suc_le_D Suc_le_mono append_Cons append_Nil append_assoc)
  then show "\<exists>N. \<forall>n \<ge> N. parse_value n d ((''['' @ join '','' es @ '']'') @ t)
      = Some (JArr (''['' @ join '','' es @ '']'') js, t)" by blast
qed

section \<open>One line\<close>

text \<open>No byte below the blank, so no line break either.\<close>

definition one_line :: "string \<Rightarrow> bool" where
  "one_line s \<longleftrightarrow> list_all (\<lambda>c. 32 \<le> (of_char c :: nat)) s"

lemma one_line_append [simp]: "one_line (s @ t) \<longleftrightarrow> one_line s \<and> one_line t"
  by (simp add: one_line_def)

lemma one_line_Cons [simp]: "one_line (c # s) \<longleftrightarrow> 32 \<le> (of_char c :: nat) \<and> one_line s"
  by (simp add: one_line_def)

lemma one_line_Nil [simp]: "one_line []"
  by (simp add: one_line_def)

lemma one_line_ascii: "(of_char c :: nat) < 128 \<Longrightarrow> one_line (escape_ascii c)"
proof -
  assume c: "(of_char c :: nat) < 128"
  then have d: "of_char c div 16 < (16 :: nat)" by (intro less_mult_imp_div_less) simp
  have h: "32 \<le> (of_char (hex_digit n) :: nat)" if "n < 16" for n
    using hex_digit_facts(2) [OF that] by (simp add: plain_char_def)
  from c show ?thesis
  proof (cases rule: ascii_cases)
    case plain
    then show ?thesis by (simp add: plain_char_def)
  next
    case (short e)
    then have "32 \<le> (of_char e :: nat)"
      by (auto simp: plain_char_def escape_char_def split: if_splits)
    with short show ?thesis by simp
  next
    case unicode
    then show ?thesis using h d by simp
  qed
qed

lemma one_line_escape: "one_line (escape_str s)"
proof (induction "length s" arbitrary: s rule: less_induct)
  case less
  show ?case
  proof (cases s)
    case Nil
    then show ?thesis by simp
  next
    case (Cons c cs)
    have "one_line (escape_str (c # cs))"
    proof (cases c cs rule: escape_str_cases)
      case ascii
      then show ?thesis using less [of cs] Cons one_line_ascii by simp
    next
      case invalid
      then show ?thesis using less [of cs] Cons by simp
    next
      case (sep e)
      then have "one_line e" by auto
      with sep show ?thesis using less [of "drop 2 cs"] Cons by simp
    next
      case (rune w)
      have "w \<le> length (c # cs)" "\<forall>i < w. 128 \<le> (of_char ((c # cs) ! i) :: nat)"
        using width_prefix [OF rune(1)] rune(2) by auto
      then have "one_line (take w (c # cs))" by (fastforce simp: one_line_def list_all_length)
      with rune show ?thesis using less [of "drop (w - 1) cs"] Cons by (simp del: take_Suc_Cons)
    qed
    with Cons show ?thesis by simp
  qed
qed

lemma one_line_quote [simp]: "one_line (quote_json s)"
  by (simp add: quote_json_def one_line_escape)

lemma one_line_join: "list_all one_line es \<Longrightarrow> one_line (join '','' es)"
  by (induction "'','' :: string" es rule: join.induct) simp_all

lemma one_line_object: "list_all (\<lambda>m. one_line (snd m)) ms \<Longrightarrow> one_line (obj_json ms)"
  by (auto simp: obj_json_text member_text_def list_all_iff intro!: one_line_join)

section \<open>Texts that \<open>compact_json\<close> leaves alone\<close>

definition steady :: "string \<Rightarrow> bool" where
  "steady v \<longleftrightarrow> (\<forall>x. compact_json False (v @ x) = v @ compact_json False x)"

lemma line_sep_ascii: "c \<noteq> CHR 0xE2 \<Longrightarrow> line_sep (c # x) = None"
  by (simp add: line_sep_def numeral_eq_Suc)

lemma compact_ascii:
  assumes "(of_char c :: nat) < 128"
  shows "compact_json True (escape_ascii c @ x) = escape_ascii c @ compact_json True x"
proof -
  have d: "of_char c div 16 < (16 :: nat)" using assms by (intro less_mult_imp_div_less) simp
  have h: "hex_digit n \<notin> {CHR 0x22, CHR 0x5C, CHR ''<'', CHR ''>'', CHR ''&'', CHR 0xE2}" if "n < 16" for n
  proof -
    have "(of_char (hex_digit n) :: nat) \<in> {48..57} \<union> {97..102}" using that by (auto simp: hex_digit_def)
    then show ?thesis by auto
  qed
  have "c \<noteq> CHR 0xE2" using assms by auto
  then show ?thesis using h [OF d] h [of "of_char c mod 16"]
    by (auto simp: escape_ascii_def line_sep_ascii)
qed

lemma compact_high:
  assumes "list_all (\<lambda>c. 128 \<le> (of_char c :: nat) \<and> c \<noteq> CHR 0xE2) p"
  shows "compact_json True (p @ x) = p @ compact_json True x"
  using assms
proof (induction p)
  case Nil
  then show ?case by simp
next
  case (Cons c p)
  then have "128 \<le> (of_char c :: nat)" and e: "c \<noteq> CHR 0xE2" by simp_all
  then have "c \<noteq> CHR 0x22 \<and> c \<noteq> CHR 0x5C \<and> c \<noteq> CHR ''<'' \<and> c \<noteq> CHR ''>'' \<and> c \<noteq> CHR ''&''" by auto
  then have "compact_json True (c # p @ x) = c # compact_json True (p @ x)"
    using line_sep_ascii [OF e] by simp
  with Cons show ?case by (simp del: compact_json.simps)
qed

lemma compact_rune:
  assumes w: "utf8_width s = w" "1 < w" and sep: "line_sep s = None"
  shows "compact_json True (take w s @ x) = take w s @ compact_json True x"
proof -
  have len: "w \<le> length s" and hi: "\<forall>i < w. 128 \<le> (of_char (s ! i) :: nat)"
    using width_prefix [OF w(1)] w(2) by auto
  have mid: "s ! i \<noteq> CHR 0xE2" if "0 < i" "i < w" for i
    by (rule rune_tail(2) [OF w that(2,1)])
  have head: "w = 3" if "s ! 0 = CHR 0xE2"
    using that w by (auto simp: utf8_width_def byte_at_def byte_in_def split: if_splits)
  obtain c cs where s: "s = c # cs" using len w(2) by (cases s) auto
  obtain v where v: "w = Suc v" using w(2) by (cases w) auto
  have tail: "list_all (\<lambda>c. 128 \<le> (of_char c :: nat) \<and> c \<noteq> CHR 0xE2) (take v cs)"
    unfolding list_all_length
  proof (intro allI impI)
    fix i
    assume i: "i < length (take v cs)"
    then have "take v cs ! i = s ! Suc i" "Suc i < w" using s v by simp_all
    then show "128 \<le> (of_char (take v cs ! i) :: nat) \<and> take v cs ! i \<noteq> CHR 0xE2"
      using hi mid [of "Suc i"] by simp
  qed
  have "line_sep (take w s @ x) = None"
  proof (cases "c = CHR 0xE2")
    case True
    then have "w = 3" using head s by simp
    then show ?thesis using sep len by (auto simp: line_sep_def split: if_splits)
  next
    case False
    then show ?thesis using s v by (simp add: line_sep_ascii)
  qed
  then have l: "line_sep (c # take v cs @ x) = None" using s v by simp
  have "128 \<le> (of_char c :: nat)" using hi s w(2) by fastforce
  then have "c \<noteq> CHR 0x22 \<and> c \<noteq> CHR 0x5C \<and> c \<noteq> CHR ''<'' \<and> c \<noteq> CHR ''>'' \<and> c \<noteq> CHR ''&''" by auto
  then have "compact_json True (c # take v cs @ x) = c # compact_json True (take v cs @ x)"
    using l by simp
  then show ?thesis using compact_high [OF tail, of x] s v by simp
qed

lemma compact_escape: "compact_json True (escape_str s @ x) = escape_str s @ compact_json True x"
proof (induction "length s" arbitrary: s rule: less_induct)
  case less
  show ?case
  proof (cases s)
    case Nil
    then show ?thesis by simp
  next
    case (Cons c cs)
    have "compact_json True (escape_str (c # cs) @ x) = escape_str (c # cs) @ compact_json True x"
    proof (cases c cs rule: escape_str_cases)
      case ascii
      then show ?thesis using less [of cs] Cons compact_ascii by simp
    next
      case invalid
      then show ?thesis using less [of cs] Cons by (simp add: line_sep_ascii)
    next
      case (sep e)
      then show ?thesis using less [of "drop 2 cs"] Cons by (auto simp: line_sep_ascii)
    next
      case (rune w)
      have "compact_json True (take w (c # cs) @ escape_str (drop (w - 1) cs) @ x)
          = take w (c # cs) @ compact_json True (escape_str (drop (w - 1) cs) @ x)"
        by (rule compact_rune [OF rune(1,2,5)])
      also have "compact_json True (escape_str (drop (w - 1) cs) @ x)
          = escape_str (drop (w - 1) cs) @ compact_json True x"
        using less [of "drop (w - 1) cs"] Cons by simp
      finally show ?thesis unfolding rune(3) by simp
    qed
    with Cons show ?thesis by simp
  qed
qed

lemma compact_plain:
  "c \<notin> {CHR 0x22, CHR ''<'', CHR ''>'', CHR ''&'', CHR 0xE2} \<Longrightarrow> \<not> is_ws c \<Longrightarrow>
     compact_json False (c # x) = c # compact_json False x"
  by (simp add: line_sep_ascii)

lemma steady_append: "steady a \<Longrightarrow> steady b \<Longrightarrow> steady (a @ b)"
  by (simp add: steady_def)

lemma steady_plain: "c \<notin> {CHR 0x22, CHR ''<'', CHR ''>'', CHR ''&'', CHR 0xE2} \<Longrightarrow> \<not> is_ws c \<Longrightarrow> steady [c]"
  by (simp add: steady_def line_sep_ascii)

lemma steady_quote: "steady (quote_json s)"
proof -
  have "compact_json True (CHR 0x22 # x) = CHR 0x22 # compact_json False x" for x by simp
  moreover have "compact_json False (CHR 0x22 # x) = CHR 0x22 # compact_json True x" for x by (simp add: is_ws_def)
  ultimately show ?thesis unfolding steady_def quote_json_def
    by (simp add: compact_escape del: compact_json.simps)
qed

lemma steady_join: "list_all steady es \<Longrightarrow> steady (join '','' es)"
proof (induction "'','' :: string" es rule: join.induct)
  case 1
  then show ?case by (simp add: steady_def)
next
  case (2 x)
  then show ?case by simp
next
  case (3 x y ys)
  have "steady '',''" by (rule steady_plain) (simp_all add: is_ws_def)
  with 3 show ?case by (simp add: steady_append del: append.simps)
qed

lemma steady_object: "list_all (\<lambda>m. steady (snd m)) ms \<Longrightarrow> steady (obj_json ms)"
proof -
  assume v: "list_all (\<lambda>m. steady (snd m)) ms"
  have p: "steady ''{''" "steady ''}''" "steady '':''" by (rule steady_plain; simp add: is_ws_def)+
  have "steady (member_text m)" if "steady (snd m)" for m
    unfolding member_text_def by (intro steady_append steady_quote p(3) that)
  then have "list_all steady (map member_text ms)" using v by (simp add: list_all_iff)
  then show ?thesis unfolding obj_json_text by (intro steady_append p steady_join)
qed

lemma steady_compact: "steady v \<Longrightarrow> compact_json False v = v"
proof -
  assume "steady v"
  then have "compact_json False (v @ []) = v @ compact_json False []" unfolding steady_def by blast
  then show ?thesis by simp
qed

section \<open>Reading\<close>

text \<open>What a reader finds under a path of keys.\<close>

fun at_path :: "string list \<Rightarrow> json \<Rightarrow> json option" where
  "at_path [] j = Some j"
| "at_path (k # ks) j =
     (case j of
        JObj r ms \<Rightarrow> (case map_of ms k of None \<Rightarrow> None | Some v \<Rightarrow> at_path ks v)
      | _ \<Rightarrow> None)"

definition text_at :: "string list \<Rightarrow> json \<Rightarrow> string option" where
  "text_at ks j = (case at_path ks j of Some (JStr r s) \<Rightarrow> Some s | _ \<Rightarrow> None)"

definition jstr :: "string \<Rightarrow> json" where
  "jstr s = JStr (quote_json s) (sanitize s)"

lemma text_jstr: "json_text k (quote_json s) (jstr s)"
  unfolding jstr_def by (rule text_string)

lemma text_at_Nil [simp]: "text_at [] (jstr s) = Some (sanitize s)"
  by (simp add: text_at_def jstr_def)

lemma text_at_Cons [simp]:
  "text_at (k # ks) (JObj r ms) = (case map_of ms k of None \<Rightarrow> None | Some v \<Rightarrow> text_at ks v)"
  by (simp add: text_at_def split: option.split)

lemma sanitize_ascii: "list_all (\<lambda>c. (of_char c :: nat) < 128) s \<Longrightarrow> sanitize s = s"
  by (induction s) (simp_all add: width_ascii Let_def)

declare sanitize.simps [simp del]

lemma text_members:
  assumes "list_all2 (\<lambda>m j. json_text k (snd m) (snd j) \<and> sanitize (fst m) = fst j) ms js"
  shows "json_text (Suc k) (obj_json ms) (JObj (obj_json ms) js)"
proof -
  have v: "list_all2 (\<lambda>m j. json_text k (snd m) j) ms (map snd js)"
    using assms by (auto simp: list_all2_conv_all_nth)
  have "zip (map (sanitize \<circ> fst) ms) (map snd js) = js"
    using assms by (auto simp: list_all2_conv_all_nth intro!: nth_equalityI prod_eqI)
  with text_object [OF v] show ?thesis by simp
qed

end
