(* ===== verification/Content_Blocks.thy ===== *)
theory Content_Blocks
  imports Session Json_Roundtrip
begin

text \<open>
  The image and document blocks of control.go, with the base64 they need, and what a reader of
  the user message makes of the line a session writes: the texts and the bytes the caller gave.
\<close>

section \<open>Content blocks\<close>

definition base64_char :: "nat \<Rightarrow> char" where
  "base64_char n =
     (if n < 26 then char_of (65 + n) else if n < 52 then char_of (71 + n)
      else if n < 62 then char_of (n - 4) else if n = 62 then CHR ''+'' else CHR ''/'')"

text \<open>\<^verbatim>\<open>base64.StdEncoding.EncodeToString\<close>.\<close>

fun base64 :: "string \<Rightarrow> string" where
  "base64 [] = []"
| "base64 [a] =
     (let n = of_char a * 65536 in
      [base64_char (n div 262144), base64_char (n div 4096 mod 64), CHR ''='', CHR ''=''])"
| "base64 [a, b] =
     (let n = of_char a * 65536 + of_char b * 256 in
      [base64_char (n div 262144), base64_char (n div 4096 mod 64), base64_char (n div 64 mod 64),
       CHR ''=''])"
| "base64 (a # b # c # cs) =
     (let n = of_char a * 65536 + of_char b * 256 + of_char c in
      [base64_char (n div 262144), base64_char (n div 4096 mod 64), base64_char (n div 64 mod 64),
       base64_char (n mod 64)] @ base64 cs)"

definition base64SourceBlock :: "string \<Rightarrow> string \<Rightarrow> string \<Rightarrow> ContentBlock" where
  "base64SourceBlock blockType mediaType data =
     obj_json
       [(''type'', quote_json blockType),
        (''source'',
          obj_json [(''type'', quote_json ''base64''), (''media_type'', quote_json mediaType),
                    (''data'', quote_json (base64 data))])]"

definition ImageBlock :: "string \<Rightarrow> string \<Rightarrow> ContentBlock" where
  "ImageBlock mediaType data = base64SourceBlock ''image'' mediaType data"

definition DocumentBlock :: "string \<Rightarrow> string \<Rightarrow> ContentBlock" where
  "DocumentBlock mediaType data = base64SourceBlock ''document'' mediaType data"

section \<open>Reading base64\<close>

definition base64_val :: "char \<Rightarrow> nat" where
  "base64_val c =
     (let n = of_char c :: nat in
      if 97 \<le> n then n - 71 else if 65 \<le> n then n - 65 else if 48 \<le> n then n + 4
      else if c = CHR ''+'' then 62 else 63)"

definition sextets :: "char \<Rightarrow> char \<Rightarrow> char \<Rightarrow> char \<Rightarrow> nat" where
  "sextets a b c d =
     base64_val a * 262144 + base64_val b * 4096 + base64_val c * 64 + base64_val d"

fun unbase64 :: "string \<Rightarrow> string" where
  "unbase64 (a # b # c # d # cs) =
     (if c = CHR ''='' then [char_of (sextets a b (CHR ''A'') (CHR ''A'') div 65536)]
      else if d = CHR ''='' then
        (let n = sextets a b c (CHR ''A'') in [char_of (n div 65536), char_of (n div 256 mod 256)])
      else
        (let n = sextets a b c d in
         [char_of (n div 65536), char_of (n div 256 mod 256), char_of (n mod 256)] @ unbase64 cs))"
| "unbase64 cs = []"

lemma base64_char_facts:
  assumes "n < 64"
  shows "base64_val (base64_char n) = n" "(of_char (base64_char n) :: nat) < 128" "base64_char n \<noteq> CHR ''=''"
proof -
  consider "n < 26" | "26 \<le> n" "n < 52" | "52 \<le> n" "n < 62" | "n = 62" | "n = 63" using assms by linarith
  then have "base64_val (base64_char n) = n \<and> (of_char (base64_char n) :: nat) < 128 \<and> (of_char (base64_char n) :: nat) \<noteq> 61"
    by cases (auto simp: base64_char_def base64_val_def Let_def)
  then show "base64_val (base64_char n) = n" "(of_char (base64_char n) :: nat) < 128" "base64_char n \<noteq> CHR ''=''"
    by auto
qed

lemma sextets_split:
  fixes n :: nat
  assumes "n < 16777216"
  shows "sextets (base64_char (n div 262144)) (base64_char (n div 4096 mod 64))
           (base64_char (n div 64 mod 64)) (base64_char (n mod 64)) = n"
proof -
  have "n div 262144 < 64" using assms by (intro less_mult_imp_div_less) simp
  then have "sextets (base64_char (n div 262144)) (base64_char (n div 4096 mod 64))
        (base64_char (n div 64 mod 64)) (base64_char (n mod 64))
      = n div 262144 * 262144 + n div 4096 mod 64 * 4096 + n div 64 mod 64 * 64 + n mod 64"
    by (simp add: sextets_def base64_char_facts(1))
  also have "\<dots> = n"
  proof -
    have a: "n = n div 64 * 64 + n mod 64" by simp
    have b: "n div 64 = n div 4096 * 64 + n div 64 mod 64"
      using div_mult_mod_eq [of "n div 64" 64] div_mult2_eq [of n 64 64] by simp
    have c: "n div 4096 = n div 262144 * 64 + n div 4096 mod 64"
      using div_mult_mod_eq [of "n div 4096" 64] div_mult2_eq [of n 4096 64] by simp
    show ?thesis using a b c by linarith
  qed
  finally show ?thesis .
qed

text \<open>A padded group is the group whose missing bytes are 0.\<close>

lemma base64_char_0: "base64_char 0 = CHR ''A''"
  by code_simp

lemma of_char_256: "(of_char c :: nat) < 256"
  by (rule code_less_256)

lemma three_bytes:
  fixes x y z :: nat
  assumes "y < 256" "z < 256"
  shows "(x * 65536 + y * 256 + z) div 65536 = x" "(x * 65536 + y * 256 + z) div 256 mod 256 = y"
    "(x * 65536 + y * 256 + z) mod 256 = z"
proof -
  have e: "x * 65536 + y * 256 + z = z + (y + x * 256) * 256" by simp
  have d: "(x * 65536 + y * 256 + z) div 256 = y + x * 256" unfolding e div_mult_self1 [OF numeral_neq_zero] using assms by simp
  then show "(x * 65536 + y * 256 + z) div 256 mod 256 = y" using assms by simp
  show "(x * 65536 + y * 256 + z) mod 256 = z" unfolding e mod_mult_self1 using assms by simp
  have "(x * 65536 + y * 256 + z) div 65536 = (x * 65536 + y * 256 + z) div 256 div 256"
    using div_mult2_eq [of "x * 65536 + y * 256 + z" 256 256] by simp
  then show "(x * 65536 + y * 256 + z) div 65536 = x" unfolding d using assms by simp
qed

lemma char_of_low_byte: "n mod 256 = of_char c \<Longrightarrow> char_of (n :: nat) = c"
  by (metis char_of_mod_256 char_of_char)

lemma unbase64_base64: "unbase64 (base64 s) = s"
proof (induction s rule: base64.induct)
  case 1
  then show ?case by simp
next
  case (2 a)
  define n where "n = (of_char a * 65536 :: nat)"
  have n: "n < 16777216" using of_char_256 [of a] by (simp add: n_def)
  have z: "n div 64 mod 64 = 0" "n mod 64 = 0" by (simp_all add: n_def)
  have "sextets (base64_char (n div 262144)) (base64_char (n div 4096 mod 64)) (CHR ''A'') (CHR ''A'') = n"
    using sextets_split [OF n] unfolding z base64_char_0 .
  then show ?case by (simp add: Let_def flip: n_def) (simp add: n_def)
next
  case (3 a b)
  define n where "n = (of_char a * 65536 + of_char b * 256 :: nat)"
  have n: "n < 16777216" using of_char_256 [of a] of_char_256 [of b] unfolding n_def by linarith
  have z: "n mod 64 = 0" by (simp add: n_def)
  have "sextets (base64_char (n div 262144)) (base64_char (n div 4096 mod 64)) (base64_char (n div 64 mod 64)) (CHR ''A'') = n"
    using sextets_split [OF n] unfolding z base64_char_0 .
  moreover have "n div 65536 = of_char a" "n div 256 mod 256 = of_char b"
    using of_char_256 [of b] by (simp_all add: n_def)
  moreover from this have "char_of (n div 256) = b" using char_of_low_byte by metis
  ultimately show ?case by (simp add: Let_def base64_char_facts(3) flip: n_def)
next
  case (4 a b c cs)
  define n where "n = (of_char a * 65536 + of_char b * 256 + of_char c :: nat)"
  have n: "n < 16777216" using of_char_256 [of a] of_char_256 [of b] of_char_256 [of c] unfolding n_def by linarith
  have "n div 65536 = of_char a" "n div 256 mod 256 = of_char b" "n mod 256 = of_char c"
    using three_bytes [OF of_char_256 of_char_256] unfolding n_def by blast+
  moreover from this have "char_of (n div 256) = b" "char_of n = c" using char_of_low_byte by metis+
  ultimately show ?case using 4 sextets_split [OF n] by (simp add: Let_def base64_char_facts(3) flip: n_def)
qed

lemma base64_ascii: "list_all (\<lambda>c. (of_char c :: nat) < 128) (base64 s)"
proof -
  have h: "n div 262144 < 64" if "n < 16777216" for n :: nat using that by (intro less_mult_imp_div_less) simp
  show ?thesis
  proof (induction s rule: base64.induct)
    case (2 a)
    define n where "n = (of_char a * 65536 :: nat)"
    have "n < 16777216" using of_char_256 [of a] by (simp add: n_def)
    then show ?case using h [of n] by (simp add: Let_def base64_char_facts flip: n_def)
  next
    case (3 a b)
    define n where "n = (of_char a * 65536 + of_char b * 256 :: nat)"
    have "n < 16777216" using of_char_256 [of a] of_char_256 [of b] unfolding n_def by linarith
    then show ?case using h [of n] by (simp add: Let_def base64_char_facts flip: n_def)
  next
    case (4 a b c cs)
    define n where "n = (of_char a * 65536 + of_char b * 256 + of_char c :: nat)"
    have "n < 16777216" using of_char_256 [of a] of_char_256 [of b] of_char_256 [of c] unfolding n_def by linarith
    then show ?case using 4 h [of n] by (simp add: Let_def base64_char_facts flip: n_def)
  qed simp
qed

section \<open>Reading a message\<close>

text \<open>The blocks a caller can make, and what a reader finds in a content.\<close>

datatype block = Words string | Picture string string | Paper string string

primrec made_block :: "block \<Rightarrow> ContentBlock" where
  "made_block (Words t) = TextBlock t"
| "made_block (Picture mt d) = ImageBlock mt d"
| "made_block (Paper mt d) = DocumentBlock mt d"

text \<open>Texts come through as UTF-8, bytes as they are.\<close>

primrec clean_block :: "block \<Rightarrow> block" where
  "clean_block (Words t) = Words (sanitize t)"
| "clean_block (Picture mt d) = Picture (sanitize mt) d"
| "clean_block (Paper mt d) = Paper (sanitize mt) d"

definition read_block :: "json \<Rightarrow> block option" where
  "read_block j =
     (case text_at [''type''] j of
        None \<Rightarrow> None
      | Some ty \<Rightarrow>
          if ty = ''text'' then map_option Words (text_at [''text''] j)
          else
            (case text_at [''source'', ''media_type''] j of
               None \<Rightarrow> None
             | Some mt \<Rightarrow>
                 map_option (\<lambda>d. (if ty = ''image'' then Picture else Paper) mt (unbase64 d))
                   (text_at [''source'', ''data''] j)))"

definition read_content :: "json \<Rightarrow> block option list" where
  "read_content j =
     (case j of
        JStr r s \<Rightarrow> [Some (Words s)]
      | JArr r js \<Rightarrow> map read_block js
      | _ \<Rightarrow> [])"

lemma block_text:
  "\<exists>j. json_text 2 (made_block b) j \<and> read_block j = Some (clean_block b)"
proof -
  have source: "\<exists>j. json_text 2 (base64SourceBlock ty mt d) j
      \<and> read_block j = Some ((if ty = ''image'' then Picture else Paper) (sanitize mt) d)"
    if ty: "ty = ''image'' \<or> ty = ''document''" for ty mt d
  proof -
    let ?src = "[(''type'', quote_json ''base64''), (''media_type'', quote_json mt), (''data'', quote_json (base64 d))]"
    let ?obj = "JObj (obj_json ?src) [(''type'', jstr ''base64''), (''media_type'', jstr mt), (''data'', jstr (base64 d))]"
    have 1: "json_text (Suc 0) (obj_json ?src) ?obj"
      by (rule text_members) (simp add: text_jstr sanitize_ascii)
    let ?ms = "[(''type'', quote_json ty), (''source'', obj_json ?src)]"
    have "json_text (Suc (Suc 0)) (obj_json ?ms) (JObj (obj_json ?ms) [(''type'', jstr ty), (''source'', ?obj)])"
      by (rule text_members) (simp add: text_jstr sanitize_ascii 1)
    moreover have "read_block (JObj r [(''type'', jstr ty), (''source'', JObj r' [(''type'', jstr ''base64''),
        (''media_type'', jstr mt), (''data'', jstr (base64 d))])])
        = Some ((if ty = ''image'' then Picture else Paper) (sanitize mt) d)" for r r'
      using ty base64_ascii [of d]
      by (elim disjE) (simp_all add: read_block_def sanitize_ascii unbase64_base64)
    ultimately show ?thesis unfolding base64SourceBlock_def numeral_2_eq_2 by blast
  qed
  show ?thesis
  proof (cases b)
    case (Words t)
    let ?ms = "[(''type'', quote_json ''text''), (''text'', quote_json t)]"
    have "json_text (Suc (Suc 0)) (obj_json ?ms) (JObj (obj_json ?ms) [(''type'', jstr ''text''), (''text'', jstr t)])"
      by (rule text_members) (simp add: text_jstr sanitize_ascii)
    with Words show ?thesis
      by (intro exI conjI) (auto simp: TextBlock_def numeral_2_eq_2 read_block_def sanitize_ascii)
  next
    case (Picture mt d)
    then show ?thesis using source [of "''image''" mt d] by (simp add: ImageBlock_def)
  next
    case (Paper mt d)
    then show ?thesis using source [of "''document''" mt d] by (simp add: DocumentBlock_def)
  qed
qed

lemma block_steady: "steady (made_block b)" "one_line (made_block b)"
  by (cases b; simp add: TextBlock_def ImageBlock_def DocumentBlock_def base64SourceBlock_def
        steady_object steady_quote one_line_object)+

lemma blocks_text:
  "\<exists>js. list_all2 (json_text 2) (map made_block bs) js \<and> map read_block js = map (Some \<circ> clean_block) bs"
proof (induction bs)
  case Nil
  then show ?case by simp
next
  case (Cons b bs)
  then obtain js where js: "list_all2 (json_text 2) (map made_block bs) js"
      "map read_block js = map (Some \<circ> clean_block) bs" by blast
  obtain j where j: "json_text 2 (made_block b) j" "read_block j = Some (clean_block b)"
    using block_text by blast
  with js show ?case by (intro exI [of _ "j # js"]) simp
qed

lemma content_text:
  assumes "msg_Text m = t" "msg_Blocks m = map made_block bs"
  shows "\<exists>j. json_text 3 (message_content m) j \<and> read_content j = map (Some \<circ> clean_block) (Words t # bs)"
    and "one_line (message_content m)"
proof -
  show "\<exists>j. json_text 3 (message_content m) j \<and> read_content j = map (Some \<circ> clean_block) (Words t # bs)"
  proof (cases "bs = []")
    case True
    then have "message_content m = quote_json t" using assms by (simp add: message_content_def)
    moreover have "read_content (jstr t) = [Some (Words (sanitize t))]" by (simp add: read_content_def jstr_def)
    ultimately show ?thesis using text_jstr [of 3 t] True by auto
  next
    case False
    let ?es = "map made_block (Words t # bs)"
    have c: "map (compact_json False) ?es = ?es" by (simp add: block_steady(1) steady_compact del: made_block.simps)
    have "message_content m = ''['' @ join '','' (map (compact_json False) ?es) @ '']''"
      using assms False by (simp add: message_content_def array_json_def)
    then have e: "message_content m = ''['' @ join '','' ?es @ '']''" unfolding c .
    obtain js where js: "list_all2 (json_text 2) ?es js" "map read_block js = map (Some \<circ> clean_block) (Words t # bs)"
      using blocks_text [of "Words t # bs"] by blast
    have "json_text (Suc 2) (message_content m) (JArr (message_content m) js)"
      unfolding e by (rule text_array [OF js(1)]) simp
    then have "json_text 3 (message_content m) (JArr (message_content m) js)" by simp
    moreover have "read_content (JArr (message_content m) js) = map (Some \<circ> clean_block) (Words t # bs)"
      using js(2) by (simp add: read_content_def)
    ultimately show ?thesis by blast
  qed
  have "list_all one_line (map (compact_json False) (map made_block (Words t # bs)))"
    by (simp add: list_all_iff steady_compact block_steady del: made_block.simps)
  then have "one_line (array_json (map (compact_json False) (TextBlock t # map made_block bs)))"
    by (simp add: array_json_def one_line_join)
  then show "one_line (message_content m)" using assms by (simp add: message_content_def)
qed

text \<open>
  C13: what a session writes for a message is one line of JSON, whatever bytes the prompt, the blocks
  and the session id hold: no byte of it is below the blank. A reader of the line finds a user
  message whose content is the prompt followed by the blocks in their order, with texts as UTF-8 and
  the bytes of images and documents unchanged.
\<close>

theorem messages_read_back:
  "one_line (user_message sid \<lparr>msg_Text = t, msg_Blocks = map made_block bs, msg_FromHuman = h\<rparr>)
   \<and> (\<exists>j. parse_json (user_message sid \<lparr>msg_Text = t, msg_Blocks = map made_block bs, msg_FromHuman = h\<rparr>) = Some j
        \<and> text_at [''type''] j = Some ''user''
        \<and> text_at [''message'', ''role''] j = Some ''user''
        \<and> text_at [''session_id''] j = (if sid = [] then None else Some (sanitize sid))
        \<and> map_option read_content (at_path [''message'', ''content''] j)
            = Some (map (Some \<circ> clean_block) (Words t # bs)))"
proof -
  define m where "m = \<lparr>msg_Text = t, msg_Blocks = map made_block bs, msg_FromHuman = h\<rparr>"
  obtain c where c: "json_text 3 (message_content m) c" "read_content c = map (Some \<circ> clean_block) (Words t # bs)"
    and one: "one_line (message_content m)"
    using content_text [of m t bs] by (auto simp: m_def)
  let ?msg = "[(''role'', quote_json ''user''), (''content'', message_content m)]"
  let ?mj = "JObj (obj_json ?msg) [(''role'', jstr ''user''), (''content'', c)]"
  have 1: "json_text (Suc 3) (obj_json ?msg) ?mj" by (rule text_members) (simp add: text_jstr sanitize_ascii c(1))
  let ?kind = "[(''kind'', quote_json ''human'')]"
  let ?kj = "JObj (obj_json ?kind) [(''kind'', jstr ''human'')]"
  have 2: "json_text (Suc 3) (obj_json ?kind) ?kj" by (rule text_members) (simp add: text_jstr sanitize_ascii)
  let ?ms = "[(''type'', quote_json ''user'')] @ (if sid = [] then [] else [(''session_id'', quote_json sid)])
      @ [(''message'', obj_json ?msg), (''parent_tool_use_id'', ''null'')]
      @ (if h then [(''origin'', obj_json ?kind)] else [])"
  let ?js = "[(''type'', jstr ''user'')] @ (if sid = [] then [] else [(''session_id'', jstr sid)])
      @ [(''message'', ?mj), (''parent_tool_use_id'', JNull)] @ (if h then [(''origin'', ?kj)] else [])"
  have um: "user_message sid m = obj_json ?ms" by (simp add: user_message_def m_def)
  have "json_text (Suc (Suc 3)) (obj_json ?ms) (JObj (obj_json ?ms) ?js)"
    using 1 2 by (intro text_members) (simp add: text_jstr text_literal sanitize_ascii)
  then have p: "parse_json (user_message sid m) = Some (JObj (obj_json ?ms) ?js)"
    unfolding um by (rule text_document) (simp add: max_depth_def)
  have "one_line ''null''" by simp
  with one have "one_line (user_message sid m)"
    unfolding um by (intro one_line_object) (simp add: one_line_object)
  with p c(2) show ?thesis unfolding m_def [symmetric]
    by (simp add: sanitize_ascii)
qed

end
