(* ===== verification/Requests.thy ===== *)
theory Requests
  imports Control Content_Blocks Client_Run
begin

text \<open>
  The requests a caller makes of a running CLI: the typed wrappers of session.go,
  control\_requests.go, settings.go and context\_usage.go over \<^verbatim>\<open>sendControlRequestRaw\<close>, \<^verbatim>\<open>Ping\<close>,
  the getters of a session, \<^verbatim>\<open>Close\<close>, the progress ticker and \<^verbatim>\<open>Connect\<close>.
\<close>

section \<open>Calls that ask the CLI\<close>

text \<open>
  A call is a tree: it returns, changes the session and goes on, or asks the CLI and goes on with
  the answer. \<open>Blocked\<close> is a call that waits for something that has not happened yet.
\<close>

datatype 'a ask =
    Return 'a
  | Blocked
  | Change "Session \<Rightarrow> Session" "'a ask"
  | Ask string "(string \<times> string) list" "go_error + raw_msg \<Rightarrow> 'a ask"

primrec and_then :: "'a ask \<Rightarrow> ('a \<Rightarrow> 'b ask) \<Rightarrow> 'b ask" where
  "and_then (Return a) f = f a"
| "and_then Blocked f = Blocked"
| "and_then (Change g k) f = Change g (and_then k f)"
| "and_then (Ask sub data k) f = Ask sub data (\<lambda>r. and_then (k r) f)"

text \<open>
  What meets one request: the outcome of its write, what the rest of the program does to the session
  before the wait ends, and how the wait ends.
\<close>

record exchange =
  ex_write :: write_outcome
  ex_others :: "Session \<Rightarrow> Session"
  ex_end :: await_end

definition exchange_run ::
    "string \<Rightarrow> (string \<times> string) list \<Rightarrow> exchange \<Rightarrow> Session \<Rightarrow> (Session \<times> (go_error + raw_msg)) option" where
  "exchange_run sub data x s =
     (case control_begin sub data (ex_write x) s of
        (s, Inl e) \<Rightarrow> Some (s, Inl e)
      | (s, Inr rid) \<Rightarrow> control_await sub rid (ex_end x) (ex_others x s))"

text \<open>\<open>None\<close>: the call has not returned when the exchanges are used up.\<close>

primrec perform :: "'a ask \<Rightarrow> exchange list \<Rightarrow> Session \<Rightarrow> (Session \<times> 'a) option" where
  "perform (Return a) xs s = Some (s, a)"
| "perform Blocked xs s = None"
| "perform (Change g k) xs s = perform k xs (g s)"
| "perform (Ask sub data k) xs s =
     (case xs of
        [] \<Rightarrow> None
      | x # xs \<Rightarrow>
          (case exchange_run sub data x s of
             None \<Rightarrow> None
           | Some (s, r) \<Rightarrow> perform (k r) xs s))"

definition sendControlRequestRaw :: "string \<Rightarrow> (string \<times> string) list \<Rightarrow> (go_error + raw_msg) ask" where
  "sendControlRequestRaw sub data = Ask sub data Return"

definition sendControlRequest :: "string \<Rightarrow> (string \<times> string) list \<Rightarrow> go_error option ask" where
  "sendControlRequest sub data =
     and_then (sendControlRequestRaw sub data)
       (\<lambda>r. Return (case r of Inl e \<Rightarrow> Some e | Inr _ \<Rightarrow> None))"

text \<open>The shape most wrappers have: an error ends the call, an answer is read.\<close>

definition ask_body :: "string \<Rightarrow> (string \<times> string) list \<Rightarrow> (raw_msg \<Rightarrow> (go_error + 'a) ask) \<Rightarrow> (go_error + 'a) ask" where
  "ask_body sub data f =
     and_then (sendControlRequestRaw sub data)
       (\<lambda>r. case r of Inl e \<Rightarrow> Return (Inl e) | Inr raw \<Rightarrow> f raw)"

definition decoded :: "string \<Rightarrow> 'b dec \<Rightarrow> 'b \<Rightarrow> raw_msg \<Rightarrow> ('b \<Rightarrow> (go_error + 'a) ask) \<Rightarrow> (go_error + 'a) ask" where
  "decoded pre d z raw f =
     (case unmarshal_raw d raw z of
        (v, ok) \<Rightarrow> if ok then f v else Return (Inl (EWrap pre json_error [])))"

definition json_bool :: "bool \<Rightarrow> string" where
  "json_bool b = (if b then ''true'' else ''false'')"

section \<open>Turn control and modes\<close>

record InterruptReceipt =
  ir_StillQueued :: "string list option"
  ir_Cancelled :: "string list option"

definition zero_receipt :: InterruptReceipt where
  "zero_receipt = \<lparr>ir_StillQueued = None, ir_Cancelled = None\<rparr>"

definition d_receipt :: "InterruptReceipt dec" where
  "d_receipt =
     d_struct
       [fld ''still_queued'' (d_slice d_str []) ir_StillQueued ir_StillQueued_update,
        fld ''cancelled'' (d_slice d_str []) ir_Cancelled ir_Cancelled_update]"

definition InterruptWithQueued :: "bool \<Rightarrow> (go_error + InterruptReceipt) ask" where
  "InterruptWithQueued cancelQueued =
     ask_body ''interrupt'' (if cancelQueued then [(''cancel_queued'', json_bool True)] else [])
       (\<lambda>raw. Return (Inr
          (case unmarshal_raw d_receipt raw zero_receipt of
             (body, ok) \<Rightarrow> if raw \<noteq> None \<and> ok then body else zero_receipt)))"

definition Interrupt :: "go_error option ask" where
  "Interrupt =
     and_then (InterruptWithQueued False) (\<lambda>r. Return (case r of Inl e \<Rightarrow> Some e | Inr _ \<Rightarrow> None))"

definition SetPermissionMode :: "string \<Rightarrow> go_error option ask" where
  "SetPermissionMode mode = sendControlRequest ''set_permission_mode'' [(''mode'', quote_json mode)]"

definition SetModel :: "string \<Rightarrow> go_error option ask" where
  "SetModel model = sendControlRequest ''set_model'' [(''model'', quote_json model)]"

definition RegisterRepoRoot :: "string \<Rightarrow> (go_error + string) ask" where
  "RegisterRepoRoot directory =
     ask_body ''register_repo_root'' [(''directory'', quote_json directory)]
       (\<lambda>raw. decoded ''parse register_repo_root response: '' (d_one ''directory'' d_str) [] raw
          (\<lambda>d. Return (Inr d)))"

definition RewindFiles :: "string \<Rightarrow> go_error option ask" where
  "RewindFiles userMessageID =
     sendControlRequest ''rewind_files'' [(''user_message_id'', quote_json userMessageID)]"

definition StopTask :: "string \<Rightarrow> go_error option ask" where
  "StopTask taskID = sendControlRequest ''stop_task'' [(''task_id'', quote_json taskID)]"

definition background_task :: "string \<Rightarrow> (go_error + bool) ask" where
  "background_task toolUseID =
     ask_body ''background_tasks''
       (if toolUseID \<noteq> [] then [(''tool_use_id'', quote_json toolUseID)] else [])
       (\<lambda>raw. Return (Inr
          (raw \<noteq> None \<and> fst (unmarshal_raw (d_one ''backgrounded'' d_bool) raw False))))"

definition RenameSession :: "string \<Rightarrow> go_error option ask" where
  "RenameSession title = sendControlRequest ''rename_session'' [(''title'', quote_json title)]"

text \<open>\<open>tokens\<close> is nil for the session's default; an empty \<open>display\<close> leaves the display mode.\<close>

definition SetMaxThinkingTokens :: "int option \<Rightarrow> string \<Rightarrow> go_error option ask" where
  "SetMaxThinkingTokens tokens display =
     sendControlRequest ''set_max_thinking_tokens''
       ([(''max_thinking_tokens'', (case tokens of None \<Rightarrow> ''null'' | Some n \<Rightarrow> show_int n))]
        @ (if display \<noteq> [] then [(''thinking_display'', quote_json display)] else []))"

section \<open>MCP servers\<close>

definition ReconnectMCPServer :: "string \<Rightarrow> go_error option ask" where
  "ReconnectMCPServer serverName =
     sendControlRequest ''mcp_reconnect'' [(''serverName'', quote_json serverName)]"

definition ToggleMCPServer :: "string \<Rightarrow> bool \<Rightarrow> go_error option ask" where
  "ToggleMCPServer serverName enabled =
     sendControlRequest ''mcp_toggle''
       [(''serverName'', quote_json serverName), (''enabled'', json_bool enabled)]"

definition GetMCPStatus :: "go_error option ask" where
  "GetMCPStatus = sendControlRequest ''mcp_status'' []"

definition QueryMCPStatus :: "(go_error + MCPServerStatus list option) ask" where
  "QueryMCPStatus =
     ask_body ''mcp_status'' []
       (\<lambda>raw.
          case unmarshal_raw (d_one ''mcpServers'' (d_slice d_MCPServerStatus zero_MCPServerStatus)) raw None of
            (servers, ok) \<Rightarrow>
              if ok \<and> servers \<noteq> None then Return (Inr servers)
              else
                decoded ''parse mcp_status response: '' (d_slice d_MCPServerStatus zero_MCPServerStatus)
                  None raw (\<lambda>servers. Return (Inr servers)))"

text \<open>
  The wait between two polls ends with a tick, the deadline, or the end of the session's context;
  Go chooses when several are ready, so the list says which.
\<close>

datatype pause = Tick | Deadline | ContextOver go_error

definition poll_connected :: "string \<Rightarrow> go_error option ask \<Rightarrow> go_error option ask" where
  "poll_connected serverName go_on =
     and_then QueryMCPStatus
       (\<lambda>r. case r of
          Inl e \<Rightarrow> Return (Some (EWrap ''mcp_reconnect_wait: status query: '' e []))
        | Inr servers \<Rightarrow>
            if list_ex (\<lambda>srv. mss_Name srv = serverName \<and> mss_Status srv = ''connected'')
                 (case servers of None \<Rightarrow> [] | Some l \<Rightarrow> l)
            then Return None else go_on)"

primrec wait_connected :: "string \<Rightarrow> nanos \<Rightarrow> pause list \<Rightarrow> go_error option ask" where
  "wait_connected serverName timeout [] = poll_connected serverName Blocked"
| "wait_connected serverName timeout (p # ps) =
     poll_connected serverName
       (case p of
          Tick \<Rightarrow> wait_connected serverName timeout ps
        | Deadline \<Rightarrow>
            Return (Some (ENew (''mcp_reconnect_wait: '' @ serverName @ '' not connected after ''
                                @ duration_text timeout)))
        | ContextOver e \<Rightarrow> Return (Some e))"

definition default_reconnect_timeout :: nanos where
  "default_reconnect_timeout = 10 * 1000000000"

definition ReconnectMCPServerWait :: "string \<Rightarrow> nanos \<Rightarrow> pause list \<Rightarrow> go_error option ask" where
  "ReconnectMCPServerWait serverName timeout ps =
     and_then (ReconnectMCPServer serverName)
       (\<lambda>r. case r of
          Some e \<Rightarrow> Return (Some e)
        | None \<Rightarrow>
            wait_connected serverName
              (if timeout \<le> 0 then default_reconnect_timeout else timeout) ps)"

section \<open>Commands, plugins, settings\<close>

record BinaryVersion =
  bv_Version :: string
  bv_BuildTime :: string

definition QueryBinaryVersion :: "(go_error + BinaryVersion) ask" where
  "QueryBinaryVersion =
     ask_body ''get_binary_version'' []
       (\<lambda>raw. decoded ''get_binary_version: decode response: ''
          (d_struct [fld ''version'' d_str bv_Version bv_Version_update,
                     fld ''buildTime'' d_str bv_BuildTime bv_BuildTime_update])
          \<lparr>bv_Version = [], bv_BuildTime = []\<rparr> raw (\<lambda>v. Return (Inr v)))"

definition ReloadSkills :: "(go_error + SlashCommand list option) ask" where
  "ReloadSkills =
     ask_body ''reload_skills'' []
       (\<lambda>raw. decoded ''reload_skills: decode response: ''
          (d_one ''skills'' (d_slice d_SlashCommand zero_SlashCommand)) None raw
          (\<lambda>skills. Return (Inr skills)))"

record ReloadPluginsResult =
  rpl_Commands :: "SlashCommand list option"
  rpl_MCPServers :: "MCPServerStatus list"
  rpl_ErrorCount :: int
  rpl_Raw :: string

definition d_ReloadPluginsResult :: "ReloadPluginsResult dec" where
  "d_ReloadPluginsResult =
     d_struct
       [fld ''commands'' (d_slice d_SlashCommand zero_SlashCommand) rpl_Commands rpl_Commands_update,
        fld ''mcpServers'' (d_list d_MCPServerStatus zero_MCPServerStatus) rpl_MCPServers
          rpl_MCPServers_update,
        fld ''error_count'' d_int rpl_ErrorCount rpl_ErrorCount_update]"

definition ReloadPlugins :: "(go_error + ReloadPluginsResult) ask" where
  "ReloadPlugins =
     ask_body ''reload_plugins'' []
       (\<lambda>raw. decoded ''reload_plugins: decode response: '' d_ReloadPluginsResult
          \<lparr>rpl_Commands = None, rpl_MCPServers = [], rpl_ErrorCount = 0, rpl_Raw = []\<rparr> raw
          (\<lambda>r. let result = r\<lparr>rpl_Raw := raw_bytes raw\<rparr> in
               if rpl_Commands result \<noteq> None
               then Change (setCommands (rpl_Commands result)) (Return (Inr result))
               else Return (Inr result)))"

record SettingsSnapshot =
  sn_Effective :: raw_msg
  sn_Sources :: raw_msg
  sn_Applied :: raw_msg

definition d_settings :: "SettingsSnapshot dec" where
  "d_settings =
     d_struct
       [fld ''effective'' d_raw sn_Effective sn_Effective_update,
        fld ''sources'' d_raw sn_Sources sn_Sources_update,
        fld ''applied'' d_raw sn_Applied sn_Applied_update]"

definition zero_settings :: SettingsSnapshot where
  "zero_settings = \<lparr>sn_Effective = None, sn_Sources = None, sn_Applied = None\<rparr>"

definition QuerySettings :: "(go_error + SettingsSnapshot) ask" where
  "QuerySettings =
     ask_body ''get_settings'' []
       (\<lambda>raw. decoded ''get_settings: decode response: '' d_settings zero_settings raw
          (\<lambda>body. Return (Inr body)))"

definition AppliedEffort :: "SettingsSnapshot \<Rightarrow> string" where
  "AppliedEffort sn =
     (case unmarshal_raw (d_one ''effort'' (d_ptr d_str [])) (sn_Applied sn) None of
        (effort, ok) \<Rightarrow> if \<not> ok then [] else (case effort of None \<Rightarrow> [] | Some e \<Rightarrow> e))"

text \<open>
  The settings of a caller are its values as \<^verbatim>\<open>json.Marshal\<close> encodes them, or the error it gives for
  one: then the id is used up and nothing is written. \<open>None\<close> is the nil map.
\<close>

definition refused_value :: "(string \<times> (go_error + string)) list \<Rightarrow> go_error option" where
  "refused_value vs =
     (case concat (map (\<lambda>(k, v). case v of Inl e \<Rightarrow> [e] | Inr _ \<Rightarrow> []) (sort_key fst vs)) of
        [] \<Rightarrow> None
      | e # _ \<Rightarrow> Some e)"

definition ApplyFlagSettings :: "(string \<times> (go_error + string)) list option \<Rightarrow> go_error option ask" where
  "ApplyFlagSettings settings =
     (case settings of
        None \<Rightarrow> Return (Some (ENew ''apply_flag_settings: settings must not be nil''))
      | Some vs \<Rightarrow>
          (case refused_value vs of
             Some e \<Rightarrow>
               Change (\<lambda>s. case register_request s of (s, rid) \<Rightarrow> unregister rid s) (Return (Some e))
           | None \<Rightarrow>
               sendControlRequest ''apply_flag_settings''
                 [(''settings'', map_json (map (map_prod id (case_sum (\<lambda>_. []) id)) vs))]))"

definition SetEffort :: "string \<Rightarrow> (go_error + string) ask" where
  "SetEffort level =
     and_then (ApplyFlagSettings
                 (Some [(''effortLevel'', Inr (if level \<noteq> [] then quote_json level else ''null''))]))
       (\<lambda>r. case r of
          Some e \<Rightarrow> Return (Inl (EWrap ''set effort: '' e []))
        | None \<Rightarrow>
            and_then QuerySettings
              (\<lambda>r. Return (case r of
                 Inl e \<Rightarrow> Inl (EWrap ''set effort: read back: '' e [])
               | Inr sn \<Rightarrow> Inr (AppliedEffort sn))))"

record PermissionRules =
  prl_Allow :: "string list"
  prl_Deny :: "string list"
  prl_Ask :: "string list"

definition rules_json :: "PermissionRules \<Rightarrow> string" where
  "rules_json r =
     obj_json (concat (map (\<lambda>(k, l). if l = [] then [] else [(k, array_json (map quote_json l))])
                 [(''allow'', prl_Allow r), (''deny'', prl_Deny r), (''ask'', prl_Ask r)]))"

definition SetPermissionRules :: "PermissionRules \<Rightarrow> go_error option ask" where
  "SetPermissionRules rules = ApplyFlagSettings (Some [(''permissions'', Inr (rules_json rules))])"

section \<open>Context usage\<close>

definition d_ContextCategory :: "ContextCategory dec" where
  "d_ContextCategory =
     d_struct
       [fld ''name'' d_str cat_Name cat_Name_update,
        fld ''tokens'' d_int cat_Tokens cat_Tokens_update,
        fld ''isDeferred'' d_bool cat_IsDeferred cat_IsDeferred_update]"

definition zero_ContextUsage :: ContextUsage where
  "zero_ContextUsage =
     \<lparr>cu_Model = [], cu_TotalTokens = 0, cu_MaxTokens = 0, cu_RawMaxTokens = 0, cu_Percentage = 0,
      cu_IsAutoCompactEnabled = False, cu_AutoCompactThreshold = 0, cu_AutocompactSource = [],
      cu_Categories = [], cu_Raw = []\<rparr>"

definition d_ContextUsage :: "ContextUsage dec" where
  "d_ContextUsage =
     d_struct
       [fld ''model'' d_str cu_Model cu_Model_update,
        fld ''totalTokens'' d_int cu_TotalTokens cu_TotalTokens_update,
        fld ''maxTokens'' d_int cu_MaxTokens cu_MaxTokens_update,
        fld ''rawMaxTokens'' d_int cu_RawMaxTokens cu_RawMaxTokens_update,
        fld ''percentage'' d_float cu_Percentage cu_Percentage_update,
        fld ''isAutoCompactEnabled'' d_bool cu_IsAutoCompactEnabled cu_IsAutoCompactEnabled_update,
        fld ''autoCompactThreshold'' d_int cu_AutoCompactThreshold cu_AutoCompactThreshold_update,
        fld ''autocompactSource'' d_str cu_AutocompactSource cu_AutocompactSource_update,
        fld ''categories'' (d_list d_ContextCategory \<lparr>cat_Name = [], cat_Tokens = 0, cat_IsDeferred = False\<rparr>)
          cu_Categories cu_Categories_update]"

definition QueryContextUsage :: "(go_error + ContextUsage) ask" where
  "QueryContextUsage =
     ask_body ''get_context_usage'' []
       (\<lambda>raw. decoded ''get_context_usage: decode response: '' d_ContextUsage zero_ContextUsage raw
          (\<lambda>u. let usage = u\<lparr>cu_Raw := raw_bytes raw\<rparr> in
               Change (\<lambda>s. s\<lparr>ss_contextWindows := recordContextWindow (Some usage) (ss_contextWindows s)\<rparr>)
                 (Return (Inr usage))))"

section \<open>The probe\<close>

text \<open>\<^verbatim>\<open>errors.Is\<close> against an error value: the error or one it wraps.\<close>

fun wraps_error :: "go_error \<Rightarrow> go_error \<Rightarrow> bool" where
  "wraps_error (EWrap pre e post) t = (EWrap pre e post = t \<or> wraps_error e t)"
| "wraps_error (EWrap2 e f) t = (EWrap2 e f = t \<or> wraps_error e t \<or> wraps_error f t)"
| "wraps_error (ECli a b c d (Some e)) t = (ECli a b c d (Some e) = t \<or> wraps_error e t)"
| "wraps_error e t = (e = t)"

definition ping_timeout :: "nanos \<Rightarrow> Session \<Rightarrow> nanos" where
  "ping_timeout timeout s = (if timeout \<le> 0 then ss_controlTimeout s else timeout)"

definition ping_begin :: "nanos \<Rightarrow> write_outcome \<Rightarrow> Session \<Rightarrow> Session \<times> (go_error + string)" where
  "ping_begin timeout w s =
     (if ss_done s then (s, Inl (EWrap ''ping: '' errSessionEnded []))
      else
        (let t = ping_timeout timeout s in
         case register_request s of
           (s, rid) \<Rightarrow>
             (case writeStdinTimeout (control_line rid ''get_binary_version'' [] @ [CHR 0x0A]) t w s of
                (s, Some e) \<Rightarrow> (unregister rid s, Inl (EWrap ''ping: write: '' e []))
              | (s, None) \<Rightarrow> (s, Inr rid))))"

datatype ping_end = PingReply | PingDone | PingTimedOut | PingContext go_error

definition ping_await :: "nanos \<Rightarrow> string \<Rightarrow> ping_end \<Rightarrow> Session \<Rightarrow> (Session \<times> go_error option) option" where
  "ping_await timeout rid how s =
     (case how of
        PingReply \<Rightarrow>
          (case map_of (ss_replies s) rid of
             None \<Rightarrow> None
           | Some r \<Rightarrow>
               Some (unregister rid s,
                     (case cr_Err r of
                        None \<Rightarrow> None
                      | Some e \<Rightarrow>
                          if wraps_error e errSessionEnded then Some (EWrap ''ping: '' e []) else None)))
      | PingDone \<Rightarrow>
          if ss_done s then Some (unregister rid s, Some (EWrap ''ping: '' errSessionEnded [])) else None
      | PingTimedOut \<Rightarrow>
          Some (unregister rid s,
                Some (ENew (''ping: timeout after '' @ duration_text (ping_timeout timeout s))))
      | PingContext e \<Rightarrow> Some (unregister rid s, Some (EWrap ''ping: '' e [])))"

definition Ping ::
    "nanos \<Rightarrow> write_outcome \<Rightarrow> (Session \<Rightarrow> Session) \<Rightarrow> ping_end \<Rightarrow> Session \<Rightarrow> (Session \<times> go_error option) option" where
  "Ping timeout w others how s =
     (case ping_begin timeout w s of
        (s', Inl e) \<Rightarrow> Some (s', Some e)
      | (s', Inr rid) \<Rightarrow> ping_await (ping_timeout timeout s) rid how (others s'))"

section \<open>Getters and closing\<close>

text \<open>A \<^verbatim>\<open>time.Time\<close> read from an atomic counter: zero while the counter is 0.\<close>

definition time_of :: "nanos \<Rightarrow> nanos option" where
  "time_of n = (if n \<noteq> 0 then Some n else None)"

definition LastEventAt :: "Session \<Rightarrow> nanos option" where
  "LastEventAt s = time_of (ss_lastEventAtNs s)"

record ProcessInfo =
  pin_LastStdoutAt :: "nanos option"
  pin_LastEventAt :: "nanos option"
  pin_ActivityState :: ActivityState
  pin_Lifecycle :: State
  pin_SessionID :: string

definition process_info :: "Session \<Rightarrow> ProcessInfo" where
  "process_info s =
     \<lparr>pin_LastStdoutAt = time_of (ss_lastStdoutAt s), pin_LastEventAt = LastEventAt s,
      pin_ActivityState = at_state (ss_activity s), pin_Lifecycle = ss_state s,
      pin_SessionID = ss_sessionID s\<rparr>"

text \<open>\<^verbatim>\<open>Commands\<close>, \<^verbatim>\<open>GetServerInfo\<close>, and the messages of \<^verbatim>\<open>Query\<close> and \<^verbatim>\<open>SendMessage\<close>.\<close>

definition Commands :: "Session \<Rightarrow> SlashCommand list option" where
  "Commands s = ss_commands s"

definition GetServerInfo :: "Session \<Rightarrow> raw_msg" where
  "GetServerInfo s = ss_serverInfo s"

definition Query :: "nanos \<Rightarrow> string \<Rightarrow> write_outcome \<Rightarrow> Session \<Rightarrow> Session \<times> go_error option" where
  "Query now prompt = QueryMsg now \<lparr>msg_Text = prompt, msg_Blocks = [], msg_FromHuman = False\<rparr>"

definition QueryWithContent ::
    "nanos \<Rightarrow> string \<Rightarrow> ContentBlock list \<Rightarrow> write_outcome \<Rightarrow> Session \<Rightarrow> Session \<times> go_error option" where
  "QueryWithContent now prompt blocks =
     QueryMsg now \<lparr>msg_Text = prompt, msg_Blocks = blocks, msg_FromHuman = False\<rparr>"

definition SendMessage :: "nanos \<Rightarrow> string \<Rightarrow> write_outcome \<Rightarrow> Session \<Rightarrow> Session \<times> go_error option" where
  "SendMessage now prompt = SendMsg now \<lparr>msg_Text = prompt, msg_Blocks = [], msg_FromHuman = False\<rparr>"

definition SendMessageWithContent ::
    "nanos \<Rightarrow> string \<Rightarrow> ContentBlock list \<Rightarrow> write_outcome \<Rightarrow> Session \<Rightarrow> Session \<times> go_error option" where
  "SendMessageWithContent now prompt blocks =
     SendMsg now \<lparr>msg_Text = prompt, msg_Blocks = blocks, msg_FromHuman = False\<rparr>"

text \<open>
  \<^verbatim>\<open>Close\<close>: it closes stdin and keeps the error of that; then, with the end of the session or of the
  grace period (which cancels the context), it takes events until the channel is closed and empty,
  and returns when the read loop is over.
\<close>

definition close_stdin :: "go_error option \<Rightarrow> Session \<Rightarrow> Session \<times> go_error option" where
  "close_stdin err s = (s\<lparr>ss_stdinClosed := True\<rparr>, (if ss_hasStdin s then err else None))"

definition close_drain :: "Session \<Rightarrow> Session" where
  "close_drain s = s\<lparr>ss_events := tl (ss_events s)\<rparr>"

definition close_returns :: "Session \<Rightarrow> bool" where
  "close_returns s \<longleftrightarrow> ss_events s = [] \<and> ss_eventsClosed s \<and> ss_done s"

section \<open>The progress ticker\<close>

text \<open>
  The goroutine that reports a long tool call: it runs while the CLI waits for a tool result. Its
  \<^verbatim>\<open>select\<close> takes a tick, the stop, or the end of the context; the list says which, in order.
\<close>

definition tool_progress_interval :: "nanos \<Rightarrow> nanos" where
  "tool_progress_interval n = (if n \<le> 0 then 30 * 1000000000 else n)"

definition startToolProgressTicker :: "Session \<Rightarrow> Session" where
  "startToolProgressTicker s = (if ss_ticker s then s else s\<lparr>ss_ticker := True\<rparr>)"

definition stopToolProgressTicker :: "Session \<Rightarrow> Session" where
  "stopToolProgressTicker s = (if \<not> ss_ticker s then s else s\<lparr>ss_ticker := False\<rparr>)"

datatype tick = TickStop | TickContextOver | TickAt nanos

primrec ticker_loop :: "tick list \<Rightarrow> Session \<Rightarrow> Session" where
  "ticker_loop [] s = s"
| "ticker_loop (k # ks) s =
     (case k of
        TickStop \<Rightarrow> s
      | TickContextOver \<Rightarrow> s
      | TickAt now \<Rightarrow> ticker_loop ks (emitToolProgress now s))"

text \<open>A transition starts the ticker or stops it, as the state it moves to says.\<close>

lemma transition_moves_the_ticker:
  "emitTransition (Some e) arr g s =
     (if csc_State e = ActivityAwaitingToolResult then startToolProgressTicker else stopToolProgressTicker)
       (pumpSendRaw \<lparr>sv_ev = PEvent (EvCLIStateChange e), sv_at = arr, sv_gen = g\<rparr> s)"
  by (simp add: emitTransition_def startToolProgressTicker_def stopToolProgressTicker_def)

text \<open>While no tool use is open, the ticks that still come report nothing.\<close>

lemma idle_ticker_is_silent:
  "FirstPending (ss_activity s) = None \<Longrightarrow> ticker_loop ks s = s"
proof (induction ks)
  case (Cons k ks)
  then show ?case by (cases k) (simp_all add: emitToolProgress_def)
qed simp

section \<open>Connecting\<close>

text \<open>
  \<^verbatim>\<open>initialize\<close> up to its wait, and \<^verbatim>\<open>Connect\<close>: what the executor did, the outcome of the write, what
  the read loop does meanwhile and the end of the wait are arguments. The context of a session that
  fails to initialize is cancelled, and nobody holds it any more.
\<close>

definition initialize_begin :: "write_outcome \<Rightarrow> Session \<Rightarrow> Session \<times> (go_error + string)" where
  "initialize_begin w s =
     (case control_begin ''initialize'' [] w s of
        (s, Inl e) \<Rightarrow> (s, Inl (EWrap ''write initialize: '' e []))
      | (s, Inr rid) \<Rightarrow> (s, Inr rid))"

definition or_default :: "nanos \<Rightarrow> nanos \<Rightarrow> nanos" where
  "or_default d t = (if t \<le> 0 then d else t)"

definition defaultControlTimeout :: nanos where
  "defaultControlTimeout = 30 * 1000000000"

definition defaultInitTimeout :: nanos where
  "defaultInitTimeout = 60 * 1000000000"

definition connect_session :: "options \<Rightarrow> Session" where
  "connect_session op =
     newSession (op_replayUserMessages op) (op_stdinWriteTimeout op)
       (or_default defaultControlTimeout (op_controlTimeout op))
       (or_default defaultInitTimeout (op_initTimeout op))"

definition mark_ready :: "Session \<Rightarrow> Session" where
  "mark_ready s =
     s\<lparr>ss_ready := True, ss_state := (if ss_state s = StateStarting then StateIdle else ss_state s)\<rparr>"

definition Connect ::
    "options \<Rightarrow> go_error option \<Rightarrow> write_outcome \<Rightarrow> (Session \<Rightarrow> Session) \<Rightarrow> await_end
       \<Rightarrow> (go_error + Session) option" where
  "Connect op start w others how =
     (case start of
        Some e \<Rightarrow> Some (Inl (EWrap ''start: '' e []))
      | None \<Rightarrow>
          (case initialize_begin w (connect_session op) of
             (s, Inl e) \<Rightarrow> Some (Inl (EWrap ''initialize: '' e []))
           | (s, Inr rid) \<Rightarrow>
               (case initialize_await rid how (others s) of
                  None \<Rightarrow> None
                | Some (s, Some e) \<Rightarrow> Some (Inl (EWrap ''initialize: '' e []))
                | Some (s, None) \<Rightarrow> Some (Inr (mark_ready s)))))"

text \<open>A session that connected takes a query at once, and knows the commands the CLI listed.\<close>

lemma connected_session_takes_a_query:
  assumes "Connect op None WriteOk (deliver_reply (request_id 1) \<lparr>cr_Response = info, cr_Err = None\<rparr>) GotReply = Some r"
  shows "\<exists>s. r = Inr s \<and> snd (prepareQuery s) = None \<and> ss_serverInfo s = info \<and> ss_ready s
    \<and> ss_pending s = [] \<and> ss_stdin s = [control_line (request_id 1) ''initialize'' [] @ [CHR 0x0A]]"
proof -
  have w: "wrap64 1 = 1" by (simp add: wrap64_def)
  have seed: "ss_state (seedCommands i s) = ss_state s \<and> ss_serverInfo (seedCommands i s) = ss_serverInfo s
      \<and> ss_pending (seedCommands i s) = ss_pending s \<and> ss_stdin (seedCommands i s) = ss_stdin s" for i s
    by (simp add: seedCommands_def split: prod.split)
  show ?thesis
    using assms w seed
    by (auto simp: Connect_def initialize_begin_def connect_session_def newSession_def control_begin_def
        register_request_def writeStdin_def writeStdinTimeout_def initialize_await_def deliver_reply_def
        unregister_def mark_ready_def prepareQuery_def Let_def)
qed

section \<open>What the CLI reads\<close>

lemma insort_key_map: "insort_key f (g x) (map g xs) = map g (insort_key (f \<circ> g) x xs)"
  by (induction xs) auto

lemma sort_key_map: "sort_key f (map g xs) = map g (sort_key (f \<circ> g) xs)"
  by (induction xs) (simp_all add: insort_key_map [unfolded comp_def] comp_def)

lemma map_of_sort_key:
  assumes "distinct (map fst m)"
  shows "map_of (sort_key fst m) = map_of m"
proof -
  have "distinct (map fst (sort_key fst m))"
    using assms by (simp add: distinct_map)
  then show ?thesis using assms by (metis map_of_inject_set set_sort)
qed

lemma map_put_map: "map_put k (f v) (map (map_prod id f) m) = map (map_prod id f) (map_put k v m)"
  by (induction k v m rule: map_put.induct) auto

lemma map_of_map_prod: "map_of (map (map_prod id f) m) k = map_option f (map_of m k)"
  by (induction m) auto

lemma show_nat_ascii: "list_all (\<lambda>c. (of_char c :: nat) < 128) (show_nat n)"
proof (induction n rule: show_nat.induct)
  case (1 n)
  have "(of_char (digit_char d) :: nat) < 128" if "d < 10" for d
    using that by (simp add: digit_char_def)
  with 1 show ?case by (subst show_nat.simps) simp
qed

lemma request_id_ascii: "sanitize (request_id n) = request_id n"
  using show_nat_ascii by (intro sanitize_ascii) (simp add: request_id_def show_int_def)

lemma control_keys: "sort_key fst [(''type'', a), (''request_id'', b), (''request'', c)]
    = [(''request'', c), (''request_id'', b), (''type'', a)]"
  by simp

text \<open>The line of a request whose parameters are strings.\<close>

lemma control_line_text:
  fixes ps :: "(string \<times> string) list"
  assumes "distinct (map fst ps)" "\<forall>k \<in> fst ` set ps. sanitize k = k"
  shows "one_line (control_line rid sub (map (map_prod id quote_json) ps))
    \<and> (\<exists>j. parse_json (control_line rid sub (map (map_prod id quote_json) ps)) = Some j
         \<and> text_at [''type''] j = Some ''control_request''
         \<and> text_at [''request_id''] j = Some (sanitize rid)
         \<and> (\<forall>k. text_at [''request'', k] j = map_option sanitize (map_of (map_put ''subtype'' sub ps) k)))"
proof -
  define qs where "qs = sort_key fst (map_put ''subtype'' sub ps)"
  have keys: "sanitize k = k" if "k \<in> fst ` set qs" for k
  proof -
    have "fst ` set qs = insert ''subtype'' (fst ` set ps)" by (simp add: qs_def keys_map_put)
    moreover have "sanitize ''subtype'' = ''subtype''" by (simp add: sanitize_ascii)
    ultimately show ?thesis using that assms(2) by auto
  qed
  have f: "fst \<circ> map_prod id quote_json = fst" by auto
  have body: "map_json (map_put ''subtype'' (quote_json sub) (map (map_prod id quote_json) ps))
      = obj_json (map (map_prod id quote_json) qs)"
    unfolding map_json_def map_put_map sort_key_map f qs_def ..
  let ?req = "obj_json (map (map_prod id quote_json) qs)"
  let ?rj = "JObj ?req (map (map_prod id jstr) qs)"
  have 1: "json_text (Suc 0) ?req ?rj"
    using keys by (intro text_members) (auto simp: list_all2_conv_all_nth text_jstr)
  let ?ms = "[(''request'', ?req), (''request_id'', quote_json rid), (''type'', quote_json ''control_request'')]"
  have line: "control_line rid sub (map (map_prod id quote_json) ps) = obj_json ?ms"
    unfolding control_line_def body unfolding map_json_def control_keys ..
  have "json_text (Suc (Suc 0)) (obj_json ?ms)
      (JObj (obj_json ?ms) [(''request'', ?rj), (''request_id'', jstr rid), (''type'', jstr ''control_request'')])"
    by (intro text_members) (simp add: text_jstr sanitize_ascii 1)
  then have p: "parse_json (control_line rid sub (map (map_prod id quote_json) ps))
      = Some (JObj (obj_json ?ms) [(''request'', ?rj), (''request_id'', jstr rid), (''type'', jstr ''control_request'')])"
    unfolding line by (rule text_document) (simp add: max_depth_def)
  have "one_line ?req" by (intro one_line_object) (simp add: list_all_iff)
  then have "one_line (obj_json ?ms)" by (intro one_line_object) simp
  moreover have "map_of qs k = map_of (map_put ''subtype'' sub ps) k" for k
    unfolding qs_def using assms(1) by (simp add: map_of_sort_key distinct_map_put)
  ultimately show ?thesis using p unfolding line
    by (intro conjI exI [of _ "JObj (obj_json ?ms) [(''request'', ?rj), (''request_id'', jstr rid), (''type'', jstr ''control_request'')]"])
      (simp_all add: sanitize_ascii map_of_map_prod split: option.split)
qed

text \<open>
  C16: a request whose parameters are strings, which is what renaming, stopping, rewinding, switching
  the model or the mode and most others are, reaches the CLI as one line, whatever bytes the
  parameters hold. A reader of that line finds the id the session waits for, the subtype, and every
  parameter with its value as UTF-8, and no other parameter.
\<close>

theorem control_requests_read_back:
  fixes ps :: "(string \<times> string) list"
  assumes "distinct (map fst ps)" "\<forall>k \<in> fst ` set ps. sanitize k = k" "can_write WriteOk s"
  shows "\<exists>line j. ss_stdin (fst (control_begin sub (map (map_prod id quote_json) ps) WriteOk s))
        = ss_stdin s @ [line @ [CHR 0x0A]]
      \<and> snd (control_begin sub (map (map_prod id quote_json) ps) WriteOk s) = Inr (next_id s)
      \<and> one_line line \<and> parse_json line = Some j
      \<and> text_at [''type''] j = Some ''control_request''
      \<and> text_at [''request_id''] j = Some (next_id s)
      \<and> (\<forall>k. text_at [''request'', k] j = map_option sanitize (map_of (map_put ''subtype'' sub ps) k))"
proof -
  let ?line = "control_line (next_id s) sub (map (map_prod id quote_json) ps)"
  have "ss_stdin (fst (control_begin sub (map (map_prod id quote_json) ps) WriteOk s)) = ss_stdin s @ [?line @ [CHR 0x0A]]"
    "snd (control_begin sub (map (map_prod id quote_json) ps) WriteOk s) = Inr (next_id s)"
    using assms(3)
    by (simp_all add: control_begin_def register_request_def writeStdin_def writeStdinTimeout_def
          can_write_def next_id_def Let_def)
  then show ?thesis
    using control_line_text [OF assms(1,2), of "next_id s" sub] request_id_ascii
    by (auto simp: next_id_def)
qed

theorem control_requests_read_back_witness:
  "\<exists>j. parse_json (control_line ''req_1'' ''rename_session'' [(''title'', quote_json ''a b'')]) = Some j
     \<and> text_at [''request'', ''title''] j = Some ''a b''"
proof -
  let ?s = "newSession False 0 0 0"
  have "\<exists>line j. ss_stdin (fst (control_begin ''rename_session'' (map (map_prod id quote_json) [(''title'', ''a b'')]) WriteOk ?s))
        = ss_stdin ?s @ [line @ [CHR 0x0A]]
      \<and> snd (control_begin ''rename_session'' (map (map_prod id quote_json) [(''title'', ''a b'')]) WriteOk ?s) = Inr (next_id ?s)
      \<and> one_line line \<and> parse_json line = Some j
      \<and> text_at [''type''] j = Some ''control_request''
      \<and> text_at [''request_id''] j = Some (next_id ?s)
      \<and> (\<forall>k. text_at [''request'', k] j
            = map_option sanitize (map_of (map_put ''subtype'' ''rename_session'' [(''title'', ''a b'')]) k))"
    by (rule control_requests_read_back) (simp_all add: sanitize_ascii can_write_def newSession_def)
  then obtain line j where l: "ss_stdin (fst (control_begin ''rename_session'' [(''title'', quote_json ''a b'')] WriteOk ?s))
        = [line @ [CHR 0x0A]]" "parse_json line = Some j"
      "text_at [''request'', ''title''] j = Some ''a b''"
    by (auto simp: sanitize_ascii newSession_def)
  have "show_int 1 = ''1''" by code_simp
  then have "line = control_line ''req_1'' ''rename_session'' [(''title'', quote_json ''a b'')]"
    using l(1) by (simp add: control_begin_def register_request_def writeStdin_def writeStdinTimeout_def newSession_def
        request_id_def wrap64_def Let_def)
  then show ?thesis using l by blast
qed

section \<open>Answers\<close>

text \<open>An exchange the CLI answers: the write goes through, the answer arrives, the wait finds it.\<close>

definition answered_with :: "Session \<Rightarrow> controlResult \<Rightarrow> exchange" where
  "answered_with s r = \<lparr>ex_write = WriteOk, ex_others = deliver_reply (next_id s) r, ex_end = GotReply\<rparr>"

lemma exchange_answered:
  assumes "can_write WriteOk s"
  shows "\<exists>s'. exchange_run sub data (answered_with s r) s
      = Some (s', (case cr_Err r of Some e \<Rightarrow> Inl (EWrap (sub @ '': '') e []) | None \<Rightarrow> Inr (cr_Response r)))
    \<and> can_write WriteOk s' \<and> ss_contextWindows s' = ss_contextWindows s \<and> ss_commands s' = ss_commands s"
  using assms
  by (auto simp: exchange_run_def answered_with_def control_begin_def register_request_def writeStdin_def
        writeStdinTimeout_def can_write_def next_id_def control_await_def deliver_reply_def
        unregister_def Let_def)

text \<open>
  C11: asking the CLI for its context usage unblocks the context events of the running turn. When the
  call has returned a usage that names a model and a window, the session's window for that model is
  the model's hard limit, or the window of the policy when the limit is not given; and the next API
  call for that model is reported at its start with that window, although no result has disclosed
  one.
\<close>

theorem asking_unblocks_context_events:
  assumes "perform QueryContextUsage xs s = Some (s', Inr u)" "cu_Model u \<noteq> []"
    and "w = (if cu_RawMaxTokens u \<le> 0 then cu_MaxTokens u else cu_RawMaxTokens u)" "0 < w"
    and "windowFor it None t (cu_Model u) = 0"
    and "d_one ''type'' d_str j [] = (''message_start'', True)"
    and "d_message_start j \<lparr>sm_Model = [], sm_Usage = zero_inner_usage\<rparr> = (ms, True)"
    and "sm_Model ms = cu_Model u" "ct_inv t"
  shows "observedContextWindow it (ss_contextWindows s') (cu_Model u) = w
    \<and> (\<exists>e. snd (ct_observe it (Some (observedContextWindow it (ss_contextWindows s'))) (Some j) sid t) = Some e
         \<and> cse_ContextWindow e = w \<and> cse_Model e = cu_Model u \<and> cse_Phase e = ContextSnapshotStart)"
proof -
  have "\<exists>ws. ss_contextWindows s' = recordContextWindow (Some u) ws"
    using assms(1)
    by (auto simp: QueryContextUsage_def ask_body_def decoded_def sendControlRequestRaw_def Let_def
        split: list.splits option.splits sum.splits prod.splits if_splits)
  then have "map_of (ss_contextWindows s') (cu_Model u) = Some w"
    using assms(2-4) by (auto simp: recordContextWindow_def Let_def)
  then have o: "observedContextWindow it (ss_contextWindows s') (cu_Model u) = w"
    using assms(2) by (simp add: observedContextWindow_def)
  have "windowFor it (Some (observedContextWindow it (ss_contextWindows s'))) t (cu_Model u) = w"
    using assms(2,5,9) o
    by (auto simp: windowFor_def ct_inv_def split: option.splits dest: windows_inv_map_of dest!: iter_find_Some)
  then show ?thesis
    using o assms(4,6-8) by (auto simp: ct_observe_def ct_emit_def ct_start_def Let_def)
qed

definition usage_answer :: json where
  "usage_answer = JObj [] [(''model'', JStr [] ''opus''), (''rawMaxTokens'', JNum ''200'')]"

lemma usage_answer_decoded:
  "d_ContextUsage usage_answer zero_ContextUsage
     = (zero_ContextUsage\<lparr>cu_Model := ''opus'', cu_RawMaxTokens := 200\<rparr>, True)"
proof -
  have n: "d_int (JNum ''200'') 0 = (200, True)" by code_simp
  show ?thesis
    unfolding d_ContextUsage_def usage_answer_def d_struct_def json.case
    by (simp add: fld_skip2)
      (simp add: fld_def get_field_def d_str_def upper_char_def ascii_lower_def n zero_ContextUsage_def)
qed

theorem asking_unblocks_context_events_witness:
  "\<exists>s' u. perform QueryContextUsage [answered_with (newSession False 0 0 0) \<lparr>cr_Response = Some usage_answer, cr_Err = None\<rparr>]
         (newSession False 0 0 0) = Some (s', Inr u)
     \<and> observedContextWindow id (ss_contextWindows s') ''opus'' = 200
     \<and> (\<exists>e. snd (ct_observe id (Some (observedContextWindow id (ss_contextWindows s')))
              (Some (message_start_json ''opus'')) ''s'' newContextTracker) = Some e
            \<and> cse_ContextWindow e = 200 \<and> cse_Model e = ''opus'' \<and> cse_Phase e = ContextSnapshotStart)"
proof -
  let ?s = "newSession False 0 0 0"
  let ?x = "answered_with ?s \<lparr>cr_Response = Some usage_answer, cr_Err = None\<rparr>"
  define u where "u = zero_ContextUsage\<lparr>cu_Model := ''opus'', cu_RawMaxTokens := 200, cu_Raw := raw_bytes (Some usage_answer)\<rparr>"
  have "can_write WriteOk ?s" by (simp add: can_write_def newSession_def)
  then obtain s1 where s1: "exchange_run ''get_context_usage'' [] ?x ?s = Some (s1, Inr (Some usage_answer))"
    using exchange_answered [of ?s "''get_context_usage''" "[]" "\<lparr>cr_Response = Some usage_answer, cr_Err = None\<rparr>"]
    by auto
  define s' where "s' = s1\<lparr>ss_contextWindows := recordContextWindow (Some u) (ss_contextWindows s1)\<rparr>"
  have p: "perform QueryContextUsage [?x] ?s = Some (s', Inr u)"
    by (simp add: QueryContextUsage_def ask_body_def sendControlRequestRaw_def decoded_def s1
          unmarshal_raw_def usage_answer_decoded u_def s'_def Let_def)
  have m: "cu_Model u = ''opus''" "cu_RawMaxTokens u = 200" by (simp_all add: u_def)
  have "observedContextWindow id (ss_contextWindows s') (cu_Model u) = 200
     \<and> (\<exists>e. snd (ct_observe id (Some (observedContextWindow id (ss_contextWindows s')))
              (Some (message_start_json ''opus'')) ''s'' newContextTracker) = Some e
            \<and> cse_ContextWindow e = 200 \<and> cse_Model e = cu_Model u \<and> cse_Phase e = ContextSnapshotStart)"
    by (rule asking_unblocks_context_events
          [OF p, where ms = "\<lparr>sm_Model = ''opus'', sm_Usage = zero_inner_usage\<rparr>"])
       (unfold m, simp_all add: ct_inv_new, (code_simp)+)
  with p show ?thesis unfolding m by blast
qed

section \<open>The probe and the wait\<close>

text \<open>
  Any answer that carries the probe's id proves the CLI alive, an error answer too; the answer a
  request gets when the read loop has ended does not.
\<close>

lemma ping_begin_ok:
  assumes "\<not> ss_done s" "can_write WriteOk s"
  shows "\<exists>s'. ping_begin timeout WriteOk s = (s', Inr (next_id s)) \<and> next_id s \<in> set (ss_pending s')
    \<and> map_of (ss_replies s') (next_id s) = None"
  using assms
  by (auto simp: ping_begin_def register_request_def writeStdinTimeout_def can_write_def next_id_def
        Let_def)

lemma ping_hears_any_answer:
  assumes "\<not> ss_done s" "can_write WriteOk s"
    and "unmarshal d_control_result line zero_control_result = (r, True)" "rcr_RequestID r = next_id s"
  shows "\<exists>s'. Ping timeout WriteOk (handleControlResponse now line) PingReply s = Some (s', None)"
proof -
  obtain s1 where s1: "ping_begin timeout WriteOk s = (s1, Inr (next_id s))" "next_id s \<in> set (ss_pending s1)"
    using ping_begin_ok [OF assms(1,2)] by blast
  have "wraps_error e errSessionEnded = False" if "cr_Err (control_result r) = Some e" for e
    using that by (auto simp: control_result_def errSessionEnded_def split: if_splits)
  then show ?thesis using s1 assms(3,4)
    by (auto simp: Ping_def handleControlResponse_def deliver_reply_def ping_await_def split: option.split)
qed

lemma ping_fails_at_the_end:
  assumes "\<not> ss_done s" "can_write WriteOk s"
  shows "\<exists>s'. Ping timeout WriteOk failPendingRequests PingReply s
    = Some (s', Some (EWrap ''ping: '' errSessionEnded []))"
proof -
  obtain s1 where s1: "ping_begin timeout WriteOk s = (s1, Inr (next_id s))" "next_id s \<in> set (ss_pending s1)"
      "map_of (ss_replies s1) (next_id s) = None"
    using ping_begin_ok [OF assms(1,2)] by blast
  then show ?thesis
    by (auto simp: Ping_def failPendingRequests_fill map_of_fill_ended ping_await_def ended_reply_def errSessionEnded_def)
qed

text \<open>
  Waiting for an MCP server returns when the deadline or the end of the context comes, provided every
  request it makes ends.
\<close>

lemma wait_connected_returns:
  assumes "\<exists>p \<in> set ps. p \<noteq> Tick" "length ps \<le> length xs"
    and "\<forall>x \<in> set xs. \<forall>sub data s. exchange_run sub data x s \<noteq> None"
  shows "perform (wait_connected n t ps) xs s \<noteq> None"
  using assms
proof (induction ps arbitrary: xs s)
  case Nil
  then show ?case by simp
next
  case (Cons p ps)
  obtain x xs' where xs: "xs = x # xs'" using Cons.prems(2) by (cases xs) auto
  obtain s1 r where r: "exchange_run ''mcp_status'' [] x s = Some (s1, r)"
    using Cons.prems(3) xs by (metis list.set_intros(1) not_None_eq surj_pair)
  show ?case
  proof (cases "p = Tick")
    case True
    then have "perform (wait_connected n t ps) xs' s1 \<noteq> None" using Cons xs by auto
    then show ?thesis using r xs True
      by (simp add: poll_connected_def QueryMCPStatus_def ask_body_def sendControlRequestRaw_def decoded_def
            split: sum.split prod.split)
  next
    case False
    then show ?thesis using r xs
      by (auto simp: poll_connected_def QueryMCPStatus_def ask_body_def sendControlRequestRaw_def decoded_def
            split: sum.split prod.split pause.split)
  qed
qed

end
