(* ===== verification/Event_Text.thy ===== *)
theory Event_Text
  imports Session
begin

text \<open>
  The \<^verbatim>\<open>String\<close> methods of event.go, for logs. Go's \<^verbatim>\<open>%q\<close> is the argument \<open>goq\<close> and its
  \<^verbatim>\<open>%.<n>f\<close> the argument \<open>fx n\<close>. \<open>None\<close> is the panic of a nil dereference, which only the text of an
  unsolicited result can meet; the results the package marks have an origin.
\<close>

section \<open>Parts\<close>

definition entry :: "string \<Rightarrow> string \<Rightarrow> string" where
  "entry k v = k @ '': '' @ v"

definition braces :: "string \<Rightarrow> string list \<Rightarrow> string" where
  "braces name fs = name @ ''{'' @ join '', '' fs @ ''}''"

definition size_text :: "'a list \<Rightarrow> string" where
  "size_text l = show_nat (length l)"

definition bool_text :: "bool \<Rightarrow> string" where
  "bool_text b = (if b then ''true'' else ''false'')"

section \<open>Events\<close>

definition plugin_text :: "PluginInfo \<Rightarrow> string" where
  "plugin_text p = pi_Name p"

definition server_error_text :: "MCPServerError \<Rightarrow> string" where
  "server_error_text e = mse_Name e @ '' ('' @ mse_Type e @ ''): '' @ mse_Message e"

definition init_text :: "InitEvent \<Rightarrow> string" where
  "init_text e =
     braces ''InitEvent''
       ((if ini_Unsolicited e then [''Unsolicited''] else [])
        @ [entry ''SessionID'' (ini_SessionID e), entry ''Model'' (ini_Model e)])"

definition task_text :: "TaskEvent \<Rightarrow> string" where
  "task_text e =
     braces ''TaskEvent''
       (if IsWorkflow e
        then [entry ''Subtype'' (te_Subtype e), entry ''Workflow'' (te_WorkflowName e), entry ''TaskID'' (te_TaskID e)]
        else [entry ''Subtype'' (te_Subtype e), entry ''TaskID'' (te_TaskID e), entry ''ToolUseID'' (te_ToolUseID e)])"

definition hook_text :: "HookEvent \<Rightarrow> string" where
  "hook_text e =
     ''HookEvent{'' @ he_Subtype e @ '' '' @ he_HookName e
     @ (if he_Subtype e = ''hook_response''
        then '' outcome='' @ he_Outcome e @ '' exit='' @ show_int (he_ExitCode e) else [])
     @ ''}''"

definition turn_text :: "TurnEvent \<Rightarrow> string" where
  "turn_text e =
     braces ''TurnEvent''
       (entry ''Turn'' (show_int (tn_Turn e)) # (if tn_ToolName e \<noteq> [] then [entry ''Tool'' (tn_ToolName e)] else []))"

definition tool_use_text :: "ToolUseEvent \<Rightarrow> string" where
  "tool_use_text e =
     braces ''ToolUseEvent''
       ([entry ''Name'' (tu_Name e), entry ''ID'' (tu_ID e)]
        @ (if tu_ServerSide e then [''ServerSide''] else if tu_MCP e then [''MCP''] else []))"

definition user_event_text :: "UserEvent \<Rightarrow> string" where
  "user_event_text e =
     braces ''UserEvent''
       (case ue_WorkflowLaunch e of
          Some l \<Rightarrow> [entry ''WorkflowLaunch'' (wl_WorkflowName l), entry ''RunID'' (wl_RunID l)]
        | None \<Rightarrow>
            (case ue_AgentResult e of
               Some a \<Rightarrow> [entry ''AgentResult'' (ar_AgentID a), entry ''ParentToolUseID'' (ue_ParentToolUseID e)]
             | None \<Rightarrow> [entry ''Blocks'' (size_text (ue_Content e)), entry ''ParentToolUseID'' (ue_ParentToolUseID e)]))"

definition tokens_text :: "Usage \<Rightarrow> string" where
  "tokens_text u = show_int (us_InputTokens u) @ ''/'' @ show_int (us_OutputTokens u)"

definition result_text :: "(nat \<Rightarrow> float64 \<Rightarrow> string) \<Rightarrow> ResultEvent \<Rightarrow> string option" where
  "result_text fx e =
     (let cost = entry ''Cost'' (CHR ''$'' # fx 4 (re_CostUSD e));
          tokens = entry ''Tokens'' (tokens_text (re_Usage e)) in
      if re_Unsolicited e then
        (case re_Origin e of
           None \<Rightarrow> None
         | Some og \<Rightarrow> Some (braces ''ResultEvent'' [''Unsolicited'', entry ''Origin'' (og_Kind og), cost, tokens]))
      else
        Some (braces ''ResultEvent''
          ([cost, entry ''Duration'' (duration_text (re_Duration e)), tokens]
           @ (if re_StopReason e \<noteq> [] then [entry ''StopReason'' (re_StopReason e)] else []))))"

definition usage_text :: "Usage \<Rightarrow> string" where
  "usage_text u =
     braces ''Usage''
       [entry ''in'' (show_int (us_InputTokens u)), entry ''out'' (show_int (us_OutputTokens u)),
        entry ''cacheRead'' (show_int (us_CacheReadTokens u)), entry ''cacheCreate'' (show_int (us_CacheCreateTokens u)),
        entry ''total'' (show_int (usage_total u))]"

definition snapshot_text :: "ContextSnapshotEvent \<Rightarrow> string" where
  "snapshot_text e =
     braces ''ContextSnapshotEvent''
       [entry (phase_name (cse_Phase e))
          (show_int (snapshot_event_used e) @ ''/'' @ show_int (cse_ContextWindow e)),
        entry ''model'' (cse_Model e)]"

definition summary_text :: "(string \<Rightarrow> string) \<Rightarrow> ToolUseSummaryEvent \<Rightarrow> string" where
  "summary_text goq e =
     (let s = tus_Summary e; s = (if length s > 60 then take 60 s @ ''...'' else s) in
      braces ''ToolUseSummaryEvent'' [entry ''Summary'' (goq s), entry ''IDs'' (size_text (tus_PrecedingToolUseIDs e))])"

definition exit_text :: "CLIExitEvent \<Rightarrow> string" where
  "exit_text e =
     braces ''CLIExitEvent''
       ([entry ''Reason'' (exit_reason_name (cx_Reason e)), entry ''ExitCode'' (show_int (cx_ExitCode e))]
        @ (if cx_Signal e \<noteq> [] then [entry ''Signal'' (cx_Signal e)] else []))"

definition start_text :: "StartEvent \<Rightarrow> string" where
  "start_text e =
     braces ''StartEvent'' [entry ''Model'' (st_Model e), entry ''WorkDir'' (st_WorkDir e)]"

definition suggestion_text :: "(string \<Rightarrow> string) \<Rightarrow> PromptSuggestionEvent \<Rightarrow> string" where
  "suggestion_text goq e = braces ''PromptSuggestionEvent'' [goq (ps_Suggestion e)]"

definition compact_status_text :: "(string \<Rightarrow> string) \<Rightarrow> CompactStatusEvent \<Rightarrow> string" where
  "compact_status_text goq e =
     braces ''CompactStatusEvent'' [entry ''Status'' (goq (cst_Status e))]"

definition compact_boundary_text :: "CompactBoundaryEvent \<Rightarrow> string" where
  "compact_boundary_text e =
     braces ''CompactBoundaryEvent'' [entry ''Trigger'' (cb_Trigger e), entry ''PreTokens'' (show_int (cb_PreTokens e))]"

definition thinking_text :: "ThinkingEvent \<Rightarrow> string" where
  "thinking_text e = braces ''ThinkingEvent'' [entry ''len'' (size_text (th_Content e))]"

definition text_event_text :: "TextEvent \<Rightarrow> string" where
  "text_event_text e = braces ''TextEvent'' [entry ''len'' (size_text (tx_Content e))]"

definition conversation_reset_text :: "ConversationResetEvent \<Rightarrow> string" where
  "conversation_reset_text e =
     braces ''ConversationResetEvent'' [entry ''NewConversationID'' (cr_NewConversationID e)]"

definition background_tasks_text :: "BackgroundTasksChangedEvent \<Rightarrow> string" where
  "background_tasks_text e =
     braces ''BackgroundTasksChangedEvent'' [entry ''Tasks'' (size_text (btc_Tasks e))]"

definition session_state_text :: "SessionStateChangedEvent \<Rightarrow> string" where
  "session_state_text e = braces ''SessionStateChangedEvent'' [entry ''State'' (ssc_State e)]"

definition permission_denied_text :: "PermissionDeniedEvent \<Rightarrow> string" where
  "permission_denied_text e =
     braces ''PermissionDeniedEvent'' [entry ''Tool'' (pd_ToolName e), entry ''Reason'' (pd_DecisionReasonType e)]"

definition commands_text :: "CommandsChangedEvent \<Rightarrow> string" where
  "commands_text e =
     braces ''CommandsChangedEvent'' [entry ''Commands'' (size_text (cc_Commands e))]"

definition tool_result_event_text :: "ToolResultEvent \<Rightarrow> string" where
  "tool_result_event_text e =
     braces ''ToolResultEvent'' [entry ''ToolUseID'' (tr_ToolUseID e), entry ''Blocks'' (size_text (tr_Content e))]"

definition rate_limit_text :: "(nat \<Rightarrow> float64 \<Rightarrow> string) \<Rightarrow> RateLimitEvent \<Rightarrow> string" where
  "rate_limit_text fx e =
     braces ''RateLimitEvent'' [entry ''Status'' (rl_Status e), entry ''Utilization'' (fx 2 (rl_Utilization e))]"

definition control_request_text :: "ControlRequestEvent \<Rightarrow> string" where
  "control_request_text e =
     braces ''ControlRequestEvent'' [entry ''RequestID'' (crq_RequestID e), entry ''Subtype'' (crq_Subtype e)]"

definition stream_event_text :: "StreamEvent \<Rightarrow> string" where
  "stream_event_text e = braces ''StreamEvent'' [entry ''UUID'' (se_UUID e)]"

definition context_management_text :: "ContextManagementEvent \<Rightarrow> string" where
  "context_management_text e =
     braces ''ContextManagementEvent'' [entry ''len'' (size_text (cmg_Raw e))]"

definition thinking_tokens_text :: "ThinkingTokensEvent \<Rightarrow> string" where
  "thinking_tokens_text e =
     ''ThinkingTokensEvent{'' @ entry ''Estimated'' (show_int (tt_EstimatedTokens e))
           @ '' (+'' @ show_int (tt_EstimatedTokensDelta e) @ '')}''"

definition state_change_text :: "CLIStateChangeEvent \<Rightarrow> string" where
  "state_change_text e =
     braces ''CLIStateChangeEvent'' [entry ''State'' (activity_name (csc_State e))]"

definition tool_progress_text :: "ToolProgressEvent \<Rightarrow> string" where
  "tool_progress_text e =
     braces ''ToolProgressEvent''
       [entry ''Tool'' (tp_ToolName e), entry ''ID'' (tp_ToolUseID e), entry ''Elapsed'' (duration_text (tp_Elapsed e))]"

definition cli_tool_progress_text :: "(nat \<Rightarrow> float64 \<Rightarrow> string) \<Rightarrow> CLIToolProgressEvent \<Rightarrow> string" where
  "cli_tool_progress_text fx e =
     braces ''CLIToolProgressEvent''
       [entry ''Tool'' (ctp_ToolName e), entry ''ID'' (ctp_ToolUseID e), entry ''Elapsed'' (fx 1 (ctp_ElapsedSeconds e) @ ''s'')]"

definition auth_status_text :: "AuthStatusEvent \<Rightarrow> string" where
  "auth_status_text e =
     braces ''AuthStatusEvent'' [entry ''IsAuthenticating'' (bool_text (as_IsAuthenticating e))]"

definition files_persisted_text :: "FilesPersistedEvent \<Rightarrow> string" where
  "files_persisted_text e =
     braces ''FilesPersistedEvent'' [entry ''Files'' (size_text (fp_Files e)), entry ''Failed'' (size_text (fp_Failed e))]"

definition unknown_event_text :: "UnknownEvent \<Rightarrow> string" where
  "unknown_event_text e =
     braces ''UnknownEvent'' [entry ''Type'' (uk_Type e), entry ''len'' (size_text (uk_Raw e))]"

definition error_event_text :: "ErrorEvent \<Rightarrow> string" where
  "error_event_text e =
     braces ''ErrorEvent'' [entry ''Fatal'' (bool_text (ee_Fatal e)), entry ''Err'' (error_text (ee_Err e))]"

definition stderr_event_text :: "string \<Rightarrow> string" where
  "stderr_event_text t = braces ''StderrEvent'' [t]"

fun event_text :: "(string \<Rightarrow> string) \<Rightarrow> (nat \<Rightarrow> float64 \<Rightarrow> string) \<Rightarrow> event \<Rightarrow> string option" where
  "event_text goq fx (EvStart e) = Some (start_text e)"
| "event_text goq fx (EvInit e) = Some (init_text e)"
| "event_text goq fx (EvPromptSuggestion e) = Some (suggestion_text goq e)"
| "event_text goq fx (EvCompactStatus e) = Some (compact_status_text goq e)"
| "event_text goq fx (EvCompactBoundary e) = Some (compact_boundary_text e)"
| "event_text goq fx (EvTask e) = Some (task_text e)"
| "event_text goq fx (EvHook e) = Some (hook_text e)"
| "event_text goq fx (EvThinking e) = Some (thinking_text e)"
| "event_text goq fx (EvText e) = Some (text_event_text e)"
| "event_text goq fx (EvTurn e) = Some (turn_text e)"
| "event_text goq fx (EvToolUse e) = Some (tool_use_text e)"
| "event_text goq fx (EvConversationReset e) = Some (conversation_reset_text e)"
| "event_text goq fx (EvBackgroundTasksChanged e) = Some (background_tasks_text e)"
| "event_text goq fx (EvSessionStateChanged e) = Some (session_state_text e)"
| "event_text goq fx (EvPermissionDenied e) = Some (permission_denied_text e)"
| "event_text goq fx (EvCommandsChanged e) = Some (commands_text e)"
| "event_text goq fx (EvToolResult e) = Some (tool_result_event_text e)"
| "event_text goq fx (EvUser e) = Some (user_event_text e)"
| "event_text goq fx (EvRateLimit e) = Some (rate_limit_text fx e)"
| "event_text goq fx (EvResult e) = result_text fx e"
| "event_text goq fx (EvControlRequest e) = Some (control_request_text e)"
| "event_text goq fx (EvStream e) = Some (stream_event_text e)"
| "event_text goq fx (EvContextSnapshot e) = Some (snapshot_text e)"
| "event_text goq fx (EvContextManagement e) = Some (context_management_text e)"
| "event_text goq fx (EvThinkingTokens e) = Some (thinking_tokens_text e)"
| "event_text goq fx (EvCLIStateChange e) = Some (state_change_text e)"
| "event_text goq fx (EvToolProgress e) = Some (tool_progress_text e)"
| "event_text goq fx (EvCLIToolProgress e) = Some (cli_tool_progress_text fx e)"
| "event_text goq fx (EvToolUseSummary e) = Some (summary_text goq e)"
| "event_text goq fx (EvAuthStatus e) = Some (auth_status_text e)"
| "event_text goq fx (EvFilesPersisted e) = Some (files_persisted_text e)"
| "event_text goq fx (EvCLIExit e) = Some (exit_text e)"
| "event_text goq fx (EvUnknown e) = Some (unknown_event_text e)"
| "event_text goq fx (EvError e) = Some (error_event_text e)"
| "event_text goq fx (EvStderr t) = Some (stderr_event_text t)"

section \<open>Logging a result does not panic\<close>

text \<open>Only an unsolicited result without an origin has no text.\<close>

lemma event_text_None:
  "event_text goq fx ev = None \<longleftrightarrow> (\<exists>e. ev = EvResult e \<and> re_Unsolicited e \<and> re_Origin e = None)"
  by (cases ev) (auto simp: result_text_def Let_def split: option.split)

text \<open>The results a session marks as unsolicited come with the origin it has looked at.\<close>

lemma marked_results_have_a_text:
  assumes "\<not> re_Unsolicited e" "observeUnsolicitedResult now e s = (s', e', tr)"
  shows "event_text goq fx (EvResult e') \<noteq> None"
proof -
  have "re_Unsolicited e' \<Longrightarrow> re_Origin e' \<noteq> None"
    using assms
    by (auto simp: observeUnsolicitedResult_def IsTaskNotification_def Let_def
        split: if_splits prod.splits option.splits)
  then have "event_text goq fx (EvResult e') = None \<Longrightarrow> False" unfolding event_text_None by blast
  then show ?thesis by blast
qed

text \<open>So do the results of one-shot runs.\<close>

lemma parsed_results_have_a_text:
  assumes "parse_result it raw st = (st', evs, stop)" "EvResult r \<in> set evs"
  shows "event_text goq fx (EvResult r) \<noteq> None"
proof -
  have "re_Unsolicited r \<Longrightarrow> re_Origin r \<noteq> None"
    using assms
    by (auto simp: parse_result_def result_errors_def non_fatal_def IsTaskNotification_def Let_def
        split: if_splits prod.splits option.splits)
  then have "event_text goq fx (EvResult r) = None \<Longrightarrow> False" unfolding event_text_None by blast
  then show ?thesis by blast
qed

end
