(* ===== verification/Capture_Tool.thy ===== *)
theory Capture_Tool
  imports Event_Text Parse Go_Strings "HOL-Library.Char_ord" "HOL-Library.List_Lexorder"
begin

text \<open>
  cmd/capture/main.go: the tool that records what a CLI prints and reports what the library makes of
  it. The arguments it starts the CLI with, the text it prints per event, its summary, and the
  analysis of a recorded file: two passes over the same lines, one over the types they carry and one
  through \<^verbatim>\<open>ParseEvents\<close>. Files and the process are the operating system's.
\<close>

section \<open>Tables\<close>

text \<open>\<^verbatim>\<open>%-<n>s\<close> counts runes; a byte that is no UTF-8 counts as one.\<close>

fun rune_count :: "string \<Rightarrow> nat" where
  "rune_count [] = 0"
| "rune_count (c # cs) = Suc (rune_count (drop (utf8_width (c # cs) - 1) cs))"

definition pad_right :: "nat \<Rightarrow> string \<Rightarrow> string" where
  "pad_right n s = s @ replicate (n - rune_count s) CHR '' ''"

definition count_up :: "string \<Rightarrow> (string \<times> nat) list \<Rightarrow> (string \<times> nat) list" where
  "count_up k m = map_put k (Suc (case map_of m k of None \<Rightarrow> 0 | Some n \<Rightarrow> n)) m"

definition count_all :: "string list \<Rightarrow> (string \<times> nat) list" where
  "count_all ks = foldl (\<lambda>m k. count_up k m) [] ks"

text \<open>A line per key, in the order of the keys.\<close>

definition table_text :: "nat \<Rightarrow> (string \<times> nat) list \<Rightarrow> string" where
  "table_text width m =
     concat (map (\<lambda>k. ''  '' @ pad_right width k @ '' ''
                      @ show_nat (case map_of m k of None \<Rightarrow> 0 | Some n \<Rightarrow> n) @ [CHR 0x0A])
               (sort (map fst m)))"

text \<open>\<^verbatim>\<open>%T\<close> of an event.\<close>

definition event_type :: "event \<Rightarrow> string" where
  "event_type ev =
     ''*claudecli.''
     @ (case ev of
          EvStart _ \<Rightarrow> ''StartEvent'' | EvInit _ \<Rightarrow> ''InitEvent''
        | EvPromptSuggestion _ \<Rightarrow> ''PromptSuggestionEvent'' | EvCompactStatus _ \<Rightarrow> ''CompactStatusEvent''
        | EvCompactBoundary _ \<Rightarrow> ''CompactBoundaryEvent'' | EvTask _ \<Rightarrow> ''TaskEvent''
        | EvHook _ \<Rightarrow> ''HookEvent'' | EvThinking _ \<Rightarrow> ''ThinkingEvent'' | EvText _ \<Rightarrow> ''TextEvent''
        | EvTurn _ \<Rightarrow> ''TurnEvent'' | EvToolUse _ \<Rightarrow> ''ToolUseEvent''
        | EvConversationReset _ \<Rightarrow> ''ConversationResetEvent''
        | EvBackgroundTasksChanged _ \<Rightarrow> ''BackgroundTasksChangedEvent''
        | EvSessionStateChanged _ \<Rightarrow> ''SessionStateChangedEvent''
        | EvPermissionDenied _ \<Rightarrow> ''PermissionDeniedEvent''
        | EvCommandsChanged _ \<Rightarrow> ''CommandsChangedEvent'' | EvToolResult _ \<Rightarrow> ''ToolResultEvent''
        | EvUser _ \<Rightarrow> ''UserEvent'' | EvRateLimit _ \<Rightarrow> ''RateLimitEvent'' | EvResult _ \<Rightarrow> ''ResultEvent''
        | EvControlRequest _ \<Rightarrow> ''ControlRequestEvent'' | EvStream _ \<Rightarrow> ''StreamEvent''
        | EvContextSnapshot _ \<Rightarrow> ''ContextSnapshotEvent''
        | EvContextManagement _ \<Rightarrow> ''ContextManagementEvent''
        | EvThinkingTokens _ \<Rightarrow> ''ThinkingTokensEvent''
        | EvCLIStateChange _ \<Rightarrow> ''CLIStateChangeEvent'' | EvToolProgress _ \<Rightarrow> ''ToolProgressEvent''
        | EvCLIToolProgress _ \<Rightarrow> ''CLIToolProgressEvent''
        | EvToolUseSummary _ \<Rightarrow> ''ToolUseSummaryEvent'' | EvAuthStatus _ \<Rightarrow> ''AuthStatusEvent''
        | EvFilesPersisted _ \<Rightarrow> ''FilesPersistedEvent'' | EvCLIExit _ \<Rightarrow> ''CLIExitEvent''
        | EvUnknown _ \<Rightarrow> ''UnknownEvent'' | EvError _ \<Rightarrow> ''ErrorEvent'' | EvStderr _ \<Rightarrow> ''StderrEvent'')"

definition unknown_of :: "event \<Rightarrow> UnknownEvent list" where
  "unknown_of ev = (case ev of EvUnknown u \<Rightarrow> [u] | _ \<Rightarrow> [])"

definition unknown_lines_text :: "UnknownEvent list \<Rightarrow> string" where
  "unknown_lines_text us =
     concat (map (\<lambda>u. ''  type='' @ uk_Type u @ [CHR 0x0A] @ ''  raw='' @ uk_Raw u @ [CHR 0x0A, CHR 0x0A]) us)"

section \<open>Capturing\<close>

definition capture_args :: "string \<Rightarrow> string list" where
  "capture_args prompt =
     [''--print'', ''--verbose'', ''--output-format'', ''stream-json'', ''--max-turns'', ''3'', ''-p'', prompt]"

text \<open>What an event adds to stdout and to stderr.\<close>

definition capture_progress :: "(nat \<Rightarrow> float64 \<Rightarrow> string) \<Rightarrow> event \<Rightarrow> string \<times> string" where
  "capture_progress fx ev =
     (case ev of
        EvUnknown u \<Rightarrow>
          ([], ''>>> UNKNOWN EVENT: type='' @ uk_Type u @ '' raw='' @ uk_Raw u @ [CHR 0x0A])
      | EvText e \<Rightarrow> (tx_Content e, [])
      | EvToolUse e \<Rightarrow> ([], ''[tool: '' @ tu_Name e @ '']'' @ [CHR 0x0A])
      | EvResult e \<Rightarrow>
          ([], [CHR 0x0A] @ ''[result: cost=$'' @ fx 4 (re_CostUSD e) @ '' tokens='' @ tokens_text (re_Usage e)
               @ '']'' @ [CHR 0x0A])
      | _ \<Rightarrow> ([], []))"

definition capture_summary :: "event list \<Rightarrow> string \<Rightarrow> string \<Rightarrow> string" where
  "capture_summary evs stdoutPath stderrPath =
     (let unknowns = concat (map unknown_of evs) in
      [CHR 0x0A] @ ''=== Event Type Summary ==='' @ [CHR 0x0A]
      @ table_text 35 (count_all (map event_type evs))
      @ [CHR 0x0A] @ ''Unknown events: '' @ show_nat (length unknowns) @ [CHR 0x0A]
      @ unknown_lines_text unknowns
      @ [CHR 0x0A] @ ''Output saved to:'' @ [CHR 0x0A] @ ''  stdout: '' @ stdoutPath @ [CHR 0x0A]
      @ ''  stderr: '' @ stderrPath @ [CHR 0x0A])"

section \<open>Analysing\<close>

definition known_types :: "string list" where
  "known_types =
     [''system'', ''assistant'', ''result'', ''rate_limit_event'', ''control_request'', ''control_response'',
      ''stream_event'', ''error'']"

text \<open>The type of a line, or nothing for a line that is not decoded.\<close>

definition line_type :: "string \<Rightarrow> string option" where
  "line_type line =
     (case unmarshal (d_one ''type'' d_str) line [] of (ty, ok) \<Rightarrow> if ok then Some ty else None)"

record first_pass =
  fp_counts :: "(string \<times> nat) list"
  fp_unknown :: "string list"
  fp_bad :: "string list"

definition first_line :: "first_pass \<Rightarrow> string \<Rightarrow> first_pass" where
  "first_line a line =
     (if line = [] then a
      else case line_type line of
        None \<Rightarrow> a\<lparr>fp_bad := fp_bad a @ [line]\<rparr>
      | Some ty \<Rightarrow>
          a\<lparr>fp_counts := count_up ty (fp_counts a),
            fp_unknown := (if ty \<in> set known_types then fp_unknown a else fp_unknown a @ [line])\<rparr>)"

definition first_pass_of :: "string list \<Rightarrow> first_pass" where
  "first_pass_of lines = foldl first_line \<lparr>fp_counts = [], fp_unknown = [], fp_bad = []\<rparr> lines"

text \<open>The standard output of \<^verbatim>\<open>analyzeJSONL\<close>; the events are those \<^verbatim>\<open>ParseEvents\<close> makes of the file.\<close>

definition analysis :: "string list \<Rightarrow> event list \<Rightarrow> string" where
  "analysis lines evs =
     (let a = first_pass_of lines; unknowns = concat (map unknown_of evs) in
      ''=== Raw JSON Type Counts ==='' @ [CHR 0x0A]
      @ table_text 25 (fp_counts a)
      @ [CHR 0x0A] @ ''Unrecognized types: '' @ show_nat (length (fp_unknown a)) @ [CHR 0x0A]
      @ concat (map (\<lambda>l. ''  '' @ l @ [CHR 0x0A]) (fp_unknown a))
      @ [CHR 0x0A] @ ''=== ParseEvents Output ==='' @ [CHR 0x0A]
      @ table_text 40 (count_all (map event_type evs))
      @ [CHR 0x0A] @ ''UnknownEvent instances: '' @ show_nat (length unknowns) @ [CHR 0x0A]
      @ unknown_lines_text unknowns)"

section \<open>Facts\<close>

lemma map_of_count_up:
  "map_of (count_up k m) x
     = (if x = k then Some (Suc (case map_of m k of None \<Rightarrow> 0 | Some n \<Rightarrow> n)) else map_of m x)"
  by (simp add: count_up_def)

text \<open>The table of a list holds exactly its members, each with the number of times it occurs.\<close>

lemma count_all_counts:
  "map_of (count_all ks) k = (if k \<in> set ks then Some (length (filter (\<lambda>x. x = k) ks)) else None)"
proof -
  have "map_of (foldl (\<lambda>m k. count_up k m) m ks) k
      = (if k \<in> set ks then Some ((case map_of m k of None \<Rightarrow> 0 | Some n \<Rightarrow> n) + length (filter (\<lambda>x. x = k) ks))
         else map_of m k)" for m
  proof (induction ks arbitrary: m)
    case (Cons x xs)
    then show ?case by (auto simp: map_of_count_up filter_empty_conv split: option.split)
  qed simp
  then show ?thesis by (simp add: count_all_def)
qed

text \<open>The first pass sorts the lines that are not empty into three kinds and loses none.\<close>

lemma first_pass_partitions:
  "fp_bad (first_pass_of lines) = filter (\<lambda>l. l \<noteq> [] \<and> line_type l = None) lines"
  "fp_unknown (first_pass_of lines)
     = filter (\<lambda>l. l \<noteq> [] \<and> (case line_type l of None \<Rightarrow> False | Some ty \<Rightarrow> ty \<notin> set known_types)) lines"
  "fp_counts (first_pass_of lines)
     = count_all (concat (map (\<lambda>l. if l = [] then [] else case line_type l of None \<Rightarrow> [] | Some ty \<Rightarrow> [ty]) lines))"
proof -
  have "fp_bad (first_pass_of lines) = filter (\<lambda>l. l \<noteq> [] \<and> line_type l = None) lines
     \<and> fp_unknown (first_pass_of lines)
     = filter (\<lambda>l. l \<noteq> [] \<and> (case line_type l of None \<Rightarrow> False | Some ty \<Rightarrow> ty \<notin> set known_types)) lines
     \<and> fp_counts (first_pass_of lines)
     = count_all (concat (map (\<lambda>l. if l = [] then [] else case line_type l of None \<Rightarrow> [] | Some ty \<Rightarrow> [ty]) lines))"
  proof (induction lines rule: rev_induct)
    case Nil
    then show ?case by (simp add: first_pass_of_def count_all_def)
  next
    case (snoc l lines)
    have "first_pass_of (lines @ [l]) = first_line (first_pass_of lines) l" by (simp add: first_pass_of_def)
    with snoc show ?case by (auto simp: first_line_def count_all_def split: option.split)
  qed
  then show "fp_bad (first_pass_of lines) = filter (\<lambda>l. l \<noteq> [] \<and> line_type l = None) lines"
    "fp_unknown (first_pass_of lines)
     = filter (\<lambda>l. l \<noteq> [] \<and> (case line_type l of None \<Rightarrow> False | Some ty \<Rightarrow> ty \<notin> set known_types)) lines"
    "fp_counts (first_pass_of lines)
     = count_all (concat (map (\<lambda>l. if l = [] then [] else case line_type l of None \<Rightarrow> [] | Some ty \<Rightarrow> [ty]) lines))"
    by blast+
qed

text \<open>
  The two passes do not agree on what is known: a user message counts as unrecognized in the first,
  and the library decodes it; a control response counts as known, and a one-shot run reports it as an
  unknown event.
\<close>

lemma passes_disagree:
  "''user'' \<notin> set known_types"
  "raw_Type raw = ''user'' \<Longrightarrow> concat (map unknown_of (fst (snd (parse_event it raw line st)))) = []"
  "''control_response'' \<in> set known_types"
  "raw_Type raw = ''control_response'' \<Longrightarrow>
     concat (map unknown_of (fst (snd (parse_event it raw line st))))
       = [\<lparr>uk_Type = ''control_response'', uk_Raw = line\<rparr>]"
  by (simp_all add: known_types_def parse_event_def decodeStatelessEvent_def parse_stateful_def unknown_of_def)

end
