(* ===== verification/Platform.thy ===== *)
theory Platform
  imports Install Session_Read
begin

text \<open>
  The platform layer below the executor: npm's Windows shims (shim.go, with \<^verbatim>\<open>filepath\<close> of a build
  for Unix, as its tests run it), the commands of executor\_windows.go and the job object that
  confines a process tree there, and the reading of an exit error (executor\_unix.go). What the
  operating system answers is an argument.
\<close>

section \<open>Shims\<close>

text \<open>The script a package.json names, if it is the package of the CLI.\<close>

definition cliPackageEntry :: "(string \<Rightarrow> string option) \<Rightarrow> string \<Rightarrow> string option" where
  "cliPackageEntry readFile pkgFile =
     (case readFile pkgFile of
        None \<Rightarrow> None
      | Some b \<Rightarrow>
          (case unmarshal
                  (d_struct [fld ''name'' d_str fst (\<lambda>f (a, b). (f a, b)),
                             fld ''bin'' d_raw snd (\<lambda>f (a, b). (a, f b))]) b ([], None) of
             ((name, bin), ok) \<Rightarrow>
               if \<not> ok \<or> name \<noteq> CLIPackageName then None
               else if bin = None then Some ''cli.js''
               else
                 (case unmarshal_raw d_str bin [] of
                    (s, ok) \<Rightarrow>
                      if ok \<and> s \<noteq> [] then Some s
                      else
                        (case unmarshal_raw (d_map d_str []) bin None of
                           (m, ok) \<Rightarrow>
                             (case (if ok then map_of (case m of None \<Rightarrow> [] | Some l \<Rightarrow> l) ''claude'' else None) of
                                None \<Rightarrow> Some ''cli.js''
                              | Some s \<Rightarrow> if s \<noteq> [] then Some s else Some ''cli.js'')))))"

definition shim_layouts :: "string list" where
  "shim_layouts =
     [path_join [''node_modules'', CLIPackageName],
      path_join [''..'', ''lib'', ''node_modules'', CLIPackageName]]"

fun first_layout :: "(string \<Rightarrow> string option) \<Rightarrow> (string \<Rightarrow> bool) \<Rightarrow> string \<Rightarrow> string list \<Rightarrow> string option" where
  "first_layout readFile isFile shimDir [] = None"
| "first_layout readFile isFile shimDir (rel # rels) =
     (let pkgDir = path_join [shimDir, rel] in
      case cliPackageEntry readFile (path_join [pkgDir, ''package.json'']) of
        None \<Rightarrow> first_layout readFile isFile shimDir rels
      | Some entry \<Rightarrow>
          if isFile (path_join [pkgDir, entry]) then Some (path_join [pkgDir, entry])
          else first_layout readFile isFile shimDir rels)"

definition findShimCLIJS :: "(string \<Rightarrow> string option) \<Rightarrow> (string \<Rightarrow> bool) \<Rightarrow> string \<Rightarrow> string option" where
  "findShimCLIJS readFile isFile shimPath =
     (if to_lower (ext_of shimPath) \<in> {''.cmd'', ''.bat'', ''.ps1''}
      then first_layout readFile isFile (path_dir shimPath) shim_layouts else None)"

text \<open>The command of executor\_windows.go.\<close>

definition windows_cmd ::
    "(string \<Rightarrow> string option) \<Rightarrow> (string \<Rightarrow> bool) \<Rightarrow> (string \<Rightarrow> string option) \<Rightarrow> string \<Rightarrow> string list \<Rightarrow> string list" where
  "windows_cmd readFile isFile lookPath binary args =
     (case findShimCLIJS readFile isFile binary of
        None \<Rightarrow> binary # args
      | Some cliJS \<Rightarrow>
          (case lookPath ''node'' of
             None \<Rightarrow> binary # args
           | Some node \<Rightarrow> node # cliJS # args))"

section \<open>Exit errors\<close>

text \<open>
  The signal that ended a process, by its number (of Linux) and its text. \<open>extractExitDetails\<close> of
  \<open>Session_Read\<close> takes its name; on Windows there are no signals.
\<close>

definition signalName :: "nat \<times> string \<Rightarrow> string" where
  "signalName sig =
     (case map_of [(9, ''SIGKILL''), (15, ''SIGTERM''), (2, ''SIGINT''), (1, ''SIGHUP''), (3, ''SIGQUIT''),
                   (6, ''SIGABRT''), (11, ''SIGSEGV''), (7, ''SIGBUS''), (13, ''SIGPIPE'')] (fst sig) of
        Some n \<Rightarrow> n
      | None \<Rightarrow> snd sig)"

definition exit_details :: "(nat \<times> string) option \<Rightarrow> wait_error option \<Rightarrow> string \<times> int" where
  "exit_details sig err = extractExitDetails (case sig of None \<Rightarrow> [] | Some s \<Rightarrow> signalName s) err"

definition exit_details_windows :: "wait_error option \<Rightarrow> string \<times> int" where
  "exit_details_windows err =
     (case err of
        None \<Rightarrow> ([], 0)
      | Some (ExitError code _) \<Rightarrow> ([], code)
      | Some (OtherError _) \<Rightarrow> ([], -1))"

text \<open>A process that no signal ended looks the same on both.\<close>

lemma exit_details_without_signal: "exit_details None err = exit_details_windows err"
  by (simp add: exit_details_def exit_details_windows_def extractExitDetails_def)

section \<open>The job object\<close>

text \<open>
  \<^verbatim>\<open>platformProc\<close> of executor\_windows.go. \<open>pp_job\<close> is the handle, \<open>None\<close> for 0. Every operation runs
  under the mutex except the first test of \<^verbatim>\<open>afterStart\<close>; the calls into the operating system it makes
  are its second result.
\<close>

record platformProc =
  pp_job :: "nat option"
  pp_assigned :: bool

datatype os_call = AssignProcess nat | TerminateJob nat | CloseJob nat | KillProcess

text \<open>A job that cannot be configured is closed at once, before anything can use it.\<close>

definition newKillOnCloseJob :: "nat option \<Rightarrow> bool \<Rightarrow> platformProc \<times> os_call list" where
  "newKillOnCloseJob created configured =
     (case created of
        None \<Rightarrow> (\<lparr>pp_job = None, pp_assigned = False\<rparr>, [])
      | Some h \<Rightarrow>
          if configured then (\<lparr>pp_job = Some h, pp_assigned = False\<rparr>, [])
          else (\<lparr>pp_job = None, pp_assigned = False\<rparr>, [CloseJob h]))"

definition release :: "platformProc \<Rightarrow> platformProc \<times> os_call list" where
  "release p =
     (\<lparr>pp_job = None, pp_assigned = False\<rparr>, (case pp_job p of None \<Rightarrow> [] | Some h \<Rightarrow> [CloseJob h]))"

definition killTree :: "bool \<Rightarrow> platformProc \<Rightarrow> platformProc \<times> os_call list" where
  "killTree terminated p =
     (case pp_job p of
        Some h \<Rightarrow>
          if pp_assigned p then (p, TerminateJob h # (if terminated then [] else [KillProcess]))
          else (p, [KillProcess])
      | None \<Rightarrow> (p, [KillProcess]))"

text \<open>
  \<^verbatim>\<open>afterStart\<close> is three critical sections at most: it opens the process, which fails or not; it
  assigns the process to the job if the job is still there; and it releases the job when the process
  is not in it. Other operations can come between the sections.
\<close>

definition assign :: "bool \<Rightarrow> platformProc \<Rightarrow> platformProc \<times> os_call list" where
  "assign ok p =
     (case pp_job p of
        None \<Rightarrow> (p, [])
      | Some h \<Rightarrow> (if ok then p\<lparr>pp_assigned := True\<rparr> else p, [AssignProcess h]))"

datatype job_op = Assign bool | KillTree bool | Release

definition job_step :: "job_op \<Rightarrow> platformProc \<Rightarrow> platformProc \<times> os_call list" where
  "job_step op p =
     (case op of
        Assign ok \<Rightarrow> assign ok p
      | KillTree ok \<Rightarrow> killTree ok p
      | Release \<Rightarrow> release p)"

fun job_run :: "job_op list \<Rightarrow> platformProc \<Rightarrow> os_call list" where
  "job_run [] p = []"
| "job_run (op # ops) p = (case job_step op p of (p', cs) \<Rightarrow> cs @ job_run ops p')"

text \<open>\<^verbatim>\<open>afterStart\<close> when nothing comes between its sections.\<close>

definition afterStart :: "bool \<Rightarrow> bool \<Rightarrow> platformProc \<Rightarrow> platformProc \<times> os_call list" where
  "afterStart opened assignOk p =
     (if pp_job p = None then (p, [])
      else if \<not> opened then release p
      else
        (case assign assignOk p of
           (p, cs) \<Rightarrow>
             if pp_assigned p then (p, cs)
             else (case release p of (p, cs') \<Rightarrow> (p, cs @ cs'))))"

section \<open>Handles are used while they are open\<close>

fun uses_after_close :: "os_call list \<Rightarrow> bool" where
  "uses_after_close [] = False"
| "uses_after_close (c # cs) =
     ((\<exists>h. c = CloseJob h \<and> list_ex (\<lambda>c. c \<in> {AssignProcess h, TerminateJob h, CloseJob h}) cs)
      \<or> uses_after_close cs)"

lemma no_job_no_handle:
  "pp_job p = None \<Longrightarrow> list_all (\<lambda>c. c = KillProcess) (job_run ops p)"
proof (induction ops arbitrary: p)
  case (Cons op ops)
  then show ?case
    by (cases op) (auto simp: job_step_def assign_def killTree_def release_def)
qed simp

lemma only_kills: "list_all (\<lambda>c. c = KillProcess) cs \<Longrightarrow> \<not> uses_after_close cs"
  by (induction cs) auto

text \<open>
  Whatever the order in which a start, kills and releases reach the job, no handle is used or closed
  again once it is closed: a handle the system has given to someone else meanwhile is never touched.
\<close>

lemma handles_are_not_used_after_close: "\<not> uses_after_close (job_run ops p)"
proof (induction ops arbitrary: p)
  case (Cons op ops)
  have q: "\<not> uses_after_close (job_run ops q)" for q by (rule Cons.IH)
  show ?case
  proof (cases "op = Release")
    case True
    let ?q = "\<lparr>pp_job = None, pp_assigned = False\<rparr>"
    have k: "list_all (\<lambda>c. c = KillProcess) (job_run ops ?q)" by (rule no_job_no_handle) simp
    then have "\<not> list_ex (\<lambda>c. c \<in> {AssignProcess h, TerminateJob h, CloseJob h}) (job_run ops ?q)" for h
      by (induction "job_run ops ?q") (auto simp: list_all_iff list_ex_iff)
    then show ?thesis using True q [of ?q] by (auto simp: job_step_def release_def split: option.split)
  next
    case False
    then show ?thesis using q
      by (cases op) (auto simp: job_step_def assign_def killTree_def split: option.split)
  qed
qed simp

text \<open>After \<^verbatim>\<open>afterStart\<close> the process is in the job, or the job is gone and a kill reaches the process.\<close>

lemma started_process_can_be_killed:
  "pp_job (fst (afterStart opened ok p)) = None \<or> pp_assigned (fst (afterStart opened ok p))"
  by (auto simp: afterStart_def release_def assign_def split: option.split prod.split)

lemma kill_reaches_the_process:
  "snd (killTree False p) \<noteq> [] \<and> last (snd (killTree False p)) = KillProcess"
  by (simp add: killTree_def split: option.split)

text \<open>A shim is only bypassed for a package that names itself as the CLI's.\<close>

lemma only_the_cli_is_bypassed:
  assumes "findShimCLIJS readFile isFile shimPath = Some js"
  shows "isFile js \<and> isWindowsShim shimPath
    \<and> (\<exists>rel \<in> set shim_layouts. \<exists>e. cliPackageEntry readFile
          (path_join [path_join [path_dir shimPath, rel], ''package.json'']) = Some e
        \<and> js = path_join [path_join [path_dir shimPath, rel], e])"
proof -
  have "isFile js \<and> (\<exists>rel \<in> set rels. \<exists>e. cliPackageEntry readFile (path_join [path_join [d, rel], ''package.json'']) = Some e
        \<and> js = path_join [path_join [d, rel], e])"
    if "first_layout readFile isFile d rels = Some js" for d rels
    using that
  proof (induction rels)
    case (Cons rel rels)
    then show ?case by (auto simp: Let_def split: option.splits if_splits)
  qed simp
  with assms show ?thesis
    by (auto simp: findShimCLIJS_def isWindowsShim_def simp del: first_layout.simps split: if_splits)
qed

end
