(* ===== verification/Spec2Isabelle.thy ===== *)
theory Spec2Isabelle
  imports Session_Steps Session_Text Blocking Pool Workflow_Watch Update Login Requests Capture_Tool Platform
begin

text \<open>
  A model of claudecli-go, a Go client for the Claude command line: it starts the CLI as a process,
  decodes the JSON lines on its stdout into typed events, follows the CLI's activity and lifecycle,
  routes events to the query they answer, and speaks the control protocol in both directions.

  The theories, bottom up, with the files under src/ they model:

  \<^item> \<open>Prelude\<close>: Go strings as byte lists, 64-bit integers as \<open>int\<close> with \<open>wrap64\<close> where the code can
    overflow, the functions of \<^verbatim>\<open>strings\<close> and \<^verbatim>\<open>strconv\<close> the sources use, association lists for maps.
  \<^item> \<open>Json\<close>, \<open>Json_Codec\<close>: \<^verbatim>\<open>encoding/json\<close> as the sources use it. The parser takes fuel \<open>2 n + 1\<close>
    for \<open>n\<close> bytes; \<open>parse_value_fuel\<close> shows that more fuel changes nothing. \<open>Json_Prefix\<close>: what follows
    a complete object does not change how it is read. \<open>Json_Roundtrip\<close>: what the marshaller writes is
    one line and reads back.
  \<^item> \<open>Errors\<close> (error.go), \<open>Events\<close> (event.go, workflow.go), \<open>Raw_Event\<close>, \<open>Decode\<close>, \<open>Parse\<close> (parse.go,
    decode.go): error values and their classification, the event types, the wire records with
    their decoders, the builders of every event, and the loop \<^verbatim>\<open>ParseEvents\<close> of one-shot runs.
  \<^item> \<open>Activity\<close> (activity.go), \<open>Task_Backfill\<close> (task_backfill.go), \<open>Context_Tracker\<close> (parse.go,
    context_usage.go): the trackers both read loops share.
  \<^item> \<open>Bounded_Buffer\<close>: the interface of a buffer that drops its oldest element, with the stderr ring
    of \<open>Internals\<close> (internal.go) and the orphan ring and mailboxes of \<open>Router\<close> (router.go) as its
    instances.
  \<^item> \<open>Stream_Run\<close> (stream.go), \<open>Session\<close> (session.go, commands.go, the session side of router.go),
    \<open>Control\<close> (control.go and the control parts of session.go), \<open>Session_Read\<close> (the read loop),
    \<open>Session_Text\<close> (what the read loop of a session puts on the pump, line by line).
  \<^item> \<open>Session_Steps\<close>: the interleavings of callers, reader, pump and CLI as an inductive step relation
    over the operations of the theories above.
  \<^item> \<open>Go_Strings\<close> (facts on numbers, splitting and trimming), \<open>Version\<close> (version.go, model.go),
    \<open>Options\<close> (option.go: the options, every option function and the three argument builders; the
    values of callbacks are numbers, for the model never calls them here), \<open>Environment\<close> (env.go and
    the preparation of a process in executor.go).
  \<^item> \<open>Client_Run\<close> (client.go and the reading goroutine of one-shot runs), \<open>Blocking\<close> (blocking.go).
  \<^item> \<open>Pool\<close> (pool.go): the registry of sessions, its forwarding goroutines and \<^verbatim>\<open>Close\<close>, with their
    interleavings as a step relation of its own.
  \<^item> \<open>Workflow_Files\<close> (workflow.go, workflow\_live.go: the manifest, journal and transcripts of a workflow
    run, read while the CLI writes them) and \<open>Workflow_Watch\<close> (the end of \<^verbatim>\<open>WatchWorkflow\<close>).
  \<^item> \<open>Install\<close> (install.go, pathentries.go, autoupdate.go, the client's binary and environment), \<open>Update\<close>
    (update.go), \<open>Published\<close> (published.go): how the CLI was installed, updating it, and the version
    published for it.
  \<^item> \<open>Urls\<close> (\<^verbatim>\<open>net/url\<close> as used), \<open>Auth\<close> (auth.go, auth\_unix.go: status, logout, the start of a login
    and what it prints), \<open>Login\<close> (auth.go, auth\_submit.go: the outcome of a login and the submissions
    that wait for it).
  \<^item> \<open>Content_Blocks\<close> (the blocks of control.go, base64), \<open>Requests\<close> (the typed requests of session.go,
    control\_requests.go, settings.go, context\_usage.go; the probe, the getters, the progress ticker,
    \<^verbatim>\<open>Close\<close> and \<^verbatim>\<open>Connect\<close>): a call is a tree that returns, changes the session or asks the CLI and
    goes on with the answer; \<open>perform\<close> runs it against one exchange per request.
  \<^item> \<open>Event_Text\<close> (the \<^verbatim>\<open>String\<close> methods of event.go), \<open>Platform\<close> (shim.go, executor\_windows.go,
    executor\_unix.go: npm's Windows shims, exit details, the job object), \<open>Capture_Tool\<close>
    (cmd/capture).

  How the parts interact: the CLI writes a line; the read loop decodes it (\<open>Decode\<close>), tells the
  session (\<open>trackState\<close>, \<open>noteTurnEnd\<close>, \<dots>), stamps the event with the active query generation and
  sends it through the activity tracker into the pump; the pump delivers it to the events channel or
  through the router to the mailbox of the query that owns the generation. Callers arm a generation
  before they write a prompt.

  Conventions. A string is its bytes. A Go slice is a list and nil is the empty list where no code
  tells them apart; a map is an association list without duplicate keys. Floats keep the value of
  their literal, unrounded. The clock is an argument, read once per call. The order in which Go walks
  a map is an argument \<open>it\<close>, a permutation of the keys. The texts of \<^verbatim>\<open>encoding/json\<close> errors are one
  constant. A blocking operation that cannot go on is \<open>None\<close> or a step that is not enabled. What the
  operating system, the CLI and callbacks do is an argument.

  The theorems: nothing follows a terminal event of a one-shot run, results carry their text, a
  malformed line inserts one error and nothing else, failed turns are explained
  (\<open>Parse\<close>); a consumer of state changes knows the tracker's state, and that state is
  the one of the tool uses still open in the stream (\<open>Activity\<close>); task stamps survive
  any interleaving (\<open>Task_Backfill\<close>); context events have a window, also one the
  caller asked for (\<open>Context_Tracker\<close>, \<open>Requests\<close>); rings and mailboxes
  keep exactly the last events, and no wait hangs on a dead handle (\<open>Router\<close>);
  control requests are correlated and released at the end, and only withdrawn ones stay unanswered
  (\<open>Control\<close>); messages and requests reach the CLI as single lines that read back to
  what the caller gave (\<open>Content_Blocks\<close>, \<open>Requests\<close>); every option and
  every extra argument reaches the CLI through the argument lists, read back by a specification of
  their shape, and a child process sees the environment the library looks up
  (\<open>Options\<close>, \<open>Environment\<close>); a one-shot or blocking run returns the
  answer to its prompt or the first failure (\<open>Client_Run\<close>, \<open>Blocking\<close>);
  the pool delivers every session's events in order, never sends on its closed channel, and closes
  without help of anybody (\<open>Pool\<close>); readers of a growing file lose and repeat
  nothing, stay inside the run's directory, and the watcher ends (\<open>Workflow_Files\<close>,
  \<open>Workflow_Watch\<close>); every copy of the CLI is reported once and exactly one runs, the
  updater runs only on an install it owns, and a published version comes from the one service of
  the install, for its channel (\<open>Install\<close>, \<open>Update\<close>,
  \<open>Published\<close>); nobody counts as logged in unless the CLI says so, a submission gets
  the first verdict after it, and a pasted code reaches the CLI as it was issued
  (\<open>Auth\<close>, \<open>Login\<close>); and in every reachable interleaving a query's
  mailbox holds answers to that query only (\<open>Session_Steps\<close>). What ends a query is
  said there once by the protocol (\<open>query_over\<close>), apart from the code's own test.

  Arguments that stand for the standard library, not translated: \<open>rfc3339\<close> is \<^verbatim>\<open>time.Parse\<close> of that
  layout, \<open>goq\<close> the quoting of \<^verbatim>\<open>%q\<close>, \<open>fx\<close> the
  formatting of floats, \<open>net\<close> what a GET of a URL answers, and the records \<open>host\<close>,
  \<open>installEnv\<close> and \<open>login_os\<close> what the file system and started processes answer.

  Where the code does not do what its comments say, the theorems state what it does and the text
  before them says so: answers written when a session ends (\<open>Control\<close>), runs without text
  (\<open>Client_Run\<close>), extra \<^verbatim>\<open>--model\<close> arguments (\<open>Options\<close>).

  Not modelled: process creation and the delivery of signals (the operating system's), the drop of
  pump sends once the session's context is cancelled, messages injected with \<^verbatim>\<open>SendMsg\<close> in the
  interleavings of \<open>Session_Steps\<close> (the operation itself is in \<open>Session\<close>), the notifications inside a
  login, which are wake-ups that may come at any time (\<open>Login\<close>), the fixture executors and the capture script
  of Windows, and cmd/authtest, which only logs what the library returns.
\<close>

end
